(* ===== verification/Recon_Prelude.thy ===== *)
theory Recon_Prelude
  imports Main "HOL-Library.Char_ord" "HOL-Library.List_Lexorder" "HOL-Library.Product_Lexorder"
begin

text \<open>
  Shared vocabulary of the development.

  A Python \<open>str\<close> is a list of characters with code points below 256: on that alphabet
  the predicates below (white space, decimal digits, lower case) agree with CPython's
  tables.  A SQLite table is the list of its rows in \<open>rowid\<close> order; the section on
  tables has one function per statement shape of the source (\<open>SELECT\<close>, \<open>UPDATE\<close>,
  \<open>DELETE\<close>, \<open>INSERT OR IGNORE\<close>, \<open>INSERT .. ON CONFLICT DO UPDATE\<close>) and the
  lemmas the components share about them.
\<close>

named_theorems table_simps \<open>equations and membership facts of the table statements\<close>
named_theorems keep_intros \<open>preservation lemmas of component invariants\<close>

text \<open>\<open>Some\<close> of some truth value: the shape a decided \<open>bool option\<close> leaves.\<close>

lemma Ex_bool [simp]: "Ex Not" "\<exists>b::bool. b"
  by (auto intro: exI[of _ False])

section \<open>Python text\<close>

definition code :: "char \<Rightarrow> nat" where
  "code c = of_char c"

definition py_space :: "char \<Rightarrow> bool" where
  "py_space c \<longleftrightarrow> (let n = code c in (9 \<le> n \<and> n \<le> 13) \<or> (28 \<le> n \<and> n \<le> 32) \<or> n = 133 \<or> n = 160)"

definition py_digit :: "char \<Rightarrow> bool" where
  "py_digit c \<longleftrightarrow> 48 \<le> code c \<and> code c \<le> 57"

definition py_alpha :: "char \<Rightarrow> bool" where
  "py_alpha c \<longleftrightarrow> (65 \<le> code c \<and> code c \<le> 90) \<or> (97 \<le> code c \<and> code c \<le> 122)"

definition lower_char :: "char \<Rightarrow> char" where
  "lower_char c =
     (let n = code c
      in if (65 \<le> n \<and> n \<le> 90) \<or> (192 \<le> n \<and> n \<le> 222 \<and> n \<noteq> 215) then char_of (n + 32) else c)"

definition py_lower :: "string \<Rightarrow> string" where
  "py_lower s = map lower_char s"

text \<open>\<open>s.upper()\<close>; the two characters whose upper case leaves the alphabet stay as they are.\<close>

definition upper_char :: "char \<Rightarrow> string" where
  "upper_char c =
     (let n = code c
      in if (97 \<le> n \<and> n \<le> 122) \<or> (224 \<le> n \<and> n \<le> 254 \<and> n \<noteq> 247) then [char_of (n - 32)]
         else if n = 223 then ''SS'' else [c])"

definition py_upper :: "string \<Rightarrow> string" where
  "py_upper s = concat (map upper_char s)"

definition py_lstrip :: "string \<Rightarrow> string" where
  "py_lstrip s = dropWhile py_space s"

definition py_strip :: "string \<Rightarrow> string" where
  "py_strip s = rev (py_lstrip (rev (py_lstrip s)))"

text \<open>\<open>s.isdigit()\<close> is false on the empty string.\<close>

definition py_isdigit :: "string \<Rightarrow> bool" where
  "py_isdigit s \<longleftrightarrow> s \<noteq> [] \<and> list_all py_digit s"

definition startswith :: "string \<Rightarrow> string \<Rightarrow> bool" where
  "startswith s p \<longleftrightarrow> take (length p) s = p"

text \<open>\<open>int(s)\<close> on a string of decimal digits.\<close>

definition dec_val :: "string \<Rightarrow> nat" where
  "dec_val s = foldl (\<lambda>n c. 10 * n + (code c - 48)) 0 s"

fun show_nat :: "nat \<Rightarrow> string" where
  "show_nat n = (if n < 10 then [char_of (48 + n)] else show_nat (n div 10) @ [char_of (48 + n mod 10)])"

declare show_nat.simps [simp del]

text \<open>\<open>str(i)\<close> of an integer.\<close>

definition show_int :: "int \<Rightarrow> string" where
  "show_int i = (if i < 0 then CHR ''-'' # show_nat (nat (- i)) else show_nat (nat i))"

text \<open>\<open>int(s)\<close>: surrounding white space, a sign, and single underscores between digits are
  accepted; \<open>None\<close> is the \<open>ValueError\<close>.\<close>

fun underscored :: "string \<Rightarrow> bool" where
  "underscored [] = False"
| "underscored [c] = py_digit c"
| "underscored (c # d # s) = (py_digit c \<and> (if d = CHR ''_'' then underscored s else underscored (d # s)))"

definition int_of_text :: "string \<Rightarrow> int option" where
  "int_of_text s =
     (let t = py_strip s;
          b = (if t \<noteq> [] \<and> (hd t = CHR ''-'' \<or> hd t = CHR ''+'') then tl t else t);
          n = int (dec_val (filter py_digit b))
      in if underscored b then Some (if hd t = CHR ''-'' then - n else n) else None)"

text \<open>\<open>s.split(c)\<close> for a one-character separator, \<open>s.split(''||'')\<close> for a
  two-character one (leftmost occurrences, as CPython scans), and \<open>sep.join\<close>.\<close>

fun split_on :: "char \<Rightarrow> string \<Rightarrow> string list" where
  "split_on d [] = [[]]"
| "split_on d (c # cs) =
     (if c = d then [] # split_on d cs
      else (case split_on d cs of [] \<Rightarrow> [[c]] | w # ws \<Rightarrow> (c # w) # ws))"

fun split_bars :: "string \<Rightarrow> string list" where
  "split_bars [] = [[]]"
| "split_bars [c] = [[c]]"
| "split_bars (c # d # cs) =
     (if c = CHR ''|'' \<and> d = CHR ''|'' then [] # split_bars cs
      else (case split_bars (d # cs) of [] \<Rightarrow> [[c]] | w # ws \<Rightarrow> (c # w) # ws))"

fun py_join :: "'a list \<Rightarrow> 'a list list \<Rightarrow> 'a list" where
  "py_join sep [] = []"
| "py_join sep [w] = w"
| "py_join sep (w # v # ws) = w @ sep @ py_join sep (v # ws)"

lemma split_on_nonempty [simp]: "split_on d s \<noteq> []"
  by (cases s) (auto split: list.splits)

lemma split_bars_nonempty [simp]: "split_bars s \<noteq> []"
  by (cases s rule: split_bars.cases) (auto split: list.splits)

text \<open>Splitting undoes joining when no part holds the separator; joining always undoes splitting.\<close>

lemma split_on_single: "d \<notin> set w \<Longrightarrow> split_on d w = [w]"
  by (induction w) auto

lemma split_on_append: "d \<notin> set w \<Longrightarrow> split_on d (w @ d # s) = w # split_on d s"
  by (induction w) auto

lemma split_on_join:
  "ws \<noteq> [] \<Longrightarrow> \<forall>w \<in> set ws. d \<notin> set w \<Longrightarrow> split_on d (py_join [d] ws) = ws"
  by (induction "[d]" ws rule: py_join.induct) (auto simp: split_on_single split_on_append)

lemma join_split_on: "py_join [d] (split_on d s) = s"
proof (induction s)
  case (Cons c s)
  obtain w ws where "split_on d s = w # ws" by (cases "split_on d s") auto
  with Cons show ?case by (cases ws) auto
qed simp

lemma split_on_parts: "w \<in> set (split_on d s) \<Longrightarrow> d \<notin> set w"
proof (induction s arbitrary: w)
  case (Cons c s)
  obtain v vs where "split_on d s = v # vs" by (cases "split_on d s") auto
  with Cons show ?case by (auto split: if_splits)
qed simp

lemma length_split_on: "length (split_on d s) = Suc (count_list s d)"
proof (induction s)
  case (Cons c s)
  obtain v vs where "split_on d s = v # vs" by (cases "split_on d s") auto
  with Cons show ?case by auto
qed simp

text \<open>A text without a bar at its end splits independently of what follows the separator.\<close>

lemma split_bars_append:
  "a = [] \<or> last a \<noteq> CHR ''|'' \<Longrightarrow> split_bars (a @ ''||'' @ b) = split_bars a @ split_bars b"
proof (induction a rule: split_bars.induct)
  case (3 c d cs)
  then show ?case
    by (cases "split_bars (d # cs)") (auto split: list.splits if_splits)
qed (auto split: list.splits)

lemma strip_Nil [simp]: "py_strip [] = []"
  by (simp add: py_strip_def py_lstrip_def)

lemma strip_id: "s = [] \<or> \<not> py_space (hd s) \<and> \<not> py_space (last s) \<Longrightarrow> py_strip s = s"
proof (cases "s = []")
  case False
  assume "s = [] \<or> \<not> py_space (hd s) \<and> \<not> py_space (last s)"
  with False have "\<not> py_space (hd s)" and "\<not> py_space (hd (rev s))" by (auto simp: hd_rev)
  then have "dropWhile py_space s = s" and "dropWhile py_space (rev s) = rev s"
    by (simp_all only: dropWhile_eq_self_iff simp_thms)
  then show ?thesis by (simp add: py_strip_def py_lstrip_def)
qed simp

lemma strip_ends:
  assumes "py_strip s \<noteq> []"
  shows "\<not> py_space (hd (py_strip s)) \<and> \<not> py_space (last (py_strip s))"
proof -
  let ?l = "dropWhile py_space s" and ?r = "dropWhile py_space (rev (dropWhile py_space s))"
  from assms have r: "?r \<noteq> []" by (simp add: py_strip_def py_lstrip_def)
  then have l: "?l \<noteq> []" by (metis dropWhile.simps(1) rev.simps(1))
  have "rev ?l = takeWhile py_space (rev ?l) @ ?r" by (simp only: takeWhile_dropWhile_id)
  then have "last (rev ?l) = last ?r" using r by (metis last_appendR)
  with l have "last ?r = hd ?l" by (simp add: last_rev)
  moreover have "\<not> py_space (hd ?l)" using l by (rule hd_dropWhile)
  moreover have "\<not> py_space (hd ?r)" using r by (rule hd_dropWhile)
  ultimately show ?thesis using r by (simp add: py_strip_def py_lstrip_def hd_rev last_rev)
qed

lemma strip_idem [simp]: "py_strip (py_strip s) = py_strip s"
  using strip_ends strip_id by blast

section \<open>Decimal numerals\<close>

lemma Nil_less_iff [simp]: "([] :: 'a::order list) < xs \<longleftrightarrow> xs \<noteq> []"
  by (cases xs) auto

lemma code_char_of [simp]: "n < 256 \<Longrightarrow> code (char_of n) = n"
  by (simp add: code_def)

lemma char_of_code [simp]: "char_of (code c) = c"
  by (simp add: code_def)

lemma code_zero: "code c = 48 \<longleftrightarrow> c = CHR ''0''"
proof -
  have "code CHR ''0'' = 48" by (simp add: code_def)
  then show ?thesis by (metis char_of_code)
qed

lemma dec_val_Nil [simp]: "dec_val [] = 0"
  by (simp add: dec_val_def)

lemma dec_val_snoc [simp]: "dec_val (s @ [c]) = 10 * dec_val s + (code c - 48)"
  by (simp add: dec_val_def)

lemma dec_val_show [simp]: "dec_val (show_nat n) = n"
proof (induction n rule: show_nat.induct)
  case (1 n)
  show ?case
  proof (cases "n < 10")
    case True
    then show ?thesis by (subst show_nat.simps) (simp add: dec_val_def)
  next
    case False
    with 1 show ?thesis by (subst show_nat.simps) (simp add: less_imp_diff_less)
  qed
qed

lemma show_nat_digits: "py_isdigit (show_nat n)"
proof (induction n rule: show_nat.induct)
  case (1 n)
  then show ?case
    by (subst show_nat.simps) (auto simp: py_isdigit_def py_digit_def)
qed

text \<open>A numeral is canonical when it has no redundant zero in front.\<close>

definition canonical :: "string \<Rightarrow> bool" where
  "canonical s \<longleftrightarrow> py_isdigit s \<and> \<not> (length s > 1 \<and> startswith s ''0'')"

lemma canonical_butlast: "canonical (s @ [c]) \<Longrightarrow> s \<noteq> [] \<Longrightarrow> canonical s"
  by (cases s) (auto simp: canonical_def py_isdigit_def startswith_def)

lemma canonical_pos: "canonical (s @ [c]) \<Longrightarrow> s \<noteq> [] \<Longrightarrow> dec_val s \<noteq> 0"
proof (induction s arbitrary: c rule: rev_induct)
  case (snoc d s)
  have d: "py_digit d" using snoc.prems(1) by (auto simp: canonical_def py_isdigit_def)
  show ?case
  proof (cases "s = []")
    case True
    with snoc.prems(1) have "d \<noteq> CHR ''0''" by (auto simp: canonical_def startswith_def)
    then have "code d \<noteq> 48" by (simp add: code_zero)
    with True d show ?thesis by (simp add: dec_val_def py_digit_def)
  next
    case False
    with snoc.IH[OF canonical_butlast[OF snoc.prems(1)]] show ?thesis by simp
  qed
qed simp

lemma show_dec_val: "canonical s \<Longrightarrow> show_nat (dec_val s) = s"
proof (induction s rule: rev_induct)
  case (snoc c s)
  then have c: "48 \<le> code c" "code c \<le> 57" by (auto simp: canonical_def py_isdigit_def py_digit_def)
  then obtain k where k: "code c = 48 + k" "k < 10" by (auto simp: le_iff_add)
  then have ck: "char_of (48 + k) = c" by (metis char_of_code)
  show ?case
  proof (cases "s = []")
    case True
    with k ck show ?thesis by (subst show_nat.simps) (simp add: dec_val_def)
  next
    case False
    with snoc.prems have "canonical s" "dec_val s \<noteq> 0"
      using canonical_butlast canonical_pos by blast+
    with k ck snoc.IH show ?thesis by (subst show_nat.simps) simp
  qed
qed (simp add: canonical_def py_isdigit_def)

lemma dec_val_inj: "canonical s \<Longrightarrow> canonical t \<Longrightarrow> dec_val s = dec_val t \<longleftrightarrow> s = t"
  by (metis show_dec_val)

section \<open>Three-valued comparison\<close>

text \<open>The source compares with \<open>-1\<close>, \<open>0\<close> and \<open>1\<close>; \<open>cmp_of\<close> is that
  result for a linear order.\<close>

definition cmp_of :: "'a::linorder \<Rightarrow> 'a \<Rightarrow> int" where
  "cmp_of x y = (if x < y then -1 else if y < x then 1 else 0)"

lemma cmp_of_simps [simp]:
  "cmp_of x x = 0"
  "cmp_of x y = 0 \<longleftrightarrow> x = y"
  "cmp_of x y < 0 \<longleftrightarrow> x < y"
  "0 < cmp_of x y \<longleftrightarrow> y < x"
  "cmp_of x y \<le> 0 \<longleftrightarrow> x \<le> y"
  "0 \<le> cmp_of x y \<longleftrightarrow> y \<le> x"
  by (auto simp: cmp_of_def)

lemma cmp_of_swap: "cmp_of y x = - cmp_of x y"
  by (auto simp: cmp_of_def)

lemma cmp_of_range: "cmp_of x y \<in> {-1, 0, 1}"
  by (auto simp: cmp_of_def)

lemma cmp_of_Pair: "cmp_of (a, b) (c, d) = (if a = c then cmp_of b d else cmp_of a c)"
  by (auto simp: cmp_of_def)

section \<open>Folds\<close>

text \<open>A fold whose steps keep a component keeps it.\<close>

lemma foldl_keep: "(\<And>d x. f (g d x) = f d) \<Longrightarrow> f (foldl g d xs) = f d"
  by (induction xs arbitrary: d) simp_all

end
