(* ===== verification/Py_Regex.thy ===== *)
theory Py_Regex
  imports Recon_Prelude
begin

text \<open>
  The fragment of Python's \<open>re\<close> the source uses: character classes, sequence, ordered
  alternation, greedy bounded repetition and numbered groups.  The matcher enumerates all
  ways to match in the order in which CPython's backtracking tries them, so the first
  result is the one \<open>re\<close> returns.  \<open>re.I\<close> is written into the classes.
  The anchors of the source's patterns are redundant under \<open>fullmatch\<close> and are not
  part of the terms.
\<close>

datatype rx =
    Cls "char \<Rightarrow> bool"
  | Eps
  | Seq rx rx
  | Alt rx rx
  | Rep nat "nat option" rx
  | Grp nat rx

type_synonym caps = "(nat \<times> string) list"

definition dec_bound :: "nat option \<Rightarrow> nat option" where
  "dec_bound n = (case n of None \<Rightarrow> None | Some k \<Rightarrow> Some (k - 1))"

text \<open>Greedy repetition: another round first, then stopping.  A round that consumes
  nothing is not repeated, which is how CPython leaves empty loops.\<close>

function rep_match ::
  "(string \<Rightarrow> caps \<Rightarrow> (string \<times> caps) list) \<Rightarrow> nat \<Rightarrow> nat option \<Rightarrow> string \<Rightarrow> caps \<Rightarrow> (string \<times> caps) list"
where
  "rep_match f m n s c =
     (if n = Some 0 then []
      else concat (map (\<lambda>(s', c'). if length s' < length s
                                     then rep_match f (m - 1) (dec_bound n) s' c' else []) (f s c)))
     @ (if m = 0 then [(s, c)] else [])"
  by pat_completeness auto
termination
  by (relation "measure (\<lambda>(f, m, n, s, c). length s)") auto

declare rep_match.simps [simp del]

fun rx_match :: "rx \<Rightarrow> string \<Rightarrow> caps \<Rightarrow> (string \<times> caps) list" where
  "rx_match (Cls p) s c = (case s of [] \<Rightarrow> [] | x # xs \<Rightarrow> if p x then [(xs, c)] else [])"
| "rx_match Eps s c = [(s, c)]"
| "rx_match (Seq a b) s c = concat (map (\<lambda>(s', c'). rx_match b s' c') (rx_match a s c))"
| "rx_match (Alt a b) s c = rx_match a s c @ rx_match b s c"
| "rx_match (Rep m n r) s c = rep_match (rx_match r) m n s c"
| "rx_match (Grp i r) s c =
     map (\<lambda>(s', c'). (s', (i, take (length s - length s') s) # c')) (rx_match r s c)"

text \<open>\<open>fullmatch\<close>, \<open>match\<close> (anchored at the start) and \<open>match.group(i)\<close>;
  \<open>group_or\<close> is \<open>str(match.group(i) or '''')\<close>.\<close>

definition rx_fullmatch :: "rx \<Rightarrow> string \<Rightarrow> caps option" where
  "rx_fullmatch r s = map_option snd (List.find (\<lambda>(s', c). s' = []) (rx_match r s []))"

definition rx_prefix :: "rx \<Rightarrow> string \<Rightarrow> (string \<times> caps) option" where
  "rx_prefix r s =
     (case rx_match r s [] of [] \<Rightarrow> None | (s', c) # _ \<Rightarrow> Some (take (length s - length s') s, c))"

definition rx_group :: "caps \<Rightarrow> nat \<Rightarrow> string option" where
  "rx_group c i = map_of c i"

definition group_or :: "caps \<Rightarrow> nat \<Rightarrow> string" where
  "group_or c i = (case map_of c i of None \<Rightarrow> [] | Some w \<Rightarrow> w)"

text \<open>\<open>finditer\<close>: the group 0 texts of the successive non-overlapping matches.  An empty
  match would advance by one character; no pattern of the source matches the empty text.\<close>

function rx_findall :: "rx \<Rightarrow> string \<Rightarrow> string list" where
  "rx_findall r s =
     (case s of [] \<Rightarrow> []
      | x # xs \<Rightarrow>
          (case rx_prefix r s of
             Some (w, _) \<Rightarrow> if w = [] then rx_findall r xs else w # rx_findall r (drop (length w) s)
           | None \<Rightarrow> rx_findall r xs))"
  by pat_completeness auto
termination
  by (relation "measure (\<lambda>(r, s). length s)") auto

declare rx_findall.simps [simp del]

section \<open>Building blocks of the patterns\<close>

definition ci :: "char \<Rightarrow> rx" where
  "ci x = Cls (\<lambda>c. lower_char c = x)"

definition ch :: "char \<Rightarrow> rx" where
  "ch x = Cls (\<lambda>c. c = x)"

definition oneof :: "string \<Rightarrow> rx" where
  "oneof xs = Cls (\<lambda>c. c \<in> set xs)"

definition opt :: "rx \<Rightarrow> rx" where
  "opt r = Rep 0 (Some 1) r"

definition star :: "rx \<Rightarrow> rx" where
  "star r = Rep 0 None r"

definition plus :: "rx \<Rightarrow> rx" where
  "plus r = Rep 1 None r"

fun seqs :: "rx list \<Rightarrow> rx" where
  "seqs [] = Eps"
| "seqs [r] = r"
| "seqs (r # s # rs) = Seq r (seqs (s # rs))"

fun alts :: "rx list \<Rightarrow> rx" where
  "alts [] = Eps"
| "alts [r] = r"
| "alts (r # s # rs) = Alt r (alts (s # rs))"

definition word :: "string \<Rightarrow> rx" where
  "word w = seqs (map ch w)"

definition iword :: "string \<Rightarrow> rx" where
  "iword w = seqs (map ci w)"

definition digits :: rx where
  "digits = plus (Cls py_digit)"

text \<open>\<open>\\d+(?:\\.\\d+)\<close> repeated as the bound says.\<close>

definition dotted :: "nat option \<Rightarrow> rx" where
  "dotted n = Seq digits (Rep 0 n (Seq (ch CHR ''.'') digits))"

section \<open>What a match says about the text\<close>

text \<open>The language of a term, with the repetition count explicit.\<close>

inductive rx_lang :: "rx \<Rightarrow> string \<Rightarrow> bool" and rep_lang :: "rx \<Rightarrow> nat \<Rightarrow> string \<Rightarrow> bool" where
  lang_cls: "p x \<Longrightarrow> rx_lang (Cls p) [x]"
| lang_eps: "rx_lang Eps []"
| lang_seq: "rx_lang a u \<Longrightarrow> rx_lang b v \<Longrightarrow> rx_lang (Seq a b) (u @ v)"
| lang_alt1: "rx_lang a u \<Longrightarrow> rx_lang (Alt a b) u"
| lang_alt2: "rx_lang b u \<Longrightarrow> rx_lang (Alt a b) u"
| lang_rep: "rep_lang r k u \<Longrightarrow> m \<le> k \<Longrightarrow> (\<forall>b. n = Some b \<longrightarrow> k \<le> b) \<Longrightarrow> rx_lang (Rep m n r) u"
| lang_grp: "rx_lang r u \<Longrightarrow> rx_lang (Grp i r) u"
| rep_done: "rep_lang r 0 []"
| rep_more: "rx_lang r u \<Longrightarrow> rep_lang r k v \<Longrightarrow> rep_lang r (Suc k) (u @ v)"

inductive_simps rx_lang_simps:
  "rx_lang (Cls p) u" "rx_lang Eps u" "rx_lang (Seq a b) u" "rx_lang (Alt a b) u"
  "rx_lang (Rep m n r) u" "rx_lang (Grp i r) u"

inductive_simps rep_lang_simps: "rep_lang r 0 u" "rep_lang r (Suc k) u"

lemma rep_match_sound:
  assumes "\<forall>s c s' c'. (s', c') \<in> set (f s c) \<longrightarrow> (\<exists>u. s = u @ s' \<and> rx_lang r u)"
    and "(s', c') \<in> set (rep_match f m n s c)"
  shows "\<exists>u k. s = u @ s' \<and> rep_lang r k u \<and> m \<le> k \<and> (\<forall>b. n = Some b \<longrightarrow> k \<le> b)"
  using assms
proof (induction f m n s c arbitrary: s' c' rule: rep_match.induct)
  case (1 f m n s c)
  from "1.prems"(2) consider
      (stop) "m = 0" "s' = s"
    | (go) t d where "n \<noteq> Some 0" "(t, d) \<in> set (f s c)" "length t < length s"
        "(s', c') \<in> set (rep_match f (m - 1) (dec_bound n) t d)"
    by (subst (asm) rep_match.simps) (auto split: if_splits)
  then show ?case
  proof cases
    case stop
    then show ?thesis by (intro exI[of _ "[]"] exI[of _ 0]) (auto intro: rep_done)
  next
    case go
    from go(2) obtain u where u: "s = u @ t" "rx_lang r u" using "1.prems"(1) by blast
    from "1.IH"[OF go(1,2) refl go(3) "1.prems"(1) go(4)] obtain v k where
      v: "t = v @ s'" "rep_lang r k v" "m - 1 \<le> k" "\<forall>b. dec_bound n = Some b \<longrightarrow> k \<le> b" by blast
    have "\<forall>b. n = Some b \<longrightarrow> Suc k \<le> b"
      using v(4) go(1) by (auto simp: dec_bound_def split: option.splits)
    with u v show ?thesis
      by (intro exI[of _ "u @ v"] exI[of _ "Suc k"]) (auto intro: rep_more)
  qed
qed

lemma rx_match_sound: "(s', c') \<in> set (rx_match r s c) \<Longrightarrow> \<exists>u. s = u @ s' \<and> rx_lang r u"
proof (induction r arbitrary: s c s' c')
  case (Seq a b)
  then show ?case by (fastforce simp: rx_lang_simps)
next
  case (Rep m n r)
  have "\<forall>s c s' c'. (s', c') \<in> set (rx_match r s c) \<longrightarrow> (\<exists>u. s = u @ s' \<and> rx_lang r u)"
    using Rep.IH by blast
  from rep_match_sound[OF this] Rep.prems show ?case
    by (fastforce intro: lang_rep)
next
  case (Alt a b)
  then show ?case by (auto simp: rx_lang_simps) (blast+)
next
  case (Grp i r)
  then show ?case by (auto simp: rx_lang_simps)
qed (auto split: list.splits if_splits intro: rx_lang_rep_lang.intros)

lemma rx_fullmatch_lang: "rx_fullmatch r s = Some c \<Longrightarrow> rx_lang r s"
  by (auto simp: rx_fullmatch_def find_Some_iff dest!: nth_mem rx_match_sound)

section \<open>Every text of the language is matched\<close>

text \<open>A repetition is complete when its body never matches the empty text, which holds for
  every pattern of the source.\<close>

fun nullable :: "rx \<Rightarrow> bool" where
  "nullable (Cls p) = False"
| "nullable Eps = True"
| "nullable (Seq a b) = (nullable a \<and> nullable b)"
| "nullable (Alt a b) = (nullable a \<or> nullable b)"
| "nullable (Rep m n r) = (m = 0 \<or> nullable r)"
| "nullable (Grp i r) = nullable r"

fun productive :: "rx \<Rightarrow> bool" where
  "productive (Seq a b) = (productive a \<and> productive b)"
| "productive (Alt a b) = (productive a \<and> productive b)"
| "productive (Rep m n r) = (productive r \<and> \<not> nullable r)"
| "productive (Grp i r) = productive r"
| "productive _ = True"

lemma nullable_lang:
  "rx_lang r u \<Longrightarrow> u = [] \<Longrightarrow> nullable r"
  "rep_lang r k u \<Longrightarrow> u = [] \<Longrightarrow> k = 0 \<or> nullable r"
  by (induction r u and r k u rule: rx_lang_rep_lang.inducts) auto

lemma rx_match_complete_aux:
  "rx_lang r u \<Longrightarrow> productive r \<Longrightarrow> \<exists>c'. (s', c') \<in> set (rx_match r (u @ s') c)"
  "rep_lang r k u \<Longrightarrow> productive r \<Longrightarrow> \<not> nullable r \<Longrightarrow> m \<le> k \<Longrightarrow> (\<forall>b. n = Some b \<longrightarrow> k \<le> b) \<Longrightarrow>
     \<exists>c'. (s', c') \<in> set (rep_match (rx_match r) m n (u @ s') c)"
proof (induction r u and r k u arbitrary: s' c and m n s' c rule: rx_lang_rep_lang.inducts)
  case (lang_seq a u b v)
  then obtain c1 c2 where "(v @ s', c1) \<in> set (rx_match a (u @ v @ s') c)"
    "(s', c2) \<in> set (rx_match b (v @ s') c1)" by fastforce
  then show ?case by force
next
  case (lang_grp r u i)
  then obtain c1 where "(s', c1) \<in> set (rx_match r (u @ s') c)" by fastforce
  then show ?case by force
next
  case (rep_done r)
  then show ?case by (subst rep_match.simps) auto
next
  case (rep_more r u k v)
  then have ne: "u \<noteq> []" using nullable_lang(1) by blast
  from rep_more.IH(1)[OF rep_more.prems(1)] obtain c1
    where c1: "(v @ s', c1) \<in> set (rx_match r (u @ v @ s') c)" by blast
  have "m - 1 \<le> k" "\<forall>b. dec_bound n = Some b \<longrightarrow> k \<le> b" "n \<noteq> Some 0"
    using rep_more.prems(3,4) by (auto simp: dec_bound_def split: option.splits)
  from rep_more.IH(2)[OF rep_more.prems(1,2) this(1,2)] obtain c2
    where "(s', c2) \<in> set (rep_match (rx_match r) (m - 1) (dec_bound n) (v @ s') c1)" by blast
  with c1 ne \<open>n \<noteq> Some 0\<close> show ?case
    by (subst rep_match.simps) (fastforce intro!: bexI[of _ "(v @ s', c1)"])
qed (fastforce simp: rx_lang_simps)+

lemma rx_fullmatch_iff: "productive r \<Longrightarrow> rx_fullmatch r s \<noteq> None \<longleftrightarrow> rx_lang r s"
proof
  assume p: "productive r" and "rx_lang r s"
  from rx_match_complete_aux(1)[OF this(2) p, of "[]" "[]"] obtain c'
    where "([], c') \<in> set (rx_match r s [])" by auto
  then show "rx_fullmatch r s \<noteq> None"
    by (auto simp: rx_fullmatch_def find_None_iff)
qed (auto dest: rx_fullmatch_lang)

text \<open>Every character of a match satisfies what the classes of the pattern imply.\<close>

fun alphabet :: "(char \<Rightarrow> bool) \<Rightarrow> rx \<Rightarrow> bool" where
  "alphabet q (Cls p) = (\<forall>c. p c \<longrightarrow> q c)"
| "alphabet q Eps = True"
| "alphabet q (Seq a b) = (alphabet q a \<and> alphabet q b)"
| "alphabet q (Alt a b) = (alphabet q a \<and> alphabet q b)"
| "alphabet q (Rep m n r) = alphabet q r"
| "alphabet q (Grp i r) = alphabet q r"

lemma lang_alphabet:
  "rx_lang r u \<Longrightarrow> alphabet q r \<Longrightarrow> list_all q u"
  "rep_lang r k u \<Longrightarrow> alphabet q r \<Longrightarrow> list_all q u"
  by (induction r u and r k u rule: rx_lang_rep_lang.inducts) auto

end
