(* ===== verification/Version_Order.thy ===== *)
theory Version_Order
  imports Py_Regex
begin

text \<open>
  \<open>app/dependency_version_ranges.py\<close>, first part: ecosystem names, the parsers of
  observed versions (\<open>_release_tuple\<close>, \<open>_strict_semver\<close>) and the two comparisons.
  The locale \<open>comparison_law\<close> is the contract every caller of a comparison relies on; it is
  interpreted on \<open>_compare_release\<close> and on \<open>_compare_semver\<close>.
\<close>

type_synonym release = "nat list"
type_synonym semver = "nat list \<times> string list option"

section \<open>Ecosystems\<close>

definition SEMVER_ECOSYSTEMS :: "string list" where
  "SEMVER_ECOSYSTEMS =
     [''actions'', ''composer'', ''erlang'', ''go'', ''npm'', ''nuget'', ''pub'', ''rust'', ''swift'']"

definition PEP440_ECOSYSTEMS :: "string list" where
  "PEP440_ECOSYSTEMS = [''pip'']"

definition RUBYGEMS_ECOSYSTEMS :: "string list" where
  "RUBYGEMS_ECOSYSTEMS = [''rubygems'']"

definition MAVEN_ECOSYSTEMS :: "string list" where
  "MAVEN_ECOSYSTEMS = [''maven'']"

definition normalize_ecosystem :: "string \<Rightarrow> string" where
  "normalize_ecosystem value = py_lower (py_strip value)"

section \<open>Releases\<close>

text \<open>\<open>_RELEASE_RE\<close>: \<open>v?(\\d+(?:\\.\\d+){0,7})\<close>, case-insensitive.\<close>

definition release_re :: rx where
  "release_re = Seq (opt (ci CHR ''v'')) (Grp 1 (dotted (Some 7)))"

text \<open>\<open>tuple(int(part) for part in text.split('.'))\<close>.\<close>

definition int_parts :: "string \<Rightarrow> release" where
  "int_parts text = map dec_val (split_on CHR ''.'' text)"

definition release_tuple :: "string \<Rightarrow> release option" where
  "release_tuple value =
     (case rx_fullmatch release_re (py_strip value) of
        None \<Rightarrow> None
      | Some m \<Rightarrow> Some (int_parts (group_or m 1)))"

text \<open>\<open>release + (0,) * (width - len(release))\<close>: a negative count repeats nothing.\<close>

definition pad_release :: "nat \<Rightarrow> release \<Rightarrow> release" where
  "pad_release width release = release @ replicate (width - length release) 0"

definition compare_release :: "release \<Rightarrow> release \<Rightarrow> int" where
  "compare_release left right =
     (let width = max (length left) (length right);
          padded_left = pad_release width left;
          padded_right = pad_release width right
      in if padded_left < padded_right then -1
         else if padded_left > padded_right then 1
         else 0)"

section \<open>Strict SemVer\<close>

definition semver_ident :: rx where
  "semver_ident = plus (Cls (\<lambda>c. py_digit c \<or> py_alpha c \<or> c = CHR ''.'' \<or> c = CHR ''-''))"

definition semver_re :: rx where
  "semver_re = seqs
     [opt (ch CHR ''v''), Grp 1 digits, ch CHR ''.'', Grp 2 digits, ch CHR ''.'', Grp 3 digits,
      opt (Seq (ch CHR ''-'') (Grp 4 semver_ident)),
      opt (Seq (ch CHR ''+'') (Grp 5 semver_ident))]"

definition leading_zero :: "string \<Rightarrow> bool" where
  "leading_zero item \<longleftrightarrow> length item > 1 \<and> startswith item ''0''"

definition strict_semver :: "string \<Rightarrow> semver option" where
  "strict_semver value =
     (case rx_fullmatch semver_re (py_strip value) of
        None \<Rightarrow> None
      | Some m \<Rightarrow>
          (let core = map (group_or m) [1, 2, 3] in
           if list_ex leading_zero core then None
           else
             (let release = map dec_val core;
                  raw_prerelease = group_or m 4;
                  prerelease = split_on CHR ''.'' raw_prerelease;
                  raw_build = group_or m 5
              in if raw_prerelease \<noteq> [] \<and>
                    (prerelease = [] \<or> list_ex (\<lambda>item. item = []) prerelease
                     \<or> list_ex (\<lambda>item. py_isdigit item \<and> leading_zero item) prerelease)
                 then None
                 else if raw_build \<noteq> [] \<and> list_ex (\<lambda>item. item = []) (split_on CHR ''.'' raw_build)
                 then None
                 else Some (release, if raw_prerelease \<noteq> [] then Some prerelease else None))))"

text \<open>The \<open>for\<close> loop over \<open>zip(left, right)\<close>; \<open>None\<close> is falling off its end.\<close>

fun compare_zip :: "(string \<times> string) list \<Rightarrow> int option" where
  "compare_zip [] = None"
| "compare_zip ((left_item, right_item) # rest) =
     (if left_item = right_item then compare_zip rest
      else if py_isdigit left_item \<and> py_isdigit right_item
      then Some (if dec_val left_item < dec_val right_item then -1 else 1)
      else if py_isdigit left_item \<noteq> py_isdigit right_item
      then Some (if py_isdigit left_item then -1 else 1)
      else Some (if left_item < right_item then -1 else 1))"

definition compare_semver_identifiers :: "string list option \<Rightarrow> string list option \<Rightarrow> int" where
  "compare_semver_identifiers left right =
     (case (left, right) of
        (None, None) \<Rightarrow> 0
      | (None, Some _) \<Rightarrow> 1
      | (Some _, None) \<Rightarrow> -1
      | (Some ls, Some rs) \<Rightarrow>
          (case compare_zip (zip ls rs) of
             Some r \<Rightarrow> r
           | None \<Rightarrow> if length ls = length rs then 0 else if length ls < length rs then -1 else 1))"

definition compare_semver :: "semver \<Rightarrow> semver \<Rightarrow> int" where
  "compare_semver left right =
     (let release_cmp = compare_release (fst left) (fst right)
      in if release_cmp \<noteq> 0 then release_cmp
         else compare_semver_identifiers (snd left) (snd right))"

definition observed_version_supported :: "string \<Rightarrow> bool" where
  "observed_version_supported value =
     (let text = py_strip value in release_tuple text \<noteq> None \<or> strict_semver text \<noteq> None)"

definition observed_prerelease :: "string \<Rightarrow> string \<Rightarrow> (release \<times> string list) option" where
  "observed_prerelease value ecosystem =
     (if normalize_ecosystem ecosystem \<notin> set SEMVER_ECOSYSTEMS then None
      else (case strict_semver value of
              None \<Rightarrow> None
            | Some (release, None) \<Rightarrow> None
            | Some (release, Some pre) \<Rightarrow> Some (release, pre)))"

section \<open>The contract of a comparison\<close>

locale comparison_law =
  fixes cmp :: "'a \<Rightarrow> 'a \<Rightarrow> int" and ok :: "'a \<Rightarrow> bool"
  assumes cmp_range: "ok x \<Longrightarrow> ok y \<Longrightarrow> cmp x y \<in> {-1, 0, 1}"
    and cmp_refl: "ok x \<Longrightarrow> cmp x x = 0"
    and cmp_swap: "ok x \<Longrightarrow> ok y \<Longrightarrow> cmp y x = - cmp x y"
    and cmp_trans: "ok x \<Longrightarrow> ok y \<Longrightarrow> ok z \<Longrightarrow> cmp x y \<le> 0 \<Longrightarrow> cmp y z \<le> 0 \<Longrightarrow> cmp x z \<le> 0"
begin

lemma le_less_trans: "ok x \<Longrightarrow> ok y \<Longrightarrow> ok z \<Longrightarrow> cmp x y \<le> 0 \<Longrightarrow> cmp y z < 0 \<Longrightarrow> cmp x z < 0"
  using cmp_trans[of x y z] cmp_trans[of z x y] cmp_swap[of x z] cmp_swap[of y z] cmp_range[of x z] by auto

lemma less_le_trans: "ok x \<Longrightarrow> ok y \<Longrightarrow> ok z \<Longrightarrow> cmp x y < 0 \<Longrightarrow> cmp y z \<le> 0 \<Longrightarrow> cmp x z < 0"
  using cmp_trans[of x y z] cmp_trans[of y z x] cmp_swap[of x z] cmp_swap[of x y] cmp_range[of x z] by auto

lemma eq_cong_left:
  assumes "ok x" "ok y" "ok z" "cmp x y = 0"
  shows "cmp x z = cmp y z"
proof -
  have "cmp y x = 0" using assms cmp_swap[of x y] by simp
  have "cmp x z \<le> 0 \<longleftrightarrow> cmp y z \<le> 0"
    using assms \<open>cmp y x = 0\<close> cmp_trans[of x y z] cmp_trans[of y x z] by auto
  moreover have "cmp z x \<le> 0 \<longleftrightarrow> cmp z y \<le> 0"
    using assms \<open>cmp y x = 0\<close> cmp_trans[of z x y] cmp_trans[of z y x] by auto
  ultimately show ?thesis
    using assms cmp_range[of x z] cmp_range[of y z] cmp_swap[of x z] cmp_swap[of y z] by auto
qed

lemma eq_cong_right: "ok x \<Longrightarrow> ok y \<Longrightarrow> ok z \<Longrightarrow> cmp y z = 0 \<Longrightarrow> cmp x y = cmp x z"
  using eq_cong_left[of y z x] cmp_swap[of y x] cmp_swap[of z x] by simp

text \<open>Half-open intervals are convex, the shape every range branch has.\<close>

lemma interval_convex:
  assumes "ok lo" "ok hi" "ok x" "ok y" "ok z"
    and "0 \<le> cmp x lo" "cmp z hi < 0" "cmp x y \<le> 0" "cmp y z \<le> 0"
  shows "0 \<le> cmp y lo \<and> cmp y hi < 0"
proof -
  have "cmp lo x \<le> 0" using assms cmp_swap[of x lo] by simp
  then have "cmp lo y \<le> 0" using assms cmp_trans[of lo x y] by blast
  then show ?thesis using assms cmp_swap[of lo y] le_less_trans[of y z hi] by simp
qed

end

text \<open>A comparison computed from keys in a linear order satisfies the contract.\<close>

locale keyed_comparison =
  fixes cmp :: "'a \<Rightarrow> 'a \<Rightarrow> int" and ok :: "'a \<Rightarrow> bool" and key :: "'a \<Rightarrow> 'k::linorder"
  assumes cmp_key: "ok x \<Longrightarrow> ok y \<Longrightarrow> cmp x y = cmp_of (key x) (key y)"
begin

lemma key_eq: "ok x \<Longrightarrow> ok y \<Longrightarrow> cmp x y = 0 \<longleftrightarrow> key x = key y"
  by (simp add: cmp_key)

end

sublocale keyed_comparison \<subseteq> comparison_law cmp ok
proof
  fix x y z
  assume ok: "ok x" "ok y"
  then show "cmp x y \<in> {-1, 0, 1}" by (simp only: cmp_key cmp_of_range)
  from ok show "cmp y x = - cmp x y" by (simp only: cmp_key) (rule cmp_of_swap)
  assume "ok z" "cmp x y \<le> 0" "cmp y z \<le> 0"
  with ok show "cmp x z \<le> 0" by (simp add: cmp_key)
qed (simp add: cmp_key)

section \<open>Releases are ordered by their significant components\<close>

fun significant :: "release \<Rightarrow> release" where
  "significant [] = []"
| "significant (x # xs) = (let t = significant xs in if x = 0 \<and> t = [] then [] else x # t)"

lemma pad_release_simps [simp]:
  "pad_release (Suc w) (x # xs) = x # pad_release w xs"
  "pad_release (Suc w) [] = 0 # pad_release w []"
  "pad_release 0 xs = xs"
  by (simp_all add: pad_release_def)

lemma compare_release_simps [simp]:
  "compare_release [] [] = 0"
  "compare_release (x # xs) (y # ys) = (if x < y then -1 else if y < x then 1 else compare_release xs ys)"
  "compare_release [] (y # ys) = (if 0 < y then -1 else compare_release [] ys)"
  "compare_release (x # xs) [] = (if 0 < x then 1 else compare_release xs [])"
  by (auto simp: compare_release_def Let_def)

lemma compare_release_Nil:
  "compare_release xs [] = cmp_of (significant xs) []"
  "compare_release [] xs = cmp_of [] (significant xs)"
  by (induction xs) (auto simp: cmp_of_def Let_def split: if_splits)

lemma compare_release_key: "compare_release a b = cmp_of (significant a) (significant b)"
proof (induction a b rule: list_induct2')
  case (4 x xs y ys)
  then show ?case by (auto simp: cmp_of_def Let_def split: if_splits)
qed (simp_all only: compare_release_Nil significant.simps(1))

interpretation release: keyed_comparison compare_release "\<lambda>_. True" significant
  by unfold_locales (rule compare_release_key)

lemma compare_release_same_length:
  "length a = length b \<Longrightarrow> compare_release a b = cmp_of a b"
  by (simp add: compare_release_def pad_release_def cmp_of_def)

section \<open>Strict versions are totally ordered\<close>

text \<open>What \<open>_strict_semver\<close> guarantees of the identifiers it returns; without it the
  comparison is not antisymmetric (\<open>1\<close> and \<open>01\<close> would each be later).\<close>

definition ident_ok :: "string \<Rightarrow> bool" where
  "ident_ok item \<longleftrightarrow> \<not> (py_isdigit item \<and> leading_zero item)"

definition semver_ok :: "semver \<Rightarrow> bool" where
  "semver_ok v \<longleftrightarrow>
     length (fst v) = 3 \<and> (case snd v of None \<Rightarrow> True | Some items \<Rightarrow> items \<noteq> [] \<and> list_all ident_ok items)"

definition ident_key :: "string \<Rightarrow> nat \<times> nat \<times> string" where
  "ident_key item = (if py_isdigit item then (0, dec_val item, []) else (1, 0, item))"

definition pre_key :: "string list option \<Rightarrow> nat \<times> (nat \<times> nat \<times> string) list" where
  "pre_key p = (case p of None \<Rightarrow> (1, []) | Some items \<Rightarrow> (0, map ident_key items))"

definition semver_key :: "semver \<Rightarrow> release \<times> nat \<times> (nat \<times> nat \<times> string) list" where
  "semver_key v = (fst v, pre_key (snd v))"

lemma ident_key_inj: "ident_ok a \<Longrightarrow> ident_ok b \<Longrightarrow> ident_key a = ident_key b \<longleftrightarrow> a = b"
  using dec_val_inj by (auto simp: ident_key_def ident_ok_def canonical_def leading_zero_def)

lemma compare_zip_key:
  assumes "list_all ident_ok ls" "list_all ident_ok rs"
  shows "(case compare_zip (zip ls rs) of Some r \<Rightarrow> r
          | None \<Rightarrow> if length ls = length rs then 0 else if length ls < length rs then -1 else 1)
         = cmp_of (map ident_key ls) (map ident_key rs)"
  using assms
proof (induction ls rs rule: list_induct2')
  case (4 l ls r rs)
  have "ident_key l = ident_key r \<longleftrightarrow> l = r" using 4 ident_key_inj by simp
  with 4 show ?case
    by (cases "l = r") (auto simp: cmp_of_def ident_key_def split: option.splits if_splits)
qed (auto simp: cmp_of_def)

lemma compare_semver_key:
  assumes "semver_ok v" "semver_ok w"
  shows "compare_semver v w = cmp_of (semver_key v) (semver_key w)"
proof -
  obtain a p b q where v: "v = (a, p)" and w: "w = (b, q)" by (cases v; cases w)
  with assms have len: "length a = length b" by (simp add: semver_ok_def)
  have "compare_semver_identifiers p q = cmp_of (pre_key p) (pre_key q)"
  proof (cases p; cases q)
    fix ls rs
    assume pq: "p = Some ls" "q = Some rs"
    with assms v w have "list_all ident_ok ls" "list_all ident_ok rs" by (simp_all add: semver_ok_def)
    from compare_zip_key[OF this] pq show ?thesis
      by (simp add: compare_semver_identifiers_def pre_key_def cmp_of_Pair)
  qed (simp_all add: compare_semver_identifiers_def pre_key_def cmp_of_def)
  then show ?thesis
    using v w by (simp add: compare_semver_def compare_release_same_length[OF len] semver_key_def
                       cmp_of_Pair Let_def)
qed

interpretation semver: keyed_comparison compare_semver semver_ok semver_key
  by unfold_locales (rule compare_semver_key)

lemma strict_semver_ok: "strict_semver s = Some v \<Longrightarrow> semver_ok v"
  by (auto simp: strict_semver_def Let_def semver_ok_def ident_ok_def list_ex_iff list_all_iff
           split: option.splits if_splits)

lemma semver_key_inj:
  "semver_ok v \<Longrightarrow> semver_ok w \<Longrightarrow> semver_key v = semver_key w \<longleftrightarrow> v = w"
proof -
  have "map ident_key ls = map ident_key rs \<longleftrightarrow> ls = rs"
    if "list_all ident_ok ls" "list_all ident_ok rs" for ls rs
    using that by (induction ls rs rule: list_induct2') (auto simp: ident_key_inj)
  then show "semver_ok v \<Longrightarrow> semver_ok w \<Longrightarrow> ?thesis"
    by (cases v; cases w) (auto simp: semver_key_def pre_key_def semver_ok_def split: option.splits)
qed

end
