(* ===== verification/Version_Boundaries.thy ===== *)
theory Version_Boundaries
  imports Version_Order
begin

text \<open>
  \<open>app/dependency_version_ranges.py\<close>, second part: the boundary parsers of the advisory
  ecosystems and the comparison of an observed version with a boundary text.  A parsed
  boundary is a release and its position relative to the stable release of the same
  number (\<open>-1\<close> before, \<open>0\<close> at, \<open>1\<close> after).
\<close>

type_synonym boundary = "release \<times> int"

section \<open>Patterns\<close>

definition label_char :: rx where
  "label_char = Cls (\<lambda>c. py_digit c \<or> py_alpha c \<or> c = CHR ''.'' \<or> c = CHR ''-'')"

definition sep_opt :: rx where
  "sep_opt = opt (oneof ''-._'')"

definition no_newline :: rx where
  "no_newline = Cls (\<lambda>c. code c \<noteq> 10)"

definition label_re :: "nat \<Rightarrow> rx" where
  "label_re n = seqs
     [opt (ci CHR ''v''), Grp 1 (dotted (Some n)),
      Seq sep_opt (Grp 2 (Seq (Cls py_alpha) (star label_char))),
      opt (Seq (ch CHR ''+'') (Grp 3 (plus label_char)))]"

definition loose_semver_label_re :: rx where
  "loose_semver_label_re = label_re 2"

definition composer_label_re :: rx where
  "composer_label_re = label_re 3"

definition pep440_implicit_post_re :: rx where
  "pep440_implicit_post_re = seqs
     [opt (ci CHR ''v''), Grp 1 (dotted None), ch CHR ''-'', Grp 2 (dotted None)]"

definition pep440_p_post_re :: rx where
  "pep440_p_post_re = seqs
     [opt (ci CHR ''v''), Grp 1 (dotted None), Seq sep_opt (ci CHR ''p''), Grp 2 (dotted None)]"

definition local_char :: rx where
  "local_char = Cls (\<lambda>c. py_digit c \<or> py_alpha c)"

definition pep440_re :: rx where
  "pep440_re = seqs
     [opt (ci CHR ''v''),
      opt (Seq (Grp 1 digits) (ch CHR ''!'')),
      Grp 2 (dotted None),
      opt (seqs [sep_opt,
                 Grp 3 (alts (map iword [''a'', ''b'', ''c'', ''rc'', ''alpha'', ''beta'', ''pre'', ''preview''])),
                 sep_opt, Grp 4 (star (Cls py_digit))]),
      opt (seqs [sep_opt, Grp 5 (alts (map iword [''post'', ''rev'', ''r''])),
                 sep_opt, Grp 6 (star (Cls py_digit))]),
      opt (seqs [sep_opt, iword ''dev'', sep_opt, Grp 7 (star (Cls py_digit))]),
      opt (seqs [ch CHR ''+'', plus local_char, star (Seq (oneof ''-_.'') (plus local_char))])]"

definition rubygems_re :: rx where
  "rubygems_re = seqs
     [opt (ci CHR ''v''), Grp 1 (dotted None),
      opt (seqs [sep_opt, Grp 2 (alts (map iword [''pre'', ''alpha'', ''a'', ''beta'', ''b'', ''rc''])),
                 sep_opt, Grp 3 (star (Cls py_digit))])]"

definition rubygems_broad_re :: rx where
  "rubygems_broad_re = seqs
     [opt (ci CHR ''v''), Grp 1 (dotted None),
      Seq (oneof ''._-'') (Grp 2 (seqs [star no_newline, Cls py_alpha, star no_newline]))]"

definition maven_re :: rx where
  "maven_re = seqs
     [opt (ci CHR ''v''), Grp 1 (dotted None), opt (Seq (oneof ''._-'') (Grp 2 (plus no_newline)))]"

text \<open>\<open>^(w1|w2|..)(?:[._-]?\\d.*)?$\<close> on a label.\<close>

definition qualifier_re :: "string list \<Rightarrow> rx" where
  "qualifier_re ws =
     Seq (Grp 1 (alts (map iword ws))) (opt (seqs [sep_opt, Cls py_digit, star no_newline]))"

definition is_label :: "string list \<Rightarrow> string \<Rightarrow> bool" where
  "is_label ws label \<longleftrightarrow> rx_fullmatch (qualifier_re ws) label \<noteq> None"

section \<open>Boundary parsers\<close>

definition semver_boundary :: "string \<Rightarrow> boundary option" where
  "semver_boundary value =
     (let text = py_strip value in
      case rx_fullmatch semver_re text of
        Some m \<Rightarrow>
          Some (map (\<lambda>index. dec_val (group_or m index)) [1, 2, 3], if group_or m 4 \<noteq> [] then -1 else 0)
      | None \<Rightarrow>
          (case rx_fullmatch loose_semver_label_re text of
             None \<Rightarrow> None
           | Some loose \<Rightarrow>
               (let release = pad_release 3 (int_parts (group_or loose 1));
                    label = py_lower (group_or loose 2)
                in if is_label [''alpha'', ''a'', ''beta'', ''b'', ''rc'', ''pre'', ''preview'', ''dev'',
                                ''milestone'', ''m''] label
                   then Some (release, -1)
                   else if is_label [''patch'', ''p'', ''pl''] label then Some (release, 1)
                   else None)))"

definition composer_boundary :: "string \<Rightarrow> boundary option" where
  "composer_boundary value =
     (case rx_fullmatch composer_label_re (py_strip value) of
        None \<Rightarrow> None
      | Some m \<Rightarrow>
          (let release = int_parts (group_or m 1);
               label = py_lower (group_or m 2)
           in if is_label [''alpha'', ''a'', ''beta'', ''b'', ''rc'', ''pre'', ''preview'', ''dev''] label
              then Some (release, -1)
              else if is_label [''patch'', ''p'', ''pl''] label then Some (release, 1)
              else None))"

definition PRE_LABELS :: "(string \<times> string) list" where
  "PRE_LABELS =
     [(''a'', ''a''), (''alpha'', ''a''), (''b'', ''b''), (''beta'', ''b''), (''c'', ''rc''),
      (''rc'', ''rc''), (''pre'', ''rc''), (''preview'', ''rc'')]"

definition pep440_boundary :: "string \<Rightarrow> (nat \<times> release \<times> int) option" where
  "pep440_boundary value =
     (let text = py_strip value in
      case rx_fullmatch pep440_implicit_post_re text of
        Some m \<Rightarrow> Some (0, int_parts (group_or m 1), 1)
      | None \<Rightarrow>
      (case rx_fullmatch pep440_p_post_re text of
        Some m \<Rightarrow> Some (0, int_parts (group_or m 1), 1)
      | None \<Rightarrow>
      (case rx_fullmatch pep440_re text of
        None \<Rightarrow> None
      | Some m \<Rightarrow>
          (let epoch = dec_val (group_or m 1);
               release = int_parts (group_or m 2);
               pre = map_of PRE_LABELS (py_lower (group_or m 3));
               post = py_lower (group_or m 5);
               dev_present = rx_group m 7 \<noteq> None
           in Some (epoch, release,
                if post \<noteq> [] then 1 else if pre \<noteq> None \<or> dev_present then -1 else 0)))))"

definition rubygems_boundary :: "string \<Rightarrow> boundary option" where
  "rubygems_boundary value =
     (let text = py_strip value in
      case rx_fullmatch rubygems_re text of
        Some m \<Rightarrow> Some (int_parts (group_or m 1), if group_or m 2 \<noteq> [] then -1 else 0)
      | None \<Rightarrow>
          (case rx_fullmatch rubygems_broad_re text of
             None \<Rightarrow> None
           | Some broad \<Rightarrow> Some (int_parts (group_or broad 1), -1)))"

definition MAVEN_PRE :: "string list" where
  "MAVEN_PRE = [''alpha'', ''a'', ''beta'', ''b'', ''milestone'', ''m'', ''rc'', ''cr'', ''snapshot'']"

definition MAVEN_EQUAL :: "string list" where
  "MAVEN_EQUAL = [''ga'', ''final'', ''release'']"

definition MAVEN_POST :: "string list" where
  "MAVEN_POST = [''sp'']"

definition maven_boundary :: "string \<Rightarrow> boundary option" where
  "maven_boundary value =
     (case rx_fullmatch maven_re (py_strip value) of
        None \<Rightarrow> None
      | Some m \<Rightarrow>
          (let release = int_parts (group_or m 1);
               qualifier = py_lower (group_or m 2)
           in if qualifier = [] then Some (release, 0)
              else
                (let qualifier_head =
                       (case rx_prefix (Grp 1 (plus (Cls py_alpha))) qualifier of
                          None \<Rightarrow> qualifier
                        | Some (_, h) \<Rightarrow> py_lower (group_or h 1))
                 in Some (release,
                      if qualifier_head \<in> set MAVEN_EQUAL then 0
                      else if qualifier_head \<in> set MAVEN_PRE then -1
                      else if qualifier_head \<in> set MAVEN_POST then 1
                      else 1))))"

section \<open>Comparing an observed version with a boundary\<close>

definition compare_relative :: "release \<Rightarrow> boundary \<Rightarrow> int" where
  "compare_relative observed b =
     (let release_cmp = compare_release observed (fst b)
      in if release_cmp \<noteq> 0 then release_cmp else - snd b)"

definition compare_stable_observed_to_boundary :: "release \<Rightarrow> string \<Rightarrow> string \<Rightarrow> int option" where
  "compare_stable_observed_to_boundary observed boundary_text ecosystem0 =
     (case release_tuple boundary_text of
        Some boundary_release \<Rightarrow> Some (compare_release observed boundary_release)
      | None \<Rightarrow>
     (let ecosystem = normalize_ecosystem ecosystem0 in
      case (if ecosystem = ''composer'' then composer_boundary boundary_text else None) of
        Some parsed \<Rightarrow> Some (compare_relative observed parsed)
      | None \<Rightarrow>
          if ecosystem \<in> set SEMVER_ECOSYSTEMS then
            map_option (compare_relative observed) (semver_boundary boundary_text)
          else if ecosystem \<in> set PEP440_ECOSYSTEMS then
            (case pep440_boundary boundary_text of
               None \<Rightarrow> None
             | Some (epoch, release, relative) \<Rightarrow>
                 if epoch > 0 then Some (-1) else Some (compare_relative observed (release, relative)))
          else if ecosystem \<in> set RUBYGEMS_ECOSYSTEMS then
            map_option (compare_relative observed) (rubygems_boundary boundary_text)
          else if ecosystem \<in> set MAVEN_ECOSYSTEMS then
            map_option (compare_relative observed) (maven_boundary boundary_text)
          else None))"

definition compare_observed_to_boundary :: "string \<Rightarrow> string \<Rightarrow> string \<Rightarrow> int option" where
  "compare_observed_to_boundary observed_text boundary_text ecosystem0 =
     (case release_tuple observed_text of
        Some observed_release \<Rightarrow>
          compare_stable_observed_to_boundary observed_release boundary_text ecosystem0
      | None \<Rightarrow>
     (let ecosystem = normalize_ecosystem ecosystem0 in
      if ecosystem \<notin> set SEMVER_ECOSYSTEMS then None
      else (case strict_semver observed_text of
        None \<Rightarrow> None
      | Some observed_semver \<Rightarrow>
          (case strict_semver boundary_text of
             Some boundary_semver \<Rightarrow> Some (compare_semver observed_semver boundary_semver)
           | None \<Rightarrow>
               (case release_tuple boundary_text of
                  Some boundary_release \<Rightarrow>
                    if length boundary_release \<le> 3
                    then Some (compare_semver observed_semver (pad_release 3 boundary_release, None))
                    else None
                | None \<Rightarrow> None)))))"

definition operator_matches :: "int \<Rightarrow> string \<Rightarrow> bool" where
  "operator_matches comparison operator =
     (if operator \<in> set [[], ''='', ''==''] then comparison = 0
      else if operator = ''!='' then comparison \<noteq> 0
      else if operator = ''<'' then comparison < 0
      else if operator = ''<='' then comparison \<le> 0
      else if operator = ''>'' then comparison > 0
      else if operator = ''>='' then comparison \<ge> 0
      else False)"

definition boundary_supported :: "string \<Rightarrow> string \<Rightarrow> bool" where
  "boundary_supported boundary ecosystem \<longleftrightarrow>
     compare_stable_observed_to_boundary [1, 2, 3] boundary ecosystem \<noteq> None"

section \<open>Facts about boundaries\<close>

text \<open>Whether a boundary is comparable depends on its text and the ecosystem only, so the
  probe release of \<open>_boundary_supported\<close> speaks for every observed release.\<close>

lemma stable_comparable_iff_supported:
  "compare_stable_observed_to_boundary observed boundary ecosystem \<noteq> None
   \<longleftrightarrow> boundary_supported boundary ecosystem"
  by (simp add: boundary_supported_def compare_stable_observed_to_boundary_def Let_def
           split: option.split prod.split)

text \<open>The position of a boundary among the stable releases: every supported boundary other
  than a later epoch compares like a release refined by its relative position.\<close>

lemma stable_boundary_form:
  assumes "boundary_supported boundary ecosystem"
  shows "(\<forall>obs. compare_stable_observed_to_boundary obs boundary ecosystem = Some (-1)) \<or>
         (\<exists>b. \<forall>obs. compare_stable_observed_to_boundary obs boundary ecosystem = Some (compare_relative obs b))"
proof (cases "release_tuple boundary")
  case (Some r)
  then have "\<forall>obs. compare_stable_observed_to_boundary obs boundary ecosystem = Some (compare_relative obs (r, 0))"
    by (simp add: compare_stable_observed_to_boundary_def compare_relative_def Let_def)
  then show ?thesis by blast
next
  case no_release: None
  let ?e = "normalize_ecosystem ecosystem"
  note unfold = compare_stable_observed_to_boundary_def no_release Let_def
  show ?thesis
  proof (cases "if ?e = ''composer'' then composer_boundary boundary else None")
    case (Some p)
    then show ?thesis by (intro disjI2 exI[of _ p]) (simp add: unfold)
  next
    case None
    note unfold = unfold None
    consider "?e \<in> set SEMVER_ECOSYSTEMS"
      | "?e \<notin> set SEMVER_ECOSYSTEMS" "?e \<in> set PEP440_ECOSYSTEMS"
      | "?e \<notin> set SEMVER_ECOSYSTEMS" "?e \<notin> set PEP440_ECOSYSTEMS" "?e \<in> set RUBYGEMS_ECOSYSTEMS"
      | "?e \<notin> set SEMVER_ECOSYSTEMS" "?e \<notin> set PEP440_ECOSYSTEMS" "?e \<notin> set RUBYGEMS_ECOSYSTEMS"
        "?e \<in> set MAVEN_ECOSYSTEMS"
      using assms by (auto simp: boundary_supported_def unfold split: if_splits)
    then show ?thesis
    proof cases
      case 1
      then obtain p where "semver_boundary boundary = Some p"
        using assms by (auto simp: boundary_supported_def unfold simp del: split_paired_Ex)
      with 1 show ?thesis by (intro disjI2 exI[of _ p]) (simp add: unfold)
    next
      case 2
      then obtain k r i where "pep440_boundary boundary = Some (k, r, i)"
        using assms by (auto simp: boundary_supported_def unfold split: option.splits)
      with 2 show ?thesis
        by (cases "k > 0") (auto simp: unfold intro: exI[of _ r] exI[of _ i])
    next
      case 3
      then obtain p where "rubygems_boundary boundary = Some p"
        using assms by (auto simp: boundary_supported_def unfold simp del: split_paired_Ex)
      with 3 show ?thesis by (intro disjI2 exI[of _ p]) (simp add: unfold)
    next
      case 4
      then obtain p where "maven_boundary boundary = Some p"
        using assms by (auto simp: boundary_supported_def unfold simp del: split_paired_Ex)
      with 4 show ?thesis by (intro disjI2 exI[of _ p]) (simp add: unfold)
    qed
  qed
qed

lemma compare_relative_mono:
  assumes "compare_release a b \<le> 0" "compare_relative b t \<le> 0"
  shows "compare_relative a t \<le> 0"
proof (cases "compare_release b (fst t) = 0")
  case True
  then have "compare_release a (fst t) = compare_release a b"
    using release.eq_cong_right[where x = a and y = b and z = "fst t"] by simp
  with True assms show ?thesis by (auto simp: compare_relative_def Let_def)
next
  case False
  with assms(2) have "compare_release b (fst t) < 0" by (auto simp: compare_relative_def Let_def)
  with assms(1) have "compare_release a (fst t) < 0" using release.le_less_trans[where x = a and y = b and z = "fst t"] by simp
  then show ?thesis by (simp add: compare_relative_def Let_def)
qed

end
