(* ===== verification/Version_Ranges.thy ===== *)
theory Version_Ranges
  imports Version_Boundaries
begin

text \<open>
  \<open>app/dependency_version_ranges.py\<close>, third part: range branches (caret, tilde, wildcard,
  hyphen, compatible release, pessimistic, Maven interval, comparator conjunction), unions of
  branches and \<open>version_matches_range\<close>.  \<open>bool | None\<close> is \<open>bool option\<close>.
\<close>

section \<open>Patterns\<close>

definition space_run :: rx where
  "space_run = star (Cls py_space)"

definition nonspace_run :: rx where
  "nonspace_run = plus (Cls (\<lambda>c. \<not> py_space c))"

definition operator_rx :: rx where
  "operator_rx = alts (map word [''<='', ''>='', ''!='', ''=='', ''='', ''<'', ''>''])"

definition comparator_clause_re :: rx where
  "comparator_clause_re = seqs [opt (Grp 1 operator_rx), space_run, Grp 2 nonspace_run, space_run]"

definition explicit_comparator_re :: rx where
  "explicit_comparator_re = seqs
     [Grp 1 operator_rx, space_run, Grp 2 (plus (Cls (\<lambda>c. \<not> py_space c \<and> c \<noteq> CHR '','')))]"

definition wildcard_re :: rx where
  "wildcard_re = seqs
     [opt (ch CHR ''v''), Grp 1 (dotted None), ch CHR ''.'', Grp 2 (oneof ''xX*'')]"

definition hyphen_re :: rx where
  "hyphen_re = seqs
     [space_run, Grp 1 nonspace_run, plus (Cls py_space), ch CHR ''-'', plus (Cls py_space),
      Grp 2 nonspace_run, space_run]"

definition maven_interval_re :: rx where
  "maven_interval_re = seqs
     [space_run, Grp 1 (oneof ''[(''), space_run, Grp 2 (star (Cls (\<lambda>c. c \<noteq> CHR '',''))), space_run,
      ch CHR '','', space_run, Grp 3 (star (Cls (\<lambda>c. c \<noteq> CHR '']'' \<and> c \<noteq> CHR '')''))), space_run,
      Grp 4 (oneof '')]''), space_run]"

definition is_wildcard :: "string \<Rightarrow> bool" where
  "is_wildcard text \<longleftrightarrow> rx_fullmatch wildcard_re text \<noteq> None"

section \<open>Conjunctions\<close>

definition drop_space :: "string \<Rightarrow> string" where
  "drop_space s = filter (\<lambda>c. \<not> py_space c) s"

definition split_comparator_conjunction :: "string \<Rightarrow> string list option" where
  "split_comparator_conjunction branch =
     (let text = py_strip branch in
      if text = [] then None
      else if CHR '','' \<in> set text then
        (let parts = filter (\<lambda>p. p \<noteq> []) (map py_strip (split_on CHR '','' text))
         in if parts = [] then None else Some parts)
      else
        (let matches = rx_findall explicit_comparator_re text in
         if length matches \<ge> 2 \<and> drop_space text = drop_space (concat matches)
         then Some (map py_strip matches)
         else Some [text]))"

text \<open>\<open>parts\<close> as the callers see it: both \<open>None\<close> and the empty list are falsy.\<close>

definition conjunction_parts :: "string \<Rightarrow> string list" where
  "conjunction_parts branch =
     (case split_comparator_conjunction branch of None \<Rightarrow> [] | Some parts \<Rightarrow> parts)"

definition clause_admits :: "release \<Rightarrow> string \<Rightarrow> bool" where
  "clause_admits observed_release boundary =
     (case strict_semver boundary of
        Some (release, Some _) \<Rightarrow> release = observed_release
      | _ \<Rightarrow> False)"

definition branch_explicitly_admits_prerelease :: "string \<Rightarrow> string \<Rightarrow> string \<Rightarrow> bool" where
  "branch_explicitly_admits_prerelease observed_text branch ecosystem =
     (case observed_prerelease observed_text ecosystem of
        None \<Rightarrow> True
      | Some (observed_release, _) \<Rightarrow>
          (let text = py_strip branch in
           case rx_fullmatch hyphen_re text of
             Some hyphen \<Rightarrow>
               list_ex (clause_admits observed_release) [group_or hyphen 1, group_or hyphen 2]
           | None \<Rightarrow>
               list_ex (\<lambda>part. case rx_fullmatch comparator_clause_re part of
                                 None \<Rightarrow> False
                               | Some m \<Rightarrow> clause_admits observed_release (group_or m 2))
                 (conjunction_parts text)))"

section \<open>Bounds of the special branches\<close>

type_synonym bounds = "release \<times> release"

text \<open>\<open>prefix[-1] += 1\<close> on a non-empty list.\<close>

definition bump_last :: "release \<Rightarrow> release" where
  "bump_last prefix = butlast prefix @ [last prefix + 1]"

definition wildcard_bounds :: "string \<Rightarrow> bounds option" where
  "wildcard_bounds value =
     (case rx_fullmatch wildcard_re (py_strip value) of
        None \<Rightarrow> None
      | Some m \<Rightarrow>
          (let prefix = int_parts (group_or m 1) in
           if prefix = [] then None
           else Some (prefix @ [0], bump_last prefix @ [0])))"

definition release_or_semver :: "string \<Rightarrow> release option" where
  "release_or_semver value =
     (case release_tuple value of
        Some release \<Rightarrow> Some release
      | None \<Rightarrow> map_option fst (strict_semver value))"

definition caret_of :: "release \<Rightarrow> bounds" where
  "caret_of release =
     (let padded = pad_release 3 release;
          major = padded ! 0; minor = padded ! 1; patch = padded ! 2;
          upper = (if major > 0 then [major + 1, 0, 0]
                   else if minor > 0 then [0, minor + 1, 0]
                   else if patch > 0 then [0, 0, patch + 1]
                   else if length release = 1 then [1, 0, 0]
                   else if length release = 2 then [0, 1, 0]
                   else [0, 0, 1])
      in (padded, upper))"

definition caret_bounds :: "string \<Rightarrow> bounds option" where
  "caret_bounds value =
     (case release_or_semver value of
        None \<Rightarrow> None
      | Some release \<Rightarrow> if length release > 3 then None else Some (caret_of release))"

definition tilde_of :: "release \<Rightarrow> bounds" where
  "tilde_of release =
     (let padded = pad_release 3 release;
          upper = (if length release \<le> 1 then [padded ! 0 + 1, 0, 0]
                   else [padded ! 0, padded ! 1 + 1, 0])
      in (padded, upper))"

definition tilde_bounds :: "string \<Rightarrow> bounds option" where
  "tilde_bounds value =
     (case release_or_semver value of
        None \<Rightarrow> None
      | Some release \<Rightarrow> if length release > 3 then None else Some (tilde_of release))"

definition compatible_release_bounds :: "string \<Rightarrow> bounds option" where
  "compatible_release_bounds value =
     (case release_tuple value of
        None \<Rightarrow> None
      | Some release \<Rightarrow>
          if length release < 2 then None
          else Some (release, bump_last (butlast release) @ [0]))"

definition pessimistic_rubygems_bounds :: "string \<Rightarrow> bounds option" where
  "pessimistic_rubygems_bounds value =
     (case release_tuple value of
        None \<Rightarrow> None
      | Some release \<Rightarrow>
          Some (release, if length release = 1 then [release ! 0 + 1, 0]
                         else bump_last (butlast release) @ [0]))"

definition release_in_bounds :: "release \<Rightarrow> bounds \<Rightarrow> bool" where
  "release_in_bounds observed b \<longleftrightarrow>
     compare_release observed (fst b) \<ge> 0 \<and> compare_release observed (snd b) < 0"

definition npm_hyphen_partial_bounds :: "string \<Rightarrow> string \<Rightarrow> release option \<times> release option" where
  "npm_hyphen_partial_bounds lower_text upper_text =
     ((case release_tuple lower_text of
         None \<Rightarrow> None
       | Some lower_release \<Rightarrow>
           if 1 \<le> length lower_release \<and> length lower_release < 3
           then Some (pad_release 3 lower_release) else None),
      (case release_tuple upper_text of
         None \<Rightarrow> None
       | Some upper_release \<Rightarrow>
           if length upper_release = 1 then Some [upper_release ! 0 + 1, 0, 0]
           else if length upper_release = 2 then Some [upper_release ! 0, upper_release ! 1 + 1, 0]
           else None))"

section \<open>Special branches\<close>

definition is_tilde :: "string \<Rightarrow> bool" where
  "is_tilde text \<longleftrightarrow> startswith text ''~'' \<and> \<not> startswith text ''~=''"

definition special_branch_supported :: "string \<Rightarrow> string \<Rightarrow> bool" where
  "special_branch_supported branch ecosystem0 =
     (let text = py_strip branch; ecosystem = normalize_ecosystem ecosystem0;
          semver = ecosystem \<in> set SEMVER_ECOSYSTEMS
      in if semver \<and> startswith text ''^'' then caret_bounds (py_strip (drop 1 text)) \<noteq> None
         else if semver \<and> is_tilde text then tilde_bounds (py_strip (drop 1 text)) \<noteq> None
         else if semver \<and> is_wildcard text then True
         else
           (case (if semver then rx_fullmatch hyphen_re text else None) of
              Some hyphen \<Rightarrow> boundary_supported (group_or hyphen 1) ecosystem
                             \<and> boundary_supported (group_or hyphen 2) ecosystem
            | None \<Rightarrow>
                if ecosystem \<in> set PEP440_ECOSYSTEMS \<and> startswith text ''~='' then
                  compatible_release_bounds (py_strip (drop 2 text)) \<noteq> None
                else if ecosystem \<in> set RUBYGEMS_ECOSYSTEMS \<and> startswith text ''~>'' then
                  pessimistic_rubygems_bounds (py_strip (drop 2 text)) \<noteq> None
                else if ecosystem \<in> set MAVEN_ECOSYSTEMS then
                  (case rx_fullmatch maven_interval_re text of
                     None \<Rightarrow> False
                   | Some interval \<Rightarrow>
                       (let lower = py_strip (group_or interval 2); upper = py_strip (group_or interval 3)
                        in (lower = [] \<or> boundary_supported lower ecosystem)
                           \<and> (upper = [] \<or> boundary_supported upper ecosystem)))
                else False))"

text \<open>The observed version as the matcher holds it: \<open>observed_release\<close> and
  \<open>observed_semver\<close>, at least one of which is not \<open>None\<close>.\<close>

definition observed_is_prerelease :: "semver option \<Rightarrow> bool" where
  "observed_is_prerelease observed_semver =
     (case observed_semver of Some (_, Some _) \<Rightarrow> True | _ \<Rightarrow> False)"

definition observed_numbers :: "release option \<Rightarrow> semver option \<Rightarrow> release" where
  "observed_numbers observed_release observed_semver =
     (case observed_release of
        Some release \<Rightarrow> release
      | None \<Rightarrow> (case observed_semver of Some v \<Rightarrow> fst v | None \<Rightarrow> []))"

text \<open>The bodies of the caret and the tilde branch are the same code over different bounds.\<close>

definition anchored_branch_matches ::
  "string \<Rightarrow> release option \<Rightarrow> semver option \<Rightarrow> string \<Rightarrow> bounds option \<Rightarrow> string \<Rightarrow> bool option"
where
  "anchored_branch_matches observed_text observed_release observed_semver lower_text bounds ecosystem =
     (case bounds of
        None \<Rightarrow> None
      | Some b \<Rightarrow>
          if strict_semver lower_text \<noteq> None then
            (let low_cmp = compare_observed_to_boundary observed_text lower_text ecosystem;
                 high_cmp = compare_observed_to_boundary observed_text
                              (py_join ''.'' (map show_nat (snd b))) ecosystem
             in case (low_cmp, high_cmp) of
                  (Some low, Some high) \<Rightarrow>
                    if \<not> branch_explicitly_admits_prerelease observed_text (''>='' @ lower_text) ecosystem
                    then Some False
                    else Some (low \<ge> 0 \<and> high < 0)
                | _ \<Rightarrow> None)
          else if observed_is_prerelease observed_semver then Some False
          else Some (release_in_bounds (observed_numbers observed_release observed_semver) b))"

definition hyphen_branch_matches ::
  "string \<Rightarrow> release option \<Rightarrow> semver option \<Rightarrow> string \<Rightarrow> string \<Rightarrow> string \<Rightarrow> string \<Rightarrow> bool option"
where
  "hyphen_branch_matches observed_text observed_release observed_semver text lower_text upper_text ecosystem =
     (let low_cmp = compare_observed_to_boundary observed_text lower_text ecosystem;
          high_cmp = compare_observed_to_boundary observed_text upper_text ecosystem;
          partial = (if ecosystem = ''npm'' then npm_hyphen_partial_bounds lower_text upper_text else (None, None))
      in if partial \<noteq> (None, None) then
           (if observed_is_prerelease observed_semver
               \<and> \<not> branch_explicitly_admits_prerelease observed_text text ecosystem
            then Some False
            else
              (let release = observed_numbers observed_release observed_semver;
                   lower_ok = (case fst partial of
                                 Some l \<Rightarrow> Some (compare_release release l \<ge> 0)
                               | None \<Rightarrow> map_option (\<lambda>c. c \<ge> 0) low_cmp);
                   upper_ok = (case snd partial of
                                 Some u \<Rightarrow> Some (compare_release release u < 0)
                               | None \<Rightarrow> map_option (\<lambda>c. c \<le> 0) high_cmp)
               in case (lower_ok, upper_ok) of
                    (Some l, Some u) \<Rightarrow> Some (l \<and> u)
                  | _ \<Rightarrow> None))
         else
           (case (low_cmp, high_cmp) of
              (Some low, Some high) \<Rightarrow>
                if \<not> branch_explicitly_admits_prerelease observed_text text ecosystem then Some False
                else Some (low \<ge> 0 \<and> high \<le> 0)
            | _ \<Rightarrow> None))"

definition maven_interval_matches :: "release \<Rightarrow> caps \<Rightarrow> string \<Rightarrow> bool option" where
  "maven_interval_matches observed_release interval ecosystem =
     (let lower = py_strip (group_or interval 2); upper = py_strip (group_or interval 3);
          low_result =
            (if lower = [] then Some True
             else map_option (\<lambda>c. if group_or interval 1 = ''['' then c \<ge> 0 else c > 0)
                    (compare_stable_observed_to_boundary observed_release lower ecosystem));
          high_result =
            (if upper = [] then Some True
             else map_option (\<lambda>c. if group_or interval 4 = '']'' then c \<le> 0 else c < 0)
                    (compare_stable_observed_to_boundary observed_release upper ecosystem))
      in case low_result of
           None \<Rightarrow> None
         | Some False \<Rightarrow> Some False
         | Some True \<Rightarrow> high_result)"

definition special_branch_matches :: "string \<Rightarrow> string \<Rightarrow> string \<Rightarrow> bool option" where
  "special_branch_matches observed_text branch ecosystem0 =
     (let text = py_strip branch; ecosystem = normalize_ecosystem ecosystem0;
          semver = ecosystem \<in> set SEMVER_ECOSYSTEMS;
          observed_release = release_tuple observed_text;
          observed_semver = (if semver then strict_semver observed_text else None)
      in if observed_release = None \<and> observed_semver = None then None
         else if semver \<and> startswith text ''^'' then
           (let lower_text = py_strip (drop 1 text)
            in anchored_branch_matches observed_text observed_release observed_semver lower_text
                 (caret_bounds lower_text) ecosystem)
         else if semver \<and> is_tilde text then
           (let lower_text = py_strip (drop 1 text)
            in anchored_branch_matches observed_text observed_release observed_semver lower_text
                 (tilde_bounds lower_text) ecosystem)
         else
           (case (if semver then wildcard_bounds text else None) of
              Some wildcard \<Rightarrow>
                if observed_is_prerelease observed_semver then Some False
                else Some (release_in_bounds (observed_numbers observed_release observed_semver) wildcard)
            | None \<Rightarrow>
           (case (if semver then rx_fullmatch hyphen_re text else None) of
              Some hyphen \<Rightarrow>
                hyphen_branch_matches observed_text observed_release observed_semver text
                  (group_or hyphen 1) (group_or hyphen 2) ecosystem
            | None \<Rightarrow>
                if ecosystem \<in> set PEP440_ECOSYSTEMS \<and> startswith text ''~='' then
                  (case (compatible_release_bounds (py_strip (drop 2 text)), observed_release) of
                     (Some b, Some r) \<Rightarrow> Some (release_in_bounds r b)
                   | _ \<Rightarrow> None)
                else if ecosystem \<in> set RUBYGEMS_ECOSYSTEMS \<and> startswith text ''~>'' then
                  (case (pessimistic_rubygems_bounds (py_strip (drop 2 text)), observed_release) of
                     (Some b, Some r) \<Rightarrow> Some (release_in_bounds r b)
                   | _ \<Rightarrow> None)
                else if ecosystem \<in> set MAVEN_ECOSYSTEMS then
                  (case (rx_fullmatch maven_interval_re text, observed_release) of
                     (Some interval, Some r) \<Rightarrow> maven_interval_matches r interval ecosystem
                   | _ \<Rightarrow> None)
                else None)))"

section \<open>Comparator branches\<close>

definition wildcard_ecosystem :: "string \<Rightarrow> bool" where
  "wildcard_ecosystem ecosystem \<longleftrightarrow>
     normalize_ecosystem ecosystem \<in> set (SEMVER_ECOSYSTEMS @ PEP440_ECOSYSTEMS @ RUBYGEMS_ECOSYSTEMS)"

definition is_equality :: "string \<Rightarrow> bool" where
  "is_equality operator \<longleftrightarrow> operator \<in> set [[], ''='', ''=='']"

definition comparator_part_supported :: "string \<Rightarrow> string \<Rightarrow> bool" where
  "comparator_part_supported ecosystem part =
     (if special_branch_supported part ecosystem then True
      else (case rx_fullmatch comparator_clause_re part of
        None \<Rightarrow> False
      | Some m \<Rightarrow>
          (let operator = group_or m 1; boundary = group_or m 2
           in if is_equality operator \<and> is_wildcard boundary then wildcard_ecosystem ecosystem
              else boundary_supported boundary ecosystem)))"

definition comparator_branch_supported :: "string \<Rightarrow> string \<Rightarrow> bool" where
  "comparator_branch_supported branch ecosystem =
     (let parts = conjunction_parts branch
      in parts \<noteq> [] \<and> list_all (comparator_part_supported ecosystem) parts)"

text \<open>One round of the loop over the parts: \<open>None\<close> and \<open>Some False\<close> leave the
  function with that value, \<open>Some True\<close> is \<open>continue\<close>.\<close>

definition comparator_part_matches :: "string \<Rightarrow> string \<Rightarrow> string \<Rightarrow> bool option" where
  "comparator_part_matches observed_text ecosystem part =
     (case special_branch_matches observed_text part ecosystem of
        Some special \<Rightarrow> Some special
      | None \<Rightarrow>
     (case rx_fullmatch comparator_clause_re part of
        None \<Rightarrow> None
      | Some m \<Rightarrow>
          (let operator = group_or m 1; boundary = group_or m 2
           in case (if is_equality operator \<and> wildcard_ecosystem ecosystem then wildcard_bounds boundary
                    else None) of
                Some wildcard \<Rightarrow>
                  (case release_tuple observed_text of
                     None \<Rightarrow> Some False
                   | Some observed_release \<Rightarrow> Some (release_in_bounds observed_release wildcard))
              | None \<Rightarrow>
                  map_option (\<lambda>c. operator_matches c operator)
                    (compare_observed_to_boundary observed_text boundary ecosystem))))"

fun comparator_parts_match :: "string \<Rightarrow> string \<Rightarrow> string list \<Rightarrow> bool option" where
  "comparator_parts_match observed_text ecosystem [] = Some True"
| "comparator_parts_match observed_text ecosystem (part # parts) =
     (case comparator_part_matches observed_text ecosystem part of
        None \<Rightarrow> None
      | Some False \<Rightarrow> Some False
      | Some True \<Rightarrow> comparator_parts_match observed_text ecosystem parts)"

definition comparator_branch_matches :: "string \<Rightarrow> string \<Rightarrow> string \<Rightarrow> bool option" where
  "comparator_branch_matches observed_text branch ecosystem =
     (case special_branch_matches observed_text branch ecosystem of
        Some whole_special \<Rightarrow> Some whole_special
      | None \<Rightarrow>
     (let parts = conjunction_parts branch in
      if parts = [] then None
      else (case comparator_parts_match observed_text ecosystem parts of
        None \<Rightarrow> None
      | Some False \<Rightarrow> Some False
      | Some True \<Rightarrow> Some (branch_explicitly_admits_prerelease observed_text branch ecosystem))))"

section \<open>Unions and the entry points\<close>

definition union_branches :: "string \<Rightarrow> string list" where
  "union_branches expression = filter (\<lambda>b. b \<noteq> []) (map py_strip (split_bars expression))"

definition branch_supported :: "string \<Rightarrow> string \<Rightarrow> bool" where
  "branch_supported ecosystem branch \<longleftrightarrow>
     comparator_branch_supported branch ecosystem \<or> special_branch_supported branch ecosystem"

definition range_expression_capability :: "string \<Rightarrow> string \<Rightarrow> string" where
  "range_expression_capability expression ecosystem =
     (let branches = union_branches expression in
      if branches = [] then ''none''
      else
        (let supported = length (filter (branch_supported ecosystem) branches)
         in if supported = length branches then ''full''
            else if supported > 0 then ''partial''
            else ''none''))"

definition range_expression_supported :: "string \<Rightarrow> string \<Rightarrow> bool" where
  "range_expression_supported expression ecosystem \<longleftrightarrow>
     range_expression_capability expression ecosystem = ''full''"

definition version_matches_range :: "string \<Rightarrow> string \<Rightarrow> string \<Rightarrow> bool" where
  "version_matches_range version expression ecosystem =
     (let observed_text = py_strip version in
      if \<not> observed_version_supported observed_text then False
      else if release_tuple observed_text = None \<and> strict_semver observed_text \<noteq> None
              \<and> normalize_ecosystem ecosystem \<notin> set SEMVER_ECOSYSTEMS then False
      else list_ex (\<lambda>branch. branch_supported ecosystem branch
                             \<and> comparator_branch_matches observed_text branch ecosystem = Some True)
             (union_branches expression))"

text \<open>The summary dictionary, its keys in insertion order.\<close>

fun count_capability :: "(string \<times> nat) list \<Rightarrow> string \<Rightarrow> (string \<times> nat) list" where
  "count_capability [] k = [(k, 1)]"
| "count_capability ((j, n) # rest) k = (if j = k then (j, n + 1) # rest else (j, n) # count_capability rest k)"

definition range_support_summary :: "(string \<times> string) list \<Rightarrow> (string \<times> nat) list" where
  "range_support_summary rows =
     fold (\<lambda>(ecosystem, expression) summary.
             count_capability summary (range_expression_capability expression ecosystem))
       rows [(''full'', 0), (''partial'', 0), (''none'', 0)]"

end
