(* ===== verification/Version_Grammar.thy ===== *)
theory Version_Grammar
  imports Version_Ranges
begin

text \<open>
  What the release pattern of \<open>app/dependency_version_ranges.py\<close> accepts and captures:
  \<open>_release_tuple\<close> is characterised by a grammar, from which the round trip of
  \<open>'.'.join(str(item) ..)\<close> and the length bound of a release follow.
\<close>

section \<open>Captures\<close>

fun groupless :: "rx \<Rightarrow> bool" where
  "groupless (Cls p) = True"
| "groupless Eps = True"
| "groupless (Seq a b) = (groupless a \<and> groupless b)"
| "groupless (Alt a b) = (groupless a \<and> groupless b)"
| "groupless (Rep m n r) = groupless r"
| "groupless (Grp i r) = False"

lemma rep_match_groupless:
  assumes "\<forall>s c s' c'. (s', c') \<in> set (f s c) \<longrightarrow> c' = c" and "(s', c') \<in> set (rep_match f m n s c)"
  shows "c' = c"
  using assms
proof (induction f m n s c arbitrary: s' c' rule: rep_match.induct)
  case (1 f m n s c)
  from "1.prems"(2) show ?case
    by (subst (asm) rep_match.simps) (use "1.IH" "1.prems"(1) in \<open>fastforce split: if_splits\<close>)
qed

lemma rx_match_groupless: "groupless r \<Longrightarrow> (s', c') \<in> set (rx_match r s c) \<Longrightarrow> c' = c"
proof (induction r arbitrary: s c s' c')
  case (Rep m n r)
  then have "\<forall>s c s' c'. (s', c') \<in> set (rx_match r s c) \<longrightarrow> c' = c" by auto
  from rep_match_groupless[OF this] Rep.prems(2) show ?case by simp
qed (fastforce split: list.splits if_splits)+

text \<open>A pattern of the shape \<open>p(X)\<close> with no further group captures the text after \<open>p\<close>.\<close>

lemma fullmatch_prefix_group:
  assumes "rx_fullmatch (Seq p (Grp i x)) s = Some m" "groupless p" "groupless x"
  shows "\<exists>u t. s = u @ t \<and> rx_lang p u \<and> rx_lang x t \<and> group_or m i = t"
proof -
  from assms(1) have "([], m) \<in> set (rx_match (Seq p (Grp i x)) s [])"
    by (auto simp: rx_fullmatch_def find_Some_iff dest!: nth_mem)
  then obtain t c where t: "(t, c) \<in> set (rx_match p s [])" and x: "([], m) \<in> set (rx_match (Grp i x) t c)"
    by (auto simp del: rx_match.simps(6))
  from x obtain c' where m: "m = (i, t) # c'" and x': "([], c') \<in> set (rx_match x t c)" by auto
  from rx_match_sound[OF t] obtain u where "s = u @ t" "rx_lang p u" by blast
  moreover from rx_match_sound[OF x'] have "rx_lang x t" by auto
  ultimately show ?thesis using m by (auto simp: group_or_def)
qed

section \<open>Dotted numerals\<close>

lemma rep_lang_cls: "rep_lang (Cls p) k u \<longleftrightarrow> length u = k \<and> list_all p u"
proof (induction k arbitrary: u)
  case (Suc k)
  have "rep_lang (Cls p) (Suc k) u \<longleftrightarrow> (\<exists>x v. u = x # v \<and> p x \<and> rep_lang (Cls p) k v)"
    by (auto simp: rep_lang_simps rx_lang_simps) (metis append_Cons append_Nil)
  then show ?case by (auto simp: Suc length_Suc_conv)
qed (auto simp: rep_lang_simps)

lemma lang_digits: "rx_lang digits u \<longleftrightarrow> py_isdigit u"
  by (auto simp: digits_def plus_def rx_lang_simps rep_lang_cls py_isdigit_def Suc_le_eq)

lemma rep_lang_dots:
  "rep_lang (Seq (ch d) digits) k u \<longleftrightarrow>
     (\<exists>ws. length ws = k \<and> list_all py_isdigit ws \<and> u = concat (map (\<lambda>w. d # w) ws))"
proof (induction k arbitrary: u)
  case (Suc k)
  have "rep_lang (Seq (ch d) digits) (Suc k) u \<longleftrightarrow>
        (\<exists>w v. u = d # w @ v \<and> py_isdigit w \<and> rep_lang (Seq (ch d) digits) k v)"
    by (simp add: rep_lang_simps rx_lang_simps ch_def lang_digits) (metis append_Cons append_Nil)
  then show ?case
    by (fastforce simp: Suc length_Suc_conv)
qed (auto simp: rep_lang_simps)

lemma join_concat: "py_join [d] (w # ws) = w @ concat (map (\<lambda>v. d # v) ws)"
  by (induction ws arbitrary: w) auto

lemma lang_dotted:
  "rx_lang (dotted n) t \<longleftrightarrow>
     (\<exists>ws. ws \<noteq> [] \<and> list_all py_isdigit ws \<and> t = py_join ''.'' ws \<and> (\<forall>b. n = Some b \<longrightarrow> length ws \<le> Suc b))"
proof
  assume "rx_lang (dotted n) t"
  then obtain w ws where "py_isdigit w" "list_all py_isdigit ws" "t = w @ concat (map (\<lambda>v. CHR ''.'' # v) ws)"
    "\<forall>b. n = Some b \<longrightarrow> length ws \<le> b"
    by (auto simp: dotted_def rx_lang_simps lang_digits rep_lang_dots)
  then show "\<exists>ws. ws \<noteq> [] \<and> list_all py_isdigit ws \<and> t = py_join ''.'' ws \<and> (\<forall>b. n = Some b \<longrightarrow> length ws \<le> Suc b)"
    by (intro exI[of _ "w # ws"]) (auto simp: join_concat)
next
  assume "\<exists>ws. ws \<noteq> [] \<and> list_all py_isdigit ws \<and> t = py_join ''.'' ws \<and> (\<forall>b. n = Some b \<longrightarrow> length ws \<le> Suc b)"
  then obtain w ws where "list_all py_isdigit (w # ws)" "t = py_join ''.'' (w # ws)"
    "\<forall>b. n = Some b \<longrightarrow> length ws \<le> b" by (metis Suc_le_mono length_Cons neq_Nil_conv)
  then show "rx_lang (dotted n) t"
    by (auto simp: dotted_def rx_lang_simps lang_digits rep_lang_dots join_concat)
qed

lemma dotted_traits [simp]: "groupless (dotted n)" "productive (dotted n)"
  by (auto simp: dotted_def digits_def plus_def ch_def)

lemma dot_not_digit: "\<not> py_digit CHR ''.''"
  by (simp add: py_digit_def code_def)

lemma isdigit_no_dot: "list_all py_isdigit ws \<Longrightarrow> w \<in> set ws \<Longrightarrow> CHR ''.'' \<notin> set w"
  using dot_not_digit by (auto simp: list_all_iff py_isdigit_def)

lemma int_parts_join:
  "ws \<noteq> [] \<Longrightarrow> list_all py_isdigit ws \<Longrightarrow> int_parts (py_join ''.'' ws) = map dec_val ws"
  using isdigit_no_dot[of ws] split_on_join[of ws "CHR ''.''"] by (simp add: int_parts_def)

lemma join_digits_hd: "ws \<noteq> [] \<Longrightarrow> list_all py_isdigit ws \<Longrightarrow> \<exists>x xs. py_join ''.'' ws = x # xs \<and> py_digit x"
  by (cases ws) (auto simp: join_concat py_isdigit_def neq_Nil_conv)

lemma join_digits_chars:
  "list_all py_isdigit ws \<Longrightarrow> x \<in> set (py_join ''.'' ws) \<Longrightarrow> py_digit x \<or> x = CHR ''.''"
  by (induction "''.''" ws rule: py_join.induct) (auto simp: py_isdigit_def list_all_iff)

section \<open>\<open>_release_tuple\<close>\<close>

definition is_v :: "string \<Rightarrow> bool" where
  "is_v u \<longleftrightarrow> u = [] \<or> (\<exists>c. u = [c] \<and> lower_char c = CHR ''v'')"

lemma lang_opt_v: "rx_lang (opt (ci CHR ''v'')) u \<longleftrightarrow> is_v u"
  by (auto simp: opt_def ci_def is_v_def rx_lang_simps rep_lang_cls length_Suc_conv le_Suc_eq)

lemma groupless_v [simp]: "groupless (opt (ci x))"
  by (simp add: opt_def ci_def)

lemma release_re_traits: "productive release_re"
  by (simp add: release_re_def opt_def ci_def)

lemma digit_not_v: "py_digit c \<Longrightarrow> lower_char c \<noteq> CHR ''v''"
  by (auto simp: py_digit_def lower_char_def code_def)

theorem release_tuple_grammar:
  "release_tuple s = Some r \<longleftrightarrow>
     (\<exists>u ws. py_strip s = u @ py_join ''.'' ws \<and> is_v u \<and> ws \<noteq> [] \<and> length ws \<le> 8
             \<and> list_all py_isdigit ws \<and> r = map dec_val ws)"
  (is "?L \<longleftrightarrow> ?R")
proof
  assume ?L
  then obtain m where m: "rx_fullmatch release_re (py_strip s) = Some m" and r: "r = int_parts (group_or m 1)"
    by (auto simp: release_tuple_def split: option.splits)
  from fullmatch_prefix_group[OF m[unfolded release_re_def]]
  obtain u t where "py_strip s = u @ t" "is_v u" "rx_lang (dotted (Some 7)) t" "group_or m 1 = t"
    by (auto simp: lang_opt_v)
  with r show ?R by (fastforce simp: lang_dotted int_parts_join)
next
  assume ?R
  then obtain u ws where s: "py_strip s = u @ py_join ''.'' ws" "is_v u" and
    ws: "ws \<noteq> []" "length ws \<le> 8" "list_all py_isdigit ws" and r: "r = map dec_val ws" by blast
  have "rx_lang release_re (py_strip s)"
    using s ws by (auto simp: release_re_def rx_lang_simps lang_opt_v lang_dotted)
  then obtain m where m: "rx_fullmatch release_re (py_strip s) = Some m"
    using rx_fullmatch_iff[OF release_re_traits] by blast
  from fullmatch_prefix_group[OF m[unfolded release_re_def]]
  obtain u' t where t: "py_strip s = u' @ t" "is_v u'" "rx_lang (dotted (Some 7)) t" "group_or m 1 = t"
    by (auto simp: lang_opt_v)
  then obtain vs where vs: "vs \<noteq> []" "list_all py_isdigit vs" "t = py_join ''.'' vs"
    by (auto simp: lang_dotted)
  from join_digits_hd[OF ws(1,3)] join_digits_hd[OF vs(1,2)] s t(1,2) vs(3)
  have "t = py_join ''.'' ws" by (auto simp: is_v_def dest: digit_not_v)
  with m t(4) r ws show ?L by (simp add: release_tuple_def int_parts_join)
qed

lemma release_tuple_length: "release_tuple s = Some r \<Longrightarrow> 1 \<le> length r \<and> length r \<le> 8"
  by (auto simp: release_tuple_grammar Suc_le_eq)

lemma digit_not_space: "py_digit c \<Longrightarrow> \<not> py_space c"
  by (auto simp: py_digit_def py_space_def Let_def)

lemma dot_not_space: "\<not> py_space CHR ''.''"
  by (simp add: py_space_def code_def)

lemma strip_join_digits: "list_all py_isdigit ws \<Longrightarrow> py_strip (py_join ''.'' ws) = py_join ''.'' ws"
proof (rule strip_id)
  assume "list_all py_isdigit ws"
  then have "\<And>x. x \<in> set (py_join ''.'' ws) \<Longrightarrow> \<not> py_space x"
    using join_digits_chars digit_not_space dot_not_space by blast
  then show "py_join ''.'' ws = [] \<or> \<not> py_space (hd (py_join ''.'' ws)) \<and> \<not> py_space (last (py_join ''.'' ws))"
    by auto
qed

lemma release_tuple_join:
  assumes "r \<noteq> []" "length r \<le> 8"
  shows "release_tuple (py_join ''.'' (map show_nat r)) = Some r"
proof -
  have "list_all py_isdigit (map show_nat r)" by (simp add: list_all_iff show_nat_digits)
  with assms show ?thesis
    unfolding release_tuple_grammar
    by (intro exI[of _ "[]"] exI[of _ "map show_nat r"]) (simp add: strip_join_digits is_v_def comp_def)
qed

section \<open>Bounds\<close>

lemma pad_significant: "significant (pad_release w r) = significant r"
proof -
  have "significant (r @ replicate k 0) = significant r" for k
    by (induction r) (auto simp: Let_def, induction k, auto simp: Let_def)
  then show ?thesis by (simp add: pad_release_def)
qed

lemma compare_pad [simp]:
  "compare_release (pad_release w a) b = compare_release a b"
  "compare_release a (pad_release w b) = compare_release a b"
  by (simp_all add: compare_release_key pad_significant)

lemma compare_release_Nil_ge [simp]: "0 \<le> compare_release xs []" "\<not> compare_release xs [] < 0"
  by (simp_all add: compare_release_Nil not_less)

lemma pad3_cases:
  obtains a b c rest where "pad_release 3 x = a # b # c # rest"
proof -
  have "3 \<le> length (pad_release 3 x)" by (simp add: pad_release_def)
  then show thesis using that by (metis Suc_le_length_iff numeral_3_eq_3)
qed

text \<open>The number of leading components a caret range keeps.\<close>

definition caret_width :: "release \<Rightarrow> nat" where
  "caret_width r =
     (let p = pad_release 3 r
      in if p ! 0 > 0 \<or> length r = 1 then 1 else if p ! 1 > 0 \<or> length r = 2 then 2 else 3)"

lemma caret_of_iff:
  assumes "1 \<le> length r" "length r \<le> 3"
  shows "release_in_bounds x (caret_of r) \<longleftrightarrow>
           compare_release x r \<ge> 0
           \<and> take (caret_width r) (pad_release 3 x) = take (caret_width r) (pad_release 3 r)"
proof -
  obtain a b c t where x: "pad_release 3 x = a # b # c # t" by (rule pad3_cases)
  obtain p q s u where r: "pad_release 3 r = p # q # s # u" by (rule pad3_cases)
  have u: "u = []" using r assms by (auto simp: pad_release_def dest: arg_cong[of _ _ length])
  have len: "length r = 1 \<Longrightarrow> q = 0 \<and> s = 0" "length r = 2 \<Longrightarrow> s = 0"
    using r by (auto simp: pad_release_def length_Suc_conv numeral_2_eq_2 numeral_3_eq_3)
  have "compare_release x y = compare_release (a # b # c # t) y" for y
    using x compare_pad(1)[of 3 x] by simp
  moreover have "compare_release y r = compare_release y [p, q, s]" for y
    using r u compare_pad(2)[of y 3 r] by simp
  moreover have "length r = 1 \<or> length r = 2 \<or> length r = 3" using assms by arith
  ultimately show ?thesis
    using len x r u
    by (auto simp: release_in_bounds_def caret_of_def caret_width_def Let_def numeral_2_eq_2 numeral_3_eq_3)
qed

end
