(* ===== verification/Version_Facts.thy ===== *)
theory Version_Facts
  imports Version_Grammar
begin

text \<open>
  Properties of \<open>app/dependency_version_ranges.py\<close>: the order of versions, the bounds of
  the caret branch, the agreement of the two parallel code paths (\<open>.._supported\<close> and
  \<open>.._matches\<close>), the fail-closed reading of an expression and the admission of
  prereleases.
\<close>

section \<open>A supported branch is decided\<close>

lemma semver_ecosystems_normal: "e \<in> set SEMVER_ECOSYSTEMS \<Longrightarrow> normalize_ecosystem e = e"
proof -
  have "list_all (\<lambda>e. normalize_ecosystem e = e) SEMVER_ECOSYSTEMS" by code_simp
  then show "e \<in> set SEMVER_ECOSYSTEMS \<Longrightarrow> normalize_ecosystem e = e" by (simp add: list_all_iff)
qed

lemma ecosystems_disjoint:
  "e \<in> set SEMVER_ECOSYSTEMS \<Longrightarrow> e \<notin> set PEP440_ECOSYSTEMS \<and> e \<notin> set RUBYGEMS_ECOSYSTEMS \<and> e \<notin> set MAVEN_ECOSYSTEMS"
  by (auto simp: SEMVER_ECOSYSTEMS_def PEP440_ECOSYSTEMS_def RUBYGEMS_ECOSYSTEMS_def MAVEN_ECOSYSTEMS_def)

lemma stable_compare_Some:
  "release_tuple obs = Some r \<Longrightarrow> boundary_supported b e \<Longrightarrow> \<exists>c. compare_observed_to_boundary obs b e = Some c"
  using stable_comparable_iff_supported by (fastforce simp: compare_observed_to_boundary_def)

lemma strict_semver_boundary_supported:
  assumes "strict_semver b \<noteq> None" "e \<in> set SEMVER_ECOSYSTEMS"
  shows "boundary_supported b e"
proof -
  from assms(1) have "semver_boundary b \<noteq> None"
    by (auto simp: strict_semver_def semver_boundary_def split: option.splits)
  with assms(2) show ?thesis
    by (auto simp: boundary_supported_def compare_stable_observed_to_boundary_def Let_def
        semver_ecosystems_normal split: option.splits)
qed

lemma release_boundary_supported: "release_tuple b = Some r \<Longrightarrow> boundary_supported b e"
  by (simp add: boundary_supported_def compare_stable_observed_to_boundary_def)

lemma bounds_upper_length:
  "caret_bounds s = Some b \<Longrightarrow> snd b \<noteq> [] \<and> length (snd b) \<le> 8"
  "tilde_bounds s = Some b \<Longrightarrow> snd b \<noteq> [] \<and> length (snd b) \<le> 8"
  by (auto simp: caret_bounds_def tilde_bounds_def caret_of_def tilde_of_def Let_def
      split: option.splits if_splits)

lemma anchored_decided:
  assumes "release_tuple obs = Some r" "e \<in> set SEMVER_ECOSYSTEMS"
    and "bounds = Some b" "snd b \<noteq> [] \<and> length (snd b) \<le> 8"
  shows "anchored_branch_matches obs (Some r) sv lower bounds e \<noteq> None"
proof -
  have "release_tuple (py_join ''.'' (map show_nat (snd b))) = Some (snd b)"
    using assms(4) release_tuple_join by blast
  then have "\<exists>c. compare_observed_to_boundary obs (py_join ''.'' (map show_nat (snd b))) e = Some c"
    using stable_compare_Some[OF assms(1)] release_boundary_supported by blast
  moreover have "strict_semver lower \<noteq> None \<Longrightarrow> \<exists>c. compare_observed_to_boundary obs lower e = Some c"
    using stable_compare_Some[OF assms(1)] strict_semver_boundary_supported assms(2) by blast
  ultimately show ?thesis
    using assms(3) by (auto simp: anchored_branch_matches_def Let_def simp del: not_None_eq)
qed

lemma hyphen_decided:
  assumes "release_tuple obs = Some r" "boundary_supported lo e" "boundary_supported hi e"
  shows "hyphen_branch_matches obs (Some r) sv text lo hi e \<noteq> None"
proof -
  obtain c d where "compare_observed_to_boundary obs lo e = Some c"
    "compare_observed_to_boundary obs hi e = Some d"
    using assms stable_compare_Some by blast
  then show ?thesis
    by (simp add: hyphen_branch_matches_def Let_def split: option.split del: not_None_eq)
qed

lemma wildcard_bounds_iff: "wildcard_bounds text \<noteq> None \<longleftrightarrow> is_wildcard (py_strip text)"
  by (auto simp: wildcard_bounds_def is_wildcard_def Let_def int_parts_def split: option.splits)

lemma interval_decided:
  assumes "py_strip (group_or m 2) = [] \<or> boundary_supported (py_strip (group_or m 2)) e"
    and "py_strip (group_or m 3) = [] \<or> boundary_supported (py_strip (group_or m 3)) e"
  shows "maven_interval_matches r m e \<noteq> None"
proof -
  from assms stable_comparable_iff_supported show ?thesis
    by (auto simp: maven_interval_matches_def Let_def simp del: not_None_eq split: option.split bool.split)
qed

lemma special_supported_decided:
  assumes obs: "release_tuple obs = Some r" and sup: "special_branch_supported branch e0"
  shows "special_branch_matches obs branch e0 \<noteq> None"
proof -
  define tx e where "tx = py_strip branch" and "e = normalize_ecosystem e0"
  note defs = tx_def[symmetric] e_def[symmetric]
  have strip: "py_strip tx = tx" by (simp add: tx_def)
  show ?thesis
  proof (cases "e \<in> set SEMVER_ECOSYSTEMS")
    case True
    note disj = ecosystems_disjoint[OF True]
    note unfold = special_branch_matches_def special_branch_supported_def Let_def defs obs True
    consider "startswith tx ''^''" | "\<not> startswith tx ''^''" "is_tilde tx"
      | "\<not> startswith tx ''^''" "\<not> is_tilde tx" "is_wildcard tx"
      | "\<not> startswith tx ''^''" "\<not> is_tilde tx" "\<not> is_wildcard tx" by blast
    then show ?thesis
    proof cases
      case 1
      with sup obtain b where b: "caret_bounds (py_strip (drop 1 tx)) = Some b"
        by (auto simp: unfold)
      from anchored_decided[OF obs True b bounds_upper_length(1)[OF b]] 1 b show ?thesis
        by (simp add: unfold)
    next
      case 2
      with sup obtain b where b: "tilde_bounds (py_strip (drop 1 tx)) = Some b"
        by (auto simp: unfold)
      from anchored_decided[OF obs True b bounds_upper_length(2)[OF b]] 2 b show ?thesis
        by (simp add: unfold)
    next
      case 3
      then obtain b where "wildcard_bounds tx = Some b"
        using wildcard_bounds_iff[of tx] strip by auto
      with 3 show ?thesis by (auto simp: unfold)
    next
      case 4
      then have "wildcard_bounds tx = None" using wildcard_bounds_iff strip by metis
      with 4 sup disj hyphen_decided[OF obs] show ?thesis
        by (auto simp: unfold split: option.splits)
    qed
  next
    case False
    with sup obs interval_decided show ?thesis
      by (auto simp: special_branch_matches_def special_branch_supported_def Let_def defs
          split: option.splits if_splits)
  qed
qed

lemma wildcard_strip: "is_wildcard w \<Longrightarrow> py_strip w = w"
proof -
  assume "is_wildcard w"
  then have "rx_lang wildcard_re w" by (auto simp: is_wildcard_def dest: rx_fullmatch_lang)
  moreover have "alphabet (\<lambda>c. \<not> py_space c) wildcard_re"
  proof -
    have "list_all (\<lambda>c. \<not> py_space c) ''v.xX*''" by code_simp
    then show ?thesis
      by (auto simp: wildcard_re_def opt_def ch_def oneof_def dotted_def digits_def plus_def digit_not_space)
  qed
  ultimately have "list_all (\<lambda>c. \<not> py_space c) w" by (rule lang_alphabet)
  then show ?thesis by (intro strip_id) (auto simp: list_all_iff)
qed

lemma part_supported_decided:
  assumes obs: "release_tuple obs = Some r" and sup: "comparator_part_supported e part"
  shows "comparator_part_matches obs e part \<noteq> None"
proof (cases "special_branch_matches obs part e")
  case None
  then have "\<not> special_branch_supported part e" using special_supported_decided[OF obs] by blast
  with sup obtain m where m: "rx_fullmatch comparator_clause_re part = Some m"
    and b: "if is_equality (group_or m 1) \<and> is_wildcard (group_or m 2) then wildcard_ecosystem e
            else boundary_supported (group_or m 2) e"
    by (auto simp: comparator_part_supported_def Let_def split: option.splits if_splits)
  note unfold = comparator_part_matches_def None m obs Let_def
  show ?thesis
  proof (cases "is_equality (group_or m 1) \<and> is_wildcard (group_or m 2)")
    case True
    then have "wildcard_bounds (group_or m 2) \<noteq> None"
      using wildcard_bounds_iff wildcard_strip by simp
    with True b show ?thesis by (auto simp: unfold simp del: not_None_eq)
  next
    case False
    with b obtain c where "compare_observed_to_boundary obs (group_or m 2) e = Some c"
      using stable_compare_Some[OF obs, of "group_or m 2" e] by (auto split: if_splits)
    then show ?thesis by (simp add: unfold split: option.split del: not_None_eq)
  qed
qed (simp add: comparator_part_matches_def)

lemma parts_decided:
  "(\<And>p. p \<in> set ps \<Longrightarrow> comparator_part_matches obs e p \<noteq> None) \<Longrightarrow> comparator_parts_match obs e ps \<noteq> None"
  by (induction ps) (fastforce split: option.split bool.split)+

lemma branch_supported_decided:
  assumes obs: "release_tuple obs = Some r" and sup: "branch_supported e branch"
  shows "comparator_branch_matches obs branch e \<noteq> None"
proof (cases "special_branch_matches obs branch e")
  case None
  then have "comparator_branch_supported branch e"
    using sup special_supported_decided[OF obs, of branch e] by (auto simp: branch_supported_def)
  then have ne: "conjunction_parts branch \<noteq> []"
    and "comparator_parts_match obs e (conjunction_parts branch) \<noteq> None"
    using part_supported_decided[OF obs]
    by (auto simp: comparator_branch_supported_def Let_def list_all_iff simp del: not_None_eq intro!: parts_decided)
  with None show ?thesis
    by (auto simp: comparator_branch_matches_def Let_def simp del: not_None_eq split: option.split bool.split)
qed (simp add: comparator_branch_matches_def)

section \<open>Unions\<close>

lemma union_branches_append:
  "a = [] \<or> last a \<noteq> CHR ''|'' \<Longrightarrow> union_branches (a @ ''||'' @ b) = union_branches a @ union_branches b"
  unfolding union_branches_def by (subst split_bars_append) simp_all

section \<open>Prereleases\<close>

lemma observed_prerelease_normal [simp]:
  "observed_prerelease obs (normalize_ecosystem e) = observed_prerelease obs e"
  if "normalize_ecosystem e \<in> set SEMVER_ECOSYSTEMS"
  using that by (simp add: observed_prerelease_def semver_ecosystems_normal)

lemma admits_normal [simp]:
  "normalize_ecosystem e \<in> set SEMVER_ECOSYSTEMS \<Longrightarrow>
   branch_explicitly_admits_prerelease obs b (normalize_ecosystem e) = branch_explicitly_admits_prerelease obs b e"
  "branch_explicitly_admits_prerelease obs (py_strip b) e = branch_explicitly_admits_prerelease obs b e"
  by (auto simp: branch_explicitly_admits_prerelease_def Let_def split: option.split)

text \<open>The anchored branches ask for the admission of \<open>>=\<close> their own boundary.\<close>

definition anchor_admits :: "string \<Rightarrow> string \<Rightarrow> string \<Rightarrow> bool" where
  "anchor_admits obs b e \<longleftrightarrow>
     (startswith (py_strip b) ''^'' \<or> is_tilde (py_strip b))
     \<and> branch_explicitly_admits_prerelease obs (''>='' @ py_strip (drop 1 (py_strip b))) e"

lemma observed_prereleaseD:
  assumes "observed_prerelease obs e = Some (r, p)"
  shows "normalize_ecosystem e \<in> set SEMVER_ECOSYSTEMS" "strict_semver obs = Some (r, Some p)"
  using assms by (auto simp: observed_prerelease_def split: if_splits option.splits)

lemma anchored_true_admits:
  "anchored_branch_matches obs orl (Some (r, Some p)) lower bounds e = Some True \<Longrightarrow>
   branch_explicitly_admits_prerelease obs (''>='' @ lower) e"
  by (auto simp: anchored_branch_matches_def Let_def observed_is_prerelease_def
      split: option.splits if_splits)

lemma hyphen_true_admits:
  "hyphen_branch_matches obs orl (Some (r, Some p)) tx lo hi e = Some True \<Longrightarrow>
   branch_explicitly_admits_prerelease obs tx e"
  by (auto simp: hyphen_branch_matches_def Let_def observed_is_prerelease_def
      split: option.splits if_splits)

lemma special_true_admits:
  assumes pre: "observed_prerelease obs e = Some (r, p)" and m: "special_branch_matches obs b e = Some True"
  shows "branch_explicitly_admits_prerelease obs b e \<or> anchor_admits obs b e"
proof -
  note sem = observed_prereleaseD[OF pre]
  note disj = ecosystems_disjoint[OF sem(1)]
  note unfold = special_branch_matches_def Let_def sem observed_is_prerelease_def
  consider "startswith (py_strip b) ''^''" | "\<not> startswith (py_strip b) ''^''" "is_tilde (py_strip b)"
    | "\<not> startswith (py_strip b) ''^''" "\<not> is_tilde (py_strip b)" by blast
  then show ?thesis
  proof cases
    case 1
    with m have "branch_explicitly_admits_prerelease obs (''>='' @ py_strip (drop 1 (py_strip b)))
                   (normalize_ecosystem e)"
      by (intro anchored_true_admits) (auto simp: unfold)
    with 1 sem(1) show ?thesis by (simp add: anchor_admits_def)
  next
    case 2
    with m have "branch_explicitly_admits_prerelease obs (''>='' @ py_strip (drop 1 (py_strip b)))
                   (normalize_ecosystem e)"
      by (intro anchored_true_admits) (auto simp: unfold)
    with 2 sem(1) show ?thesis by (simp add: anchor_admits_def)
  next
    case 3
    with m disj obtain h where "hyphen_branch_matches obs (release_tuple obs) (Some (r, Some p)) (py_strip b)
        (group_or h 1) (group_or h 2) (normalize_ecosystem e) = Some True"
      by (auto simp: unfold split: option.splits)
    from hyphen_true_admits[OF this] sem(1) show ?thesis by simp
  qed
qed

lemma comparator_true_admits:
  assumes pre: "observed_prerelease obs e = Some (r, p)" and m: "comparator_branch_matches obs b e = Some True"
  shows "branch_explicitly_admits_prerelease obs b e \<or> anchor_admits obs b e"
  using m special_true_admits[OF pre, of b]
  by (auto simp: comparator_branch_matches_def Let_def split: option.splits bool.splits if_splits)

lemma parts_all_true: "comparator_parts_match obs e ps = Some True \<longleftrightarrow> (\<forall>p \<in> set ps. comparator_part_matches obs e p = Some True)"
  by (induction ps) (auto split: option.split bool.split)

lemma version_matches_rangeD:
  assumes "version_matches_range v e k"
  shows "observed_version_supported (py_strip v)"
    and "\<exists>b \<in> set (union_branches e). branch_supported k b \<and> comparator_branch_matches (py_strip v) b k = Some True"
  using assms by (auto simp: version_matches_range_def Let_def list_ex_iff split: if_splits)

lemma capability_none: "range_expression_capability e k = ''none'' \<Longrightarrow> b \<in> set (union_branches e) \<Longrightarrow> \<not> branch_supported k b"
  by (auto simp: range_expression_capability_def Let_def filter_empty_conv split: if_splits)

section \<open>Properties\<close>

text \<open>Comparing two releases of any lengths is comparing their components in order,
  trailing zeros not counting; in particular the relation is reflexive, antisymmetric and
  transitive, and two releases are equal exactly when they differ in trailing zeros only.\<close>

theorem compare_release_is_order:
  "compare_release a b = cmp_of (significant a) (significant b)"
  by (rule compare_release_key)

text \<open>On versions that the strict parser returns, \<open>_compare_semver\<close> is a total order:
  it answers by a lexicographic key, swaps its sign with its arguments, is transitive, and
  is 0 only for the same version (build metadata aside).\<close>

theorem compare_semver_total_order:
  assumes "strict_semver s = Some a" "strict_semver t = Some b" "strict_semver u = Some c"
  shows "compare_semver a b = cmp_of (semver_key a) (semver_key b)
     \<and> compare_semver b a = - compare_semver a b
     \<and> (compare_semver a b = 0 \<longleftrightarrow> a = b)
     \<and> (compare_semver a b \<le> 0 \<and> compare_semver b c \<le> 0 \<longrightarrow> compare_semver a c \<le> 0)"
proof -
  note ok = assms[THEN strict_semver_ok]
  show ?thesis
    using semver.cmp_key[OF ok(1,2)] semver.cmp_swap[OF ok(1,2)] semver.key_eq[OF ok(1,2)]
      semver_key_inj[OF ok(1,2)] semver.cmp_trans[OF ok] by blast
qed

theorem compare_semver_total_order_witness:
  "compare_semver ([1, 0, 0], Some [''alpha'', ''9'']) ([1, 0, 0], Some [''alpha'', ''10'']) \<le> 0
   \<and> compare_semver ([1, 0, 0], Some [''alpha'', ''9'']) ([1, 0, 0], None) \<le> 0"
proof -
  have 1: "strict_semver ''1.0.0-alpha.9'' = Some ([1, 0, 0], Some [''alpha'', ''9''])" by code_simp
  have 2: "strict_semver ''1.0.0-alpha.10'' = Some ([1, 0, 0], Some [''alpha'', ''10''])" by code_simp
  have 3: "strict_semver ''v1.0.0+build.7'' = Some ([1, 0, 0], None)" by code_simp
  have 4: "compare_semver ([1, 0, 0], Some [''alpha'', ''9'']) ([1, 0, 0], Some [''alpha'', ''10'']) \<le> 0" by code_simp
  have 5: "compare_semver ([1, 0, 0], Some [''alpha'', ''10'']) ([1, 0, 0], None) \<le> 0" by code_simp
  from compare_semver_total_order[OF 1 2 3] 4 5 show ?thesis by blast
qed

text \<open>A caret range admits exactly the releases at or above its boundary that agree with
  it up to and including the leftmost component that is not zero (or the last one written).\<close>

theorem caret_range_keeps_leading_component:
  assumes "release_or_semver s = Some r" "caret_bounds s = Some b"
  shows "release_in_bounds x b \<longleftrightarrow>
           compare_release x r \<ge> 0
           \<and> take (caret_width r) (pad_release 3 x) = take (caret_width r) (pad_release 3 r)"
proof -
  from assms have b: "b = caret_of r" "length r \<le> 3"
    by (auto simp: caret_bounds_def split: if_splits)
  have "1 \<le> length r"
    using assms(1) release_tuple_length strict_semver_ok
    by (fastforce simp: release_or_semver_def semver_ok_def split: option.splits)
  with b caret_of_iff show ?thesis by simp
qed

theorem caret_range_keeps_leading_component_witness:
  "release_in_bounds [0, 2, 9] ([0, 2, 3], [0, 3, 0]) \<longleftrightarrow> compare_release [0, 2, 9] [0, 2, 3] \<ge> 0"
proof -
  have 1: "release_or_semver ''0.2.3'' = Some [0, 2, 3]" by code_simp
  have 2: "caret_bounds ''0.2.3'' = Some ([0, 2, 3], [0, 3, 0])" by code_simp
  have "caret_width [0, 2, 3] = 2" by code_simp
  moreover have "take 2 (pad_release 3 [0, 2, 9 :: nat]) = take 2 (pad_release 3 [0, 2, 3])" by code_simp
  ultimately show ?thesis using caret_range_keeps_leading_component[OF 1 2, of "[0, 2, 9]"] by simp
qed

text \<open>C11: The two code paths agree: when the capability check calls a branch supported, the
  matcher decides it (true or false, never unknown) for every observed numeric release.\<close>

theorem supported_branch_is_decided:
  assumes "release_tuple obs = Some r" "branch_supported ecosystem branch"
  shows "\<exists>result. comparator_branch_matches obs branch ecosystem = Some result"
  using branch_supported_decided[OF assms] by auto

theorem supported_branch_is_decided_witness:
  "\<exists>result. comparator_branch_matches ''1.5'' ''[1.0,2.0-beta)'' ''maven'' = Some result"
proof -
  have 1: "release_tuple ''1.5'' = Some [1, 5]" by code_simp
  have 2: "branch_supported ''maven'' ''[1.0,2.0-beta)''" by code_simp
  show ?thesis by (rule supported_branch_is_decided[OF 1 2])
qed

text \<open>Matching fails closed: a positive answer needs a supported observed version, an
  expression of some capability, and one branch that is supported as a whole and matches
  with every part of its conjunction; an expression of no capability never matches.\<close>

theorem match_fails_closed:
  assumes "version_matches_range v e k"
  shows "observed_version_supported (py_strip v) \<and> range_expression_capability e k \<noteq> ''none''
     \<and> (\<exists>b \<in> set (union_branches e). branch_supported k b \<and>
          (special_branch_matches (py_strip v) b k = Some True
           \<or> (\<forall>p \<in> set (conjunction_parts b). comparator_part_matches (py_strip v) k p = Some True)))"
proof -
  note d = version_matches_rangeD[OF assms]
  then obtain b where b: "b \<in> set (union_branches e)" "branch_supported k b"
    "comparator_branch_matches (py_strip v) b k = Some True" by blast
  then have "special_branch_matches (py_strip v) b k = Some True
     \<or> (\<forall>p \<in> set (conjunction_parts b). comparator_part_matches (py_strip v) k p = Some True)"
    by (auto simp: comparator_branch_matches_def Let_def parts_all_true[symmetric]
        split: option.splits bool.splits if_splits)
  with b d(1) capability_none[of e k b] show ?thesis by blast
qed

theorem match_fails_closed_witness:
  "observed_version_supported (py_strip ''1.2.3'')
   \<and> range_expression_capability ''latest || >=1.0, <2'' ''npm'' \<noteq> ''none''"
proof -
  have "version_matches_range ''1.2.3'' ''latest || >=1.0, <2'' ''npm''" by code_simp
  from match_fails_closed[OF this] show ?thesis by blast
qed

text \<open>A union matches exactly when one of its sides does, so an unsupported branch never
  hides or creates a match of the other.\<close>

theorem union_matches_either_side:
  assumes "a = [] \<or> last a \<noteq> CHR ''|''"
  shows "version_matches_range v (a @ ''||'' @ b) k \<longleftrightarrow> version_matches_range v a k \<or> version_matches_range v b k"
  unfolding version_matches_range_def union_branches_append[OF assms] by (simp add: Let_def)

theorem union_matches_either_side_witness:
  "version_matches_range ''1.2.3'' (''<1'' @ ''||'' @ ''>=1.2'') ''npm''"
proof -
  have "version_matches_range ''1.2.3'' ''>=1.2'' ''npm''" by code_simp
  with union_matches_either_side[of "''<1''" "''1.2.3''" "''>=1.2''" "''npm''"] show ?thesis by simp
qed

text \<open>A prerelease is matched only by a branch that explicitly names a prerelease of the
  same release number (its own boundaries, or the boundary a caret or tilde is anchored at).\<close>

theorem prerelease_needs_explicit_admission:
  assumes "version_matches_range v e k" "observed_prerelease (py_strip v) k = Some (r, p)"
  shows "\<exists>b \<in> set (union_branches e).
           branch_explicitly_admits_prerelease (py_strip v) b k \<or> anchor_admits (py_strip v) b k"
  using version_matches_rangeD(2)[OF assms(1)] comparator_true_admits[OF assms(2)] by blast

theorem prerelease_needs_explicit_admission_witness:
  "\<exists>b \<in> set (union_branches ''^1.2.3-alpha'').
     branch_explicitly_admits_prerelease (py_strip ''1.2.3-rc.1'') b ''npm'' \<or> anchor_admits (py_strip ''1.2.3-rc.1'') b ''npm''"
proof -
  have 1: "version_matches_range ''1.2.3-rc.1'' ''^1.2.3-alpha'' ''npm''" by code_simp
  have 2: "observed_prerelease (py_strip ''1.2.3-rc.1'') ''npm'' = Some ([1, 2, 3], [''rc'', ''1''])" by code_simp
  show ?thesis by (rule prerelease_needs_explicit_admission[OF 1 2])
qed

end
