(* ===== verification/Sql_Table.thy ===== *)
theory Sql_Table
  imports Recon_Prelude
begin

text \<open>
  SQLite tables as lists of rows in \<open>rowid\<close> order, one function per statement shape of the
  source, and what the components share about them.  \<open>same\<close> selects the rows that agree
  with a key; a primary key is \<open>keyed\<close>: no two rows have the same key.
\<close>

definition update_where :: "('r \<Rightarrow> bool) \<Rightarrow> ('r \<Rightarrow> 'r) \<Rightarrow> 'r list \<Rightarrow> 'r list" where
  "update_where p f t = map (\<lambda>r. if p r then f r else r) t"

definition rowcount :: "('r \<Rightarrow> bool) \<Rightarrow> 'r list \<Rightarrow> nat" where
  "rowcount p t = length (filter p t)"

definition delete_where :: "('r \<Rightarrow> bool) \<Rightarrow> 'r list \<Rightarrow> 'r list" where
  "delete_where p t = filter (\<lambda>r. \<not> p r) t"

definition select_one :: "('r \<Rightarrow> bool) \<Rightarrow> 'r list \<Rightarrow> 'r option" where
  "select_one p t = List.find p t"

definition insert_ignore :: "('r \<Rightarrow> bool) \<Rightarrow> 'r \<Rightarrow> 'r list \<Rightarrow> 'r list" where
  "insert_ignore same new t = (if list_ex same t then t else t @ [new])"

definition upsert :: "('r \<Rightarrow> bool) \<Rightarrow> 'r \<Rightarrow> ('r \<Rightarrow> 'r) \<Rightarrow> 'r list \<Rightarrow> 'r list" where
  "upsert same new upd t = (if list_ex same t then update_where same upd t else t @ [new])"

text \<open>\<open>dict.fromkeys\<close> and a \<open>defaultdict(list)\<close> grouping keep the order of first
  occurrence.\<close>

primrec dedup :: "'a list \<Rightarrow> 'a list" where
  "dedup [] = []"
| "dedup (x # xs) = x # removeAll x (dedup xs)"

definition group_by :: "('r \<Rightarrow> 'k) \<Rightarrow> 'r list \<Rightarrow> ('k \<times> 'r list) list" where
  "group_by key rows = map (\<lambda>k. (k, filter (\<lambda>r. key r = k) rows)) (dedup (map key rows))"

definition keyed :: "('r \<Rightarrow> 'k) \<Rightarrow> 'r list \<Rightarrow> bool" where
  "keyed key t \<longleftrightarrow> distinct (map key t)"

section \<open>Laws\<close>

lemma set_update_where: "r \<in> set (update_where p f t) \<longleftrightarrow> (\<exists>s \<in> set t. r = (if p s then f s else s))"
  by (auto simp: update_where_def)

lemma ball_update_where: "(\<forall>r \<in> set (update_where p f t). P r) \<longleftrightarrow> (\<forall>r \<in> set t. P (if p r then f r else r))"
  by (auto simp: update_where_def)

lemma update_where_Nil [table_simps, simp]: "update_where p f [] = []"
  by (simp add: update_where_def)

lemma update_where_Cons [table_simps, simp]:
  "update_where p f (r # t) = (if p r then f r else r) # update_where p f t"
  by (simp add: update_where_def)

lemma length_update_where [table_simps, simp]: "length (update_where p f t) = length t"
  by (simp add: update_where_def)

lemma map_update_where [table_simps]: "(\<And>r. p r \<Longrightarrow> k (f r) = k r) \<Longrightarrow> map k (update_where p f t) = map k t"
  by (simp add: update_where_def)

lemma keyed_update_where [keep_intros]: "(\<And>r. p r \<Longrightarrow> k (f r) = k r) \<Longrightarrow> keyed k t \<Longrightarrow> keyed k (update_where p f t)"
  by (simp add: keyed_def map_update_where)

lemma keyed_delete_where [keep_intros]: "keyed k t \<Longrightarrow> keyed k (delete_where p t)"
  by (simp add: keyed_def delete_where_def distinct_map_filter)

lemma keyed_insert_ignore [keep_intros]:
  "keyed k t \<Longrightarrow> (\<And>r. r \<in> set t \<Longrightarrow> k r = k new \<Longrightarrow> same r) \<Longrightarrow> keyed k (insert_ignore same new t)"
  by (auto simp: keyed_def insert_ignore_def list_ex_iff)

lemma keyed_upsert [keep_intros]:
  "keyed k t \<Longrightarrow> (\<And>r. r \<in> set t \<Longrightarrow> k r = k new \<Longrightarrow> same r) \<Longrightarrow> (\<And>r. same r \<Longrightarrow> k (upd r) = k r)
   \<Longrightarrow> keyed k (upsert same new upd t)"
  by (auto simp: keyed_def upsert_def list_ex_iff map_update_where)

lemma keyed_unique: "keyed k t \<Longrightarrow> r \<in> set t \<Longrightarrow> s \<in> set t \<Longrightarrow> k r = k s \<Longrightarrow> r = s"
  by (auto simp: keyed_def distinct_map inj_on_def)

lemma rowcount_key: "keyed k t \<Longrightarrow> rowcount (\<lambda>r. k r = x \<and> q r) t = (if \<exists>r \<in> set t. k r = x \<and> q r then 1 else 0)"
proof (induction t)
  case (Cons r t)
  then have kt: "keyed k t" and fresh: "\<forall>s \<in> set t. k s \<noteq> k r"
    by (auto simp: keyed_def image_iff)
  show ?case
  proof (cases "k r = x")
    case True
    with fresh have none: "filter (\<lambda>s. k s = x \<and> q s) t = []" and nex: "\<not> (\<exists>s \<in> set t. k s = x \<and> q s)"
      by (auto simp: filter_empty_conv)
    from none nex True show ?thesis by (simp add: rowcount_def)
  next
    case False
    with Cons.IH[OF kt] show ?thesis by (simp add: rowcount_def)
  qed
qed (simp add: rowcount_def)

lemma select_one_Some: "select_one p t = Some r \<Longrightarrow> r \<in> set t \<and> p r"
  by (auto simp: select_one_def find_Some_iff)

lemma select_one_None: "select_one p t = None \<longleftrightarrow> (\<forall>r \<in> set t. \<not> p r)"
  by (auto simp: select_one_def find_None_iff)

lemma select_one_key:
  "keyed k t \<Longrightarrow> r \<in> set t \<Longrightarrow> select_one (\<lambda>s. k s = k r) t = Some r"
  by (induction t) (auto simp: select_one_def keyed_def)

text \<open>What a lookup returns after each kind of write.\<close>

lemma select_one_update_where:
  "(\<And>r. p r \<Longrightarrow> q (f r) = q r) \<Longrightarrow>
   select_one q (update_where p f t) = map_option (\<lambda>r. if p r then f r else r) (select_one q t)"
  by (induction t) (auto simp: select_one_def)

lemma select_one_delete_where: "(\<And>r. q r \<Longrightarrow> p r) \<Longrightarrow> select_one q (delete_where p t) = None"
  by (auto simp: select_one_None delete_where_def)

lemma select_one_delete_other: "(\<And>r. q r \<Longrightarrow> \<not> p r) \<Longrightarrow> select_one q (delete_where p t) = select_one q t"
  by (induction t) (auto simp: select_one_def delete_where_def)

lemma select_one_snoc:
  "select_one q (t @ [n]) = (case select_one q t of None \<Rightarrow> if q n then Some n else None | Some r \<Rightarrow> Some r)"
  by (induction t) (auto simp: select_one_def)

lemma list_ex_select: "list_ex p t \<longleftrightarrow> select_one p t \<noteq> None"
  by (induction t) (auto simp: select_one_def)

lemma select_one_upsert:
  "same new \<Longrightarrow> (\<And>r. same r \<Longrightarrow> same (upd r)) \<Longrightarrow>
   select_one same (upsert same new upd t) = Some (case select_one same t of None \<Rightarrow> new | Some r \<Rightarrow> upd r)"
  by (cases "select_one same t")
     (auto simp: upsert_def list_ex_select select_one_snoc select_one_update_where dest: select_one_Some)

lemma select_one_update_other:
  "(\<And>r. p r \<Longrightarrow> \<not> q r \<and> \<not> q (f r)) \<Longrightarrow> select_one q (update_where p f t) = select_one q t"
  by (induction t) (auto simp: select_one_def)

lemma select_one_upsert_other:
  "\<not> q new \<Longrightarrow> (\<And>r. same r \<Longrightarrow> \<not> q r \<and> \<not> q (upd r)) \<Longrightarrow> select_one q (upsert same new upd t) = select_one q t"
  by (auto simp: upsert_def select_one_update_other select_one_snoc split: option.split)

lemma select_one_insert_ignore:
  "same new \<Longrightarrow> select_one same (insert_ignore same new t) = Some (case select_one same t of None \<Rightarrow> new | Some r \<Rightarrow> r)"
  by (auto simp: insert_ignore_def list_ex_select select_one_snoc split: option.split)

lemma set_dedup [simp]: "set (dedup xs) = set xs"
  by (induction xs) auto

lemma distinct_dedup [simp]: "distinct (dedup xs)"
  by (induction xs) (auto simp: distinct_removeAll)

text \<open>Grouping partitions the rows.\<close>

lemma filter_split: "length (filter (\<lambda>r. f r = k) rows) + length (filter (\<lambda>r. f r \<noteq> k \<and> f r \<in> K) rows)
     = length (filter (\<lambda>r. f r \<in> insert k K) rows)"
  by (induction rows) auto

lemma length_groups:
  "distinct ks \<Longrightarrow> sum_list (map (\<lambda>k. length (filter (\<lambda>r. f r = k) rows)) ks) = length (filter (\<lambda>r. f r \<in> set ks) rows)"
proof (induction ks)
  case (Cons k ks)
  have "filter (\<lambda>r. f r \<noteq> k \<and> f r \<in> set ks) rows = filter (\<lambda>r. f r \<in> set ks) rows"
    using Cons.prems by (intro filter_cong) auto
  with Cons filter_split[of f k rows "set ks"] show ?case by simp
qed simp

lemma length_group_by: "sum_list (map (\<lambda>(k, rs). length rs) (group_by f rows)) = length rows"
  using length_groups[of "dedup (map f rows)" f rows] by (simp add: group_by_def comp_def)

lemma group_by_mem: "(k, rs) \<in> set (group_by f rows) \<Longrightarrow> r \<in> set rs \<Longrightarrow> r \<in> set rows \<and> f r = k"
  by (auto simp: group_by_def)

end
