(* ===== verification/Outbox_Base.thy ===== *)
theory Outbox_Base
  imports Sql_Table
begin

text \<open>
  What the two notification outboxes (\<open>recon_alert_outbox.py\<close> and
  \<open>finding_notification_outbox.py\<close>) have in common: the columns and statuses of an outbox
  row, the retry schedule, and the statements that take, release and settle a lease.
  The locale \<open>lease_table\<close> is the contract of a table whose rows are leased to workers: it
  is interpreted on both outboxes.

  A stored time is its number of seconds (\<open>utc_now\<close> writes whole seconds in one fixed
  format, so the order of the texts is the order of the numbers); the empty text is \<open>None\<close>.
  Texts that are shown to people are lists of Unicode code points.
\<close>

type_synonym stamp = nat
type_synonym utext = "nat list"

definition ascii :: "string \<Rightarrow> utext" where
  "ascii s = map code s"

definition APP_VERSION :: string where
  "APP_VERSION = ''8.8.19''"

datatype outbox_status = Queued | Retry_Pending | Delivering | Delivered | Failed

record outbox_row =
  event_id :: string
  target :: string
  status :: outbox_status
  attempt_count :: nat
  max_attempts :: nat
  next_attempt_at :: stamp
  last_attempt_at :: "stamp option"
  last_error :: string
  lease_id :: string
  lease_expires_at :: "stamp option"
  created_at :: stamp
  updated_at :: stamp
  delivered_at :: "stamp option"

section \<open>Retry schedule\<close>

definition DEFAULT_MAX_ATTEMPTS :: nat where
  "DEFAULT_MAX_ATTEMPTS = 8"

definition LEASE_MINUTES :: nat where
  "LEASE_MINUTES = 5"

definition BACKOFF_MINUTES :: "nat list" where
  "BACKOFF_MINUTES = [1, 5, 15, 60, 180, 360, 720, 720]"

text \<open>\<open>max(0, min(len - 1, attempt_count - 1))\<close>: natural subtraction is the clamp at 0.\<close>

definition next_attempt :: "stamp \<Rightarrow> nat \<Rightarrow> stamp" where
  "next_attempt now attempts =
     now + 60 * BACKOFF_MINUTES ! (min (length BACKOFF_MINUTES - 1) (attempts - 1))"

definition lease_expiry :: "stamp \<Rightarrow> stamp" where
  "lease_expiry now = now + 60 * LEASE_MINUTES"

text \<open>\<open>max(1, int(row.get("max_attempts") or DEFAULT_MAX_ATTEMPTS))\<close>\<close>

definition attempt_limit :: "('m outbox_row_scheme) \<Rightarrow> nat" where
  "attempt_limit r = max 1 (if max_attempts r = 0 then DEFAULT_MAX_ATTEMPTS else max_attempts r)"

section \<open>Statements on outbox rows\<close>

definition waiting :: "'m outbox_row_scheme \<Rightarrow> bool" where
  "waiting r \<longleftrightarrow> status r = Queued \<or> status r = Retry_Pending"

definition expired :: "stamp \<Rightarrow> 'm outbox_row_scheme \<Rightarrow> bool" where
  "expired now r \<longleftrightarrow>
     status r = Delivering \<and> (case lease_expires_at r of None \<Rightarrow> False | Some e \<Rightarrow> e \<le> now)"

definition release_expired :: "stamp \<Rightarrow> 'm outbox_row_scheme list \<Rightarrow> 'm outbox_row_scheme list" where
  "release_expired now = update_where (expired now)
     (\<lambda>r. r\<lparr>status := Retry_Pending, lease_id := '''', lease_expires_at := None, updated_at := now\<rparr>)"

definition lease_row :: "string \<Rightarrow> stamp \<Rightarrow> 'm outbox_row_scheme list \<Rightarrow> string \<Rightarrow> 'm outbox_row_scheme list" where
  "lease_row lease now t e = update_where
     (\<lambda>r. event_id r = e \<and> waiting r \<and> next_attempt_at r \<le> now)
     (\<lambda>r. r\<lparr>status := Delivering, lease_id := lease, lease_expires_at := Some (lease_expiry now),
            updated_at := now\<rparr>) t"

text \<open>The claim of a worker: release what expired, then lease the selected candidates.\<close>

definition lease_rows :: "string \<Rightarrow> stamp \<Rightarrow> string list \<Rightarrow> 'm outbox_row_scheme list \<Rightarrow> 'm outbox_row_scheme list" where
  "lease_rows lease now es t = foldl (lease_row lease now) t es"

definition held_by :: "string \<Rightarrow> 'm outbox_row_scheme \<Rightarrow> bool" where
  "held_by lease r \<longleftrightarrow> status r = Delivering \<and> lease_id r = lease"

definition live_at :: "stamp \<Rightarrow> 'm outbox_row_scheme \<Rightarrow> bool" where
  "live_at now r \<longleftrightarrow> (case lease_expires_at r of None \<Rightarrow> False | Some e \<Rightarrow> now < e)"

definition set_delivered :: "nat \<Rightarrow> stamp \<Rightarrow> 'm outbox_row_scheme \<Rightarrow> 'm outbox_row_scheme" where
  "set_delivered attempts now r = r\<lparr>status := Delivered, attempt_count := attempts,
     last_attempt_at := Some now, last_error := '''', lease_id := '''', lease_expires_at := None,
     updated_at := now, delivered_at := Some now\<rparr>"

definition set_retry :: "nat \<Rightarrow> nat \<Rightarrow> string \<Rightarrow> stamp \<Rightarrow> 'm outbox_row_scheme \<Rightarrow> 'm outbox_row_scheme" where
  "set_retry attempts limit error now r =
     (let terminal = limit \<le> attempts
      in r\<lparr>status := (if terminal then Failed else Retry_Pending), attempt_count := attempts,
           next_attempt_at := (if terminal then now else next_attempt now attempts),
           last_attempt_at := Some now, last_error := error, lease_id := '''', lease_expires_at := None,
           updated_at := now\<rparr>)"

definition set_requeued :: "stamp \<Rightarrow> 'm outbox_row_scheme \<Rightarrow> 'm outbox_row_scheme" where
  "set_requeued now r = r\<lparr>status := Retry_Pending, attempt_count := 0, next_attempt_at := now,
     last_attempt_at := None, last_error := '''', lease_id := '''', lease_expires_at := None,
     updated_at := now, delivered_at := None\<rparr>"

text \<open>The summary of both outboxes: the number of rows in each status.\<close>

record outbox_counts =
  n_queued :: nat
  n_retry :: nat
  n_delivering :: nat
  n_delivered :: nat
  n_failed :: nat

definition status_counts :: "string \<Rightarrow> 'm outbox_row_scheme list \<Rightarrow> outbox_counts" where
  "status_counts tgt t =
     (let n = (\<lambda>s. rowcount (\<lambda>r. (tgt = '''' \<or> target r = tgt) \<and> status r = s) t)
      in \<lparr>n_queued = n Queued, n_retry = n Retry_Pending, n_delivering = n Delivering,
          n_delivered = n Delivered, n_failed = n Failed\<rparr>)"

text \<open>What a transport answers: an exception, or the result mapping.\<close>

datatype reply =
    Raised string
  | Answered bool string "string list" string

fun reply_delivered :: "reply \<Rightarrow> bool" where
  "reply_delivered (Raised e) = False"
| "reply_delivered (Answered d c cs e) = d"

fun reply_error :: "reply \<Rightarrow> string" where
  "reply_error (Raised e) = e"
| "reply_error (Answered d c cs e) = e"

fun reply_channel :: "reply \<Rightarrow> string" where
  "reply_channel (Raised e) = ''unknown''"
| "reply_channel (Answered d c cs e) =
     (if c \<noteq> '''' then c else if py_join ''+'' cs \<noteq> '''' then py_join ''+'' cs else ''unknown'')"

section \<open>The lease contract\<close>

text \<open>
  \<open>claim\<close> takes leases for a worker at a time, \<open>settle\<close> records the outcome of one row for the
  holder of its lease.  A row whose lease has not expired is nobody else's: no claim and no
  settlement of another worker changes it.
\<close>

locale lease_table =
  fixes key :: "'r \<Rightarrow> 'k"
    and holder :: "'r \<Rightarrow> string option"
    and expiry :: "'r \<Rightarrow> stamp option"
    and claim :: "stamp \<Rightarrow> string \<Rightarrow> 'a \<Rightarrow> 'r list \<Rightarrow> 'r list"
    and settle :: "stamp \<Rightarrow> string \<Rightarrow> 'k \<Rightarrow> 'b \<Rightarrow> 'r list \<Rightarrow> 'r list"
  assumes claim_keys: "map key (claim now l a t) = map key t"
    and claim_live: "r \<in> set t \<Longrightarrow> holder r = Some m \<Longrightarrow> expiry r = Some e \<Longrightarrow> now < e \<Longrightarrow> r \<in> set (claim now l a t)"
    and claim_grant: "r \<in> set (claim now l a t) \<Longrightarrow> r \<in> set t \<or> holder r = None \<or> holder r = Some l"
    and settle_keys: "map key (settle now l k b t) = map key t"
    and settle_other: "r \<in> set t \<Longrightarrow> holder r \<noteq> Some l \<Longrightarrow> r \<in> set (settle now l k b t)"
    and settle_grant: "r \<in> set (settle now l k b t) \<Longrightarrow> r \<in> set t \<or> holder r = None \<or> holder r = Some l"
begin

text \<open>One action of a worker: a claim or a settlement.\<close>

definition act :: "stamp \<times> string \<times> ('a + 'k \<times> 'b) \<Rightarrow> 'r list \<Rightarrow> 'r list" where
  "act x t = (case x of (now, l, Inl a) \<Rightarrow> claim now l a t | (now, l, Inr (k, b)) \<Rightarrow> settle now l k b t)"

lemma act_keys: "map key (act x t) = map key t"
  by (auto simp: act_def claim_keys settle_keys split: prod.split sum.split)

lemma act_grant: "r \<in> set (act (now, l, w) t) \<Longrightarrow> r \<in> set t \<or> holder r = None \<or> holder r = Some l"
  using claim_grant settle_grant by (cases w) (fastforce simp: act_def split: prod.splits)+

lemma act_other:
  "r \<in> set t \<Longrightarrow> holder r = Some m \<Longrightarrow> expiry r = Some e \<Longrightarrow> now < e \<Longrightarrow> l \<noteq> m \<Longrightarrow> r \<in> set (act (now, l, w) t)"
  using claim_live[of r t m e now l] settle_other[of r t l now] by (cases w) (auto simp: act_def)

text \<open>Any number of actions of other workers before the lease runs out.\<close>

lemma acts_keep:
  assumes "r \<in> set t" "holder r = Some m" "expiry r = Some e"
    and "\<forall>(now, l, w) \<in> set xs. now < e \<and> l \<noteq> m"
  shows "r \<in> set (fold act xs t)"
  using assms
proof (induction xs arbitrary: t)
  case (Cons x xs)
  obtain now l w where x: "x = (now, l, w)" by (cases x) auto
  with Cons.prems have "r \<in> set (act x t)" by (auto intro: act_other)
  with Cons.IH[of "act x t"] Cons.prems show ?case by simp
qed simp

lemma acts_keys: "map key (fold act xs t) = map key t"
  by (induction xs arbitrary: t) (simp_all add: act_keys)

text \<open>A lease appears only by a claim of its own worker.\<close>

lemma acts_no_theft:
  assumes "r \<in> set (fold act xs t)" "holder r = Some m" "\<forall>(now, l, w) \<in> set xs. l \<noteq> m"
  shows "r \<in> set t"
  using assms
proof (induction xs arbitrary: t)
  case (Cons x xs)
  obtain now l w where x: "x = (now, l, w)" by (cases x) auto
  from Cons have "r \<in> set (act x t)" by auto
  from act_grant[OF this[unfolded x]] Cons.prems x show ?case by auto
qed simp

end

section \<open>Laws of the shared statements\<close>

lemma attempt_limit_pos: "1 \<le> attempt_limit r"
  by (simp add: attempt_limit_def)

lemma backoff_bounds: "i < length BACKOFF_MINUTES \<Longrightarrow> 1 \<le> BACKOFF_MINUTES ! i \<and> BACKOFF_MINUTES ! i \<le> 720"
  by (auto simp: BACKOFF_MINUTES_def less_Suc_eq nth_Cons' split: if_splits)

lemma next_attempt_bounds: "now + 60 \<le> next_attempt now n" "next_attempt now n \<le> now + 43200"
  using backoff_bounds[of "min (length BACKOFF_MINUTES - 1) (n - 1)"]
  by (auto simp: next_attempt_def BACKOFF_MINUTES_def)

lemma release_expired_keys [simp]: "map event_id (release_expired now t) = map event_id t"
  by (simp add: release_expired_def map_update_where)

lemma lease_row_keys [simp]: "map event_id (lease_row l now t e) = map event_id t"
  by (simp add: lease_row_def map_update_where)

lemma lease_rows_keys [simp]: "map event_id (lease_rows l now es t) = map event_id t"
  unfolding lease_rows_def by (induction es arbitrary: t) simp_all

lemma release_keep: "r \<in> set t \<Longrightarrow> \<not> expired now r \<Longrightarrow> r \<in> set (release_expired now t)"
  by (force simp: release_expired_def set_update_where)

lemma lease_row_keep: "r \<in> set t \<Longrightarrow> \<not> waiting r \<Longrightarrow> r \<in> set (lease_row l now t e)"
  by (force simp: lease_row_def set_update_where)

lemma lease_rows_keep: "r \<in> set t \<Longrightarrow> \<not> waiting r \<Longrightarrow> r \<in> set (lease_rows l now es t)"
  unfolding lease_rows_def by (induction es arbitrary: t) (simp_all add: lease_row_keep)

lemma release_new: "r \<in> set (release_expired now t) \<Longrightarrow> r \<in> set t \<or> status r = Retry_Pending"
  by (auto simp: release_expired_def set_update_where)

lemma lease_rows_new:
  "r \<in> set (lease_rows l now es t) \<Longrightarrow>
   r \<in> set t \<or> held_by l r \<and> lease_expires_at r = Some (lease_expiry now)"
proof -
  have step: "r \<in> set (lease_row l now t e) \<Longrightarrow>
    r \<in> set t \<or> held_by l r \<and> lease_expires_at r = Some (lease_expiry now)" for e and t :: "'a outbox_row_scheme list"
    by (auto simp: lease_row_def set_update_where held_by_def)
  show "r \<in> set (lease_rows l now es t) \<Longrightarrow> ?thesis"
    unfolding lease_rows_def by (induction es arbitrary: t) (auto dest: step)
qed

lemma release_claimable:
  "r \<in> set t \<Longrightarrow> expired now r \<Longrightarrow>
   r\<lparr>status := Retry_Pending, lease_id := '''', lease_expires_at := None, updated_at := now\<rparr> \<in> set (release_expired now t)"
  by (force simp: release_expired_def set_update_where)

text \<open>Columns of the settled rows.\<close>

lemma set_delivered_fields [simp]:
  "event_id (set_delivered n now r) = event_id r" "status (set_delivered n now r) = Delivered"
  "attempt_count (set_delivered n now r) = n" "max_attempts (set_delivered n now r) = max_attempts r"
  "lease_id (set_delivered n now r) = ''''" "lease_expires_at (set_delivered n now r) = None"
  "delivered_at (set_delivered n now r) = Some now" "target (set_delivered n now r) = target r"
  "created_at (set_delivered n now r) = created_at r"
  by (simp_all add: set_delivered_def)

lemma set_retry_fields [simp]:
  "event_id (set_retry n k e now r) = event_id r"
  "status (set_retry n k e now r) = (if k \<le> n then Failed else Retry_Pending)"
  "attempt_count (set_retry n k e now r) = n" "max_attempts (set_retry n k e now r) = max_attempts r"
  "lease_id (set_retry n k e now r) = ''''" "lease_expires_at (set_retry n k e now r) = None"
  "next_attempt_at (set_retry n k e now r) = (if k \<le> n then now else next_attempt now n)"
  "target (set_retry n k e now r) = target r"
  "created_at (set_retry n k e now r) = created_at r"
  by (simp_all add: set_retry_def Let_def)

lemma set_requeued_fields [simp]:
  "event_id (set_requeued now r) = event_id r" "status (set_requeued now r) = Retry_Pending"
  "attempt_count (set_requeued now r) = 0" "max_attempts (set_requeued now r) = max_attempts r"
  "lease_id (set_requeued now r) = ''''" "lease_expires_at (set_requeued now r) = None"
  "target (set_requeued now r) = target r" "created_at (set_requeued now r) = created_at r"
  by (simp_all add: set_requeued_def)

text \<open>The summary counts every row of the selected target exactly once.\<close>

lemma rowcount_statuses:
  "rowcount (\<lambda>r. q r \<and> status r = Queued) t + rowcount (\<lambda>r. q r \<and> status r = Retry_Pending) t
     + rowcount (\<lambda>r. q r \<and> status r = Delivering) t + rowcount (\<lambda>r. q r \<and> status r = Delivered) t
     + rowcount (\<lambda>r. q r \<and> status r = Failed) t = rowcount q t"
proof (induction t)
  case (Cons r t)
  then show ?case by (cases "status r"; cases "q r") (simp_all add: rowcount_def)
qed (simp add: rowcount_def)

lemma status_counts_total:
  "n_queued (status_counts tgt t) + n_retry (status_counts tgt t) + n_delivering (status_counts tgt t)
     + n_delivered (status_counts tgt t) + n_failed (status_counts tgt t)
   = rowcount (\<lambda>r. tgt = '''' \<or> target r = tgt) t"
  using rowcount_statuses[of "\<lambda>r. tgt = '''' \<or> target r = tgt" t] by (simp add: status_counts_def Let_def)

text \<open>A selected row that is waiting and due ends up under the new lease.\<close>

lemma lease_row_other: "event_id r \<noteq> e \<Longrightarrow> r \<in> set t \<Longrightarrow> r \<in> set (lease_row l now t e)"
  by (force simp: lease_row_def set_update_where)

lemma lease_row_takes:
  "r \<in> set t \<Longrightarrow> waiting r \<Longrightarrow> next_attempt_at r \<le> now \<Longrightarrow>
   r\<lparr>status := Delivering, lease_id := l, lease_expires_at := Some (lease_expiry now), updated_at := now\<rparr>
     \<in> set (lease_row l now t (event_id r))"
  by (force simp: lease_row_def set_update_where)

lemma lease_rows_takes:
  assumes "r \<in> set t" "event_id r \<in> set es" "waiting r" "next_attempt_at r \<le> now"
  shows "r\<lparr>status := Delivering, lease_id := l, lease_expires_at := Some (lease_expiry now), updated_at := now\<rparr>
     \<in> set (lease_rows l now es t)"
  using assms
proof (induction es arbitrary: t)
  case (Cons e es)
  have unfold: "lease_rows l now (e # es) t = lease_rows l now es (lease_row l now t e)"
    by (simp add: lease_rows_def)
  show ?case
  proof (cases "e = event_id r")
    case True
    then show ?thesis unfolding unfold
      using lease_row_takes[of r t now l] Cons.prems by (intro lease_rows_keep) (simp_all add: waiting_def)
  next
    case False
    then show ?thesis unfolding unfold
      using Cons lease_row_other[of r e t l now] by auto
  qed
qed simp

end
