(* ===== verification/Recon_Alert_Outbox.thy ===== *)
theory Recon_Alert_Outbox
  imports Outbox_Base "HOL-Library.Product_Lexorder"
begin

text \<open>
  \<open>src/app/recon_alert_outbox.py\<close>: the durable outbox of Recon Change Alerts.  Events are
  queued at most once per alert while one is unresolved, claimed under a lease, sent in one
  message per target and run, and settled row by row by the worker that still holds the lease.

  Outside the model: SHA-256 (\<open>sha\<close>, the hexadecimal digest of a text's UTF-8 bytes), the
  random lease ids, the clock and the transport.  The decoded payload is a record of the keys
  \<open>_message\<close> reads, \<open>None\<close> for an absent key.
\<close>

section \<open>State\<close>

record alert_payload =
  risk_score :: int
  severity :: "utext option"
  change_class :: "utext option"
  category :: "utext option"
  confirmation_state :: "utext option"
  title :: "utext option"
  item :: "utext option"

record alert_row = outbox_row +
  alert_id :: int
  run_id :: string
  payload :: alert_payload

text \<open>The columns of \<open>alerts\<close> that the outbox reads and writes.\<close>

record alert_mark =
  mark_id :: int
  last_notified :: "stamp option"

record alert_db =
  outbox :: "alert_row list"
  alerts :: "alert_mark list"

section \<open>Enqueue\<close>

definition event_key :: "(string \<Rightarrow> string) \<Rightarrow> int \<Rightarrow> string \<Rightarrow> string" where
  "event_key sha a run =
     ''RAO-'' @ take 32 (sha (''recon-alert'' @ [CHR 0x00] @ show_int a @ [CHR 0x00] @ run))"

definition unresolved_recon_alert_delivery :: "alert_db \<Rightarrow> int \<Rightarrow> alert_row option" where
  "unresolved_recon_alert_delivery db a =
     (case sort_key (\<lambda>r. - int (created_at r)) (filter (\<lambda>r. alert_id r = a \<and> status r \<noteq> Delivered) (outbox db))
      of [] \<Rightarrow> None | r # _ \<Rightarrow> Some r)"

datatype enqueue_result =
    Deduplicated string outbox_status bool
  | Blocked string outbox_status
  | Enqueued string
  | Integrity_Error

definition fresh_row :: "string \<Rightarrow> int \<Rightarrow> string \<Rightarrow> string \<Rightarrow> alert_payload \<Rightarrow> stamp \<Rightarrow> alert_row" where
  "fresh_row e a tgt run p now =
     \<lparr>event_id = e, target = tgt, status = Queued, attempt_count = 0,
      max_attempts = DEFAULT_MAX_ATTEMPTS, next_attempt_at = now, last_attempt_at = None,
      last_error = '''', lease_id = '''', lease_expires_at = None, created_at = now,
      updated_at = now, delivered_at = None, alert_id = a, run_id = run, payload = p\<rparr>"

text \<open>The insert is refused by the primary key, by \<open>UNIQUE(alert_id, run_id)\<close> and by the
  foreign key on \<open>alerts\<close>.\<close>

definition insert_refused :: "alert_db \<Rightarrow> string \<Rightarrow> int \<Rightarrow> string \<Rightarrow> bool" where
  "insert_refused db e a run \<longleftrightarrow>
     list_ex (\<lambda>r. event_id r = e \<or> alert_id r = a \<and> run_id r = run) (outbox db)
     \<or> \<not> list_ex (\<lambda>m. mark_id m = a) (alerts db)"

definition enqueue_recon_alert_event ::
    "(string \<Rightarrow> string) \<Rightarrow> stamp \<Rightarrow> int \<Rightarrow> string \<Rightarrow> string \<Rightarrow> alert_payload \<Rightarrow> alert_db \<Rightarrow> alert_db \<times> enqueue_result" where
  "enqueue_recon_alert_event sha now a tgt run p db =
     (let e = event_key sha a run
      in case select_one (\<lambda>r. event_id r = e) (outbox db) of
           Some r \<Rightarrow> (db, Deduplicated e (status r) (waiting r))
         | None \<Rightarrow>
             (case unresolved_recon_alert_delivery db a of
                Some u \<Rightarrow> (db, Blocked (event_id u) (status u))
              | None \<Rightarrow>
                  if insert_refused db e a run then (db, Integrity_Error)
                  else (db\<lparr>outbox := outbox db @ [fresh_row e a tgt run p now]\<rparr>, Enqueued e)))"

definition recon_alert_outbox_summary :: "alert_db \<Rightarrow> string \<Rightarrow> outbox_counts" where
  "recon_alert_outbox_summary db tgt = status_counts tgt (outbox db)"

section \<open>The message\<close>

definition or_text :: "utext option \<Rightarrow> string \<Rightarrow> utext" where
  "or_text v d = (case v of None \<Rightarrow> ascii d | Some s \<Rightarrow> s)"

definition change_line :: "alert_payload \<Rightarrow> utext" where
  "change_line p = [8226] @ ascii '' ['' @ or_text (severity p) ''INFO'' @ ascii ''] ['' @
     (case change_class p of Some c \<Rightarrow> c | None \<Rightarrow> or_text (category p) ''change'') @ ascii ''/'' @
     or_text (confirmation_state p) ''confirmed'' @ ascii ''] '' @
     or_text (title p) ''Recon change'' @ ascii '': '' @ or_text (item p) ''''"

definition alert_message :: "string \<Rightarrow> string \<Rightarrow> alert_row list \<Rightarrow> utext" where
  "alert_message tgt run rows =
     (let ordered = sort_key (\<lambda>r. - risk_score (payload r)) rows
      in take 15000 (py_join [10]
           ([[128680] @ ascii '' Recon Monitor '' @ ascii APP_VERSION,
             ascii ''Target: '' @ ascii tgt,
             ascii ''Run: '' @ ascii run,
             ascii ''High-priority changes: '' @ ascii (show_nat (length ordered)),
             []]
            @ map (\<lambda>r. change_line (payload r)) (take 100 ordered)
            @ (if 100 < length ordered
               then [[8226, 32, 8230] @ ascii '' and '' @ ascii (show_nat (length ordered - 100)) @ ascii '' more'']
               else []))))"

section \<open>Claim\<close>

record claim_args =
  for_target :: string
  for_run :: string
  at_most :: int

definition due :: "stamp \<Rightarrow> claim_args \<Rightarrow> alert_row \<Rightarrow> bool" where
  "due now a r \<longleftrightarrow> waiting r \<and> next_attempt_at r \<le> now
     \<and> (for_target a = '''' \<or> target r = for_target a) \<and> (for_run a = '''' \<or> run_id r = for_run a)"

definition candidates :: "stamp \<Rightarrow> claim_args \<Rightarrow> alert_row list \<Rightarrow> string list" where
  "candidates now a t = map event_id
     (take (nat (max 1 (min 500 (at_most a))))
       (sort_key (\<lambda>r. (next_attempt_at r, created_at r)) (filter (due now a) t)))"

definition claim_rows :: "stamp \<Rightarrow> string \<Rightarrow> claim_args \<Rightarrow> alert_row list \<Rightarrow> alert_row list" where
  "claim_rows now lease a t =
     (let t' = release_expired now t in lease_rows lease now (candidates now a t') t')"

definition held_rows :: "string \<Rightarrow> alert_row list \<Rightarrow> alert_row list" where
  "held_rows lease t = sort_key (\<lambda>r. (target r, run_id r, created_at r)) (filter (held_by lease) t)"

definition claim_due_rows :: "string \<Rightarrow> stamp \<Rightarrow> claim_args \<Rightarrow> alert_db \<Rightarrow> alert_db \<times> string \<times> alert_row list" where
  "claim_due_rows uuid now a db =
     (let lease = ''RAW-'' @ uuid; t = claim_rows now lease a (outbox db)
      in (db\<lparr>outbox := t\<rparr>, lease, held_rows lease t))"

section \<open>Delivery\<close>

text \<open>The guard and the update of one settlement; \<open>n\<close> and \<open>k\<close> are the attempt number and the
  attempt limit, read from the row as it was claimed.\<close>

definition owned_at :: "stamp \<Rightarrow> string \<Rightarrow> string \<Rightarrow> alert_row \<Rightarrow> bool" where
  "owned_at now lease e r \<longleftrightarrow> event_id r = e \<and> held_by lease r \<and> live_at now r"

definition settle_row ::
    "stamp \<Rightarrow> string \<Rightarrow> string \<Rightarrow> nat \<times> nat \<times> reply \<Rightarrow> alert_row list \<Rightarrow> alert_row list" where
  "settle_row now lease e = (\<lambda>(n, k, answer). update_where (owned_at now lease e)
     (if reply_delivered answer then set_delivered n now else set_retry n k (reply_error answer) now))"

record delivery_counts =
  attempted :: nat
  delivered :: nat
  retried :: nat
  failed :: nat
  lease_lost :: nat

definition finalize_row ::
    "stamp \<Rightarrow> string \<Rightarrow> reply \<Rightarrow> alert_row \<Rightarrow> alert_db \<times> delivery_counts \<Rightarrow> alert_db \<times> delivery_counts" where
  "finalize_row now lease answer row = (\<lambda>(db, c).
     (let e = event_id row; n = attempt_count row + 1; k = attempt_limit row;
          db' = db\<lparr>outbox := settle_row now lease e (n, k, answer) (outbox db)\<rparr>
      in if rowcount (owned_at now lease e) (outbox db) \<noteq> 1 then (db', c\<lparr>lease_lost := lease_lost c + 1\<rparr>)
         else if reply_delivered answer
         then (db'\<lparr>alerts := update_where (\<lambda>m. mark_id m = alert_id row) (\<lambda>m. m\<lparr>last_notified := Some now\<rparr>) (alerts db)\<rparr>,
               c\<lparr>delivered := delivered c + 1\<rparr>)
         else if k \<le> n then (db', c\<lparr>failed := failed c + 1\<rparr>)
         else (db', c\<lparr>retried := retried c + 1\<rparr>)))"

text \<open>What happens around one batch: other workers act before the ownership check and while the
  transport runs, the clock is read at both points.\<close>

record batch_env =
  others_before :: "alert_db \<Rightarrow> alert_db"
  check_time :: stamp
  transport :: "utext \<Rightarrow> reply"
  others_during :: "alert_db \<Rightarrow> alert_db"
  settle_time :: stamp

record batch_report =
  b_target :: string
  b_run :: string
  b_events :: nat
  b_delivered :: bool
  b_channel :: string
  b_error :: string

definition deliver_batch ::
    "batch_env \<Rightarrow> string \<Rightarrow> string \<times> string \<Rightarrow> alert_row list \<Rightarrow> alert_db \<times> delivery_counts \<times> batch_report list
     \<Rightarrow> alert_db \<times> delivery_counts \<times> batch_report list" where
  "deliver_batch env lease g rows = (\<lambda>(db, c, reports).
     (let db1 = others_before env db;
          mine = filter (\<lambda>row. list_ex (owned_at (check_time env) lease (event_id row)) (outbox db1)) rows
      in if mine = [] then (db1, c, reports)
         else
           let answer = transport env (alert_message (fst g) (snd g) mine);
               (db2, c2) = fold (finalize_row (settle_time env) lease answer) mine
                             (others_during env db1, c\<lparr>attempted := attempted c + length mine\<rparr>)
           in (db2, c2, reports @ [\<lparr>b_target = fst g, b_run = snd g, b_events = length mine,
                 b_delivered = reply_delivered answer, b_channel = reply_channel answer,
                 b_error = reply_error answer\<rparr>])))"

fun deliver_batches ::
    "(nat \<Rightarrow> batch_env) \<Rightarrow> nat \<Rightarrow> string \<Rightarrow> ((string \<times> string) \<times> alert_row list) list
     \<Rightarrow> alert_db \<times> delivery_counts \<times> batch_report list \<Rightarrow> alert_db \<times> delivery_counts \<times> batch_report list" where
  "deliver_batches env i lease [] s = s"
| "deliver_batches env i lease ((g, rows) # gs) s =
     deliver_batches env (Suc i) lease gs (deliver_batch (env i) lease g rows s)"

definition no_counts :: delivery_counts where
  "no_counts = \<lparr>attempted = 0, delivered = 0, retried = 0, failed = 0, lease_lost = 0\<rparr>"

text \<open>The result is the database, the number of claimed rows, the counts and the batch reports;
  \<open>env i\<close> is the environment of batch \<open>i\<close>.\<close>

definition deliver_recon_alert_outbox ::
    "string \<Rightarrow> stamp \<Rightarrow> claim_args \<Rightarrow> (nat \<Rightarrow> batch_env) \<Rightarrow> alert_db
     \<Rightarrow> alert_db \<times> nat \<times> delivery_counts \<times> batch_report list" where
  "deliver_recon_alert_outbox uuid now a env db =
     (let (db1, lease, rows) = claim_due_rows uuid now a db
      in if rows = [] then (db1, 0, no_counts, [])
         else
           let (db2, c, reports) =
                 deliver_batches env 0 lease (group_by (\<lambda>r. (target r, run_id r)) rows) (db1, no_counts, [])
           in (db2, length rows, c, reports))"

section \<open>Requeue\<close>

definition requeue_failed_recon_alerts :: "stamp \<Rightarrow> string \<Rightarrow> string \<Rightarrow> alert_db \<Rightarrow> alert_db \<times> nat" where
  "requeue_failed_recon_alerts now e tgt db =
     (let rows = filter (\<lambda>r. status r = Failed \<and> (e = '''' \<or> event_id r = e) \<and> (tgt = '''' \<or> target r = tgt)) (outbox db);
          t = foldl (\<lambda>t row. update_where (\<lambda>r. event_id r = event_id row \<and> status r = Failed) (set_requeued now) t)
                (outbox db) rows
      in (db\<lparr>outbox := t\<rparr>, length rows))"

section \<open>Settlement\<close>

lemma owned_held: "owned_at now l e r \<Longrightarrow> event_id r = e \<and> status r = Delivering \<and> lease_id r = l"
  by (simp add: owned_at_def held_by_def)

lemma settle_row_keys [simp]: "map event_id (settle_row now l e b t) = map event_id t"
  by (cases b) (simp add: settle_row_def map_update_where)

lemma settle_row_none: "\<not> list_ex (owned_at now l e) t \<Longrightarrow> settle_row now l e b t = t"
  by (cases b) (auto simp: settle_row_def update_where_def list_ex_iff intro: map_idI)

lemma settle_row_new:
  "r \<in> set (settle_row now l e (n, k, answer) t) \<Longrightarrow>
   (r \<in> set t \<and> \<not> owned_at now l e r) \<or>
   (\<exists>s \<in> set t. owned_at now l e s \<and>
      r = (if reply_delivered answer then set_delivered n now s else set_retry n k (reply_error answer) now s))"
  by (auto simp: settle_row_def set_update_where split: if_splits)

lemma rowcount_owned: "keyed event_id t \<Longrightarrow> rowcount (owned_at now l e) t = (if list_ex (owned_at now l e) t then 1 else 0)"
  using rowcount_key[of event_id t e "\<lambda>r. held_by l r \<and> live_at now r"]
  by (simp add: owned_at_def[abs_def] list_ex_iff conj_ac)

text \<open>The three outcomes of a settlement.\<close>

lemma finalize_row_lost:
  "\<not> list_ex (owned_at now l (event_id row)) (outbox db) \<Longrightarrow>
   finalize_row now l answer row (db, c) = (db, c\<lparr>lease_lost := lease_lost c + 1\<rparr>)"
  by (simp add: finalize_row_def Let_def settle_row_none rowcount_def list_ex_iff filter_empty_conv)

lemma finalize_row_outbox:
  "outbox (fst (finalize_row now l answer row (db, c))) =
   settle_row now l (event_id row) (attempt_count row + 1, attempt_limit row, answer) (outbox db)"
  by (simp add: finalize_row_def Let_def)

lemma finalize_row_counts:
  "\<exists>d r f x. snd (finalize_row now l answer row (db, c)) =
     c\<lparr>delivered := delivered c + d, retried := retried c + r, failed := failed c + f, lease_lost := lease_lost c + x\<rparr>
     \<and> d + r + f + x = 1"
proof -
  have pick: "P (1::nat) (0::nat) (0::nat) (0::nat) \<or> P 0 1 0 0 \<or> P 0 0 1 0 \<or> P 0 0 0 1 \<Longrightarrow>
      (\<And>d r f x. P d r f x \<Longrightarrow> d + r + f + x = 1 \<Longrightarrow> Q) \<Longrightarrow> Q" for P Q
    by force
  show ?thesis
    by (rule pick[where P = "\<lambda>d r f x. snd (finalize_row now l answer row (db, c)) =
          c\<lparr>delivered := delivered c + d, retried := retried c + r, failed := failed c + f, lease_lost := lease_lost c + x\<rparr>"])
       (auto simp: finalize_row_def Let_def)
qed

lemma finalize_fold_counts:
  "\<exists>d r f x. snd (fold (finalize_row now l answer) rows (db, c)) =
     c\<lparr>delivered := delivered c + d, retried := retried c + r, failed := failed c + f, lease_lost := lease_lost c + x\<rparr>
     \<and> d + r + f + x = length rows"
proof (induction rows arbitrary: db c)
  case Nil
  show ?case by (intro exI[of _ 0]) simp
next
  case (Cons row rows)
  obtain db1 c1 where 1: "finalize_row now l answer row (db, c) = (db1, c1)" by fastforce
  from finalize_row_counts[of now l answer row db c] obtain d r f x where
    c1: "c1 = c\<lparr>delivered := delivered c + d, retried := retried c + r, failed := failed c + f, lease_lost := lease_lost c + x\<rparr>"
    and s1: "d + r + f + x = 1" using 1 by auto
  from Cons.IH[of db1 c1] obtain d' r' f' x' where
    2: "snd (fold (finalize_row now l answer) rows (db1, c1)) = c1\<lparr>delivered := delivered c1 + d',
       retried := retried c1 + r', failed := failed c1 + f', lease_lost := lease_lost c1 + x'\<rparr>"
    and s2: "d' + r' + f' + x' = length rows" by blast
  show ?case
    by (rule exI[of _ "d + d'"], rule exI[of _ "r + r'"], rule exI[of _ "f + f'"], rule exI[of _ "x + x'"])
       (use 1 2 c1 s1 s2 in \<open>simp add: add.assoc\<close>)
qed

definition accounted :: "delivery_counts \<Rightarrow> bool" where
  "accounted c \<longleftrightarrow> attempted c = delivered c + retried c + failed c + lease_lost c"

lemma deliver_batch_counts:
  "deliver_batch env l g rows (db, c, bs) = (db', c', bs') \<Longrightarrow>
   (accounted c \<longrightarrow> accounted c')
   \<and> (\<exists>n \<le> length rows. attempted c' = attempted c + n \<and> sum_list (map b_events bs') = sum_list (map b_events bs) + n)"
proof -
  assume d: "deliver_batch env l g rows (db, c, bs) = (db', c', bs')"
  define mine where
    "mine = filter (\<lambda>row. list_ex (owned_at (check_time env) l (event_id row)) (outbox (others_before env db))) rows"
  define answer where "answer = transport env (alert_message (fst g) (snd g) mine)"
  define start where "start = (others_during env (others_before env db), c\<lparr>attempted := attempted c + length mine\<rparr>)"
  obtain x y z w where f: "snd (fold (finalize_row (settle_time env) l answer) mine start) =
      c\<lparr>attempted := attempted c + length mine, delivered := delivered c + x, retried := retried c + y,
        failed := failed c + z, lease_lost := lease_lost c + w\<rparr>" "x + y + z + w = length mine"
    using finalize_fold_counts[of "settle_time env" l answer mine "fst start" "snd start"] by (auto simp: start_def)
  have le: "length mine \<le> length rows" by (simp add: mine_def)
  show ?thesis
  proof (cases "mine = []")
    case True
    then have "c' = c" "bs' = bs" using d by (simp_all add: deliver_batch_def mine_def[symmetric])
    then show ?thesis by auto
  next
    case False
    then have "c' = snd (fold (finalize_row (settle_time env) l answer) mine start)"
      and "map b_events bs' = map b_events bs @ [length mine]"
      using d by (auto simp: deliver_batch_def Let_def mine_def[symmetric] answer_def[symmetric] start_def[symmetric]
          split: prod.splits)
    then show ?thesis using f le by (auto simp: accounted_def)
  qed
qed

lemma deliver_batches_counts:
  "deliver_batches env i l gs (db, c, bs) = (db', c', bs') \<Longrightarrow>
   (accounted c \<longrightarrow> accounted c')
   \<and> (\<exists>n \<le> sum_list (map (\<lambda>(g, rows). length rows) gs).
        attempted c' = attempted c + n \<and> sum_list (map b_events bs') = sum_list (map b_events bs) + n)"
proof (induction gs arbitrary: i db c bs)
  case (Cons grp gs)
  obtain g rows where grp: "grp = (g, rows)" by fastforce
  obtain db1 c1 bs1 where 1: "deliver_batch (env i) l g rows (db, c, bs) = (db1, c1, bs1)" by (metis prod_cases3)
  with Cons.prems grp have "deliver_batches env (Suc i) l gs (db1, c1, bs1) = (db', c', bs')" by simp
  from Cons.IH[OF this] deliver_batch_counts[OF 1] grp show ?case by fastforce
qed simp

section \<open>Claims\<close>

text \<open>What a claim does to each row, and that it loses none.\<close>

lemma claim_rows_keys [simp]: "map event_id (claim_rows now l a t) = map event_id t"
  by (simp add: claim_rows_def Let_def)

lemma claim_rows_keep: "r \<in> set t \<Longrightarrow> \<not> waiting r \<Longrightarrow> \<not> expired now r \<Longrightarrow> r \<in> set (claim_rows now l a t)"
  by (simp add: claim_rows_def Let_def lease_rows_keep release_keep)

lemma claim_rows_new:
  "r \<in> set (claim_rows now l a t) \<Longrightarrow>
   r \<in> set t \<or> status r = Retry_Pending \<or> held_by l r \<and> lease_expires_at r = Some (lease_expiry now)"
  by (auto simp: claim_rows_def Let_def dest!: lease_rows_new release_new)

lemma held_rows_mem: "r \<in> set (held_rows l t) \<longleftrightarrow> r \<in> set t \<and> held_by l r"
  by (auto simp: held_rows_def)

interpretation alert_lease: lease_table event_id
    "\<lambda>r :: alert_row. if status r = Delivering then Some (lease_id r) else None"
    lease_expires_at claim_rows settle_row
proof (unfold_locales, goal_cases)
  case (2 r t m e now l a)
  then show ?case by (intro claim_rows_keep) (auto simp: waiting_def expired_def split: if_splits)
next
  case (3 r now l a t)
  then show ?case by (auto simp: held_by_def dest!: claim_rows_new)
next
  case (5 r t l now k b)
  then have "\<not> owned_at now l k r" by (auto simp: owned_at_def held_by_def split: if_splits)
  with 5 show ?case by (cases b) (force simp: settle_row_def set_update_where)
next
  case (6 r now l k b t)
  then show ?case by (cases b) (auto dest!: settle_row_new split: if_splits)
qed simp_all

section \<open>Properties\<close>

text \<open>No due alert is lost: when the claim limit is large enough for the rows that are due, every
  row that is waiting or whose worker let its lease run out, and whose next attempt is due, is handed
  to the claiming worker with a new lease of five minutes; in particular the rows of a crashed worker
  become deliverable again.\<close>

theorem due_alerts_are_claimed:
  assumes "for_target a = ''''" "for_run a = ''''"
    and "int (length (outbox db)) \<le> at_most a" "length (outbox db) \<le> 500"
    and "r \<in> set (outbox db)" "waiting r \<or> expired now r" "next_attempt_at r \<le> now"
  shows "case claim_due_rows uuid now a db of (db', lease, rows) \<Rightarrow>
     lease = ''RAW-'' @ uuid \<and> r\<lparr>status := Delivering, lease_id := lease,
       lease_expires_at := Some (now + 300), updated_at := now\<rparr> \<in> set rows"
proof -
  let ?t = "release_expired now (outbox db)" and ?l = "''RAW-'' @ uuid"
  have len: "length (filter (due now a) ?t) \<le> nat (max 1 (min 500 (at_most a)))"
    using assms(3,4) length_filter_le[of "due now a" ?t] by (simp add: release_expired_def)
  define q where "q = (if expired now r then r\<lparr>status := Retry_Pending, lease_id := '''', lease_expires_at := None,
      updated_at := now\<rparr> else r)"
  have q: "q \<in> set ?t" using assms(5) release_claimable[of r "outbox db" now] release_keep[of r "outbox db" now]
    by (simp add: q_def)
  have qw: "waiting q" "next_attempt_at q \<le> now" "event_id q = event_id r"
    using assms(6,7) by (auto simp: q_def waiting_def)
  have "event_id q \<in> set (candidates now a ?t)"
    using len q qw(1,2) assms(1,2) by (simp add: candidates_def due_def)
  from lease_rows_takes[OF q this qw(1,2), of ?l]
  have "q\<lparr>status := Delivering, lease_id := ?l, lease_expires_at := Some (lease_expiry now), updated_at := now\<rparr>
      \<in> set (claim_rows now ?l a (outbox db))"
    by (simp add: claim_rows_def Let_def)
  then have "r\<lparr>status := Delivering, lease_id := ?l, lease_expires_at := Some (lease_expiry now), updated_at := now\<rparr>
      \<in> set (held_rows ?l (claim_rows now ?l a (outbox db)))"
    by (simp add: held_rows_mem held_by_def q_def split: if_splits)
  then show ?thesis
    by (simp add: claim_due_rows_def Let_def lease_expiry_def LEASE_MINUTES_def)
qed

definition sample_row :: "string \<Rightarrow> outbox_status \<Rightarrow> string \<Rightarrow> stamp option \<Rightarrow> alert_row" where
  "sample_row e st l x = (fresh_row e 1 ''t'' ''r'' \<lparr>risk_score = 0, severity = None, change_class = None,
     category = None, confirmation_state = None, title = None, item = None\<rparr> 0)
     \<lparr>status := st, lease_id := l, lease_expires_at := x\<rparr>"

lemma sample_row_fields [simp]:
  "event_id (sample_row e st l x) = e" "status (sample_row e st l x) = st"
  "lease_id (sample_row e st l x) = l" "lease_expires_at (sample_row e st l x) = x"
  "next_attempt_at (sample_row e st l x) = 0"
  by (simp_all add: sample_row_def fresh_row_def)

theorem due_alerts_are_claimed_witness:
  "case claim_due_rows ''2'' 900 \<lparr>for_target = '''', for_run = '''', at_most = 50\<rparr>
      \<lparr>outbox = [sample_row ''e'' Delivering ''RAW-1'' (Some 400)], alerts = []\<rparr> of (db', lease, rows) \<Rightarrow>
     lease = ''RAW-'' @ ''2'' \<and> (sample_row ''e'' Delivering ''RAW-1'' (Some 400))\<lparr>status := Delivering, lease_id := lease,
       lease_expires_at := Some (900 + 300), updated_at := 900\<rparr> \<in> set rows"
  by (rule due_alerts_are_claimed) (simp_all add: expired_def)

text \<open>C10: A delivery run of the recon alert outbox accounts for every claimed row it attempts:
  whatever other workers do to the tables before and during each transport call, whatever the
  transport answers and whatever the clock shows, the attempted rows are exactly the delivered,
  retried, finally failed and lease-lost ones, they are the events of the batch reports, and
  there are no more of them than rows were due.\<close>

theorem delivery_accounts_for_every_attempt:
  "case deliver_recon_alert_outbox uuid now a env db of (db', due_rows, c, reports) \<Rightarrow>
     attempted c = delivered c + retried c + failed c + lease_lost c
     \<and> attempted c = sum_list (map b_events reports) \<and> attempted c \<le> due_rows"
proof -
  obtain db1 lease rows where 1: "claim_due_rows uuid now a db = (db1, lease, rows)" by (metis prod_cases3)
  define gs where "gs = group_by (\<lambda>r. (target r, run_id r)) rows"
  obtain db2 c reports where 2: "deliver_batches env 0 lease gs (db1, no_counts, []) = (db2, c, reports)"
    by (metis prod_cases3)
  have 0: "accounted no_counts" "attempted no_counts = 0" by (simp_all add: no_counts_def accounted_def)
  from deliver_batches_counts[OF 2] 0
  have "accounted c" "attempted c = sum_list (map b_events reports)" "attempted c \<le> length rows"
    by (auto simp: gs_def length_group_by)
  then show ?thesis
    using 1 2 by (auto simp: deliver_recon_alert_outbox_def accounted_def no_counts_def gs_def[symmetric])
qed

text \<open>C5: Only the holder of a live lease can settle an alert: when the row is no longer
  delivering under the worker's lease, or the lease has run out at settlement time, finalizing it
  changes neither the outbox nor \<open>alerts.last_notified\<close>, whatever the transport answered, and is
  counted as a lost lease.\<close>

theorem stale_worker_cannot_settle:
  assumes "\<forall>r \<in> set (outbox db). event_id r = event_id row \<longrightarrow>
     status r \<noteq> Delivering \<or> lease_id r \<noteq> lease \<or> \<not> live_at now r"
  shows "finalize_row now lease answer row (db, c) = (db, c\<lparr>lease_lost := lease_lost c + 1\<rparr>)"
  using assms by (intro finalize_row_lost) (auto simp: owned_at_def held_by_def list_ex_iff)

theorem stale_worker_cannot_settle_witness:
  "finalize_row 100 ''RAW-1'' (Answered True ''telegram'' [] '''') (sample_row ''e'' Delivering ''RAW-1'' (Some 90))
     (\<lparr>outbox = [sample_row ''e'' Delivering ''RAW-1'' (Some 90)], alerts = []\<rparr>, no_counts)
   = (\<lparr>outbox = [sample_row ''e'' Delivering ''RAW-1'' (Some 90)], alerts = []\<rparr>, no_counts\<lparr>lease_lost := 1\<rparr>)"
  using stale_worker_cannot_settle[of
      "\<lparr>outbox = [sample_row ''e'' Delivering ''RAW-1'' (Some 90)], alerts = []\<rparr>"
      "sample_row ''e'' Delivering ''RAW-1'' (Some 90)" "''RAW-1''" 100 _ no_counts]
  by (simp add: live_at_def no_counts_def)

text \<open>A live lease on an alert row is exclusive: before it runs out, no sequence of claims and
  settlements by workers with other lease ids, at whatever times and in whatever order, changes the
  row.\<close>

theorem alert_lease_is_exclusive:
  assumes "r \<in> set t" "status r = Delivering" "lease_expires_at r = Some e"
    and "\<forall>(now, l, w) \<in> set actions. now < e \<and> l \<noteq> lease_id r"
  shows "r \<in> set (fold (\<lambda>(now, l, w) t. case w of Inl a \<Rightarrow> claim_rows now l a t
                       | Inr (k, outcome) \<Rightarrow> settle_row now l k outcome t) actions t)"
proof -
  have "(\<lambda>(now, l, w) t. case w of Inl a \<Rightarrow> claim_rows now l a t
           | Inr (k, outcome) \<Rightarrow> settle_row now l k outcome t) = alert_lease.act"
    by (auto simp: alert_lease.act_def fun_eq_iff split: sum.split)
  with alert_lease.acts_keep[of r t "lease_id r" e actions] assms show ?thesis by simp
qed

theorem alert_lease_is_exclusive_witness:
  "sample_row ''e'' Delivering ''RAW-1'' (Some 300) \<in> set
     (fold (\<lambda>(now, l, w) t. case w of Inl a \<Rightarrow> claim_rows now l a t
             | Inr (k, outcome) \<Rightarrow> settle_row now l k outcome t)
       [(200, ''RAW-2'', Inl \<lparr>for_target = '''', for_run = '''', at_most = 50\<rparr>),
        (250, ''RAW-2'', Inr (''e'', 1, 8, Raised ''timeout''))]
       [sample_row ''e'' Delivering ''RAW-1'' (Some 300)])"
  by (rule alert_lease_is_exclusive[where e = 300]) simp_all

end
