(* ===== verification/Alert_Outbox_System.thy ===== *)
theory Alert_Outbox_System
  imports Recon_Alert_Outbox
begin

text \<open>
  The recon alert outbox under any number of concurrent workers: a step relation whose steps are
  the transactions of \<open>recon_alert_outbox.py\<close> (enqueue, claim, one settlement, requeue) in any
  order, and the invariant that every reachable database keeps.  The rows a worker claimed stay
  with it as the snapshot it later settles from.
\<close>

record alert_sys =
  adb :: alert_db
  snapshots :: "(string \<times> alert_row list) list"

inductive alert_step :: "(string \<Rightarrow> string) \<Rightarrow> alert_sys \<Rightarrow> alert_sys \<Rightarrow> bool" for sha where
  note_alert: "alert_step sha s (s\<lparr>adb := (adb s)\<lparr>alerts := m # alerts (adb s)\<rparr>\<rparr>)"
| enqueue: "alert_step sha s (s\<lparr>adb := fst (enqueue_recon_alert_event sha now a tgt run p (adb s))\<rparr>)"
| claim: "''RAW-'' @ uuid \<notin> fst ` set (snapshots s) \<Longrightarrow> claim_due_rows uuid now args (adb s) = (db', lease, rows) \<Longrightarrow>
    alert_step sha s (s\<lparr>adb := db', snapshots := (lease, rows) # snapshots s\<rparr>)"
| settle: "(lease, rows) \<in> set (snapshots s) \<Longrightarrow> row \<in> set rows \<Longrightarrow>
    alert_step sha s (s\<lparr>adb := fst (finalize_row now lease answer row (adb s, no_counts))\<rparr>)"
| requeue: "alert_step sha s (s\<lparr>adb := fst (requeue_failed_recon_alerts now e tgt (adb s))\<rparr>)"

definition empty_sys :: alert_sys where
  "empty_sys = \<lparr>adb = \<lparr>outbox = [], alerts = []\<rparr>, snapshots = []\<rparr>"

inductive alert_reachable :: "(string \<Rightarrow> string) \<Rightarrow> alert_sys \<Rightarrow> bool" for sha where
  start: "alert_reachable sha empty_sys"
| step: "alert_reachable sha s \<Longrightarrow> alert_step sha s s' \<Longrightarrow> alert_reachable sha s'"

section \<open>Invariant\<close>

text \<open>One row: the attempts stay within the limit, a row fails exactly when they are used up, and it
  carries a lease with an expiry exactly while it is being delivered.\<close>

definition row_ok :: "string set \<Rightarrow> alert_row \<Rightarrow> bool" where
  "row_ok leases r \<longleftrightarrow>
     attempt_count r \<le> attempt_limit r
     \<and> (waiting r \<or> status r = Delivering \<longrightarrow> attempt_count r < attempt_limit r)
     \<and> (status r = Failed \<longrightarrow> attempt_count r = attempt_limit r)
     \<and> (status r = Delivering \<longleftrightarrow> lease_expires_at r \<noteq> None)
     \<and> (if status r = Delivering then lease_id r \<in> leases else lease_id r = '''')"

text \<open>At most one row of an alert is not delivered yet.\<close>

definition one_open :: "alert_row list \<Rightarrow> bool" where
  "one_open t \<longleftrightarrow> (\<forall>r \<in> set t. \<forall>q \<in> set t.
     alert_id r = alert_id q \<and> status r \<noteq> Delivered \<and> status q \<noteq> Delivered \<longrightarrow> event_id r = event_id q)"

text \<open>While a worker holds a row, its snapshot of the row is current.\<close>

definition snapshots_current :: "(string \<times> alert_row list) list \<Rightarrow> alert_row list \<Rightarrow> bool" where
  "snapshots_current cl t \<longleftrightarrow> (\<forall>(l, rows) \<in> set cl. \<forall>row \<in> set rows. \<forall>r \<in> set t.
     event_id r = event_id row \<and> held_by l r \<longrightarrow>
     attempt_count r = attempt_count row \<and> attempt_limit r = attempt_limit row)"

definition alert_inv :: "alert_sys \<Rightarrow> bool" where
  "alert_inv s \<longleftrightarrow>
     keyed event_id (outbox (adb s))
     \<and> (\<forall>r \<in> set (outbox (adb s)). row_ok (fst ` set (snapshots s)) r)
     \<and> one_open (outbox (adb s)) \<and> snapshots_current (snapshots s) (outbox (adb s))"

text \<open>\<open>r\<close> descends from \<open>q\<close>: the same event of the same alert, and a delivered one stays so.\<close>

definition descends :: "alert_row \<Rightarrow> alert_row \<Rightarrow> bool" where
  "descends q r \<longleftrightarrow> event_id r = event_id q \<and> alert_id r = alert_id q \<and> (status q = Delivered \<longrightarrow> status r = Delivered)"

lemma one_openD:
  "one_open t \<Longrightarrow> r \<in> set t \<Longrightarrow> q \<in> set t \<Longrightarrow> alert_id r = alert_id q \<Longrightarrow> status r \<noteq> Delivered \<Longrightarrow>
   status q \<noteq> Delivered \<Longrightarrow> event_id r = event_id q"
  unfolding one_open_def by blast

lemma one_openI:
  "(\<And>r q. r \<in> set t \<Longrightarrow> q \<in> set t \<Longrightarrow> alert_id r = alert_id q \<Longrightarrow> status r \<noteq> Delivered \<Longrightarrow>
     status q \<noteq> Delivered \<Longrightarrow> event_id r = event_id q) \<Longrightarrow> one_open t"
  unfolding one_open_def by blast

lemma one_open_descends:
  assumes "one_open t" "\<forall>r \<in> set t'. \<exists>q \<in> set t. descends q r"
  shows "one_open t'"
proof (rule one_openI)
  fix r r' assume r: "r \<in> set t'" "r' \<in> set t'" "alert_id r = alert_id r'" "status r \<noteq> Delivered" "status r' \<noteq> Delivered"
  from assms(2) r(1,2) obtain q q' where q: "q \<in> set t" "q' \<in> set t" "descends q r" "descends q' r'" by blast
  have "event_id q = event_id q'"
    by (rule one_openD[OF assms(1) q(1,2)]) (use q(3,4) r in \<open>auto simp: descends_def\<close>)
  with q show "event_id r = event_id r'" by (simp add: descends_def)
qed

lemma alert_inv_rows:
  assumes inv: "alert_inv s"
    and keys: "map event_id (outbox db') = map event_id (outbox (adb s))"
    and rows: "\<And>r. r \<in> set (outbox db') \<Longrightarrow> \<exists>q \<in> set (outbox (adb s)). descends q r
        \<and> (row_ok (fst ` set (snapshots s)) q \<longrightarrow> row_ok (fst ` set cl) r)"
    and snap: "snapshots_current cl (outbox db')"
  shows "alert_inv (s\<lparr>adb := db', snapshots := cl\<rparr>)"
proof -
  have "one_open (outbox db')"
    using inv rows by - (rule one_open_descends[of "outbox (adb s)"], auto simp: alert_inv_def)
  moreover have "row_ok (fst ` set cl) r" if "r \<in> set (outbox db')" for r
    using rows[OF that] inv by (auto simp: alert_inv_def)
  ultimately show ?thesis
    using inv snap by (simp add: alert_inv_def keyed_def keys)
qed

lemma snapshots_current_held:
  "snapshots_current cl t \<Longrightarrow> (\<And>l r. l \<in> fst ` set cl \<Longrightarrow> r \<in> set t' \<Longrightarrow> held_by l r \<Longrightarrow> r \<in> set t) \<Longrightarrow>
   snapshots_current cl t'"
  unfolding snapshots_current_def by (fastforce simp: image_iff)

lemma alert_inv_rows_same:
  assumes "alert_inv s"
    and "map event_id (outbox db') = map event_id (outbox (adb s))"
    and "\<And>r. r \<in> set (outbox db') \<Longrightarrow> \<exists>q \<in> set (outbox (adb s)). descends q r
        \<and> (row_ok (fst ` set (snapshots s)) q \<longrightarrow> row_ok (fst ` set (snapshots s)) r)"
    and "snapshots_current (snapshots s) (outbox db')"
  shows "alert_inv (s\<lparr>adb := db'\<rparr>)"
  using alert_inv_rows[OF assms] by (cases s) simp

lemma attempt_limit_fresh [simp]: "attempt_limit (fresh_row e a tgt run p now) = 8"
  by (simp add: attempt_limit_def fresh_row_def DEFAULT_MAX_ATTEMPTS_def)

lemma fresh_row_fields [simp]:
  "event_id (fresh_row e a tgt run p now) = e" "alert_id (fresh_row e a tgt run p now) = a"
  "status (fresh_row e a tgt run p now) = Queued" "attempt_count (fresh_row e a tgt run p now) = 0"
  "lease_id (fresh_row e a tgt run p now) = ''''" "lease_expires_at (fresh_row e a tgt run p now) = None"
  by (simp_all add: fresh_row_def)

lemma unresolved_None:
  assumes "unresolved_recon_alert_delivery db a = None" "r \<in> set (outbox db)" "alert_id r = a"
  shows "status r = Delivered"
proof -
  have "sort_key k xs = [] \<longleftrightarrow> xs = []" for k :: "alert_row \<Rightarrow> int" and xs
    by (metis length_0_conv length_sort)
  with assms show ?thesis
    by (auto simp: unresolved_recon_alert_delivery_def filter_empty_conv split: list.splits)
qed

lemma enqueue_cases:
  "fst (enqueue_recon_alert_event sha now a tgt run p db) = db
   \<or> (\<exists>e. fst (enqueue_recon_alert_event sha now a tgt run p db) = db\<lparr>outbox := outbox db @ [fresh_row e a tgt run p now]\<rparr>
        \<and> (\<forall>r \<in> set (outbox db). event_id r \<noteq> e) \<and> (\<forall>r \<in> set (outbox db). alert_id r = a \<longrightarrow> status r = Delivered))"
  by (auto simp: enqueue_recon_alert_event_def Let_def insert_refused_def list_ex_iff
      dest: unresolved_None split: option.splits)

lemma one_open_snoc:
  assumes "one_open t" "\<forall>r \<in> set t. alert_id r = alert_id n \<longrightarrow> status r = Delivered"
  shows "one_open (t @ [n])"
proof (rule one_openI)
  fix r q assume "r \<in> set (t @ [n])" "q \<in> set (t @ [n])" "alert_id r = alert_id q" "status r \<noteq> Delivered" "status q \<noteq> Delivered"
  then show "event_id r = event_id q"
    using assms(2) by (cases "r \<in> set t"; cases "q \<in> set t") (auto intro: one_openD[OF assms(1)])
qed

lemma enqueue_inv: "alert_inv s \<Longrightarrow> alert_inv (s\<lparr>adb := fst (enqueue_recon_alert_event sha now a tgt run p (adb s))\<rparr>)"
proof -
  assume inv: "alert_inv s"
  from enqueue_cases[of sha now a tgt run p "adb s"] show ?thesis
  proof (elim disjE exE conjE, goal_cases)
    case 1
    with inv show ?case by simp
  next
    case (2 e)
    let ?n = "fresh_row e a tgt run p now"
    have ok: "row_ok L ?n" for L by (simp add: row_ok_def waiting_def)
    have cur: "snapshots_current (snapshots s) (outbox (adb s) @ [?n])"
      using inv by - (rule snapshots_current_held[of "snapshots s" "outbox (adb s)"],
        auto simp: alert_inv_def held_by_def)
    have "one_open (outbox (adb s) @ [?n])"
      using inv 2(3) by - (rule one_open_snoc, auto simp: alert_inv_def)
    with ok cur inv 2(1,2) show ?case by (auto simp: alert_inv_def keyed_def)
  qed
qed

lemma requeue_rows:
  "r \<in> set (outbox (fst (requeue_failed_recon_alerts now e tgt db))) \<Longrightarrow>
   r \<in> set (outbox db) \<or> (\<exists>q \<in> set (outbox db). status q = Failed \<and> r = set_requeued now q)"
proof -
  have step: "r \<in> set t \<or> (\<exists>q \<in> set t. status q = Failed \<and> r = set_requeued now q)"
    if "r \<in> set (foldl (\<lambda>t row. update_where (\<lambda>r. event_id r = event_id row \<and> status r = Failed) (set_requeued now) t) t rows)"
    for rows :: "alert_row list" and t
    using that
  proof (induction rows arbitrary: t)
    case (Cons row rows)
    from Cons.IH[OF Cons.prems[simplified]] show ?case by (auto simp: set_update_where split: if_splits)
  qed simp
  show "r \<in> set (outbox (fst (requeue_failed_recon_alerts now e tgt db))) \<Longrightarrow> ?thesis"
    using step by (auto simp: requeue_failed_recon_alerts_def Let_def)
qed

lemma requeue_keys: "map event_id (outbox (fst (requeue_failed_recon_alerts now e tgt db))) = map event_id (outbox db)"
proof -
  have "map event_id (foldl (\<lambda>t row. update_where (\<lambda>r. event_id r = event_id row \<and> status r = Failed) (set_requeued now) t) t rows)
      = map event_id t" for rows :: "alert_row list" and t
    by (induction rows arbitrary: t) (simp_all add: map_update_where)
  then show ?thesis by (simp add: requeue_failed_recon_alerts_def Let_def)
qed

lemma attempt_limit_cong: "max_attempts r = max_attempts q \<Longrightarrow> attempt_limit r = attempt_limit q"
  by (simp add: attempt_limit_def)

lemma alert_id_settled [simp]:
  "alert_id (set_delivered n now r) = alert_id r" "alert_id (set_retry n k e now r) = alert_id r"
  "alert_id (set_requeued now r) = alert_id r"
  by (simp_all add: set_delivered_def set_retry_def set_requeued_def Let_def)

lemma attempt_limit_settled [simp]:
  "attempt_limit (set_delivered n now r) = attempt_limit r" "attempt_limit (set_retry n k e now r) = attempt_limit r"
  "attempt_limit (set_requeued now r) = attempt_limit r"
  by (simp_all add: attempt_limit_def)

lemma requeue_inv: "alert_inv s \<Longrightarrow> alert_inv (s\<lparr>adb := fst (requeue_failed_recon_alerts now e tgt (adb s))\<rparr>)"
proof -
  assume inv: "alert_inv s"
  let ?db = "fst (requeue_failed_recon_alerts now e tgt (adb s))"
  show ?thesis
  proof (rule alert_inv_rows_same[OF inv requeue_keys])
    have ok: "row_ok L (set_requeued now q)" for L q
      using attempt_limit_pos[of q] by (simp add: row_ok_def waiting_def)
    fix r assume "r \<in> set (outbox ?db)"
    from requeue_rows[OF this] ok
    show "\<exists>q \<in> set (outbox (adb s)). descends q r
        \<and> (row_ok (fst ` set (snapshots s)) q \<longrightarrow> row_ok (fst ` set (snapshots s)) r)"
      by (auto simp: descends_def)
  next
    show "snapshots_current (snapshots s) (outbox ?db)"
      using inv by - (rule snapshots_current_held[of "snapshots s" "outbox (adb s)"],
        auto simp: alert_inv_def held_by_def dest: requeue_rows)
  qed
qed

lemma row_ok_mono: "L \<subseteq> L' \<Longrightarrow> row_ok L r \<Longrightarrow> row_ok L' r"
  by (auto simp: row_ok_def)

lemma release_from:
  assumes "r \<in> set (release_expired now t)"
  shows "\<exists>q \<in> set t. descends q r \<and> (row_ok L q \<longrightarrow> row_ok L r)"
proof -
  from assms obtain q where q: "q \<in> set t" "r = (if expired now q
      then q\<lparr>status := Retry_Pending, lease_id := '''', lease_expires_at := None, updated_at := now\<rparr> else q)"
    by (auto simp: release_expired_def set_update_where)
  then have "descends q r \<and> (row_ok L q \<longrightarrow> row_ok L r)"
    by (auto simp: descends_def row_ok_def waiting_def expired_def attempt_limit_def)
  with q show ?thesis by blast
qed

lemma lease_row_from:
  assumes "r \<in> set (lease_row l now t e)" "l \<in> L"
  shows "\<exists>q \<in> set t. descends q r \<and> (row_ok L q \<longrightarrow> row_ok L r)"
proof -
  from assms obtain q where q: "q \<in> set t" "r = (if event_id q = e \<and> waiting q \<and> next_attempt_at q \<le> now
      then q\<lparr>status := Delivering, lease_id := l, lease_expires_at := Some (lease_expiry now), updated_at := now\<rparr> else q)"
    by (auto simp: lease_row_def set_update_where)
  then have "descends q r \<and> (row_ok L q \<longrightarrow> row_ok L r)"
    using assms(2) by (auto simp: descends_def row_ok_def waiting_def attempt_limit_def)
  with q show ?thesis by blast
qed

lemma descends_trans: "descends p q \<Longrightarrow> descends q r \<Longrightarrow> descends p r"
  by (auto simp: descends_def)

lemma lease_rows_from:
  assumes "r \<in> set (lease_rows l now es t)" "l \<in> L"
  shows "\<exists>q \<in> set t. descends q r \<and> (row_ok L q \<longrightarrow> row_ok L r)"
  using assms(1)
proof (induction es arbitrary: t)
  case Nil
  then show ?case by (auto simp: lease_rows_def descends_def)
next
  case (Cons e es)
  then have "r \<in> set (lease_rows l now es (lease_row l now t e))" by (simp add: lease_rows_def)
  from Cons.IH[OF this] obtain q where "q \<in> set (lease_row l now t e)" "descends q r" "row_ok L q \<longrightarrow> row_ok L r" by blast
  with lease_row_from[OF _ assms(2), of q now t e] show ?case by (blast intro: descends_trans)
qed

lemma claim_rows_from:
  assumes "r \<in> set (claim_rows now l a t)" "l \<in> L"
  shows "\<exists>q \<in> set t. descends q r \<and> (row_ok L q \<longrightarrow> row_ok L r)"
proof -
  from lease_rows_from[OF _ assms(2)] assms(1) obtain q where
    "q \<in> set (release_expired now t)" "descends q r" "row_ok L q \<longrightarrow> row_ok L r"
    by (fastforce simp: claim_rows_def Let_def)
  with release_from[of q now t L] show ?thesis by (blast intro: descends_trans)
qed

lemma snapshots_current_claim:
  assumes cur: "snapshots_current cl t" and fresh: "l \<notin> fst ` set cl" and keys: "keyed event_id (claim_rows now l a t)"
  shows "snapshots_current ((l, held_rows l (claim_rows now l a t)) # cl) (claim_rows now l a t)"
proof -
  let ?t = "claim_rows now l a t"
  have old: "snapshots_current cl ?t"
  proof (rule snapshots_current_held[OF cur])
    fix m r assume "m \<in> fst ` set cl" "r \<in> set ?t" "held_by m r"
    with fresh claim_rows_new[of r now l a t] show "r \<in> set t" by (auto simp: held_by_def)
  qed
  have new: "row = r" if "row \<in> set (held_rows l ?t)" "r \<in> set ?t" "event_id r = event_id row" for row r
    using keyed_unique[OF keys, of row r] that by (simp add: held_rows_mem)
  show ?thesis
    unfolding snapshots_current_def
  proof (intro ballI, clarsimp, elim disjE conjE, goal_cases)
    case (1 m rows row r)
    with new[of row r] show ?case by simp
  next
    case (2 m rows row r)
    with old show ?case unfolding snapshots_current_def by blast
  qed
qed

lemma claim_inv:
  assumes inv: "alert_inv s" and fresh: "''RAW-'' @ uuid \<notin> fst ` set (snapshots s)"
    and c: "claim_due_rows uuid now a (adb s) = (db', lease, rows)"
  shows "alert_inv (s\<lparr>adb := db', snapshots := (lease, rows) # snapshots s\<rparr>)"
proof (rule alert_inv_rows[OF inv])
  let ?l = "''RAW-'' @ uuid" and ?L = "insert lease (fst ` set (snapshots s))"
  from c have db': "outbox db' = claim_rows now ?l a (outbox (adb s))" and l: "lease = ?l"
    and rows: "rows = held_rows ?l (outbox db')"
    by (auto simp: claim_due_rows_def Let_def)
  show keys: "map event_id (outbox db') = map event_id (outbox (adb s))" by (simp add: db')
  show "\<exists>q \<in> set (outbox (adb s)). descends q r
      \<and> (row_ok (fst ` set (snapshots s)) q \<longrightarrow> row_ok (fst ` set ((lease, rows) # snapshots s)) r)"
    if "r \<in> set (outbox db')" for r
    using claim_rows_from[of r now ?l a "outbox (adb s)" ?L] that row_ok_mono[of "fst ` set (snapshots s)" ?L]
    by (fastforce simp: db' l)
  have "keyed event_id (claim_rows now ?l a (outbox (adb s)))" using inv by (simp add: alert_inv_def keyed_def)
  with inv fresh show "snapshots_current ((lease, rows) # snapshots s) (outbox db')"
    unfolding rows l db' by (intro snapshots_current_claim) (auto simp: alert_inv_def)
qed

lemma settle_inv:
  assumes inv: "alert_inv s" and cl: "(lease, rows) \<in> set (snapshots s)" "row \<in> set rows"
  shows "alert_inv (s\<lparr>adb := fst (finalize_row now lease answer row (adb s, no_counts))\<rparr>)"
proof (rule alert_inv_rows_same[OF inv])
  let ?db = "fst (finalize_row now lease answer row (adb s, no_counts))"
  let ?n = "attempt_count row + 1" and ?k = "attempt_limit row" and ?L = "fst ` set (snapshots s)"
  show "map event_id (outbox ?db) = map event_id (outbox (adb s))" by (simp add: finalize_row_outbox)
  have new: "r \<in> set (outbox (adb s)) \<or> (\<exists>q \<in> set (outbox (adb s)). owned_at now lease (event_id row) q
      \<and> (r = set_delivered ?n now q \<or> r = set_retry ?n ?k (reply_error answer) now q))"
    if "r \<in> set (outbox ?db)" for r
    using that settle_row_new[of r now lease "event_id row" ?n ?k answer "outbox (adb s)"]
    by (auto simp: finalize_row_outbox split: if_splits)
  show "snapshots_current (snapshots s) (outbox ?db)"
    using inv by - (rule snapshots_current_held[of "snapshots s" "outbox (adb s)"],
        auto simp: alert_inv_def held_by_def dest!: new split: if_splits)
  fix r assume "r \<in> set (outbox ?db)"
  from new[OF this] show "\<exists>q \<in> set (outbox (adb s)). descends q r \<and> (row_ok ?L q \<longrightarrow> row_ok ?L r)"
  proof (elim disjE bexE conjE)
    fix q assume q: "q \<in> set (outbox (adb s))" and own: "owned_at now lease (event_id row) q"
    from own have held: "held_by lease q" "event_id q = event_id row" "status q = Delivering"
      by (auto simp: owned_at_def held_by_def)
    have "snapshots_current (snapshots s) (outbox (adb s))" using inv by (simp add: alert_inv_def)
    from this[unfolded snapshots_current_def] cl q held
    have snap: "attempt_count q = attempt_count row" "attempt_limit q = ?k" by blast+
    { assume "r = set_delivered ?n now q"
      with held snap have "descends q r" "row_ok ?L q \<longrightarrow> row_ok ?L r"
        by (auto simp: descends_def row_ok_def waiting_def)
      with q show ?thesis by blast
    next
      assume "r = set_retry ?n ?k (reply_error answer) now q"
      with held snap have "descends q r" "row_ok ?L q \<longrightarrow> row_ok ?L r"
        by (auto simp: descends_def row_ok_def waiting_def split: if_splits)
      with q show ?thesis by blast }
  qed (auto simp: descends_def)
qed

lemma note_alert_inv: "alert_inv s \<Longrightarrow> alert_inv (s\<lparr>adb := (adb s)\<lparr>alerts := al\<rparr>\<rparr>)"
  by (simp add: alert_inv_def)

lemma alert_step_inv: "alert_step sha s s' \<Longrightarrow> alert_inv s \<Longrightarrow> alert_inv s'"
  by (induction rule: alert_step.induct)
     (simp_all only: note_alert_inv enqueue_inv claim_inv settle_inv requeue_inv)

lemma empty_sys_inv: "alert_inv empty_sys"
  by (simp add: alert_inv_def empty_sys_def keyed_def one_open_def snapshots_current_def)

lemma alert_reachable_inv: "alert_reachable sha s \<Longrightarrow> alert_inv s"
  by (induction rule: alert_reachable.induct) (blast intro: alert_step_inv empty_sys_inv)+

section \<open>Delivered rows\<close>

lemma requeue_keep: "r \<in> set (outbox db) \<Longrightarrow> status r \<noteq> Failed \<Longrightarrow> r \<in> set (outbox (fst (requeue_failed_recon_alerts now e tgt db)))"
proof -
  have "r \<in> set t \<Longrightarrow> status r \<noteq> Failed \<Longrightarrow>
    r \<in> set (foldl (\<lambda>t row. update_where (\<lambda>r. event_id r = event_id row \<and> status r = Failed) (set_requeued now) t) t rows)"
    for rows :: "alert_row list" and t
  proof (induction rows arbitrary: t)
    case (Cons row rows)
    then have "r \<in> set (update_where (\<lambda>r. event_id r = event_id row \<and> status r = Failed) (set_requeued now) t)"
      by (force simp: set_update_where)
    with Cons.IH Cons.prems(2) show ?case by simp
  qed simp
  then show "r \<in> set (outbox db) \<Longrightarrow> status r \<noteq> Failed \<Longrightarrow> ?thesis"
    by (simp add: requeue_failed_recon_alerts_def Let_def)
qed

lemma settle_keep: "r \<in> set t \<Longrightarrow> status r \<noteq> Delivering \<Longrightarrow> r \<in> set (settle_row now l e b t)"
  by (cases b) (force simp: settle_row_def set_update_where owned_at_def held_by_def)

lemma enqueue_keep: "r \<in> set (outbox db) \<Longrightarrow> r \<in> set (outbox (fst (enqueue_recon_alert_event sha now a tgt run p db)))"
  using enqueue_cases[of sha now a tgt run p db] by auto

lemma step_keeps_delivered:
  "alert_step sha s s' \<Longrightarrow> r \<in> set (outbox (adb s)) \<Longrightarrow> status r = Delivered \<Longrightarrow> r \<in> set (outbox (adb s'))"
proof (induction rule: alert_step.induct)
  case (claim uuid s now args db' lease rows)
  then have "outbox db' = claim_rows now (''RAW-'' @ uuid) args (outbox (adb s))"
    by (auto simp: claim_due_rows_def Let_def)
  with claim show ?case by (auto intro!: claim_rows_keep simp: waiting_def expired_def)
qed (auto simp: finalize_row_outbox intro: enqueue_keep settle_keep requeue_keep)

lemma steps_keep_delivered:
  "(alert_step sha)\<^sup>*\<^sup>* s s' \<Longrightarrow> r \<in> set (outbox (adb s)) \<Longrightarrow> status r = Delivered \<Longrightarrow> r \<in> set (outbox (adb s'))"
  by (induction rule: rtranclp_induct) (blast intro: step_keeps_delivered)+

section \<open>A run of the system\<close>

definition demo_payload :: alert_payload where
  "demo_payload = \<lparr>risk_score = 80, severity = None, change_class = None, category = None,
     confirmation_state = None, title = None, item = None\<rparr>"

definition demo_sha :: "string \<Rightarrow> string" where
  "demo_sha s = ''00ff''"

definition demo_queued :: alert_sys where
  "demo_queued = \<lparr>adb = \<lparr>outbox = [fresh_row ''RAO-00ff'' 1 ''t'' ''r1'' demo_payload 100],
     alerts = [\<lparr>mark_id = 1, last_notified = None\<rparr>]\<rparr>, snapshots = []\<rparr>"

definition demo_delivered :: alert_sys where
  "demo_delivered = \<lparr>adb = \<lparr>outbox = [set_delivered 1 130 (fresh_row ''RAO-00ff'' 1 ''t'' ''r1'' demo_payload 100)],
     alerts = [\<lparr>mark_id = 1, last_notified = Some 130\<rparr>]\<rparr>,
     snapshots = [(''RAW-1'', [(fresh_row ''RAO-00ff'' 1 ''t'' ''r1'' demo_payload 100)
       \<lparr>status := Delivering, lease_id := ''RAW-1'', lease_expires_at := Some 420, updated_at := 120\<rparr>])]\<rparr>"

lemmas outbox_eval =
  enqueue_recon_alert_event_def event_key_def select_one_def unresolved_recon_alert_delivery_def insert_refused_def
  claim_due_rows_def claim_rows_def candidates_def due_def lease_rows_def lease_row_def release_expired_def
  held_rows_def held_by_def expired_def waiting_def lease_expiry_def LEASE_MINUTES_def finalize_row_def
  settle_row_def owned_at_def live_at_def rowcount_def no_counts_def attempt_limit_def DEFAULT_MAX_ATTEMPTS_def
  fresh_row_def demo_payload_def demo_sha_def Let_def

lemma demo_queued_reachable: "alert_reachable demo_sha demo_queued"
proof -
  let ?s1 = "\<lparr>adb = \<lparr>outbox = [], alerts = [\<lparr>mark_id = 1, last_notified = None\<rparr>]\<rparr>, snapshots = []\<rparr>"
  have "alert_step demo_sha empty_sys ?s1"
    using note_alert[of demo_sha empty_sys "\<lparr>mark_id = 1, last_notified = None\<rparr>"] by (simp add: empty_sys_def)
  then have "alert_reachable demo_sha ?s1" by (blast intro: alert_reachable.intros)
  moreover have "alert_step demo_sha ?s1 demo_queued"
    using enqueue[of demo_sha ?s1 100 1 "''t''" "''r1''" demo_payload] by (simp add: demo_queued_def outbox_eval)
  ultimately show ?thesis by (rule alert_reachable.step)
qed

lemma demo_delivered_steps: "(alert_step demo_sha)\<^sup>*\<^sup>* demo_queued demo_delivered"
proof -
  let ?row = "(fresh_row ''RAO-00ff'' 1 ''t'' ''r1'' demo_payload 100)
       \<lparr>status := Delivering, lease_id := ''RAW-1'', lease_expires_at := Some 420, updated_at := 120\<rparr>"
  let ?db = "\<lparr>outbox = [?row], alerts = [\<lparr>mark_id = 1, last_notified = None\<rparr>]\<rparr>"
  let ?s2 = "\<lparr>adb = ?db, snapshots = [(''RAW-1'', [?row])]\<rparr>"
  have "claim_due_rows ''1'' 120 \<lparr>for_target = '''', for_run = '''', at_most = 50\<rparr> (adb demo_queued) = (?db, ''RAW-1'', [?row])"
    by (simp add: demo_queued_def outbox_eval)
  then have "alert_step demo_sha demo_queued ?s2"
    using claim[of "''1''" demo_queued] by (simp add: demo_queued_def)
  moreover have "alert_step demo_sha ?s2 demo_delivered"
    using settle[of "''RAW-1''" "[?row]" ?s2 ?row demo_sha 130 "Answered True ''telegram'' [] ''''"]
    by (simp add: demo_delivered_def outbox_eval update_where_def set_delivered_def)
  ultimately show ?thesis by auto
qed

section \<open>Properties\<close>

lemma lease_never_empty: "alert_reachable sha s \<Longrightarrow> '''' \<notin> fst ` set (snapshots s)"
proof (induction rule: alert_reachable.induct)
  case (step s s')
  from step.hyps(2) step.IH show ?case by cases (auto simp: claim_due_rows_def Let_def)
qed (simp add: empty_sys_def)

text \<open>C4: In every database the concurrent alert workers can reach, each outbox row respects its
  attempt limit: a queued, retrying or delivering row still has an attempt left, a failed one has used
  them all, none ever exceeds the limit; and a row has a lease id exactly while it is delivering, an expiry exactly while it is
  delivering, and the lease id is that of a claim some worker made.\<close>

theorem alert_attempts_stay_bounded:
  assumes "alert_reachable sha s" "r \<in> set (outbox (adb s))"
  shows "attempt_count r \<le> attempt_limit r
    \<and> (status r \<in> {Queued, Retry_Pending, Delivering} \<longrightarrow> attempt_count r < attempt_limit r)
    \<and> (status r = Failed \<longrightarrow> attempt_count r = attempt_limit r)
    \<and> (status r = Delivering \<longleftrightarrow> lease_expires_at r \<noteq> None)
    \<and> (status r = Delivering \<longleftrightarrow> lease_id r \<noteq> '''')
    \<and> (status r = Delivering \<longrightarrow> lease_id r \<in> fst ` set (snapshots s))"
proof -
  have ok: "row_ok (fst ` set (snapshots s)) r" using alert_reachable_inv[OF assms(1)] assms(2) by (simp add: alert_inv_def)
  have "status r = Delivering \<longleftrightarrow> lease_id r \<noteq> ''''"
    using ok lease_never_empty[OF assms(1)] unfolding row_ok_def by metis
  with ok show ?thesis by (auto simp: row_ok_def waiting_def)
qed

theorem alert_attempts_stay_bounded_witness:
  "attempt_count (fresh_row ''RAO-00ff'' 1 ''t'' ''r1'' demo_payload 100) < 8"
  using alert_attempts_stay_bounded[OF demo_queued_reachable, of "fresh_row ''RAO-00ff'' 1 ''t'' ''r1'' demo_payload 100"]
  by (simp add: demo_queued_def)

text \<open>C3: In every database the concurrent alert workers can reach, an alert has at most one
  unresolved delivery: two outbox rows of the same alert that are both queued, retrying, delivering or
  failed are the same row, whatever was enqueued, claimed, settled and requeued.\<close>

theorem one_unresolved_delivery_per_alert:
  assumes "alert_reachable sha s" "r \<in> set (outbox (adb s))" "q \<in> set (outbox (adb s))"
    and "alert_id r = alert_id q" "status r \<noteq> Delivered" "status q \<noteq> Delivered"
  shows "r = q"
proof -
  have inv: "alert_inv s" by (rule alert_reachable_inv[OF assms(1)])
  then have "event_id r = event_id q" using one_openD assms by (auto simp: alert_inv_def)
  with inv assms(2,3) show ?thesis by (auto simp: alert_inv_def dest: keyed_unique)
qed

theorem one_unresolved_delivery_per_alert_witness:
  "set (outbox (adb demo_queued)) = {fresh_row ''RAO-00ff'' 1 ''t'' ''r1'' demo_payload 100}"
proof -
  let ?r = "fresh_row ''RAO-00ff'' 1 ''t'' ''r1'' demo_payload 100"
  have r: "?r \<in> set (outbox (adb demo_queued))" by (simp add: demo_queued_def)
  have "q = ?r" if "q \<in> set (outbox (adb demo_queued))" for q
  proof (rule one_unresolved_delivery_per_alert[OF demo_queued_reachable that r])
    show "alert_id q = alert_id ?r" "status q \<noteq> Delivered" "status ?r \<noteq> Delivered"
      using that by (simp_all add: demo_queued_def fresh_row_def)
  qed
  then have "set (outbox (adb demo_queued)) \<subseteq> {?r}" by blast
  with r show ?thesis by blast
qed

text \<open>C7: Delivery is final: once an alert row is delivered, no later enqueue, claim, settlement by a
  stale worker, or requeue ever changes it.\<close>

theorem delivered_alert_is_final:
  assumes "(alert_step sha)\<^sup>*\<^sup>* s s'" "r \<in> set (outbox (adb s))" "status r = Delivered"
  shows "r \<in> set (outbox (adb s'))"
  using steps_keep_delivered assms by blast

lemma demo_requeue: "(alert_step demo_sha)\<^sup>*\<^sup>* demo_delivered
    (demo_delivered\<lparr>adb := fst (requeue_failed_recon_alerts 500 '''' '''' (adb demo_delivered))\<rparr>)"
  by (intro r_into_rtranclp requeue)

theorem delivered_alert_is_final_witness:
  "set_delivered 1 130 (fresh_row ''RAO-00ff'' 1 ''t'' ''r1'' demo_payload 100)
     \<in> set (outbox (fst (requeue_failed_recon_alerts 500 '''' '''' (adb demo_delivered))))"
  using delivered_alert_is_final[OF demo_requeue, of "set_delivered 1 130 (fresh_row ''RAO-00ff'' 1 ''t'' ''r1'' demo_payload 100)"]
  by (simp add: demo_delivered_def)

end
