(* ===== verification/Finding_Outbox.thy ===== *)
theory Finding_Outbox
  imports Outbox_Base "HOL-Library.Product_Lexorder"
begin

text \<open>
  \<open>src/app/finding_notification_outbox.py\<close>: the durable outbox of Potential Finding
  notifications.  It refers to \<open>notification_events\<close>, splits a group of events into bounded
  messages, sends the parts of a message under a renewed lease, and settles outbox row, event and
  delivery log together.

  Outside the model: the random lease ids, the clock and the transport; what other workers do between
  the transactions is a function of the environment.
\<close>

section \<open>State\<close>

record finding_row = outbox_row +
  mode :: string

text \<open>The decoded payload: the empty text is an absent or empty value, as \<open>or\<close> and the
  conditional of \<open>_event_line\<close> treat them; \<open>transition\<close> is read with a default.\<close>

record event_payload =
  transition :: "utext option"
  bug_family :: utext
  title :: utext
  endpoint :: utext

record notification_event =
  ev_id :: string
  ev_target :: string
  ev_type :: string
  ev_mode :: string
  ev_score :: int
  ev_payload :: event_payload
  ev_status :: string
  ev_created :: stamp
  ev_delivered :: "stamp option"

record delivery_log =
  log_event :: string
  log_channel :: string
  log_status :: string
  log_error :: string
  log_at :: stamp

record finding_db =
  foutbox :: "finding_row list"
  events :: "notification_event list"
  deliveries :: "delivery_log list"

definition EVENT_TYPE :: string where
  "EVENT_TYPE = ''potential_finding''"

definition DELIVERABLE_MODES :: "string list" where
  "DELIVERABLE_MODES = [''immediate'', ''digest'', ''system_warning'']"

definition MESSAGE_CHAR_LIMIT :: nat where
  "MESSAGE_CHAR_LIMIT = 15000"

section \<open>Enqueue and backfill\<close>

definition finding_row_of :: "string \<Rightarrow> string \<Rightarrow> string \<Rightarrow> stamp \<Rightarrow> stamp \<Rightarrow> stamp \<Rightarrow> finding_row" where
  "finding_row_of e tgt m due created updated =
     \<lparr>event_id = e, target = tgt, status = Queued, attempt_count = 0,
      max_attempts = DEFAULT_MAX_ATTEMPTS, next_attempt_at = due, last_attempt_at = None,
      last_error = '''', lease_id = '''', lease_expires_at = None, created_at = created,
      updated_at = updated, delivered_at = None, mode = m\<rparr>"

definition insert_finding :: "finding_row \<Rightarrow> finding_db \<Rightarrow> finding_db" where
  "insert_finding row db = db\<lparr>foutbox := insert_ignore (\<lambda>r. event_id r = event_id row) row (foutbox db)\<rparr>"

text \<open>Installing the schema also queues every deliverable event that is still queued.\<close>

definition ensure_finding_outbox :: "stamp \<Rightarrow> finding_db \<Rightarrow> finding_db" where
  "ensure_finding_outbox now db =
     foldl (\<lambda>d e. insert_finding (finding_row_of (ev_id e) (ev_target e) (ev_mode e) (ev_created e) (ev_created e) now) d) db
       (filter (\<lambda>e. ev_type e = EVENT_TYPE \<and> ev_status e = ''queued'' \<and> ev_mode e \<in> set DELIVERABLE_MODES) (events db))"

datatype finding_enqueue =
    Event_Not_Found
  | Wrong_Event_Type
  | Not_Deliverable string
  | Already_Delivered string
  | In_Outbox "outbox_status option" string

definition enqueue_finding_notification_event :: "stamp \<Rightarrow> string \<Rightarrow> finding_db \<Rightarrow> finding_db \<times> finding_enqueue" where
  "enqueue_finding_notification_event now e db =
     (case select_one (\<lambda>ev. ev_id ev = e) (events db) of
        None \<Rightarrow> (db, Event_Not_Found)
      | Some ev \<Rightarrow>
          if ev_type ev \<noteq> EVENT_TYPE then (db, Wrong_Event_Type)
          else if ev_mode ev \<notin> set DELIVERABLE_MODES then (db, Not_Deliverable (ev_mode ev))
          else if ev_status ev = ''delivered'' then (db, Already_Delivered (ev_mode ev))
          else
            let db' = insert_finding (finding_row_of e (ev_target ev) (ev_mode ev) now now now) db
            in (db', In_Outbox (map_option status (select_one (\<lambda>r. event_id r = e) (foutbox db'))) (ev_mode ev)))"

definition finding_outbox_summary :: "stamp \<Rightarrow> finding_db \<Rightarrow> string \<Rightarrow> finding_db \<times> outbox_counts" where
  "finding_outbox_summary clock db tgt =
     (let db' = ensure_finding_outbox clock db in (db', status_counts tgt (foutbox db')))"

section \<open>Messages\<close>

type_synonym claimed = "finding_row \<times> notification_event"

definition or_default :: "utext \<Rightarrow> string \<Rightarrow> utext" where
  "or_default v d = (if v = [] then ascii d else v)"

definition event_line :: "claimed \<Rightarrow> utext" where
  "event_line c = (let e = snd c; p = ev_payload e in
     [8226] @ ascii '' ['' @ ascii (show_int (ev_score e)) @ ascii ''] ['' @
     (case transition p of None \<Rightarrow> ascii ''new'' | Some t \<Rightarrow> t) @ ascii ''] '' @
     or_default (bug_family p) ''candidate'' @ [32, 8212, 32] @
     or_default (title p) ''Potential Finding'' @
     (if endpoint p = [] then [] else ascii '' @ '' @ endpoint p))"

definition finding_message :: "string \<Rightarrow> string \<Rightarrow> claimed list \<Rightarrow> utext" where
  "finding_message tgt m rows = py_join [10]
     ([[128680] @ ascii '' Recon Monitor '' @ ascii APP_VERSION @ [32, 8212] @ ascii '' Potential Findings'',
       ascii ''Target: '' @ ascii tgt, ascii ''Mode: '' @ ascii m, []] @ map event_line rows)"

text \<open>\<open>[text[o:o+n] for o in range(0, len(text), n)]\<close>\<close>

function chunks :: "nat \<Rightarrow> utext \<Rightarrow> utext list" where
  "chunks n s = (if s = [] \<or> n = 0 then [] else take n s # chunks n (drop n s))"
  by pat_completeness auto
termination by (relation "measure (\<lambda>(n, s). length s)") auto

declare chunks.simps [simp del]

text \<open>The generator \<open>_message_batches\<close>: \<open>batch\<close> and \<open>used\<close> are its loop
  variables \<open>batch\<close> and \<open>size\<close>.\<close>

fun batches_from ::
    "string \<Rightarrow> string \<Rightarrow> claimed list \<Rightarrow> nat \<Rightarrow> claimed list \<Rightarrow> (claimed list \<times> utext list) list" where
  "batches_from tgt m batch used [] = (if batch = [] then [] else [(batch, [finding_message tgt m batch])])"
| "batches_from tgt m batch used (row # rows) =
     (let header = length (finding_message tgt m []);
          line = 1 + length (event_line row);
          flush = batch \<noteq> [] \<and> MESSAGE_CHAR_LIMIT < used + line;
          out = (if flush then [(batch, [finding_message tgt m batch])] else []);
          batch' = (if flush then [] else batch);
          used' = (if flush then header else used)
      in if MESSAGE_CHAR_LIMIT < header + line
         then out @ ([row], chunks MESSAGE_CHAR_LIMIT (finding_message tgt m [row])) # batches_from tgt m batch' used' rows
         else out @ batches_from tgt m (batch' @ [row]) (used' + line) rows)"

definition message_batches :: "string \<Rightarrow> string \<Rightarrow> claimed list \<Rightarrow> (claimed list \<times> utext list) list" where
  "message_batches tgt m rows = batches_from tgt m [] (length (finding_message tgt m [])) rows"

section \<open>Claim\<close>

record finding_claim =
  for_target :: string
  for_mode :: string
  at_most :: int

definition event_of :: "finding_db \<Rightarrow> finding_row \<Rightarrow> notification_event option" where
  "event_of db r = select_one (\<lambda>e. ev_id e = event_id r) (events db)"

definition due_finding :: "stamp \<Rightarrow> finding_claim \<Rightarrow> finding_db \<Rightarrow> finding_row \<Rightarrow> bool" where
  "due_finding now a db r \<longleftrightarrow> waiting r \<and> next_attempt_at r \<le> now
     \<and> (case event_of db r of None \<Rightarrow> False | Some e \<Rightarrow> ev_status e = ''queued'' \<and> ev_type e = EVENT_TYPE)
     \<and> (for_target a = '''' \<or> target r = for_target a) \<and> (for_mode a = '''' \<or> mode r = for_mode a)"

text \<open>\<open>ORDER BY o.next_attempt_at, e.score DESC, e.created_at\<close>\<close>

definition finding_order :: "finding_db \<Rightarrow> finding_row \<Rightarrow> stamp \<times> int \<times> stamp" where
  "finding_order db r = (next_attempt_at r,
     case event_of db r of None \<Rightarrow> (0, 0) | Some e \<Rightarrow> (- ev_score e, ev_created e))"

definition finding_candidates :: "stamp \<Rightarrow> finding_claim \<Rightarrow> finding_db \<Rightarrow> string list" where
  "finding_candidates now a db = map event_id
     (take (nat (max 1 (min 500 (at_most a)))) (sort_key (finding_order db) (filter (due_finding now a db) (foutbox db))))"

definition claim_findings :: "stamp \<Rightarrow> string \<Rightarrow> finding_claim \<Rightarrow> finding_db \<Rightarrow> finding_db" where
  "claim_findings now lease a db =
     (let db' = db\<lparr>foutbox := release_expired now (foutbox db)\<rparr>
      in db'\<lparr>foutbox := lease_rows lease now (finding_candidates now a db') (foutbox db')\<rparr>)"

text \<open>The rows the worker holds, each with its queued event.\<close>

definition held_findings :: "string \<Rightarrow> finding_db \<Rightarrow> claimed list" where
  "held_findings lease db = map (\<lambda>r. (r, the (event_of db r)))
     (sort_key (finding_order db)
       (filter (\<lambda>r. held_by lease r
                  \<and> (case event_of db r of None \<Rightarrow> False | Some e \<Rightarrow> ev_status e = ''queued'')) (foutbox db)))"

definition claim_due_findings ::
    "string \<Rightarrow> stamp \<Rightarrow> finding_claim \<Rightarrow> finding_db \<Rightarrow> (finding_db \<times> string \<times> claimed list) option" where
  "claim_due_findings uuid now a db =
     (if for_mode a \<noteq> '''' \<and> for_mode a \<notin> set DELIVERABLE_MODES then None
      else let lease = ''FNW-'' @ uuid; db' = claim_findings now lease a db
           in Some (db', lease, held_findings lease db'))"

section \<open>Sending the parts\<close>

text \<open>What surrounds one part: other workers act, the clock is read, the transport answers.\<close>

record part_env =
  others_before :: "finding_db \<Rightarrow> finding_db"
  part_time :: stamp
  transport :: "utext \<Rightarrow> reply"

record send_result =
  r_delivered :: bool
  r_channel :: string
  r_error :: string
  sent_parts :: nat

definition renew_lease :: "stamp \<Rightarrow> string \<Rightarrow> finding_row list \<Rightarrow> finding_row list" where
  "renew_lease now lease = update_where (held_by lease)
     (\<lambda>r. r\<lparr>lease_expires_at := Some (lease_expiry now), updated_at := now\<rparr>)"

definition owns_all :: "string \<Rightarrow> claimed list \<Rightarrow> finding_db \<Rightarrow> bool" where
  "owns_all lease rows db \<longleftrightarrow> list_all (\<lambda>c. list_ex (\<lambda>r. event_id r = event_id (fst c) \<and> held_by lease r
      \<and> (case event_of db r of None \<Rightarrow> False | Some e \<Rightarrow> ev_status e = ''queued'')) (foutbox db)) rows"

text \<open>The channels of a reply: the truthy entries of \<open>channels\<close>, else the parts of \<open>channel\<close>.\<close>

fun reply_channels :: "reply \<Rightarrow> string list" where
  "reply_channels (Raised e) = [''unknown'']"
| "reply_channels (Answered d c cs e) =
     (let named = filter (\<lambda>v. v \<noteq> '''') cs
      in dedup (if named \<noteq> [] then named else split_on CHR ''+'' (if c = '''' then ''unknown'' else c)))"

definition or_unknown :: "string \<Rightarrow> string" where
  "or_unknown c = (if c = '''' then ''unknown'' else c)"

text \<open>The loop over the messages; \<open>common\<close>, \<open>errs\<close> and \<open>sent\<close> are its variables, \<open>single\<close> tells that
  there is one message only, whose reply is the result.\<close>

fun send_parts ::
    "(nat \<Rightarrow> part_env) \<Rightarrow> bool \<Rightarrow> string \<Rightarrow> claimed list \<Rightarrow> string list option \<Rightarrow> string list \<Rightarrow> nat
     \<Rightarrow> utext list \<Rightarrow> finding_db \<Rightarrow> finding_db \<times> send_result" where
  "send_parts env single lease rows common errs sent [] db =
     (db, \<lparr>r_delivered = True,
           r_channel = or_unknown (py_join ''+'' (sort (case common of None \<Rightarrow> [''unknown''] | Some cs \<Rightarrow> cs))),
           r_error = py_join ''; '' errs, sent_parts = sent\<rparr>)"
| "send_parts env single lease rows common errs sent (m # ms) db =
     (let db0 = others_before (env sent) db; now = part_time (env sent);
          db1 = db0\<lparr>foutbox := renew_lease now lease (foutbox db0)\<rparr>
      in if \<not> owns_all lease rows db1
         then (db1, \<lparr>r_delivered = False, r_channel = ''unknown'', r_error = ''notification_batch_lease_lost'',
                     sent_parts = sent\<rparr>)
         else
           let answer = transport (env sent) m; sent' = Suc sent; error = reply_error answer;
               errs' = (if error = '''' then errs else errs @ [error])
           in if \<not> reply_delivered answer
              then (db1, \<lparr>r_delivered = False, r_channel = reply_channel answer,
                          r_error = (if error = '''' then ''notification_delivery_failed'' else error),
                          sent_parts = sent'\<rparr>)
              else
                let cs = (case common of None \<Rightarrow> reply_channels answer
                          | Some old \<Rightarrow> filter (\<lambda>c. c \<in> set (reply_channels answer)) old)
                in if cs = []
                   then (db1, \<lparr>r_delivered = False, r_channel = ''unknown'',
                               r_error = ''notification_parts_have_no_complete_channel'', sent_parts = sent'\<rparr>)
                   else if single
                   then (db1, \<lparr>r_delivered = True, r_channel = reply_channel answer, r_error = error,
                               sent_parts = sent'\<rparr>)
                   else send_parts env single lease rows (Some cs) errs' sent' ms db1)"

definition send_message_parts ::
    "(nat \<Rightarrow> part_env) \<Rightarrow> string \<Rightarrow> claimed list \<Rightarrow> utext list \<Rightarrow> finding_db \<Rightarrow> finding_db \<times> send_result" where
  "send_message_parts env lease rows msgs db = send_parts env (length msgs = 1) lease rows None [] 0 msgs db"

section \<open>Settlement and delivery\<close>

definition owns_event :: "string \<Rightarrow> string \<Rightarrow> finding_row \<Rightarrow> bool" where
  "owns_event lease e r \<longleftrightarrow> event_id r = e \<and> held_by lease r"

definition settle_finding ::
    "stamp \<Rightarrow> string \<Rightarrow> string \<Rightarrow> nat \<times> nat \<times> bool \<times> string \<Rightarrow> finding_row list \<Rightarrow> finding_row list" where
  "settle_finding now lease e = (\<lambda>(n, k, ok, error). update_where (owns_event lease e)
     (if ok then set_delivered n now else set_retry n k error now))"

definition set_event_status :: "string \<Rightarrow> (notification_event \<Rightarrow> notification_event) \<Rightarrow> finding_db \<Rightarrow> finding_db" where
  "set_event_status e f db =
     db\<lparr>events := update_where (\<lambda>ev. ev_id ev = e \<and> ev_status ev = ''queued'') f (events db)\<rparr>"

definition log_delivery :: "string \<Rightarrow> string \<Rightarrow> string \<Rightarrow> string \<Rightarrow> stamp \<Rightarrow> finding_db \<Rightarrow> finding_db" where
  "log_delivery e channel st error now db = db\<lparr>deliveries := deliveries db @
     [\<lparr>log_event = e, log_channel = channel, log_status = st, log_error = error, log_at = now\<rparr>]\<rparr>"

record finding_counts =
  n_delivered :: nat
  n_retried :: nat
  n_failed :: nat

definition finalize_finding ::
    "stamp \<Rightarrow> string \<Rightarrow> send_result \<Rightarrow> claimed \<Rightarrow> finding_db \<times> finding_counts \<Rightarrow> finding_db \<times> finding_counts" where
  "finalize_finding now lease res c = (\<lambda>(db, k).
     (let row = fst c; e = event_id row; n = attempt_count row + 1; limit = attempt_limit row;
          ok = r_delivered res;
          db' = db\<lparr>foutbox := settle_finding now lease e (n, limit, ok, r_error res) (foutbox db)\<rparr>
      in if rowcount (owns_event lease e) (foutbox db) \<noteq> 1 then (db', k)
         else if ok
         then (log_delivery e (r_channel res) ''delivered'' '''' now
                 (set_event_status e (\<lambda>ev. ev\<lparr>ev_status := ''delivered'', ev_delivered := Some now\<rparr>) db'),
               k\<lparr>n_delivered := n_delivered k + 1\<rparr>)
         else if limit \<le> n
         then (log_delivery e (r_channel res) ''failed'' (r_error res) now
                 (set_event_status e (\<lambda>ev. ev\<lparr>ev_status := ''failed''\<rparr>) db'),
               k\<lparr>n_failed := n_failed k + 1\<rparr>)
         else (log_delivery e (r_channel res) ''failed'' (r_error res) now db',
               k\<lparr>n_retried := n_retried k + 1\<rparr>)))"

record finding_report =
  f_target :: string
  f_mode :: string
  f_events :: "string list"
  f_parts :: nat
  f_sent :: nat
  f_lengths :: "nat list"
  f_delivered :: bool
  f_channel :: string
  f_error :: string

text \<open>The environment of one batch: one part environment per message, what others do before the
  settlement, and the time of the settlement.\<close>

record finding_env =
  parts_env :: "nat \<Rightarrow> part_env"
  others_after :: "finding_db \<Rightarrow> finding_db"
  settle_time :: stamp

definition deliver_finding_batch ::
    "finding_env \<Rightarrow> string \<Rightarrow> string \<times> string \<Rightarrow> claimed list \<times> utext list
     \<Rightarrow> finding_db \<times> finding_counts \<times> finding_report list \<Rightarrow> finding_db \<times> finding_counts \<times> finding_report list" where
  "deliver_finding_batch env lease g b = (\<lambda>(db, k, reports).
     (let (rows, msgs) = b;
          (db1, res) = send_message_parts (parts_env env) lease rows msgs db;
          (db2, k2) = fold (finalize_finding (settle_time env) lease res) rows (others_after env db1, k)
      in (db2, k2, reports @ [\<lparr>f_target = fst g, f_mode = snd g, f_events = map (\<lambda>c. event_id (fst c)) rows,
            f_parts = length msgs, f_sent = sent_parts res, f_lengths = map length msgs,
            f_delivered = r_delivered res, f_channel = r_channel res, f_error = r_error res\<rparr>])))"

text \<open>All batches of all groups, in order, with the group each belongs to.\<close>

definition all_batches :: "claimed list \<Rightarrow> ((string \<times> string) \<times> claimed list \<times> utext list) list" where
  "all_batches rows = concat (map (\<lambda>(g, rs). map (Pair g) (message_batches (fst g) (snd g) rs))
     (group_by (\<lambda>c. (target (fst c), mode (fst c))) rows))"

fun deliver_finding_batches ::
    "(nat \<Rightarrow> finding_env) \<Rightarrow> nat \<Rightarrow> string \<Rightarrow> ((string \<times> string) \<times> claimed list \<times> utext list) list
     \<Rightarrow> finding_db \<times> finding_counts \<times> finding_report list \<Rightarrow> finding_db \<times> finding_counts \<times> finding_report list" where
  "deliver_finding_batches env i lease [] s = s"
| "deliver_finding_batches env i lease ((g, b) # bs) s =
     deliver_finding_batches env (Suc i) lease bs (deliver_finding_batch (env i) lease g b s)"

text \<open>The result is the database, the number of claimed rows, the counts and the batch reports;
  \<open>None\<close> is the error for an unknown mode; without rows there are no batches.\<close>

definition deliver_finding_notification_outbox ::
    "string \<Rightarrow> stamp \<Rightarrow> stamp \<Rightarrow> finding_claim \<Rightarrow> (nat \<Rightarrow> finding_env) \<Rightarrow> finding_db
     \<Rightarrow> (finding_db \<times> nat \<times> finding_counts \<times> finding_report list) option" where
  "deliver_finding_notification_outbox uuid clock now a env db =
     (case claim_due_findings uuid now a (ensure_finding_outbox clock db) of
        None \<Rightarrow> None
      | Some (db1, lease, rows) \<Rightarrow>
          let start = (db1, \<lparr>n_delivered = 0, n_retried = 0, n_failed = 0\<rparr>, []);
              (db2, k, reports) = deliver_finding_batches env 0 lease (all_batches rows) start
          in Some (db2, length rows, k, reports))"

definition requeue_failed_finding_notifications ::
    "stamp \<Rightarrow> stamp \<Rightarrow> string \<Rightarrow> string \<Rightarrow> finding_db \<Rightarrow> finding_db \<times> nat" where
  "requeue_failed_finding_notifications clock now e tgt db0 =
     (let db = ensure_finding_outbox clock db0;
          rows = filter (\<lambda>r. status r = Failed \<and> (e = '''' \<or> event_id r = e) \<and> (tgt = '''' \<or> target r = tgt)) (foutbox db);
          step = (\<lambda>d row.
            let d' = d\<lparr>foutbox := update_where (\<lambda>r. event_id r = event_id row) (set_requeued now) (foutbox d)\<rparr>
            in d'\<lparr>events := update_where (\<lambda>ev. ev_id ev = event_id row \<and> ev_status ev = ''failed'')
                     (\<lambda>ev. ev\<lparr>ev_status := ''queued'', ev_delivered := None\<rparr>) (events d')\<rparr>)
      in (foldl step db rows, length rows))"

section \<open>Messages: bounds and partition\<close>

lemma py_join_snoc: "ws \<noteq> [] \<Longrightarrow> py_join d (ws @ [w]) = py_join d ws @ d @ w"
  by (induction d ws rule: py_join.induct) auto

lemma message_snoc:
  "length (finding_message tgt m (rows @ [r])) = length (finding_message tgt m rows) + 1 + length (event_line r)"
  using py_join_snoc[of "[[128680] @ ascii '' Recon Monitor '' @ ascii APP_VERSION @ [32, 8212] @ ascii '' Potential Findings'',
       ascii ''Target: '' @ ascii tgt, ascii ''Mode: '' @ ascii m, []] @ map event_line rows" "[10]" "event_line r"]
  by (simp add: finding_message_def del: py_join.simps)

lemma concat_chunks: "0 < n \<Longrightarrow> concat (chunks n s) = s"
  by (induction n s rule: chunks.induct) (subst chunks.simps, auto)

lemma chunks_bounded: "c \<in> set (chunks n s) \<Longrightarrow> length c \<le> n"
  by (induction n s rule: chunks.induct) (subst (asm) (2) chunks.simps, auto split: if_splits)

lemma chunks_full: "c \<in> set (butlast (chunks n s)) \<Longrightarrow> length c = n"
proof (induction n s rule: chunks.induct)
  case (1 n s)
  show ?case
  proof (cases "s = [] \<or> n = 0")
    case False
    then have c: "chunks n s = take n s # chunks n (drop n s)" by (subst chunks.simps) simp
    show ?thesis
    proof (cases "chunks n (drop n s) = []")
      case True
      with "1.prems" c show ?thesis by simp
    next
      case more: False
      then have "n \<le> length s" by (subst (asm) chunks.simps) (auto split: if_splits)
      with "1.prems" "1.IH" False c more show ?thesis by (auto split: if_splits)
    qed
  qed (use "1.prems" in \<open>simp add: chunks.simps\<close>)
qed

lemma limit_pos: "0 < MESSAGE_CHAR_LIMIT"
  by (simp add: MESSAGE_CHAR_LIMIT_def)

text \<open>The loop invariant: \<open>used\<close> is the length of the message of \<open>batch\<close>, which fits the limit.\<close>

definition fits :: "string \<Rightarrow> string \<Rightarrow> claimed list \<Rightarrow> nat \<Rightarrow> bool" where
  "fits tgt m batch used \<longleftrightarrow> used = length (finding_message tgt m batch)
     \<and> (batch = [] \<or> used \<le> MESSAGE_CHAR_LIMIT)"

lemma fits_empty: "fits tgt m [] (length (finding_message tgt m []))"
  by (simp add: fits_def)

lemma fits_snoc:
  "fits tgt m batch used \<Longrightarrow> used + (1 + length (event_line row)) \<le> MESSAGE_CHAR_LIMIT \<Longrightarrow>
   fits tgt m (batch @ [row]) (used + (1 + length (event_line row)))"
  by (simp add: fits_def message_snoc)

lemma message_grows: "length (finding_message tgt m []) \<le> length (finding_message tgt m rows)"
  by (induction rows rule: rev_induct) (auto simp: message_snoc)

lemma batches_from_partition:
  "fits tgt m batch used \<Longrightarrow> concat (map fst (batches_from tgt m batch used rows)) = batch @ rows"
proof (induction tgt m batch used rows rule: batches_from.induct)
  case (2 tgt m batch used row rows)
  note fits = "2.prems"
  let ?h = "length (finding_message tgt m [])" and ?line = "1 + length (event_line row)"
  let ?flush = "batch \<noteq> [] \<and> MESSAGE_CHAR_LIMIT < used + ?line"
  have over: "MESSAGE_CHAR_LIMIT < ?h + ?line \<Longrightarrow> batch \<noteq> [] \<Longrightarrow> ?flush"
    using fits message_grows[of tgt m batch] by (simp add: fits_def)
  show ?case
  proof (cases "MESSAGE_CHAR_LIMIT < ?h + ?line")
    case True
    with over 2(1)[OF refl refl refl refl refl refl True] fits_empty fits show ?thesis
      by (cases "batch = []") (simp_all add: Let_def)
  next
    case False
    show ?thesis
    proof (cases ?flush)
      case flush: True
      with False 2(2)[OF refl refl refl refl refl refl False] fits_snoc[OF fits_empty, of tgt m row]
      show ?thesis by (simp add: Let_def)
    next
      case noflush: False
      have "used + ?line \<le> MESSAGE_CHAR_LIMIT"
        using noflush False fits by (cases "batch = []") (auto simp: fits_def)
      with noflush False 2(2)[OF refl refl refl refl refl refl False] fits_snoc[OF fits]
      show ?thesis by (simp add: Let_def)
    qed
  qed
qed simp

definition bounded_batch :: "string \<Rightarrow> string \<Rightarrow> claimed list \<times> utext list \<Rightarrow> bool" where
  "bounded_batch tgt m b \<longleftrightarrow> fst b \<noteq> [] \<and> concat (snd b) = finding_message tgt m (fst b)
     \<and> (\<forall>s \<in> set (snd b). length s \<le> MESSAGE_CHAR_LIMIT)
     \<and> (if length (finding_message tgt m (fst b)) \<le> MESSAGE_CHAR_LIMIT then snd b = [finding_message tgt m (fst b)]
        else length (fst b) = 1 \<and> (\<forall>s \<in> set (butlast (snd b)). length s = MESSAGE_CHAR_LIMIT))"

lemma bounded_whole: "fits tgt m batch used \<Longrightarrow> batch \<noteq> [] \<Longrightarrow> bounded_batch tgt m (batch, [finding_message tgt m batch])"
  by (auto simp: bounded_batch_def fits_def)

lemma bounded_chunks:
  "MESSAGE_CHAR_LIMIT < length (finding_message tgt m []) + (1 + length (event_line row)) \<Longrightarrow>
   bounded_batch tgt m ([row], chunks MESSAGE_CHAR_LIMIT (finding_message tgt m [row]))"
  using message_snoc[of tgt m "[]" row]
  by (auto simp: bounded_batch_def concat_chunks limit_pos dest: chunks_bounded chunks_full)

lemma batches_from_bounded:
  "fits tgt m batch used \<Longrightarrow> b \<in> set (batches_from tgt m batch used rows) \<Longrightarrow> bounded_batch tgt m b"
proof (induction tgt m batch used rows rule: batches_from.induct)
  case (1 tgt m batch used)
  then show ?case by (auto intro: bounded_whole split: if_splits)
next
  case (2 tgt m batch used row rows)
  note fits = "2.prems"(1)
  let ?h = "length (finding_message tgt m [])" and ?line = "1 + length (event_line row)"
  let ?flush = "batch \<noteq> [] \<and> MESSAGE_CHAR_LIMIT < used + ?line"
  have whole: "batch \<noteq> [] \<Longrightarrow> bounded_batch tgt m (batch, [finding_message tgt m batch])"
    by (rule bounded_whole[OF fits])
  show ?case
  proof (cases "MESSAGE_CHAR_LIMIT < ?h + ?line")
    case True
    with 2(1)[OF refl refl refl refl refl refl True] fits_empty fits "2.prems"(2) whole
      bounded_chunks[OF True] show ?thesis
      by (auto simp: Let_def split: if_splits)
  next
    case False
    show ?thesis
    proof (cases ?flush)
      case flush: True
      with False 2(2)[OF refl refl refl refl refl refl False] fits_snoc[OF fits_empty, of tgt m row]
        "2.prems"(2) whole show ?thesis by (auto simp: Let_def)
    next
      case noflush: False
      have "used + ?line \<le> MESSAGE_CHAR_LIMIT"
        using noflush False fits by (cases "batch = []") (auto simp: fits_def)
      with noflush False 2(2)[OF refl refl refl refl refl refl False] fits_snoc[OF fits] "2.prems"(2)
      show ?thesis by (simp add: Let_def)
    qed
  qed
qed

section \<open>Sending\<close>

text \<open>A delivered result: every remaining part was sent and accepted, on one common channel.\<close>

definition part_reply :: "(nat \<Rightarrow> part_env) \<Rightarrow> nat \<Rightarrow> utext \<Rightarrow> reply" where
  "part_reply env i m = transport (env i) m"

fun accepted_on :: "(nat \<Rightarrow> part_env) \<Rightarrow> string \<Rightarrow> nat \<Rightarrow> utext list \<Rightarrow> bool" where
  "accepted_on env c i [] = True"
| "accepted_on env c i (m # ms) =
     (reply_delivered (part_reply env i m) \<and> c \<in> set (reply_channels (part_reply env i m)) \<and> accepted_on env c (Suc i) ms)"

lemma accepted_on_nth:
  "accepted_on env c i msgs \<longleftrightarrow> (\<forall>k < length msgs. reply_delivered (part_reply env (i + k) (msgs ! k))
     \<and> c \<in> set (reply_channels (part_reply env (i + k) (msgs ! k))))"
  by (induction msgs arbitrary: i) (auto simp: less_Suc_eq_0_disj)

lemma send_parts_delivered:
  "r_delivered (snd (send_parts env single l rows common errs sent msgs db)) \<Longrightarrow> (single \<longrightarrow> length msgs \<le> 1) \<Longrightarrow>
   common \<noteq> Some [] \<Longrightarrow>
   sent_parts (snd (send_parts env single l rows common errs sent msgs db)) = sent + length msgs
   \<and> (\<exists>c. (\<forall>cs. common = Some cs \<longrightarrow> c \<in> set cs) \<and> accepted_on env c sent msgs)"
proof (induction msgs arbitrary: common errs sent db)
  case Nil
  then show ?case by (cases common) (auto simp: ex_in_conv)
next
  case (Cons m ms)
  let ?answer = "transport (env sent) m"
  let ?db0 = "others_before (env sent) db"
  let ?db1 = "?db0\<lparr>foutbox := renew_lease (part_time (env sent)) l (foutbox ?db0)\<rparr>"
  define cs where "cs = (case common of None \<Rightarrow> reply_channels ?answer
      | Some old \<Rightarrow> filter (\<lambda>c. c \<in> set (reply_channels ?answer)) old)"
  define errs' where "errs' = (if reply_error ?answer = '''' then errs else errs @ [reply_error ?answer])"
  from Cons.prems(1) have ok: "owns_all l rows ?db1" "reply_delivered ?answer" "cs \<noteq> []"
    by (auto simp: Let_def cs_def split: if_splits)
  have cs_sub: "c \<in> set (reply_channels ?answer) \<and> (\<forall>old. common = Some old \<longrightarrow> c \<in> set old)" if "c \<in> set cs" for c
    using that by (auto simp: cs_def split: option.splits)
  show ?case
  proof (cases single)
    case True
    with Cons.prems(2) have "ms = []" by simp
    moreover have "sent_parts (snd (send_parts env single l rows common errs sent (m # ms) db)) = Suc sent"
      using ok True by (simp add: Let_def cs_def[symmetric])
    moreover have "\<exists>c. c \<in> set cs" using ok(3) by (cases cs) auto
    ultimately show ?thesis using ok cs_sub by (auto simp: part_reply_def)
  next
    case False
    have eq: "send_parts env single l rows common errs sent (m # ms) db
        = send_parts env single l rows (Some cs) errs' (Suc sent) ms ?db1"
      using ok False by (simp add: Let_def cs_def[symmetric] errs'_def)
    from Cons.prems(1) have "r_delivered (snd (send_parts env single l rows (Some cs) errs' (Suc sent) ms ?db1))"
      unfolding eq .
    from Cons.IH[OF this] False ok(3) obtain c where c: "c \<in> set cs" "accepted_on env c (Suc sent) ms"
      and n: "sent_parts (snd (send_parts env single l rows (Some cs) errs' (Suc sent) ms ?db1)) = Suc sent + length ms"
      by auto
    from c(1) ok(2) c(2) cs_sub[OF c(1)] have "accepted_on env c sent (m # ms)" by (simp add: part_reply_def)
    with n cs_sub[OF c(1)] show ?thesis unfolding eq by auto
  qed
qed

text \<open>The database in which part \<open>k\<close> of the messages from number \<open>i\<close> on is sent: other workers have acted, and the leases of the
  worker were renewed.\<close>

definition before_part :: "(nat \<Rightarrow> part_env) \<Rightarrow> string \<Rightarrow> nat \<Rightarrow> finding_db \<Rightarrow> finding_db" where
  "before_part env l i db = (let d = others_before (env i) db in d\<lparr>foutbox := renew_lease (part_time (env i)) l (foutbox d)\<rparr>)"

fun at_part :: "(nat \<Rightarrow> part_env) \<Rightarrow> string \<Rightarrow> nat \<Rightarrow> nat \<Rightarrow> finding_db \<Rightarrow> finding_db" where
  "at_part env l i 0 db = before_part env l i db"
| "at_part env l i (Suc k) db = at_part env l (Suc i) k (before_part env l i db)"

lemma send_parts_owned:
  "r_delivered (snd (send_parts env single l rows common errs sent msgs db)) \<Longrightarrow> (single \<longrightarrow> length msgs \<le> 1) \<Longrightarrow>
   k < length msgs \<Longrightarrow> owns_all l rows (at_part env l sent k db)"
proof (induction msgs arbitrary: common errs sent db k)
  case (Cons m ms)
  let ?answer = "transport (env sent) m" and ?db1 = "before_part env l sent db"
  define cs where "cs = (case common of None \<Rightarrow> reply_channels ?answer
      | Some old \<Rightarrow> filter (\<lambda>c. c \<in> set (reply_channels ?answer)) old)"
  define errs' where "errs' = (if reply_error ?answer = '''' then errs else errs @ [reply_error ?answer])"
  from Cons.prems(1) have ok: "owns_all l rows ?db1" "reply_delivered ?answer" "cs \<noteq> []"
    by (auto simp: Let_def cs_def before_part_def split: if_splits)
  show ?case
  proof (cases k)
    case 0
    with ok show ?thesis by simp
  next
    case (Suc j)
    with Cons.prems(2,3) have "\<not> single" by auto
    with ok have "send_parts env single l rows common errs sent (m # ms) db = send_parts env single l rows (Some cs) errs' (Suc sent) ms ?db1"
      by (simp add: Let_def cs_def[symmetric] errs'_def before_part_def)
    with Cons.prems Cons.IH[of "Some cs" errs' "Suc sent" ?db1 j] Suc \<open>\<not> single\<close> show ?thesis by simp
  qed
qed simp

lemma at_part_renewed: "\<exists>d. at_part env l i k db = d\<lparr>foutbox := renew_lease (part_time (env (i + k))) l (foutbox d)\<rparr>"
proof (induction k arbitrary: i db)
  case 0
  show ?case by (auto simp: before_part_def Let_def)
next
  case (Suc k)
  from Suc[of "Suc i" "before_part env l i db"] show ?case by simp
qed

text \<open>What the worker still holds: a leased row for each event, its lease just renewed and its event waiting.\<close>

definition held_until :: "stamp \<Rightarrow> string \<Rightarrow> claimed list \<Rightarrow> finding_db \<Rightarrow> bool" where
  "held_until t l rows d \<longleftrightarrow> (\<forall>c \<in> set rows. \<exists>r \<in> set (foutbox d). event_id r = event_id (fst c) \<and> status r = Delivering
     \<and> lease_id r = l \<and> lease_expires_at r = Some t \<and> (\<exists>e \<in> set (events d). ev_id e = event_id r \<and> ev_status e = ''queued''))"

lemma owned_part: "owns_all l rows (at_part env l i k db) \<Longrightarrow> held_until (lease_expiry (part_time (env (i + k)))) l rows (at_part env l i k db)"
proof -
  assume o: "owns_all l rows (at_part env l i k db)"
  obtain d where d: "at_part env l i k db = d\<lparr>foutbox := renew_lease (part_time (env (i + k))) l (foutbox d)\<rparr>"
    using at_part_renewed by blast
  have new: "lease_expires_at r = Some (lease_expiry (part_time (env (i + k))))" if "r \<in> set (foutbox (at_part env l i k db))" "held_by l r" for r
    using that by (auto simp: d renew_lease_def set_update_where held_by_def)
  have ev: "\<exists>e \<in> set (events D). ev_id e = event_id r \<and> ev_status e = ''queued''"
    if "case event_of D r of None \<Rightarrow> False | Some e \<Rightarrow> ev_status e = ''queued''" for D r
    using that by (auto simp: event_of_def split: option.splits dest: select_one_Some)
  show ?thesis unfolding held_until_def
  proof
    fix c assume "c \<in> set rows"
    with o obtain r where r: "r \<in> set (foutbox (at_part env l i k db))" "event_id r = event_id (fst c)" "held_by l r"
      "case event_of (at_part env l i k db) r of None \<Rightarrow> False | Some e \<Rightarrow> ev_status e = ''queued''"
      by (auto simp: owns_all_def list_all_iff list_ex_iff)
    with new[OF r(1,3)] ev[OF r(4)] show "\<exists>r \<in> set (foutbox (at_part env l i k db)). event_id r = event_id (fst c) \<and> status r = Delivering
       \<and> lease_id r = l \<and> lease_expires_at r = Some (lease_expiry (part_time (env (i + k))))
       \<and> (\<exists>e \<in> set (events (at_part env l i k db)). ev_id e = event_id r \<and> ev_status e = ''queued'')"
      by (intro bexI[OF _ r(1)]) (simp add: held_by_def)
  qed
qed

section \<open>Settlement\<close>

lemma settle_finding_keys [simp]: "map event_id (settle_finding now l e b t) = map event_id t"
  by (cases b) (simp add: settle_finding_def map_update_where)

lemma settle_finding_none: "\<not> list_ex (owns_event l e) t \<Longrightarrow> settle_finding now l e b t = t"
  by (cases b) (auto simp: settle_finding_def update_where_def list_ex_iff intro: map_idI)

lemma settle_finding_new:
  "r \<in> set (settle_finding now l e b t) \<Longrightarrow> r \<in> set t \<or> status r \<in> {Delivered, Failed, Retry_Pending}"
  by (cases b) (auto simp: settle_finding_def set_update_where split: if_splits)

lemma settle_finding_keep: "r \<in> set t \<Longrightarrow> \<not> held_by l r \<Longrightarrow> r \<in> set (settle_finding now l e b t)"
  by (cases b) (force simp: settle_finding_def set_update_where owns_event_def)

lemma rowcount_owns: "keyed event_id t \<Longrightarrow> rowcount (owns_event l e) t = (if list_ex (owns_event l e) t then 1 else 0)"
  using rowcount_key[of event_id t e "held_by l"] by (simp add: owns_event_def[abs_def] list_ex_iff)

lemma finalize_finding_lost:
  "\<not> list_ex (owns_event l (event_id (fst c))) (foutbox db) \<Longrightarrow> finalize_finding now l res c (db, k) = (db, k)"
  by (simp add: finalize_finding_def Let_def settle_finding_none rowcount_def list_ex_iff filter_empty_conv)

section \<open>The lease contract\<close>

lemma renew_keys [simp]: "map event_id (renew_lease now l t) = map event_id t"
  by (simp add: renew_lease_def map_update_where)

lemma renew_keep: "r \<in> set t \<Longrightarrow> \<not> held_by l r \<Longrightarrow> r \<in> set (renew_lease now l t)"
  by (force simp: renew_lease_def set_update_where)

lemma renew_new: "r \<in> set (renew_lease now l t) \<Longrightarrow> r \<in> set t \<or> held_by l r"
  by (auto simp: renew_lease_def set_update_where held_by_def)

text \<open>A claim on the outbox table, the events being what they are; a settlement is the final one of
  an event, or the renewal before a message part.\<close>

definition claim_table :: "stamp \<Rightarrow> string \<Rightarrow> finding_claim \<times> notification_event list \<Rightarrow> finding_row list \<Rightarrow> finding_row list" where
  "claim_table now l = (\<lambda>(a, evs) t. foutbox (claim_findings now l a \<lparr>foutbox = t, events = evs, deliveries = []\<rparr>))"

definition settle_or_renew ::
    "stamp \<Rightarrow> string \<Rightarrow> string \<Rightarrow> (nat \<times> nat \<times> bool \<times> string) option \<Rightarrow> finding_row list \<Rightarrow> finding_row list" where
  "settle_or_renew now l e b t = (case b of None \<Rightarrow> renew_lease now l t | Some x \<Rightarrow> settle_finding now l e x t)"

lemma claim_table_eq: "claim_table now l (a, evs) t = (let t' = release_expired now t in lease_rows l now
    (finding_candidates now a \<lparr>foutbox = t', events = evs, deliveries = []\<rparr>) t')"
  by (simp add: claim_table_def claim_findings_def Let_def)

interpretation finding_lease: lease_table event_id
    "\<lambda>r :: finding_row. if status r = Delivering then Some (lease_id r) else None"
    lease_expires_at claim_table settle_or_renew
proof (unfold_locales, goal_cases)
  case (1 now l a t)
  show ?case by (cases a) (simp add: claim_table_eq Let_def)
next
  case (2 r t m e now l a)
  then show ?case
    by (cases a) (auto simp: claim_table_eq Let_def waiting_def expired_def split: if_splits
        intro!: lease_rows_keep release_keep)
next
  case (3 r now l a t)
  then show ?case
    by (cases a) (auto simp: claim_table_eq Let_def held_by_def dest!: lease_rows_new release_new)
next
  case (5 r t l now k b)
  then have "\<not> held_by l r" by (auto simp: held_by_def split: if_splits)
  with 5 show ?case by (auto simp: settle_or_renew_def renew_keep settle_finding_keep split: option.split)
next
  case (6 r now l k b t)
  then show ?case
    by (auto simp: settle_or_renew_def held_by_def dest!: settle_finding_new renew_new split: option.splits)
qed (auto simp: settle_or_renew_def split: option.split)

section \<open>Backfill\<close>

lemma insert_finding_has: "\<exists>r \<in> set (foutbox (insert_finding row db)). event_id r = event_id row"
  by (auto simp: insert_finding_def insert_ignore_def list_ex_iff)

lemma insert_finding_extends: "\<exists>new. foutbox (insert_finding row db) = foutbox db @ new \<and> (\<forall>r \<in> set new. r = row)"
  by (auto simp: insert_finding_def insert_ignore_def)

lemma insert_finding_events [simp]: "events (insert_finding row db) = events db"
  by (simp add: insert_finding_def)

lemma ensure_fold:
  fixes row_of :: "notification_event \<Rightarrow> finding_row"
  assumes "\<And>e. status (row_of e) = Queued" "\<And>e. event_id (row_of e) = ev_id e"
  shows "\<exists>new. foutbox (foldl (\<lambda>d e. insert_finding (row_of e) d) db es) = foutbox db @ new
      \<and> (\<forall>r \<in> set new. status r = Queued)
      \<and> (\<forall>e \<in> set es. \<exists>r \<in> set (foutbox db @ new). event_id r = ev_id e)"
proof (induction es arbitrary: db)
  case (Cons e es)
  obtain new1 where 1: "foutbox (insert_finding (row_of e) db) = foutbox db @ new1" "\<forall>r \<in> set new1. r = row_of e"
    using insert_finding_extends by blast
  obtain new2 where 2: "foutbox (foldl (\<lambda>d e. insert_finding (row_of e) d) (insert_finding (row_of e) db) es)
      = foutbox (insert_finding (row_of e) db) @ new2" "\<forall>r \<in> set new2. status r = Queued"
      "\<forall>e' \<in> set es. \<exists>r \<in> set (foutbox (insert_finding (row_of e) db) @ new2). event_id r = ev_id e'"
    using Cons.IH by blast
  have "\<exists>r \<in> set (foutbox db @ new1). event_id r = ev_id e"
    using insert_finding_has[of "row_of e" db] assms(2) 1(1) by auto
  with 1 2 assms(1) show ?case by (intro exI[of _ "new1 @ new2"]) auto
qed simp

section \<open>Properties\<close>

text \<open>C9: Splitting a group of findings into messages loses nothing and respects the transport limit:
  the batches partition the claimed events in order, no batch is empty, the parts of a batch
  concatenate to its message, every part has at most 15000 characters; a message within this limit is sent whole, and one
  beyond it is that of a single event, cut into parts of exactly 15000 characters and the rest.\<close>

theorem message_batches_partition_and_bound:
  "concat (map fst (message_batches tgt m rows)) = rows
   \<and> (\<forall>(batch, msgs) \<in> set (message_batches tgt m rows).
        batch \<noteq> [] \<and> concat msgs = finding_message tgt m batch \<and> (\<forall>s \<in> set msgs. length s \<le> 15000)
        \<and> (if length (finding_message tgt m batch) \<le> 15000 then msgs = [finding_message tgt m batch]
           else length batch = 1 \<and> (\<forall>s \<in> set (butlast msgs). length s = 15000)))"
proof -
  have ok: "bounded_batch tgt m b" if "b \<in> set (message_batches tgt m rows)" for b
    by (rule batches_from_bounded[OF fits_empty that[unfolded message_batches_def]])
  show ?thesis
  proof (intro conjI ballI)
    show "concat (map fst (message_batches tgt m rows)) = rows"
      using batches_from_partition[OF fits_empty, of tgt m rows] by (simp only: message_batches_def append_Nil)
    fix b assume "b \<in> set (message_batches tgt m rows)"
    from ok[OF this] show "case b of (batch, msgs) \<Rightarrow>
        batch \<noteq> [] \<and> concat msgs = finding_message tgt m batch \<and> (\<forall>s \<in> set msgs. length s \<le> 15000)
        \<and> (if length (finding_message tgt m batch) \<le> 15000 then msgs = [finding_message tgt m batch]
           else length batch = 1 \<and> (\<forall>s \<in> set (butlast msgs). length s = 15000))"
      unfolding bounded_batch_def MESSAGE_CHAR_LIMIT_def split_def .
  qed
qed

definition sample_event :: notification_event where
  "sample_event = \<lparr>ev_id = ''e'', ev_target = ''t'', ev_type = EVENT_TYPE, ev_mode = ''digest'', ev_score = 70,
     ev_payload = \<lparr>transition = None, bug_family = [], title = [], endpoint = []\<rparr>, ev_status = ''queued'',
     ev_created = 10, ev_delivered = None\<rparr>"

theorem message_batches_partition_and_bound_witness:
  "concat (map fst (message_batches ''t'' ''digest'' [(finding_row_of ''e'' ''t'' ''digest'' 0 0 0, sample_event)]))
     = [(finding_row_of ''e'' ''t'' ''digest'' 0 0 0, sample_event)]"
  using message_batches_partition_and_bound by blast

text \<open>C8: A group of message parts counts as delivered only when every part was sent and accepted, in
  order, one and the same channel carried all of them, and at each part the worker still held every event of the group: a row
  under its lease, renewed at that moment, whose event was still queued.  So a lost lease or a rejected part in between
  makes the whole group undelivered.\<close>

theorem delivered_means_every_part_on_one_channel:
  assumes "send_message_parts env lease rows msgs db = (db', res)" "r_delivered res"
  shows "sent_parts res = length msgs
    \<and> (\<exists>c. \<forall>i < length msgs. reply_delivered (transport (env i) (msgs ! i))
                \<and> c \<in> set (reply_channels (transport (env i) (msgs ! i))))
    \<and> (\<forall>i < length msgs. held_until (lease_expiry (part_time (env i))) lease rows (at_part env lease 0 i db))"
proof -
  have d: "r_delivered (snd (send_parts env (length msgs = 1) lease rows None [] 0 msgs db))"
    using assms by (simp add: send_message_parts_def)
  have "held_until (lease_expiry (part_time (env i))) lease rows (at_part env lease 0 i db)" if "i < length msgs" for i
    using owned_part[OF send_parts_owned[OF d _ that]] by simp
  moreover have "sent_parts res = length msgs \<and> (\<exists>c. \<forall>i < length msgs. reply_delivered (transport (env i) (msgs ! i))
                \<and> c \<in> set (reply_channels (transport (env i) (msgs ! i))))"
    using assms send_parts_delivered[of env "length msgs = 1" lease rows None "[]" 0 msgs db]
    by (auto simp: send_message_parts_def accepted_on_nth part_reply_def)
  ultimately show ?thesis by blast
qed

theorem delivered_means_every_part_on_one_channel_witness:
  "let env = (\<lambda>i. \<lparr>others_before = id, part_time = 5, transport = (\<lambda>m. Answered True ''telegram'' [] '''')\<rparr>);
       row = (finding_row_of ''e'' ''t'' ''digest'' 0 0 0)\<lparr>status := Delivering, lease_id := ''L''\<rparr>;
       res = snd (send_message_parts env ''L'' [(row, sample_event)] [[1], [2]]
               \<lparr>foutbox = [row], events = [sample_event], deliveries = []\<rparr>)
   in r_delivered res \<and> sent_parts res = 2"
proof -
  define env :: "nat \<Rightarrow> part_env" where
    "env = (\<lambda>i. \<lparr>others_before = id, part_time = 5, transport = (\<lambda>m. Answered True ''telegram'' [] '''')\<rparr>)"
  define row where "row = (finding_row_of ''e'' ''t'' ''digest'' 0 0 0)\<lparr>status := Delivering, lease_id := ''L''\<rparr>"
  define db where "db = \<lparr>foutbox = [row], events = [sample_event], deliveries = []\<rparr>"
  obtain db' res where s: "send_message_parts env ''L'' [(row, sample_event)] [[1], [2]] db = (db', res)" by fastforce
  then have "r_delivered res"
    by (auto simp: env_def row_def db_def send_message_parts_def Let_def owns_all_def renew_lease_def held_by_def
        finding_row_of_def event_of_def select_one_def sample_event_def split: if_splits)
  moreover from delivered_means_every_part_on_one_channel[OF s this] have "sent_parts res = length [[1], [2::nat]]" by (rule conjunct1)
  ultimately show ?thesis
    using s unfolding env_def[symmetric] row_def[symmetric] db_def[symmetric] Let_def by simp
qed

text \<open>Settling a finding is all or nothing: the worker that holds the row's lease marks the outbox
  row, its queued event and the delivery log together, with the outcome that was sent: a delivered
  event is delivered in both tables, an event whose attempts are used up fails in both, and any other
  failure leaves the event queued and the row waiting for its retry.\<close>

theorem finding_settlement_is_atomic:
  assumes "keyed event_id (foutbox db)" "r \<in> set (foutbox db)" "event_id r = event_id (fst c)"
    and "status r = Delivering" "lease_id r = lease"
    and "finalize_finding now lease res c (db, k) = (db', k')"
    and "n = attempt_count (fst c) + 1" "used_up \<longleftrightarrow> attempt_limit (fst c) \<le> n"
  shows "(\<exists>r' \<in> set (foutbox db'). event_id r' = event_id r \<and> attempt_count r' = n \<and> lease_id r' = ''''
      \<and> status r' = (if r_delivered res then Delivered else if used_up then Failed else Retry_Pending))
    \<and> events db' = (if r_delivered res then update_where (\<lambda>e. ev_id e = event_id r \<and> ev_status e = ''queued'')
             (\<lambda>e. e\<lparr>ev_status := ''delivered'', ev_delivered := Some now\<rparr>) (events db)
           else if used_up then update_where (\<lambda>e. ev_id e = event_id r \<and> ev_status e = ''queued'')
             (\<lambda>e. e\<lparr>ev_status := ''failed''\<rparr>) (events db)
           else events db)
    \<and> map log_status (deliveries db') = map log_status (deliveries db) @
           [if r_delivered res then ''delivered'' else ''failed'']"
proof (intro conjI)
  let ?o = "owns_event lease (event_id (fst c))"
  have own: "?o r" using assms(3-5) by (simp add: owns_event_def held_by_def)
  then have one: "rowcount ?o (foutbox db) = 1"
    using rowcount_owns[OF assms(1)] assms(2) by (auto simp: list_ex_iff)
  define t where "t = settle_finding now lease (event_id (fst c)) (n, attempt_limit (fst c), r_delivered res, r_error res) (foutbox db)"
  define r' where "r' = (if r_delivered res then set_delivered n now r
      else set_retry n (attempt_limit (fst c)) (r_error res) now r)"
  have "r' \<in> set t" using own assms(2) by (force simp: t_def settle_finding_def set_update_where r'_def)
  moreover have "foutbox db' = t"
    using assms(6,7) one by (auto simp: finalize_finding_def Let_def log_delivery_def set_event_status_def t_def
        split: if_splits)
  moreover have "event_id r' = event_id r \<and> attempt_count r' = n \<and> lease_id r' = ''''
      \<and> status r' = (if r_delivered res then Delivered else if used_up then Failed else Retry_Pending)"
    using assms(8) by (simp add: r'_def)
  ultimately show "\<exists>r' \<in> set (foutbox db'). event_id r' = event_id r \<and> attempt_count r' = n \<and> lease_id r' = ''''
      \<and> status r' = (if r_delivered res then Delivered else if used_up then Failed else Retry_Pending)" by blast
  show "events db' = (if r_delivered res then update_where (\<lambda>e. ev_id e = event_id r \<and> ev_status e = ''queued'')
             (\<lambda>e. e\<lparr>ev_status := ''delivered'', ev_delivered := Some now\<rparr>) (events db)
           else if used_up then update_where (\<lambda>e. ev_id e = event_id r \<and> ev_status e = ''queued'')
             (\<lambda>e. e\<lparr>ev_status := ''failed''\<rparr>) (events db)
           else events db)"
    using assms(3,6-8) one by (auto simp: finalize_finding_def Let_def log_delivery_def set_event_status_def)
  show "map log_status (deliveries db') = map log_status (deliveries db) @
           [if r_delivered res then ''delivered'' else ''failed'']"
    using assms(6-8) one by (auto simp: finalize_finding_def Let_def log_delivery_def set_event_status_def
        split: if_splits)
qed

definition leased_finding :: finding_row where
  "leased_finding = (finding_row_of ''e'' ''t'' ''digest'' 0 0 0)\<lparr>status := Delivering, lease_id := ''L''\<rparr>"

definition leased_db :: finding_db where
  "leased_db = \<lparr>foutbox = [leased_finding], events = [sample_event], deliveries = []\<rparr>"

theorem finding_settlement_is_atomic_witness:
  "let db' = fst (finalize_finding 50 ''L'' \<lparr>r_delivered = True, r_channel = ''telegram'', r_error = '''', sent_parts = 1\<rparr>
             (leased_finding, sample_event) (leased_db, \<lparr>n_delivered = 0, n_retried = 0, n_failed = 0\<rparr>))
   in \<exists>r' \<in> set (foutbox db'). event_id r' = ''e'' \<and> status r' = Delivered"
proof -
  define res where "res = \<lparr>r_delivered = True, r_channel = ''telegram'', r_error = '''', sent_parts = 1\<rparr>"
  obtain db' k' where f: "finalize_finding 50 ''L'' res (leased_finding, sample_event)
      (leased_db, \<lparr>n_delivered = 0, n_retried = 0, n_failed = 0\<rparr>) = (db', k')" by fastforce
  have db: "keyed event_id (foutbox leased_db)" "leased_finding \<in> set (foutbox leased_db)"
    and row: "status leased_finding = Delivering" "lease_id leased_finding = ''L''" "event_id leased_finding = ''e''"
    by (simp_all add: leased_db_def leased_finding_def finding_row_of_def keyed_def)
  from finding_settlement_is_atomic[OF db _ row(1,2) f refl refl]
  show ?thesis using f row(3) unfolding res_def[symmetric] Let_def by (auto simp: res_def)
qed

text \<open>A worker without the lease records nothing: when the row is not delivering under its lease any
  more, settling changes neither outbox nor event nor delivery log, and nothing is counted.\<close>

theorem stale_finding_worker_changes_nothing:
  assumes "\<forall>r \<in> set (foutbox db). event_id r = event_id (fst c) \<longrightarrow> status r \<noteq> Delivering \<or> lease_id r \<noteq> lease"
  shows "finalize_finding now lease res c (db, k) = (db, k)"
  using assms by (intro finalize_finding_lost) (auto simp: list_ex_iff owns_event_def held_by_def)

theorem stale_finding_worker_changes_nothing_witness:
  "finalize_finding 50 ''M'' \<lparr>r_delivered = True, r_channel = ''telegram'', r_error = '''', sent_parts = 1\<rparr>
     (leased_finding, sample_event) (leased_db, \<lparr>n_delivered = 0, n_retried = 0, n_failed = 0\<rparr>)
   = (leased_db, \<lparr>n_delivered = 0, n_retried = 0, n_failed = 0\<rparr>)"
  by (rule stale_finding_worker_changes_nothing) (simp add: leased_db_def leased_finding_def finding_row_of_def)

text \<open>A live lease on a finding row is exclusive: before it runs out, no sequence of claims, lease
  renewals and settlements by workers with other lease ids, at whatever times and in whatever order,
  changes the row.\<close>

theorem finding_lease_is_exclusive:
  assumes "r \<in> set t" "status r = Delivering" "lease_expires_at r = Some e"
    and "\<forall>(now, l, w) \<in> set actions. now < e \<and> l \<noteq> lease_id r"
  shows "r \<in> set (fold (\<lambda>(now, l, w) t. case w of Inl a \<Rightarrow> claim_table now l a t
                       | Inr (k, outcome) \<Rightarrow> settle_or_renew now l k outcome t) actions t)"
proof -
  have "(\<lambda>(now, l, w) t. case w of Inl a \<Rightarrow> claim_table now l a t
           | Inr (k, outcome) \<Rightarrow> settle_or_renew now l k outcome t) = finding_lease.act"
    by (auto simp: finding_lease.act_def fun_eq_iff split: sum.split)
  with finding_lease.acts_keep[of r t "lease_id r" e actions] assms show ?thesis by simp
qed

theorem finding_lease_is_exclusive_witness:
  "leased_finding\<lparr>lease_expires_at := Some 300\<rparr> \<in> set
     (fold (\<lambda>(now, l, w) t. case w of Inl a \<Rightarrow> claim_table now l a t
             | Inr (k, outcome) \<Rightarrow> settle_or_renew now l k outcome t)
       [(200, ''M'', Inl (\<lparr>for_target = '''', for_mode = '''', at_most = 50\<rparr>, [sample_event])),
        (250, ''M'', Inr (''e'', None)), (260, ''M'', Inr (''e'', Some (1, 8, True, '''')))]
       [leased_finding\<lparr>lease_expires_at := Some 300\<rparr>])"
  by (rule finding_lease_is_exclusive[where e = 300]) (simp_all add: leased_finding_def)

text \<open>No queued finding is forgotten: every delivery run first extends the outbox, keeping all
  existing rows, so that each queued potential finding of a deliverable mode has its row.\<close>

theorem every_queued_finding_gets_a_row:
  "\<exists>new. foutbox (ensure_finding_outbox now db) = foutbox db @ new \<and> (\<forall>r \<in> set new. status r = Queued)
     \<and> (\<forall>e \<in> set (filter (\<lambda>e. ev_type e = EVENT_TYPE \<and> ev_status e = ''queued'' \<and> ev_mode e \<in> set DELIVERABLE_MODES) (events db)).
          \<exists>r \<in> set (foutbox (ensure_finding_outbox now db)). event_id r = ev_id e)"
proof -
  let ?es = "filter (\<lambda>e. ev_type e = EVENT_TYPE \<and> ev_status e = ''queued'' \<and> ev_mode e \<in> set DELIVERABLE_MODES) (events db)"
  let ?row = "\<lambda>e. finding_row_of (ev_id e) (ev_target e) (ev_mode e) (ev_created e) (ev_created e) now"
  have "\<And>e. status (?row e) = Queued" "\<And>e. event_id (?row e) = ev_id e" by (simp_all add: finding_row_of_def)
  from ensure_fold[of ?row db ?es, OF this] show ?thesis
    unfolding ensure_finding_outbox_def by (elim exE conjE, intro exI conjI) simp_all
qed

theorem every_queued_finding_gets_a_row_witness:
  "\<exists>r \<in> set (foutbox (ensure_finding_outbox 20 \<lparr>foutbox = [], events = [sample_event], deliveries = []\<rparr>)). event_id r = ''e''"
  using every_queued_finding_gets_a_row[of 20 "\<lparr>foutbox = [], events = [sample_event], deliveries = []\<rparr>"]
  by (auto simp: sample_event_def DELIVERABLE_MODES_def)

end
