(* ===== verification/Json_Text.thy ===== *)
theory Json_Text
  imports Recon_Prelude Complex_Main
begin

text \<open>
  JSON values and their text, as \<open>json.loads\<close> reads it and \<open>core.json_dumps\<close> writes it (compact,
  sorted keys, no ASCII escaping), and the defensive decoder \<open>core.safe_json_loads\<close>.

  A decimal literal is read as its exact rational value; \<open>fr\<close> is the text CPython prints for a float
  and is an argument of the writer.  The main fact is the round trip: a float-free value with distinct
  keys is read back from its text, with its keys sorted.
\<close>

datatype json =
    JNull
  | JBool bool
  | JInt int
  | JFloat rat
  | JNonFinite
  | JText string
  | JList "json list"
  | JObj "(string \<times> json) list"

text \<open>\<open>d[k] = v\<close>: an existing key keeps its place.\<close>

fun obj_set :: "string \<Rightarrow> json \<Rightarrow> (string \<times> json) list \<Rightarrow> (string \<times> json) list" where
  "obj_set k v [] = [(k, v)]"
| "obj_set k v ((k', v') # m) = (if k' = k then (k, v) # m else (k', v') # obj_set k v m)"

section \<open>Writing\<close>

definition hex_digit :: "nat \<Rightarrow> char" where
  "hex_digit n = char_of (if n < 10 then 48 + n else 87 + n)"

definition quote :: char where
  "quote = CHR 0x22"

definition backslash :: char where
  "backslash = CHR 0x5C"

definition esc_char :: "char \<Rightarrow> string" where
  "esc_char c =
     (if c = quote then [backslash, quote]
      else if c = backslash then [backslash, backslash]
      else if code c = 10 then [backslash, CHR ''n'']
      else if code c = 13 then [backslash, CHR ''r'']
      else if code c = 9 then [backslash, CHR ''t'']
      else if code c = 12 then [backslash, CHR ''f'']
      else if code c = 8 then [backslash, CHR ''b'']
      else if code c < 32 then [backslash, CHR ''u'', CHR ''0'', CHR ''0'', hex_digit (code c div 16), hex_digit (code c mod 16)]
      else [c])"

definition dump_text :: "string \<Rightarrow> string" where
  "dump_text s = quote # concat (map esc_char s) @ [quote]"

text \<open>\<open>sort_keys=True\<close>, at every level.\<close>

primrec sorted_keys :: "json \<Rightarrow> json" where
  "sorted_keys JNull = JNull"
| "sorted_keys (JBool b) = JBool b"
| "sorted_keys (JInt i) = JInt i"
| "sorted_keys (JFloat r) = JFloat r"
| "sorted_keys JNonFinite = JNonFinite"
| "sorted_keys (JText s) = JText s"
| "sorted_keys (JList vs) = JList (map sorted_keys vs)"
| "sorted_keys (JObj m) = JObj (sort_key fst (map (map_prod id sorted_keys) m))"

primrec dump_plain :: "(rat \<Rightarrow> string) \<Rightarrow> json \<Rightarrow> string" where
  "dump_plain fr JNull = ''null''"
| "dump_plain fr (JBool b) = (if b then ''true'' else ''false'')"
| "dump_plain fr (JInt i) = show_int i"
| "dump_plain fr (JFloat r) = fr r"
| "dump_plain fr JNonFinite = ''NaN''"
| "dump_plain fr (JText s) = dump_text s"
| "dump_plain fr (JList vs) = ''['' @ py_join '','' (map (dump_plain fr) vs) @ '']''"
| "dump_plain fr (JObj m) = ''{'' @ py_join '','' (map (\<lambda>(k, t). dump_text k @ '':'' @ t) (map (map_prod id (dump_plain fr)) m)) @ ''}''"

definition json_dumps :: "(rat \<Rightarrow> string) \<Rightarrow> json \<Rightarrow> string" where
  "json_dumps fr v = dump_plain fr (sorted_keys v)"

section \<open>Reading\<close>

definition json_ws :: "char \<Rightarrow> bool" where
  "json_ws c \<longleftrightarrow> code c = 32 \<or> code c = 9 \<or> code c = 10 \<or> code c = 13"

definition skip_ws :: "string \<Rightarrow> string" where
  "skip_ws s = dropWhile json_ws s"

definition hex_val :: "char \<Rightarrow> nat option" where
  "hex_val c =
     (let n = code c
      in if 48 \<le> n \<and> n \<le> 57 then Some (n - 48)
         else if 97 \<le> n \<and> n \<le> 102 then Some (n - 87)
         else if 65 \<le> n \<and> n \<le> 70 then Some (n - 55)
         else None)"

text \<open>Code points above 255 are outside the alphabet of the model.\<close>

definition unicode_char :: "char \<Rightarrow> char \<Rightarrow> char \<Rightarrow> char \<Rightarrow> char option" where
  "unicode_char a b c d =
     (case (hex_val a, hex_val b, hex_val c, hex_val d) of
        (Some w, Some x, Some y, Some z) \<Rightarrow>
          let n = ((w * 16 + x) * 16 + y) * 16 + z in if n < 256 then Some (char_of n) else None
      | _ \<Rightarrow> None)"

definition unescape :: "char \<Rightarrow> char option" where
  "unescape e =
     (if e = quote \<or> e = backslash \<or> e = CHR ''/'' then Some e
      else if e = CHR ''n'' then Some (char_of (10 :: nat))
      else if e = CHR ''r'' then Some (char_of (13 :: nat))
      else if e = CHR ''t'' then Some (char_of (9 :: nat))
      else if e = CHR ''f'' then Some (char_of (12 :: nat))
      else if e = CHR ''b'' then Some (char_of (8 :: nat))
      else None)"

definition cons_text :: "char option \<Rightarrow> (string \<times> string) option \<Rightarrow> (string \<times> string) option" where
  "cons_text c r = (case (c, r) of (Some x, Some (t, rest)) \<Rightarrow> Some (x # t, rest) | _ \<Rightarrow> None)"

text \<open>The rest of a string literal, after its opening quote.\<close>

fun p_text :: "string \<Rightarrow> (string \<times> string) option" where
  "p_text [] = None"
| "p_text (c # s) =
     (if c = quote then Some ([], s)
      else if c = backslash then
        (case s of
           [] \<Rightarrow> None
         | e # s' \<Rightarrow>
             if e = CHR ''u'' then
               (case s' of a # b # x # y # s'' \<Rightarrow> cons_text (unicode_char a b x y) (p_text s'') | _ \<Rightarrow> None)
             else cons_text (unescape e) (p_text s'))
      else if code c < 32 then None
      else cons_text (Some c) (p_text s))"

definition rat_pow10 :: "int \<Rightarrow> rat" where
  "rat_pow10 e = (if 0 \<le> e then 10 ^ nat e else 1 / 10 ^ nat (- e))"

definition signed :: "bool \<Rightarrow> nat \<Rightarrow> int" where
  "signed neg n = (if neg then - int n else int n)"

text \<open>\<open>-?(0|[1-9][0-9]*)(\.[0-9]+)?([eE][-+]?[0-9]+)?\<close>\<close>

definition p_number :: "string \<Rightarrow> (json \<times> string) option" where
  "p_number s =
     (let neg = (s \<noteq> [] \<and> hd s = CHR ''-''); s1 = (if neg then tl s else s);
          ds = takeWhile py_digit s1;
          ip = (if ds \<noteq> [] \<and> hd ds = CHR ''0'' then ''0'' else ds)
      in if ip = [] then None
         else
           let s2 = drop (length ip) s1;
               fd = (if s2 \<noteq> [] \<and> hd s2 = CHR ''.'' then takeWhile py_digit (tl s2) else []);
               s3 = (if fd = [] then s2 else drop (1 + length fd) s2);
               expo = (s3 \<noteq> [] \<and> (hd s3 = CHR ''e'' \<or> hd s3 = CHR ''E''));
               es = (if expo then tl s3 else []);
               eneg = (es \<noteq> [] \<and> hd es = CHR ''-'');
               es1 = (if es \<noteq> [] \<and> (hd es = CHR ''-'' \<or> hd es = CHR ''+'') then tl es else es);
               ed = takeWhile py_digit es1;
               s4 = (if ed = [] then s3 else drop (length ed) es1)
           in if fd = [] \<and> ed = [] then Some (JInt (signed neg (dec_val ip)), s2)
              else Some (JFloat (of_int (signed neg (dec_val (ip @ fd))) * rat_pow10 (signed eneg (dec_val ed) - int (length fd))), s4))"

definition p_atom :: "string \<Rightarrow> (json \<times> string) option" where
  "p_atom s =
     (if startswith s ''null'' then Some (JNull, drop 4 s)
      else if startswith s ''true'' then Some (JBool True, drop 4 s)
      else if startswith s ''false'' then Some (JBool False, drop 5 s)
      else if startswith s ''NaN'' then Some (JNonFinite, drop 3 s)
      else if startswith s ''Infinity'' then Some (JNonFinite, drop 8 s)
      else if startswith s ''-Infinity'' then Some (JNonFinite, drop 9 s)
      else p_number s)"

text \<open>The first argument bounds the nesting and the number of elements; the length of the text is
  always enough.\<close>

fun p_value :: "nat \<Rightarrow> string \<Rightarrow> (json \<times> string) option"
  and p_items :: "nat \<Rightarrow> json list \<Rightarrow> string \<Rightarrow> (json \<times> string) option"
  and p_members :: "nat \<Rightarrow> (string \<times> json) list \<Rightarrow> string \<Rightarrow> (json \<times> string) option" where
  "p_value 0 s = None"
| "p_value (Suc n) s =
     (case s of
        [] \<Rightarrow> None
      | c # s' \<Rightarrow>
          if c = quote then (case p_text s' of None \<Rightarrow> None | Some (t, r) \<Rightarrow> Some (JText t, r))
          else if c = CHR ''['' then
            (let r = skip_ws s' in if startswith r '']'' then Some (JList [], tl r) else p_items n [] r)
          else if c = CHR ''{'' then
            (let r = skip_ws s' in if startswith r ''}'' then Some (JObj [], tl r) else p_members n [] r)
          else p_atom s)"
| "p_items 0 acc s = None"
| "p_items (Suc n) acc s =
     (case p_value n s of
        None \<Rightarrow> None
      | Some (v, r0) \<Rightarrow>
          let r = skip_ws r0
          in if startswith r '','' then p_items n (acc @ [v]) (skip_ws (tl r))
             else if startswith r '']'' then Some (JList (acc @ [v]), tl r)
             else None)"
| "p_members 0 acc s = None"
| "p_members (Suc n) acc s =
     (if s = [] \<or> hd s \<noteq> quote then None
      else case p_text (tl s) of
        None \<Rightarrow> None
      | Some (k, r0) \<Rightarrow>
          let r1 = skip_ws r0
          in if \<not> startswith r1 '':'' then None
             else case p_value n (skip_ws (tl r1)) of
               None \<Rightarrow> None
             | Some (v, r2) \<Rightarrow>
                 let r = skip_ws r2
                 in if startswith r '','' then p_members n (obj_set k v acc) (skip_ws (tl r))
                    else if startswith r ''}'' then Some (JObj (obj_set k v acc), tl r)
                    else None)"

definition json_loads :: "string \<Rightarrow> json option" where
  "json_loads s =
     (let t = skip_ws s
      in case p_value (Suc (length t)) t of
           Some (v, r) \<Rightarrow> if skip_ws r = [] then Some v else None
         | None \<Rightarrow> None)"

section \<open>Defensive decoding\<close>

datatype json_kind = Dict_Kind | List_Kind | Text_Kind | Int_Kind | Float_Kind | Bool_Kind

text \<open>\<open>isinstance\<close>: a \<open>bool\<close> is an \<open>int\<close>.\<close>

fun is_kind :: "json_kind \<Rightarrow> json \<Rightarrow> bool" where
  "is_kind Dict_Kind v = (case v of JObj m \<Rightarrow> True | _ \<Rightarrow> False)"
| "is_kind List_Kind v = (case v of JList m \<Rightarrow> True | _ \<Rightarrow> False)"
| "is_kind Text_Kind v = (case v of JText m \<Rightarrow> True | _ \<Rightarrow> False)"
| "is_kind Int_Kind v = (case v of JInt m \<Rightarrow> True | JBool b \<Rightarrow> True | _ \<Rightarrow> False)"
| "is_kind Float_Kind v = (case v of JFloat m \<Rightarrow> True | JNonFinite \<Rightarrow> True | _ \<Rightarrow> False)"
| "is_kind Bool_Kind v = (case v of JBool b \<Rightarrow> True | _ \<Rightarrow> False)"

fun kind_of :: "json \<Rightarrow> json_kind option" where
  "kind_of JNull = None"
| "kind_of (JBool b) = Some Bool_Kind"
| "kind_of (JInt i) = Some Int_Kind"
| "kind_of (JFloat r) = Some Float_Kind"
| "kind_of JNonFinite = Some Float_Kind"
| "kind_of (JText s) = Some Text_Kind"
| "kind_of (JList vs) = Some List_Kind"
| "kind_of (JObj m) = Some Dict_Kind"

definition safe_json_loads :: "json \<Rightarrow> json \<Rightarrow> json_kind option \<Rightarrow> json" where
  "safe_json_loads v dflt expected =
     (let decoded = (case v of
            JNull \<Rightarrow> None
          | JText s \<Rightarrow> (let t = py_strip s in if t = [] then None else json_loads t)
          | _ \<Rightarrow> Some v);
          required = (case expected of Some k \<Rightarrow> Some k | None \<Rightarrow> kind_of dflt)
      in case decoded of
           None \<Rightarrow> dflt
         | Some d \<Rightarrow> (case required of None \<Rightarrow> d | Some k \<Rightarrow> if is_kind k d then d else dflt))"

text \<open>The truth value of a decoded value, and \<open>d.get(k)\<close> on the entries of a mapping.\<close>

fun truthy :: "json \<Rightarrow> bool" where
  "truthy JNull = False"
| "truthy (JBool b) = b"
| "truthy (JInt i) = (i \<noteq> 0)"
| "truthy (JFloat r) = (r \<noteq> 0)"
| "truthy JNonFinite = True"
| "truthy (JText s) = (s \<noteq> [])"
| "truthy (JList vs) = (vs \<noteq> [])"
| "truthy (JObj m) = (m \<noteq> [])"

definition get :: "(string \<times> json) list \<Rightarrow> string \<Rightarrow> json" where
  "get m k = (case map_of m k of None \<Rightarrow> JNull | Some v \<Rightarrow> v)"

section \<open>Round trip\<close>

lemma startswith_Cons [simp]: "startswith (c # s) (d # p) \<longleftrightarrow> c = d \<and> startswith s p"
  by (auto simp: startswith_def)

lemma startswith_Nil [simp]: "startswith s []" "\<not> startswith [] (d # p)"
  by (auto simp: startswith_def)

lemma startswith_append [simp]: "startswith (p @ s) p"
  by (simp add: startswith_def)

lemma code_inj: "code c = code d \<longleftrightarrow> c = d"
  by (metis char_of_code)

lemma code_lt: "code c < 256"
  by (simp add: code_def)

lemma hex_val_digit: "n < 16 \<Longrightarrow> hex_val (hex_digit n) = Some n"
  by (auto simp: hex_val_def hex_digit_def Let_def)

lemma unicode_digits:
  "code c < 32 \<Longrightarrow> unicode_char (CHR ''0'') (CHR ''0'') (hex_digit (code c div 16)) (hex_digit (code c mod 16)) = Some c"
proof -
  assume c: "code c < 32"
  have z: "hex_val (CHR ''0'') = Some 0" by (simp add: hex_val_def code_def)
  have "16 * (code c div 16) + code c mod 16 = code c" by simp
  with c z hex_val_digit[of "code c div 16"] hex_val_digit[of "code c mod 16"] show ?thesis
    by (simp add: unicode_char_def Let_def mult.commute)
qed

lemma special_chars [simp]: "code quote = 34" "code backslash = 92" "quote \<noteq> backslash" "backslash \<noteq> quote"
  by (simp_all add: quote_def backslash_def code_def)

lemma char_of_10: "code c = 10 \<Longrightarrow> c = char_of (10 :: nat)" "code c = 13 \<Longrightarrow> c = char_of (13 :: nat)"
  "code c = 9 \<Longrightarrow> c = char_of (9 :: nat)" "code c = 12 \<Longrightarrow> c = char_of (12 :: nat)"
  "code c = 8 \<Longrightarrow> c = char_of (8 :: nat)"
  by (metis char_of_code)+

lemma p_text_esc: "p_text (esc_char c @ s) = cons_text (Some c) (p_text s)"
  by (auto simp: esc_char_def unescape_def quote_def backslash_def unicode_digits[unfolded code_def] code_def
      dest: char_of_10[unfolded code_def])

lemma p_text_dump: "p_text (concat (map esc_char t) @ quote # s) = Some (t, s)"
  by (induction t) (simp_all add: p_text_esc cons_text_def)

lemma p_text_dump_text: "p_text (tl (dump_text t @ s)) = Some (t, s)"
  by (simp add: dump_text_def p_text_dump)

text \<open>What may follow a value inside a text.\<close>

definition ends :: "string \<Rightarrow> bool" where
  "ends r \<longleftrightarrow> r = [] \<or> hd r \<in> {CHR '','', CHR '']'', CHR ''}''}"

lemma show_nat_nonempty [simp]: "show_nat n \<noteq> []"
  using show_nat_digits[of n] by (auto simp: py_isdigit_def)

lemma hd_show_nat: "0 < n \<Longrightarrow> hd (show_nat n) \<noteq> CHR ''0''"
proof (induction n rule: show_nat.induct)
  case (1 n)
  show ?case
  proof (cases "n < 10")
    case True
    with 1(2) code_zero[of "char_of (48 + n)"] show ?thesis by (subst show_nat.simps) simp
  next
    case False
    with 1 show ?thesis by (subst show_nat.simps) simp
  qed
qed

lemma show_nat_zero: "show_nat 0 = ''0''"
  using code_zero[of "char_of (48 :: nat)"] by (subst show_nat.simps) simp

lemma takeWhile_digits: "ends r \<Longrightarrow> takeWhile py_digit (show_nat n @ r) = show_nat n"
proof -
  assume "ends r"
  then have "takeWhile py_digit r = []"
    by (cases r) (auto simp: ends_def py_digit_def code_def)
  moreover have "\<forall>c \<in> set (show_nat n). py_digit c"
    using show_nat_digits[of n] by (simp add: py_isdigit_def list_all_iff)
  ultimately show ?thesis by (simp add: takeWhile_append2)
qed

lemma int_part: "(if hd (show_nat n) = CHR ''0'' then ''0'' else show_nat n) = show_nat n"
  using hd_show_nat[of n] by (cases "n = 0") (auto simp: show_nat_zero)

lemma p_number_digits:
  assumes "ip \<noteq> []" "takeWhile py_digit (ip @ r) = ip" "hd ip = CHR ''0'' \<longrightarrow> ip = ''0''" "ends r"
    and "neg \<longrightarrow> s = CHR ''-'' # ip @ r" "\<not> neg \<longrightarrow> s = ip @ r \<and> hd ip \<noteq> CHR ''-''"
  shows "p_number s = Some (JInt (signed neg (dec_val ip)), r)"
proof -
  have r0: "r = [] \<or> hd r \<noteq> CHR ''.'' \<and> hd r \<noteq> CHR ''e'' \<and> hd r \<noteq> CHR ''E''"
    using assms(4) by (auto simp: ends_def)
  have neg: "(s \<noteq> [] \<and> hd s = CHR ''-'') = neg" and s1: "(if neg then tl s else s) = ip @ r"
    using assms(1,5,6) by (cases ip; auto)+
  have ip: "(if ip \<noteq> [] \<and> hd ip = CHR ''0'' then ''0'' else ip) = ip" using assms(1,3) by auto
  show ?thesis
    unfolding p_number_def Let_def neg s1 assms(2) ip using assms(1) r0 by auto
qed

lemma p_number_show: "ends r \<Longrightarrow> p_number (show_int i @ r) = Some (JInt i, r)"
proof -
  assume r: "ends r"
  have nd: "hd (show_nat k) \<noteq> CHR ''-''" for k
    using show_nat_digits[of k] by (cases "show_nat k") (auto simp: py_isdigit_def py_digit_def code_def)
  have z: "hd (show_nat k) = CHR ''0'' \<longrightarrow> show_nat k = ''0''" for k
    using hd_show_nat[of k] by (cases "k = 0") (auto simp: show_nat_zero)
  have "p_number (show_int i @ r) = Some (JInt (signed (i < 0) (dec_val (show_nat (nat \<bar>i\<bar>)))), r)"
    by (rule p_number_digits) (use nd r takeWhile_digits[OF r] z in \<open>auto simp: show_int_def\<close>)
  then show ?thesis by (simp add: signed_def)
qed

text \<open>Values the writer prints and the reader gets back.\<close>

primrec json_ok :: "json \<Rightarrow> bool" where
  "json_ok JNull = True"
| "json_ok (JBool b) = True"
| "json_ok (JInt i) = True"
| "json_ok (JFloat r) = False"
| "json_ok JNonFinite = False"
| "json_ok (JText s) = True"
| "json_ok (JList vs) = (\<forall>b \<in> set (map json_ok vs). b)"
| "json_ok (JObj m) = (distinct (map fst m) \<and> (\<forall>p \<in> set (map (map_prod id json_ok) m). snd p))"

lemma show_int_head: "\<exists>c s. show_int i = c # s \<and> (c = CHR ''-'' \<and> s \<noteq> [] \<and> py_digit (hd s) \<or> py_digit c)"
proof -
  have "\<exists>c s. show_nat k = c # s \<and> py_digit c" for k
    using show_nat_digits[of k] by (cases "show_nat k") (auto simp: py_isdigit_def)
  then obtain f g where "\<And>k. show_nat k = f k # g k" "\<And>k. py_digit (f k)" by metis
  then show ?thesis by (auto simp: show_int_def)
qed

lemma not_digit [simp]: "\<not> py_digit (CHR ''n'')" "\<not> py_digit (CHR ''t'')" "\<not> py_digit (CHR ''f'')" "\<not> py_digit (CHR ''N'')"
  "\<not> py_digit (CHR ''I'')" "\<not> py_digit (CHR ''-'')" "\<not> py_digit (CHR ''['')" "\<not> py_digit (CHR ''{'')" "\<not> py_digit (CHR 0x22)"
  by (simp_all add: py_digit_def code_def)

lemma p_atom_show: "ends r \<Longrightarrow> p_atom (show_int i @ r) = Some (JInt i, r)"
proof -
  assume r: "ends r"
  obtain c s where s: "show_int i = c # s" "c = CHR ''-'' \<and> s \<noteq> [] \<and> py_digit (hd s) \<or> py_digit c"
    using show_int_head by blast
  then have "\<not> startswith (show_int i @ r) p" if "p \<in> {''null'', ''true'', ''false'', ''NaN'', ''Infinity'', ''-Infinity''}" for p
    using that by (cases s) auto
  then show ?thesis using p_number_show[OF r, of i] unfolding p_atom_def by simp
qed

lemma digit_not_open: "py_digit c \<Longrightarrow> c \<noteq> quote \<and> c \<noteq> CHR ''['' \<and> c \<noteq> CHR ''{'' \<and> \<not> json_ws c"
  by (auto simp: py_digit_def quote_def code_def json_ws_def)

lemma p_value_int: "ends r \<Longrightarrow> p_value (Suc n) (show_int i @ r) = Some (JInt i, r)"
proof -
  assume r: "ends r"
  obtain c s where s: "show_int i = c # s" "c = CHR ''-'' \<and> s \<noteq> [] \<and> py_digit (hd s) \<or> py_digit c"
    using show_int_head by blast
  then have "c \<noteq> quote \<and> c \<noteq> CHR ''['' \<and> c \<noteq> CHR ''{''" using digit_not_open by (auto simp: quote_def)
  with p_atom_show[OF r, of i] s(1) show ?thesis by simp
qed

lemma dump_head: "json_ok v \<Longrightarrow> \<exists>c s. dump_plain fr v = c # s \<and> \<not> json_ws c \<and> c \<notin> {CHR '']'', CHR ''}''}"
proof (cases v)
  case (JInt i)
  obtain c s where s: "show_int i = c # s" "c = CHR ''-'' \<and> s \<noteq> [] \<and> py_digit (hd s) \<or> py_digit c"
    using show_int_head by blast
  then have "\<not> json_ws c \<and> c \<notin> {CHR '']'', CHR ''}''}" by (auto simp: json_ws_def py_digit_def code_def)
  with s JInt show ?thesis by simp
qed (auto simp: dump_text_def json_ws_def quote_def code_def)

lemma skip_ws_Cons: "\<not> json_ws c \<Longrightarrow> skip_ws (c # s) = c # s"
  by (simp add: skip_ws_def)

lemma skip_ws_dump [simp]: "json_ok v \<Longrightarrow> skip_ws (dump_plain fr v @ r) = dump_plain fr v @ r"
  using dump_head[of v fr] by (auto simp: skip_ws_Cons)

lemma skip_ws_ends [simp]: "ends r \<Longrightarrow> skip_ws r = r"
  by (cases r) (auto simp: ends_def skip_ws_def json_ws_def code_def)

lemma obj_set_new: "k \<notin> fst ` set m \<Longrightarrow> obj_set k v m = m @ [(k, v)]"
  by (induction m) auto

lemma json_ws_simps [simp]: "\<not> json_ws (CHR '','')" "\<not> json_ws (CHR '']'')" "\<not> json_ws (CHR ''}'')" "\<not> json_ws (CHR '':'')"
  "\<not> json_ws quote"
  by (simp_all add: json_ws_def code_def quote_def)

lemma p_items_dump:
  assumes "\<And>v n r. v \<in> set vs \<Longrightarrow> ends r \<Longrightarrow> length (dump_plain fr v) \<le> n \<Longrightarrow> p_value (Suc n) (dump_plain fr v @ r) = Some (v, r)"
    and "\<forall>v \<in> set vs. json_ok v" "vs \<noteq> []" "length (py_join '','' (map (dump_plain fr) vs)) + 2 \<le> n"
  shows "p_items n acc (py_join '','' (map (dump_plain fr) vs) @ CHR '']'' # r) = Some (JList (acc @ vs), r)"
  using assms
proof (induction vs arbitrary: n acc)
  case (Cons v vs)
  obtain m where n: "n = Suc (Suc m)" using Cons.prems(4) by (metis add_2_eq_Suc' le_Suc_ex plus_nat.simps(2))
  show ?case
  proof (cases vs)
    case Nil
    have "p_value (Suc m) (dump_plain fr v @ CHR '']'' # r) = Some (v, CHR '']'' # r)"
      using Cons.prems(4) n Nil by (intro Cons.prems(1)) (auto simp: ends_def)
    with n Nil show ?thesis by (simp add: skip_ws_Cons)
  next
    case (Cons w ws)
    note vs = this
    have len: "length (dump_plain fr v) \<le> m" "length (py_join '','' (map (dump_plain fr) vs)) + 2 \<le> Suc m"
      using Cons.prems(4) n vs dump_head[of v fr] Cons.prems(2) by auto
    have hd: "p_value (Suc m) (dump_plain fr v @ CHR '','' # py_join '','' (map (dump_plain fr) vs) @ CHR '']'' # r)
        = Some (v, CHR '','' # py_join '','' (map (dump_plain fr) vs) @ CHR '']'' # r)"
      using len by (intro Cons.prems(1)) (auto simp: ends_def)
    have tl: "p_items (Suc m) (acc @ [v]) (py_join '','' (map (dump_plain fr) vs) @ CHR '']'' # r)
        = Some (JList ((acc @ [v]) @ vs), r)"
      using Cons.prems(1,2) vs len by (intro Cons.IH) auto
    have ws: "skip_ws (py_join '','' (map (dump_plain fr) vs) @ CHR '']'' # r) = py_join '','' (map (dump_plain fr) vs) @ CHR '']'' # r"
      using vs Cons.prems(2) dump_head[of w fr] by (cases ws) (auto simp: skip_ws_Cons)
    have "py_join '','' (map (dump_plain fr) (v # vs)) @ CHR '']'' # r
        = dump_plain fr v @ CHR '','' # py_join '','' (map (dump_plain fr) vs) @ CHR '']'' # r" using vs by simp
    with hd tl ws n show ?thesis by (simp add: skip_ws_Cons)
  qed
qed simp

definition dump_member :: "(rat \<Rightarrow> string) \<Rightarrow> string \<times> json \<Rightarrow> string" where
  "dump_member fr p = dump_text (fst p) @ CHR '':'' # dump_plain fr (snd p)"

lemma dump_obj: "dump_plain fr (JObj m) = CHR ''{'' # py_join '','' (map (dump_member fr) m) @ ''}''"
  by (simp add: dump_member_def[abs_def] comp_def case_prod_beta)

lemma dump_member_head: "\<exists>s. dump_member fr p = quote # s"
  by (simp add: dump_member_def dump_text_def)

lemma p_members_step:
  assumes "json_ok v" "p_value n (dump_plain fr v @ c # r) = Some (v, c # r)" "c = CHR '','' \<or> c = CHR ''}''"
  shows "p_members (Suc n) acc (dump_member fr (k, v) @ c # r) =
    (if c = CHR '','' then p_members n (obj_set k v acc) (skip_ws r) else Some (JObj (obj_set k v acc), r))"
proof -
  have ws: "skip_ws (CHR '':'' # s) = CHR '':'' # s" for s by (simp add: skip_ws_Cons)
  have cw: "skip_ws (CHR '','' # s) = CHR '','' # s" "skip_ws (CHR ''}'' # s) = CHR ''}'' # s" for s
    by (simp_all add: skip_ws_Cons)
  have k: "p_text (tl (dump_text k @ s)) = Some (k, s)" for s by (rule p_text_dump_text)
  have hd: "dump_text k @ s \<noteq> []" "hd (dump_text k @ s) = quote" for s by (simp_all add: dump_text_def)
  have eq: "dump_member fr (k, v) @ c # r = dump_text k @ CHR '':'' # dump_plain fr v @ c # r"
    by (simp add: dump_member_def)
  show ?thesis
    unfolding eq p_members.simps Let_def k using assms hd
    by (auto simp: ws cw)
qed

lemma p_members_dump:
  assumes "\<And>k v n r. (k, v) \<in> set m \<Longrightarrow> ends r \<Longrightarrow> length (dump_plain fr v) \<le> n \<Longrightarrow> p_value (Suc n) (dump_plain fr v @ r) = Some (v, r)"
    and "\<forall>p \<in> set m. json_ok (snd p)" "m \<noteq> []" "length (py_join '','' (map (dump_member fr) m)) + 2 \<le> n"
    and "distinct (map fst (acc @ m))"
  shows "p_members n acc (py_join '','' (map (dump_member fr) m) @ CHR ''}'' # r) = Some (JObj (acc @ m), r)"
  using assms
proof (induction m arbitrary: n acc)
  case (Cons p m)
  obtain k v where p: "p = (k, v)" by fastforce
  obtain n' where n: "n = Suc (Suc n')" using Cons.prems(4) by (metis add_2_eq_Suc' le_Suc_ex plus_nat.simps(2))
  have new: "obj_set k v acc = acc @ [(k, v)]" using Cons.prems(5) p by (intro obj_set_new) auto
  have ok: "json_ok v" using Cons.prems(2) p by simp
  have lenp: "length (dump_plain fr v) + 3 \<le> length (dump_member fr (k, v))"
    by (simp add: dump_member_def dump_text_def)
  show ?case
  proof (cases m)
    case Nil
    have "p_value (Suc n') (dump_plain fr v @ CHR ''}'' # r) = Some (v, CHR ''}'' # r)"
      using Cons.prems(4) n Nil p lenp by (intro Cons.prems(1)) (auto simp: ends_def)
    from p_members_step[OF ok this, of acc k] n Nil p new show ?thesis by simp
  next
    case (Cons q m')
    note m = this
    let ?rest = "py_join '','' (map (dump_member fr) m) @ CHR ''}'' # r"
    have len: "length (dump_plain fr v) \<le> n'" "length (py_join '','' (map (dump_member fr) m)) + 2 \<le> Suc n'"
      using Cons.prems(4) n m p lenp by auto
    have hd: "p_value (Suc n') (dump_plain fr v @ CHR '','' # ?rest) = Some (v, CHR '','' # ?rest)"
      using len p by (intro Cons.prems(1)) (auto simp: ends_def)
    have tl: "p_members (Suc n') (acc @ [(k, v)]) ?rest = Some (JObj ((acc @ [(k, v)]) @ m), r)"
      using Cons.prems(1,2,5) m p len by (intro Cons.IH) auto
    have ws: "skip_ws ?rest = ?rest"
      using m dump_member_head[of fr q] by (cases m') (auto simp: skip_ws_Cons)
    have eq: "py_join '','' (map (dump_member fr) (p # m)) @ CHR ''}'' # r = dump_member fr (k, v) @ CHR '','' # ?rest"
      using m p by simp
    from p_members_step[OF ok hd, of acc k] tl ws n new p show ?thesis unfolding eq by simp
  qed
qed simp

lemma p_value_dump:
  "json_ok v \<Longrightarrow> ends r \<Longrightarrow> length (dump_plain fr v) \<le> n \<Longrightarrow> p_value (Suc n) (dump_plain fr v @ r) = Some (v, r)"
proof (induction v arbitrary: n r)
  case (JInt i)
  then show ?case by (simp add: p_value_int del: p_value.simps)
next
  case (JText s)
  then show ?case by (simp add: dump_text_def p_text_dump)
next
  case (JList vs)
  show ?case
  proof (cases vs)
    case Nil
    then show ?thesis by (simp add: quote_def Let_def skip_ws_Cons)
  next
    case (Cons w ws)
    let ?s = "py_join '','' (map (dump_plain fr) vs) @ CHR '']'' # r"
    have len: "length (py_join '','' (map (dump_plain fr) vs)) + 2 \<le> n" using JList.prems(3) by simp
    have ok: "\<forall>v \<in> set vs. json_ok v" using JList.prems(1) by auto
    have items: "p_items n [] ?s = Some (JList ([] @ vs), r)"
      by (rule p_items_dump[OF _ ok _ len]) (use JList.IH ok Cons in auto)
    have hd: "skip_ws ?s = ?s \<and> \<not> startswith ?s '']''"
      using dump_head[of w fr] ok Cons by (cases ws) (auto simp: skip_ws_Cons)
    have "dump_plain fr (JList vs) @ r = CHR ''['' # ?s" by simp
    then show ?thesis using items hd by (simp add: quote_def Let_def del: dump_plain.simps)
  qed
next
  case (JObj m)
  show ?case
  proof (cases m)
    case Nil
    then show ?thesis by (simp add: quote_def Let_def skip_ws_Cons)
  next
    case (Cons q m')
    let ?s = "py_join '','' (map (dump_member fr) m) @ CHR ''}'' # r"
    have len: "length (py_join '','' (map (dump_member fr) m)) + 2 \<le> n"
      using JObj.prems(3) unfolding dump_obj by simp
    have ok: "\<forall>p \<in> set m. json_ok (snd p)" and dist: "distinct (map fst ([] @ m))"
      using JObj.prems(1) by (auto simp: case_prod_beta)
    have members: "p_members n [] ?s = Some (JObj ([] @ m), r)"
      by (rule p_members_dump[OF _ ok _ len dist]) (use JObj.IH ok Cons in \<open>force simp: snds.simps\<close>)+
    have "quote \<noteq> CHR ''}''" by (simp add: quote_def)
    then have hd: "skip_ws ?s = ?s \<and> \<not> startswith ?s ''}''"
      using dump_member_head[of fr q] Cons by (cases m') (auto simp: skip_ws_Cons)
    have "dump_plain fr (JObj m) @ r = CHR ''{'' # ?s" unfolding dump_obj by simp
    then show ?thesis using members hd by (simp add: quote_def Let_def del: dump_plain.simps)
  qed
qed (simp_all add: p_atom_def quote_def)

lemma distinct_map_sort: "distinct (map f (sort_key g xs)) \<longleftrightarrow> distinct (map f xs)"
  unfolding distinct_map by simp

lemma json_ok_sorted: "json_ok v \<Longrightarrow> json_ok (sorted_keys v)"
proof (induction v)
  case (JObj m)
  let ?m = "map (map_prod id sorted_keys) m"
  have "json_ok (sorted_keys v)" if "(k, v) \<in> set m" for k v
    using JObj.IH[of "(k, v)" v] JObj.prems that by fastforce
  then have "\<forall>p \<in> set (sort_key fst ?m). json_ok (snd p)" by auto
  moreover have "distinct (map fst ?m)" using JObj.prems by (simp add: comp_def)
  then have "distinct (map fst (sort_key fst ?m))" by (simp only: distinct_map_sort)
  ultimately show ?case by auto
qed auto

lemma loads_dump_plain: "json_ok v \<Longrightarrow> json_loads (dump_plain fr v) = Some v"
  using p_value_dump[of v "[]" fr "length (dump_plain fr v)"] skip_ws_dump[of v fr "[]"]
  by (simp add: json_loads_def ends_def skip_ws_def del: p_value.simps)

lemma kind_sorted: "is_kind k (sorted_keys v) = is_kind k v"
  by (cases k; cases v) auto

lemma loads_dumps_any:
  assumes "json_ok v"
  shows "safe_json_loads (JText (json_dumps fr v)) dflt expected =
    (case (if expected = None then kind_of dflt else expected) of
       None \<Rightarrow> sorted_keys v | Some k \<Rightarrow> if is_kind k v then sorted_keys v else dflt)"
proof -
  have ok: "json_ok (sorted_keys v)" by (rule json_ok_sorted[OF assms])
  obtain c s where cs: "json_dumps fr v = c # s" "\<not> json_ws c"
    using dump_head[OF ok, of fr] by (auto simp: json_dumps_def)
  have "\<not> py_space (hd (dump_plain fr w)) \<and> \<not> py_space (last (dump_plain fr w))" if "json_ok w" for w
  proof (cases w)
    case (JInt i)
    have d: "\<forall>c \<in> set (show_nat k). py_digit c" for k
      using show_nat_digits[of k] by (simp add: py_isdigit_def list_all_iff)
    have sp: "py_digit c \<Longrightarrow> \<not> py_space c" for c by (auto simp: py_digit_def py_space_def Let_def)
    have "\<not> py_space (hd (show_nat k)) \<and> \<not> py_space (last (show_nat k))" for k
      using d[of k] sp by simp
    moreover have "\<not> py_space (CHR ''-'')" by (simp add: py_space_def code_def)
    ultimately show ?thesis using JInt by (simp add: show_int_def)
  qed (use that in \<open>auto simp: py_space_def code_def dump_text_def quote_def\<close>)
  then have "py_strip (json_dumps fr v) = json_dumps fr v"
    using ok by (intro strip_id) (auto simp: json_dumps_def)
  moreover have "json_loads (json_dumps fr v) = Some (sorted_keys v)"
    using loads_dump_plain[OF ok] by (simp add: json_dumps_def)
  ultimately show ?thesis
    using cs by (auto simp: safe_json_loads_def Let_def kind_sorted split: option.split)
qed

lemma loads_dumps:
  assumes "json_ok v" "v \<noteq> JNull"
  shows "safe_json_loads (JText (json_dumps fr v)) dflt (kind_of (sorted_keys v)) = sorted_keys v"
proof -
  obtain k where "kind_of (sorted_keys v) = Some k" "is_kind k v"
    using assms(2) by (cases v) auto
  then show ?thesis by (simp add: loads_dumps_any[OF assms(1)])
qed

text \<open>C14: JSON columns survive storage: whatever value without floats and with distinct keys
  \<open>json_dumps\<close> writes, the defensive decoder parses it again, and returns the value with its keys sorted whenever it is of the type
  the caller asks for, or of the type of the default where the caller asks for none (no type at all with the default None).
  It falls back to the default exactly when the value itself has another type, as a stored null has for every typed default.\<close>

theorem stored_json_is_read_back:
  assumes "json_ok v"
  shows "safe_json_loads (JText (json_dumps fr v)) dflt expected =
    (case (if expected = None then kind_of dflt else expected) of
       None \<Rightarrow> sorted_keys v | Some k \<Rightarrow> if is_kind k v then sorted_keys v else dflt)"
  by (rule loads_dumps_any[OF assms])

theorem stored_json_is_read_back_witness:
  "safe_json_loads (JText (json_dumps (\<lambda>r. ''0.5'') (JObj [(''b'', JList [JInt (-7), JBool True]), (''a'', JText ''x'')]))) (JObj []) (Some Dict_Kind)
   = JObj [(''a'', JText ''x''), (''b'', JList [JInt (-7), JBool True])]"
  using stored_json_is_read_back[of "JObj [(''b'', JList [JInt (-7), JBool True]), (''a'', JText ''x'')]" "\<lambda>r. ''0.5''" "JObj []" "Some Dict_Kind"]
  by simp

end
