(* ===== verification/Scan_Coverage.thy ===== *)
theory Scan_Coverage
  imports Json_Text Sql_Table
begin

text \<open>
  \<open>src/app/scan_coverage.py\<close>: collection visibility as opposed to successful execution.
  \<open>stage_coverage\<close> reads a stage's status and its metrics text; \<open>None\<close> is the
  \<open>TypeError\<close> of joining reasons that are not texts.  \<open>origin_probe_coverage\<close> summarises the
  probes of a run's origins.
\<close>

section \<open>Metrics\<close>

definition metrics_dict :: "json \<Rightarrow> (string \<times> json) list" where
  "metrics_dict v =
     (case v of
        JObj m \<Rightarrow> m
      | JText s \<Rightarrow> (if s = [] then [] else case json_loads s of Some (JObj m) \<Rightarrow> m | _ \<Rightarrow> [])
      | _ \<Rightarrow> [])"

text \<open>\<open>max(0, int(value or 0))\<close>, 0 where \<open>int\<close> raises; \<open>int\<close> of a float truncates.\<close>

definition count :: "json \<Rightarrow> nat" where
  "count v =
     (case v of
        JBool b \<Rightarrow> (if b then 1 else 0)
      | JInt i \<Rightarrow> nat i
      | JFloat r \<Rightarrow> nat \<lfloor>r\<rfloor>
      | JText s \<Rightarrow> (case int_of_text s of None \<Rightarrow> 0 | Some i \<Rightarrow> nat i)
      | _ \<Rightarrow> 0)"

definition dict_update :: "(string \<times> json) list \<Rightarrow> (string \<times> json) list \<Rightarrow> (string \<times> json) list" where
  "dict_update m n = foldl (\<lambda>m (k, v). obj_set k v m) m n"

definition is_text :: "json \<Rightarrow> string \<Rightarrow> bool" where
  "is_text v s \<longleftrightarrow> v = JText s"

text \<open>\<open>v == 0\<close>\<close>

definition py_zero :: "json \<Rightarrow> bool" where
  "py_zero v \<longleftrightarrow> v = JInt 0 \<or> v = JFloat 0 \<or> v = JBool False"

definition has_key :: "(string \<times> json) list \<Rightarrow> string \<Rightarrow> bool" where
  "has_key m k \<longleftrightarrow> k \<in> fst ` set m"

text \<open>\<open>", ".join(v or [])\<close>: a text is joined by its characters, a mapping by its keys.\<close>

definition join_reasons :: "json \<Rightarrow> string option" where
  "join_reasons v =
     (if \<not> truthy v then Some ''''
      else case v of
        JList vs \<Rightarrow> if list_all (is_kind Text_Kind) vs
                     then Some (py_join '', '' (map (\<lambda>v. case v of JText s \<Rightarrow> s | _ \<Rightarrow> '''') vs)) else None
      | JText s \<Rightarrow> Some (py_join '', '' (map (\<lambda>c. [c]) s))
      | JObj m \<Rightarrow> Some (py_join '', '' (map fst m))
      | _ \<Rightarrow> None)"

section \<open>Stage coverage\<close>

text \<open>A reason is a text of the program or \<open>str\<close> of a metric.\<close>

datatype reason = Lit string | Shown json

record stage_row =
  sr_status :: "string option"
  sr_metrics :: json

record coverage =
  execution_status :: string
  execution_score :: nat
  cov_status :: string
  score :: nat
  reason :: reason

definition stage_metrics :: "stage_row \<Rightarrow> string \<Rightarrow> (string \<times> json) list" where
  "stage_metrics row raw =
     (let m = (if raw \<noteq> ''running'' then metrics_dict (sr_metrics row) else [])
      in dict_update m (metrics_dict (get m ''coverage_audit'')))"

definition raw_status :: "stage_row \<Rightarrow> string" where
  "raw_status row = (case sr_status row of None \<Rightarrow> ''not_observed'' | Some s \<Rightarrow> if s = '''' then ''not_observed'' else s)"

definition execution_of :: "string \<Rightarrow> (string \<times> json) list \<Rightarrow> string" where
  "execution_of raw m =
     (if raw = ''partial'' \<and> is_text (get m ''execution_status'') ''success'' then ''success''
      else if raw = ''success'' \<or> raw = ''skipped'' then ''success'' else raw)"

text \<open>The body of \<open>stage_coverage\<close> after the execution status: status, reason and score.\<close>

definition javascript_incomplete :: "(string \<times> json) list \<Rightarrow> bool" where
  "javascript_incomplete m \<longleftrightarrow> count (get m ''errors'') \<noteq> 0
     \<or> count (get m ''downloaded'') + count (get m ''not_found'') + count (get m ''reused_work_items'') < count (get m ''files'')"

definition stage_outcome :: "string \<Rightarrow> string \<Rightarrow> (string \<times> json) list \<Rightarrow> (string \<times> reason \<times> nat) option" where
  "stage_outcome stage raw m =
     (if raw \<in> {''running'', ''queued'', ''pending''}
      then Some (''running'', Lit ''This attempt is still running; final coverage is not available.'', 0)
      else if raw \<in> {''failed'', ''interrupted''} then Some (raw, Lit ''The stage did not finish successfully.'', 0)
      else if raw = ''skipped'' \<or> truthy (get m ''skipped'')
      then Some (''skipped'', (if truthy (get m ''skipped'') then Shown (get m ''skipped'') else Lit ''Module skipped.''), 0)
      else if raw \<notin> {''success'', ''partial''} then Some (''not_observed'', Lit ''No terminal stage observation is available.'', 0)
      else if count (get m ''origin_access_restricted'') \<noteq> 0 \<or> count (get m ''http_access_restricted'') \<noteq> 0
      then Some (''access_restricted'', Lit ''HTTP 401/403 restricted content visibility.'', 0)
      else if raw = ''partial'' \<or> is_text (get m ''collection_status'') ''partial'' \<or> is_text (get m ''origin_coverage_status'') ''partial''
      then (case join_reasons (get m ''collection_reasons'') of
              None \<Rightarrow> None
            | Some r \<Rightarrow> Some (''partial'', Lit (if r = '''' then ''Collection preserved incomplete evidence.'' else r), 0))
      else if is_text (get m ''collection_status'') ''no_input''
      then Some (''no_input'', Lit ''No input was collected; content coverage is not established.'', 0)
      else if stage = ''javascript'' \<and> (\<not> has_key m ''files'' \<or> \<not> has_key m ''downloaded'')
      then Some (''unknown'', Lit ''Historical metrics do not establish JavaScript coverage.'', 0)
      else if stage = ''javascript'' \<and> count (get m ''files'') = 0 \<and> count (get m ''downloaded'') = 0
      then Some (''no_input'', Lit ''No JavaScript artifact was collected.'', 0)
      else if stage = ''javascript'' \<and> javascript_incomplete m
      then Some (''partial'', Lit ''Some selected JavaScript observations are incomplete.'', 0)
      else if stage = ''endpoint_validation'' \<and> py_zero (get m ''checked'')
      then Some (''no_input'', Lit ''No endpoint was checked.'', 0)
      else if stage = ''fingerprint'' \<and> py_zero (get m ''probed'')
      then Some (''no_input'', Lit ''No HTTP service was probed.'', 0)
      else if stage = ''fingerprint'' \<and> count (get m ''live'') < count (get m ''probed'')
      then Some (''partial'', Lit ''Some HTTP probes produced no usable response.'', 0)
      else Some (''complete'', Lit ''Configured collection work completed.'', 100))"

definition stage_coverage :: "string \<Rightarrow> stage_row \<Rightarrow> coverage option" where
  "stage_coverage stage row =
     (let raw = raw_status row; m = stage_metrics row raw; ex = execution_of raw m
      in case stage_outcome stage raw m of
           None \<Rightarrow> None
         | Some (st, why, sc) \<Rightarrow> Some \<lparr>execution_status = ex, execution_score = (if ex = ''success'' then 100 else 0),
              cov_status = st, score = sc, reason = why\<rparr>)"

section \<open>Origin probes\<close>

record probe_row =
  p_url :: string
  p_status :: json
  p_outside :: json
  p_transport :: json
  p_error :: json

record origin_coverage =
  oc_observed :: nat
  oc_failed :: "string list"
  oc_restricted :: "string list"
  oc_boundary :: "string list"
  oc_statuses :: "(string \<times> nat) list"
  oc_pending :: "string list"
  oc_reasons :: "string list"
  oc_status :: string

definition probe_failed :: "probe_row \<Rightarrow> bool" where
  "probe_failed r \<longleftrightarrow> is_text (p_transport r) ''error''
     \<or> count (p_status r) = 0 \<and> truthy (p_error r) \<and> \<not> is_text (p_error r) ''rate_limit_cooldown''"

definition probe_restricted :: "probe_row \<Rightarrow> bool" where
  "probe_restricted r \<longleftrightarrow> count (p_status r) = 401 \<or> count (p_status r) = 403"

definition url_set :: "(probe_row \<Rightarrow> bool) \<Rightarrow> probe_row list \<Rightarrow> string list" where
  "url_set p rows = sort (dedup (map p_url (filter p rows)))"

definition origin_probe_coverage :: "probe_row list \<Rightarrow> origin_coverage" where
  "origin_probe_coverage rows =
     (let bad = url_set probe_failed rows;
          restricted = url_set probe_restricted rows;
          boundary = url_set (\<lambda>r. truthy (p_outside r)) rows;
          codes = map (\<lambda>r. show_nat (count (p_status r))) (filter (\<lambda>r. count (p_status r) \<noteq> 0) rows);
          reasons = (if bad \<noteq> [] then [''origin_probe_failed''] else [])
            @ (if restricted \<noteq> [] then [''http_access_restricted''] else [])
            @ (if boundary \<noteq> [] then [''origin_redirect_outside_scope''] else [])
      in \<lparr>oc_observed = length rows, oc_failed = bad, oc_restricted = restricted, oc_boundary = boundary,
          oc_statuses = map (\<lambda>c. (c, count_list codes c)) (sort (dedup codes)),
          oc_pending = sort (dedup (bad @ restricted @ boundary)),
          oc_reasons = reasons,
          oc_status = (if reasons \<noteq> [] then ''partial'' else if rows \<noteq> [] then ''complete'' else ''unknown'')\<rparr>)"

section \<open>Facts\<close>

lemma set_url_set [simp]: "set (url_set p rows) = p_url ` {r \<in> set rows. p r}"
  by (auto simp: url_set_def)

lemma url_set_empty: "url_set p rows = [] \<longleftrightarrow> (\<forall>r \<in> set rows. \<not> p r)"
proof -
  have "url_set p rows = [] \<longleftrightarrow> set (url_set p rows) = {}" by (simp only: set_empty)
  then show ?thesis by auto
qed

lemma origin_status:
  "oc_status (origin_probe_coverage rows) =
     (if url_set probe_failed rows \<noteq> [] \<or> url_set probe_restricted rows \<noteq> [] \<or> url_set (\<lambda>r. truthy (p_outside r)) rows \<noteq> []
      then ''partial'' else if rows \<noteq> [] then ''complete'' else ''unknown'')"
  by (simp add: origin_probe_coverage_def Let_def)

lemma origin_pending:
  "set (oc_pending (origin_probe_coverage rows)) =
     p_url ` {r \<in> set rows. probe_failed r \<or> probe_restricted r \<or> truthy (p_outside r)}"
  "distinct (oc_pending (origin_probe_coverage rows))"
  "oc_observed (origin_probe_coverage rows) = length rows"
  by (auto simp: origin_probe_coverage_def Let_def)

lemma stage_outcome_complete:
  "stage_outcome stage raw m = Some (st, why, sc) \<Longrightarrow>
   (sc = 100 \<longleftrightarrow> st = ''complete'') \<and> (sc = 0 \<or> sc = 100)
   \<and> (st = ''complete'' \<longrightarrow> raw = ''success'' \<and> count (get m ''origin_access_restricted'') = 0
        \<and> count (get m ''http_access_restricted'') = 0 \<and> \<not> truthy (get m ''skipped'')
        \<and> \<not> is_text (get m ''collection_status'') ''partial'' \<and> \<not> is_text (get m ''origin_coverage_status'') ''partial'')"
  by (auto simp: stage_outcome_def split: if_splits option.splits)

section \<open>Properties\<close>

text \<open>Full collection visibility is never claimed too early: a stage's coverage is complete, with
  score 100, only when the stage itself ended in success and neither its metrics nor a later coverage
  audit record a restricted response, a partial collection or a skipped module; any other coverage
  scores 0.\<close>

theorem complete_coverage_needs_clean_success:
  assumes "stage_coverage stage row = Some c" "m = stage_metrics row (raw_status row)"
  shows "(score c = 100 \<longleftrightarrow> cov_status c = ''complete'') \<and> score c \<in> {0, 100}
    \<and> (cov_status c = ''complete'' \<longrightarrow> raw_status row = ''success'' \<and> execution_score c = 100
         \<and> count (get m ''origin_access_restricted'') = 0 \<and> count (get m ''http_access_restricted'') = 0
         \<and> get m ''collection_status'' \<noteq> JText ''partial'' \<and> get m ''origin_coverage_status'' \<noteq> JText ''partial''
         \<and> \<not> truthy (get m ''skipped''))"
proof -
  obtain st why sc where o: "stage_outcome stage (raw_status row) m = Some (st, why, sc)"
    and c: "cov_status c = st" "score c = sc" "execution_score c = (if execution_of (raw_status row) m = ''success'' then 100 else 0)"
    using assms by (auto simp: stage_coverage_def Let_def split: option.splits)
  have "raw_status row = ''success'' \<Longrightarrow> execution_of (raw_status row) m = ''success''"
    by (simp add: execution_of_def)
  with stage_outcome_complete[OF o] c show ?thesis by (auto simp: is_text_def)
qed

theorem complete_coverage_needs_clean_success_witness:
  "\<exists>c. stage_coverage ''fingerprint'' \<lparr>sr_status = Some ''success'', sr_metrics = JObj [(''probed'', JInt 2), (''live'', JInt 2)]\<rparr>
       = Some c \<and> cov_status c = ''complete'' \<and> execution_score c = 100"
proof -
  let ?row = "\<lparr>sr_status = Some ''success'', sr_metrics = JObj [(''probed'', JInt 2), (''live'', JInt 2)]\<rparr>"
  have "\<exists>c. stage_coverage ''fingerprint'' ?row = Some c \<and> cov_status c = ''complete''"
    by (simp add: stage_coverage_def Let_def stage_metrics_def raw_status_def metrics_dict_def get_def dict_update_def
        is_text_def stage_outcome_def count_def py_zero_def)
  then obtain c where c: "stage_coverage ''fingerprint'' ?row = Some c" "cov_status c = ''complete''" by blast
  from complete_coverage_needs_clean_success[OF c(1) refl] c show ?thesis by blast
qed

text \<open>Origin probes that failed, were refused or left the scope are all reported: the coverage is
  partial exactly when some probe did one of these, its pending origins are exactly the URLs of those
  probes without repetition, and it is complete only when every one of at least one probes succeeded.\<close>

theorem origin_coverage_reports_every_gap:
  "let c = origin_probe_coverage rows;
       gap = (\<lambda>r. probe_failed r \<or> probe_restricted r \<or> truthy (p_outside r))
   in (oc_status c = ''partial'' \<longleftrightarrow> (\<exists>r \<in> set rows. gap r))
      \<and> (oc_status c = ''complete'' \<longleftrightarrow> rows \<noteq> [] \<and> (\<forall>r \<in> set rows. \<not> gap r))
      \<and> set (oc_pending c) = p_url ` {r \<in> set rows. gap r} \<and> distinct (oc_pending c)
      \<and> oc_observed c = length rows"
  unfolding Let_def origin_status url_set_empty using origin_pending[of rows] by auto

theorem origin_coverage_reports_every_gap_witness:
  "oc_status (origin_probe_coverage [\<lparr>p_url = ''https://a'', p_status = JInt 403, p_outside = JNull,
     p_transport = JNull, p_error = JNull\<rparr>]) = ''partial''"
  using origin_coverage_reports_every_gap[of "[\<lparr>p_url = ''https://a'', p_status = JInt 403, p_outside = JNull,
     p_transport = JNull, p_error = JNull\<rparr>]"]
  by (simp add: Let_def probe_restricted_def count_def)

end
