(* ===== verification/Recon_Store.thy ===== *)
theory Recon_Store
  imports Scan_Coverage
begin

text \<open>
  The tables behind run lifecycle, baselines, comparison snapshots and stable confirmation: one
  record per table and one for the database.  A JSON column holds its decoded value; that decoding
  what the program wrote gives the value back is \<open>stored_json_is_read_back\<close> of \<open>Json_Text\<close>.
  A stored time is its number of seconds, \<open>None\<close> for NULL.
\<close>

type_synonym stamp = nat

text \<open>The four tables that a comparison snapshot freezes.  Their primary keys begin with the target;
  \<open>ob_key\<close> is the rest of the key, \<open>ob_cols\<close> the columns that only describe the row.\<close>

datatype tracked_table = Assets | Dns_Records | Urls | Fingerprints

definition TRACKED_TABLES :: "tracked_table list" where
  "TRACKED_TABLES = [Assets, Dns_Records, Urls, Fingerprints]"

record obs_row =
  ob_target :: string
  ob_key :: "string list"
  ob_last_run :: "string option"
  ob_cols :: "(string \<times> json) list"

record run_row =
  ru_id :: string
  ru_status :: string

record run_target =
  rt_run :: string
  rt_target :: string
  rt_policy :: string
  rt_status :: string
  rt_started :: stamp
  rt_finished :: "stamp option"
  rt_dir :: string
  rt_baseline :: bool

record stage_run =
  sg_run :: string
  sg_target :: string
  sg_stage :: string
  sg_status :: string
  sg_metrics :: json

record analysis_run =
  ar_source :: string
  ar_target :: string
  ar_status :: string
  ar_started :: stamp
  ar_finished :: "stamp option"

record lifecycle_row =
  lc_run :: string
  lc_target :: string
  lc_collection :: string
  lc_analysis :: string
  lc_report :: string
  lc_notification :: string
  lc_overall :: string
  lc_eligible :: bool
  lc_baseline_state :: string
  lc_baseline_reason :: string
  lc_baseline_source :: string
  lc_baseline_established :: "stamp option"
  lc_details :: json
  lc_created :: stamp
  lc_updated :: stamp

record baseline_row =
  bl_target :: string
  bl_state :: string
  bl_established_run :: string
  bl_established_at :: stamp
  bl_refreshed_run :: string
  bl_refreshed_at :: stamp
  bl_reason :: string
  bl_migrated :: bool
  bl_updated :: stamp

record commit_row =
  cm_target :: string
  cm_run :: string
  cm_at :: stamp
  cm_bootstrap :: bool
  cm_tables :: nat
  cm_rows :: nat

record snap_row =
  sn_target :: string
  sn_table :: tracked_table
  sn_hash :: string
  sn_row :: obs_row
  sn_run :: string
  sn_at :: stamp

text \<open>The receipt keeps the coverage of every stage but the report at commit time.\<close>

record receipt_row =
  rc_target :: string
  rc_run :: string
  rc_coverage :: "(string \<times> coverage) list"
  rc_at :: stamp

text \<open>A coverage gap: stage, status and reason; \<open>gap_url\<close> is the restricted response, if that is
  what proves it.\<close>

record gap =
  gap_stage :: string
  gap_status :: string
  gap_reason :: reason
  gap_url :: "(string \<times> nat) option"

record review_row =
  rv_target :: string
  rv_run :: string
  rv_state :: string
  rv_gaps :: "gap list"
  rv_snapshot :: "commit_row option"
  rv_baseline :: "baseline_row option"
  rv_actor :: string
  rv_detected :: stamp
  rv_recovered :: "stamp option"

record derived_set =
  ds_target :: string
  ds_type :: string
  ds_run :: string
  ds_at :: stamp
  ds_rows :: nat

record derived_item =
  di_target :: string
  di_type :: string
  di_key :: string
  di_hash :: string
  di_json :: json
  di_run :: string
  di_at :: stamp

record working_set =
  ws_run :: string
  ws_target :: string
  ws_type :: string
  ws_rows :: nat
  ws_at :: stamp

record working_item =
  wi_run :: string
  wi_target :: string
  wi_type :: string
  wi_key :: string
  wi_hash :: string
  wi_json :: json

text \<open>Provisional and committed confirmation states; \<open>templates\<close> is the decoded list of event
  templates, of which only the objects count.\<close>

record stable_row =
  st_target :: string
  st_subject :: string
  st_category :: string
  st_version :: string
  st_occurrences :: nat
  st_state :: string
  st_first :: stamp
  st_last :: stamp
  st_run :: string
  st_templates :: "(string \<times> json) list list"

record js_row =
  js_run :: string
  js_target :: string
  js_url :: string
  js_quarantined :: bool

record change_snapshot =
  ch_run :: string
  ch_target :: string
  ch_previous :: string

record recon_store =
  runs :: "run_row list"
  run_targets :: "run_target list"
  stage_runs :: "stage_run list"
  analysis_runs :: "analysis_run list"
  lifecycles :: "lifecycle_row list"
  baselines :: "baseline_row list"
  commits :: "commit_row list"
  snapshots :: "snap_row list"
  receipts :: "receipt_row list"
  reviews :: "review_row list"
  tracked :: "tracked_table \<Rightarrow> obs_row list"
  derived_sets :: "derived_set list"
  derived_items :: "derived_item list"
  working_sets :: "working_set list"
  working_items :: "working_item list"
  stable_states :: "stable_row list"
  stable_runs :: "stable_row list"
  js_files :: "js_row list"
  js_history :: "js_row list"
  change_snapshots :: "change_snapshot list"

definition stage_row_of :: "stage_run \<Rightarrow> stage_row" where
  "stage_row_of r = \<lparr>sr_status = Some (sg_status r), sr_metrics = sg_metrics r\<rparr>"

definition target_row :: "recon_store \<Rightarrow> string \<Rightarrow> string \<Rightarrow> run_target option" where
  "target_row db run tgt = select_one (\<lambda>r. rt_run r = run \<and> rt_target r = tgt) (run_targets db)"

definition commit_of :: "recon_store \<Rightarrow> string \<Rightarrow> commit_row option" where
  "commit_of db tgt = select_one (\<lambda>c. cm_target c = tgt) (commits db)"

text \<open>The value of a metric where only its text matters: other values never equal the texts compared.\<close>

definition text_of :: "json \<Rightarrow> string" where
  "text_of v = (case v of JText s \<Rightarrow> s | _ \<Rightarrow> '''')"

text \<open>\<open>int(value or 0)\<close>; \<open>None\<close> where \<open>int\<close> raises.\<close>

definition py_int :: "json \<Rightarrow> int option" where
  "py_int v =
     (if \<not> truthy v then Some 0
      else case v of
        JBool b \<Rightarrow> Some 1
      | JInt i \<Rightarrow> Some i
      | JFloat r \<Rightarrow> Some (if 0 \<le> r then \<lfloor>r\<rfloor> else \<lceil>r\<rceil>)
      | JText s \<Rightarrow> int_of_text s
      | _ \<Rightarrow> None)"

end
