(* ===== verification/Target_Lifecycle.thy ===== *)
theory Target_Lifecycle
  imports Recon_Store
begin

text \<open>
  \<open>src/app/run_lifecycle_state.py\<close>: the explicit per-target lifecycle (collection, analysis, report,
  notification, overall) and the registry of baselines.  Baseline eligibility is derived from the
  collection status alone.
\<close>

section \<open>Statuses\<close>

definition COLLECTION_TERMINAL :: "string list" where
  "COLLECTION_TERMINAL = [''success'', ''partial'', ''failed'', ''interrupted'', ''not_run'']"

definition ANALYSIS_TERMINAL :: "string list" where
  "ANALYSIS_TERMINAL = [''success'', ''failed'', ''not_run'']"

definition REPORT_TERMINAL :: "string list" where
  "REPORT_TERMINAL = [''success'', ''failed'', ''interrupted'', ''not_run'']"

definition NOTIFICATION_TERMINAL :: "string list" where
  "NOTIFICATION_TERMINAL = [''success'', ''queued'', ''failed'', ''not_run'']"

definition OVERALL_TERMINAL :: "string list" where
  "OVERALL_TERMINAL = [''success'', ''partial'', ''failed'', ''interrupted'']"

definition stage_status :: "recon_store \<Rightarrow> string \<Rightarrow> string \<Rightarrow> string \<Rightarrow> string option" where
  "stage_status db run tgt stage =
     map_option sg_status (select_one (\<lambda>r. sg_run r = run \<and> sg_target r = tgt \<and> sg_stage r = stage) (stage_runs db))"

text \<open>The first loop of \<open>derive_collection_status\<close>: an interrupted or failed stage decides.\<close>

fun broken_stage :: "(string \<Rightarrow> string option) \<Rightarrow> string list \<Rightarrow> (string \<times> string) option" where
  "broken_stage st [] = None"
| "broken_stage st (s # ss) =
     (if st s = Some ''interrupted'' then Some (''interrupted'', ''collection_interrupted:'' @ s)
      else if st s = Some ''failed'' then Some (''failed'', ''collection_failed:'' @ s)
      else broken_stage st ss)"

definition derive_collection_status :: "recon_store \<Rightarrow> string \<Rightarrow> string \<Rightarrow> string list \<Rightarrow> string \<times> string" where
  "derive_collection_status db run tgt stages =
     (let st = stage_status db run tgt
      in case broken_stage st stages of
           Some r \<Rightarrow> r
         | None \<Rightarrow>
             let incomplete = filter (\<lambda>s. st s = Some ''partial'') stages;
                 missing = filter (\<lambda>s. st s \<noteq> Some ''success'') stages
             in if incomplete \<noteq> [] then (''partial'', ''collection_partial:'' @ py_join '','' incomplete)
                else if missing \<noteq> [] then (''not_run'', ''collection_incomplete:'' @ py_join '','' missing)
                else (''success'', ''collection_complete''))"

text \<open>The latest analysis run: \<open>ORDER BY COALESCE(finished_at, started_at) DESC, rowid DESC\<close>.\<close>

definition latest_analysis :: "recon_store \<Rightarrow> string \<Rightarrow> string \<Rightarrow> analysis_run option" where
  "latest_analysis db run tgt =
     (case rev (sort_key (\<lambda>a. case ar_finished a of None \<Rightarrow> ar_started a | Some t \<Rightarrow> t)
             (filter (\<lambda>a. ar_source a = run \<and> ar_target a = tgt) (analysis_runs db)))
      of [] \<Rightarrow> None | a # _ \<Rightarrow> Some a)"

definition lowered :: "json \<Rightarrow> string" where
  "lowered v = py_lower (py_strip (text_of v))"

definition derive_analysis_status :: "recon_store \<Rightarrow> string \<Rightarrow> string \<Rightarrow> (string \<times> json) list \<Rightarrow> string" where
  "derive_analysis_status db run tgt metrics =
     (let from_runs = (case latest_analysis db run tgt of
            None \<Rightarrow> ''not_run''
          | Some a \<Rightarrow> let s = py_lower (py_strip (ar_status a))
                      in if s = ''success'' then ''success''
                         else if s \<in> {''failed'', ''error'', ''interrupted''} then ''failed'' else ''not_run'')
      in case get metrics ''analysis'' of
           JObj a \<Rightarrow> if lowered (get a ''status'') = ''failed'' then ''failed''
                     else if truthy (get a ''analysis_id'') then ''success'' else from_runs
         | _ \<Rightarrow> from_runs)"

text \<open>\<open>None\<close> is the exception of \<open>int\<close> on a malformed counter.\<close>

definition has_error :: "json \<Rightarrow> bool" where
  "has_error v = (case v of JText s \<Rightarrow> py_strip s \<noteq> '''' | _ \<Rightarrow> truthy v)"

definition derive_notification_status :: "(string \<times> json) list \<Rightarrow> string \<Rightarrow> string option" where
  "derive_notification_status metrics analysis_status =
     (if analysis_status \<noteq> ''success'' then Some ''not_run''
      else case get metrics ''finding_notifications'' of
        JObj finding \<Rightarrow>
          if lowered (get finding ''status'') = ''failed'' then Some ''failed''
          else
            let delivery = (case get finding ''delivery'' of JObj d \<Rightarrow> d | _ \<Rightarrow> [])
            in case (py_int (get delivery ''queued''), py_int (get delivery ''delivered''), py_int (get finding ''queued'')) of
                 (Some q, Some d, Some n) \<Rightarrow>
                   Some (if has_error (get delivery ''error'') \<and> d < q then ''failed''
                         else if d < q then ''queued''
                         else if d < n \<and> q = 0 then ''queued''
                         else ''success'')
               | _ \<Rightarrow> None
      | _ \<Rightarrow> Some ''not_run'')"

definition derive_overall_status :: "string \<Rightarrow> string \<Rightarrow> string \<Rightarrow> string \<Rightarrow> string" where
  "derive_overall_status collection analysis report notification =
     (if collection = ''interrupted'' \<or> report = ''interrupted'' then ''interrupted''
      else if collection = ''partial'' then ''partial''
      else if collection \<noteq> ''success'' then ''failed''
      else if report \<noteq> ''success'' then ''partial''
      else if analysis \<noteq> ''success'' then ''partial''
      else if notification \<notin> {''success'', ''queued''} then ''partial''
      else ''success'')"

section \<open>Lifecycle and baseline records\<close>

definition baseline_record :: "recon_store \<Rightarrow> string \<Rightarrow> baseline_row option" where
  "baseline_record db tgt = select_one (\<lambda>b. bl_target b = tgt) (baselines db)"

definition established :: "recon_store \<Rightarrow> string \<Rightarrow> baseline_row option" where
  "established db tgt =
     (case baseline_record db tgt of Some b \<Rightarrow> if bl_state b = ''established'' then Some b else None | None \<Rightarrow> None)"

definition has_established_baseline :: "recon_store \<Rightarrow> string \<Rightarrow> bool" where
  "has_established_baseline db tgt \<longleftrightarrow>
     select_one (\<lambda>b. bl_target b = tgt \<and> bl_state b = ''established'') (baselines db) \<noteq> None"

definition migrated_baseline :: "stamp \<Rightarrow> commit_row \<Rightarrow> baseline_row" where
  "migrated_baseline now c = \<lparr>bl_target = cm_target c, bl_state = ''established'', bl_established_run = cm_run c,
     bl_established_at = cm_at c, bl_refreshed_run = cm_run c, bl_refreshed_at = cm_at c,
     bl_reason = ''migrated_successful_snapshot'', bl_migrated = True, bl_updated = now\<rparr>"

definition ensure_lifecycle :: "stamp \<Rightarrow> recon_store \<Rightarrow> recon_store" where
  "ensure_lifecycle now db = db\<lparr>baselines :=
     foldl (\<lambda>bs c. insert_ignore (\<lambda>b. bl_target b = cm_target c) (migrated_baseline now c) bs)
       (baselines db) (sort_key cm_target (commits db))\<rparr>"

definition lifecycle_key :: "string \<Rightarrow> string \<Rightarrow> lifecycle_row \<Rightarrow> bool" where
  "lifecycle_key run tgt r \<longleftrightarrow> lc_run r = run \<and> lc_target r = tgt"

definition source_of :: "baseline_row option \<Rightarrow> string" where
  "source_of e = (case e of None \<Rightarrow> '''' | Some b \<Rightarrow> bl_refreshed_run b)"

definition begin_target_lifecycle :: "stamp \<Rightarrow> string \<Rightarrow> string \<Rightarrow> recon_store \<Rightarrow> recon_store" where
  "begin_target_lifecycle now run tgt db0 =
     (let db = ensure_lifecycle now db0; existing = established db tgt
      in db\<lparr>lifecycles := insert_ignore (lifecycle_key run tgt)
           \<lparr>lc_run = run, lc_target = tgt, lc_collection = ''not_run'', lc_analysis = ''not_run'',
            lc_report = ''not_run'', lc_notification = ''not_run'', lc_overall = ''partial'', lc_eligible = False,
            lc_baseline_state = ''pending'', lc_baseline_reason = '''', lc_baseline_source = source_of existing,
            lc_baseline_established = map_option bl_established_at existing, lc_details = JObj [],
            lc_created = now, lc_updated = now\<rparr> (lifecycles db)\<rparr>)"

datatype lifecycle_error =
    Invalid_Collection string
  | Invalid_Analysis string
  | Invalid_Report string
  | Invalid_Notification string
  | Invalid_Overall string

record lifecycle_statuses =
  s_collection :: string
  s_analysis :: string
  s_report :: string
  s_notification :: string
  s_overall :: string

definition status_error :: "lifecycle_statuses \<Rightarrow> lifecycle_error option" where
  "status_error s =
     (if s_collection s \<notin> set COLLECTION_TERMINAL then Some (Invalid_Collection (s_collection s))
      else if s_analysis s \<notin> set ANALYSIS_TERMINAL then Some (Invalid_Analysis (s_analysis s))
      else if s_report s \<notin> set REPORT_TERMINAL then Some (Invalid_Report (s_report s))
      else if s_notification s \<notin> set NOTIFICATION_TERMINAL then Some (Invalid_Notification (s_notification s))
      else if s_overall s \<notin> set OVERALL_TERMINAL then Some (Invalid_Overall (s_overall s))
      else None)"

definition record_target_lifecycle ::
    "stamp \<Rightarrow> string \<Rightarrow> string \<Rightarrow> lifecycle_statuses \<Rightarrow> string \<Rightarrow> json \<Rightarrow> recon_store \<Rightarrow> recon_store \<times> lifecycle_error option" where
  "record_target_lifecycle now run tgt s why details db0 =
     (let db = begin_target_lifecycle now run tgt db0
      in case status_error s of
           Some e \<Rightarrow> (db, Some e)
         | None \<Rightarrow> (db\<lparr>lifecycles := update_where (lifecycle_key run tgt)
             (\<lambda>r. r\<lparr>lc_collection := s_collection s, lc_analysis := s_analysis s, lc_report := s_report s,
                    lc_notification := s_notification s, lc_overall := s_overall s,
                    lc_eligible := (s_collection s = ''success''), lc_baseline_reason := why,
                    lc_details := details, lc_updated := now\<rparr>) (lifecycles db)\<rparr>, None))"

definition lifecycle_record :: "recon_store \<Rightarrow> string \<Rightarrow> string \<Rightarrow> lifecycle_row option" where
  "lifecycle_record db run tgt = select_one (lifecycle_key run tgt) (lifecycles db)"

definition baseline_commit_eligible :: "recon_store \<Rightarrow> string \<Rightarrow> string \<Rightarrow> bool option" where
  "baseline_commit_eligible db run tgt =
     (case lifecycle_record db run tgt of
        None \<Rightarrow> None
      | Some r \<Rightarrow> if lc_collection r = ''not_run'' \<and> lc_baseline_state r = ''pending'' then None
                  else Some (lc_eligible r))"

definition or_complete :: "string \<Rightarrow> string" where
  "or_complete why = (if why = '''' then ''collection_complete'' else why)"

definition note_lifecycle ::
    "stamp \<Rightarrow> string \<Rightarrow> string \<Rightarrow> string \<Rightarrow> string \<Rightarrow> string \<Rightarrow> stamp option \<Rightarrow> recon_store \<Rightarrow> recon_store" where
  "note_lifecycle now run tgt state why source since db = db\<lparr>lifecycles := update_where (lifecycle_key run tgt)
     (\<lambda>r. r\<lparr>lc_baseline_state := state, lc_baseline_reason := why, lc_baseline_source := source,
            lc_baseline_established := since, lc_updated := now\<rparr>) (lifecycles db)\<rparr>"

definition mark_baseline_committed :: "stamp \<Rightarrow> string \<Rightarrow> string \<Rightarrow> string \<Rightarrow> recon_store \<Rightarrow> recon_store \<times> string" where
  "mark_baseline_committed now run tgt why db =
     (case established db tgt of
        None \<Rightarrow>
          let fresh = \<lparr>bl_target = tgt, bl_state = ''established'', bl_established_run = run, bl_established_at = now,
                bl_refreshed_run = run, bl_refreshed_at = now, bl_reason = or_complete why, bl_migrated = False,
                bl_updated = now\<rparr>;
              db' = db\<lparr>baselines := upsert (\<lambda>b. bl_target b = tgt) fresh (\<lambda>b. fresh) (baselines db)\<rparr>
          in (note_lifecycle now run tgt ''established'' (or_complete why) run (Some now) db', ''established'')
      | Some b \<Rightarrow>
          let db' = db\<lparr>baselines := update_where (\<lambda>b. bl_target b = tgt)
                (\<lambda>b. b\<lparr>bl_state := ''established'', bl_refreshed_run := run, bl_refreshed_at := now,
                       bl_reason := or_complete why, bl_updated := now\<rparr>) (baselines db)\<rparr>
          in (note_lifecycle now run tgt ''refreshed'' (or_complete why) run (Some (bl_established_at b)) db', ''refreshed''))"

definition mark_baseline_not_committed :: "stamp \<Rightarrow> string \<Rightarrow> string \<Rightarrow> string \<Rightarrow> recon_store \<Rightarrow> recon_store \<times> string" where
  "mark_baseline_not_committed now run tgt why db =
     (let existing = established db tgt;
          state = (if existing = None then ''blocked'' else ''retained'')
      in (note_lifecycle now run tgt state why (source_of existing) (map_option bl_established_at existing) db, state))"

section \<open>Facts\<close>

lemma has_established_iff: "has_established_baseline db tgt \<longleftrightarrow> (\<exists>b \<in> set (baselines db). bl_target b = tgt \<and> bl_state b = ''established'')"
  by (auto simp: has_established_baseline_def select_one_None)

lemma committed_is_established:
  "\<exists>b \<in> set (baselines (fst (mark_baseline_committed now run tgt why db))). bl_target b = tgt \<and> bl_state b = ''established''"
proof (cases "established db tgt")
  case None
  then have "map_option bl_state (select_one (\<lambda>b. bl_target b = tgt)
      (baselines (fst (mark_baseline_committed now run tgt why db)))) = Some ''established''"
    by (simp add: mark_baseline_committed_def Let_def note_lifecycle_def select_one_upsert split: option.splits)
  then show ?thesis by (auto dest: select_one_Some)
next
  case (Some b)
  then have old: "select_one (\<lambda>b. bl_target b = tgt) (baselines db) = Some b" "bl_target b = tgt"
    by (auto simp: established_def baseline_record_def dest: select_one_Some split: option.splits if_splits)
  have "map_option bl_state (select_one (\<lambda>b. bl_target b = tgt)
      (baselines (fst (mark_baseline_committed now run tgt why db)))) = Some ''established''"
    unfolding mark_baseline_committed_def Some
    by (simp add: Let_def note_lifecycle_def select_one_update_where old)
  then show ?thesis by (auto dest: select_one_Some)
qed

lemma baseline_record_other:
  "(\<And>b. bl_target b = t' \<Longrightarrow> bl_target (f b) = t') \<Longrightarrow> t' \<noteq> tgt \<Longrightarrow>
   select_one (\<lambda>b. bl_target b = tgt) (update_where (\<lambda>b. bl_target b = t') f bs) = select_one (\<lambda>b. bl_target b = tgt) bs"
  by (rule select_one_update_other) auto

lemma note_lifecycle_simps [simp]:
  "baselines (note_lifecycle now run tgt st why src since db) = baselines db"
  "commits (note_lifecycle now run tgt st why src since db) = commits db"
  "snapshots (note_lifecycle now run tgt st why src since db) = snapshots db"
  "tracked (note_lifecycle now run tgt st why src since db) = tracked db"
  "receipts (note_lifecycle now run tgt st why src since db) = receipts db"
  "reviews (note_lifecycle now run tgt st why src since db) = reviews db"
  "derived_sets (note_lifecycle now run tgt st why src since db) = derived_sets db"
  "derived_items (note_lifecycle now run tgt st why src since db) = derived_items db"
  "working_sets (note_lifecycle now run tgt st why src since db) = working_sets db"
  "working_items (note_lifecycle now run tgt st why src since db) = working_items db"
  "stable_states (note_lifecycle now run tgt st why src since db) = stable_states db"
  "stable_runs (note_lifecycle now run tgt st why src since db) = stable_runs db"
  "run_targets (note_lifecycle now run tgt st why src since db) = run_targets db"
  "stage_runs (note_lifecycle now run tgt st why src since db) = stage_runs db"
  by (simp_all add: note_lifecycle_def)

lemma begin_lifecycle_other:
  "t' \<noteq> tgt \<Longrightarrow> lifecycle_record (begin_target_lifecycle now run tgt db) run' t' = lifecycle_record db run' t'"
  by (auto simp: lifecycle_record_def begin_target_lifecycle_def Let_def insert_ignore_def select_one_snoc
      lifecycle_key_def ensure_lifecycle_def split: option.split)

lemma begin_lifecycle_has:
  "\<exists>r. lifecycle_record (begin_target_lifecycle now run tgt db) run tgt = Some r"
  by (simp add: lifecycle_record_def begin_target_lifecycle_def Let_def select_one_insert_ignore lifecycle_key_def)

lemma update_lifecycle_record:
  "(\<And>r. lc_run (f r) = lc_run r \<and> lc_target (f r) = lc_target r) \<Longrightarrow>
   select_one (lifecycle_key run tgt) (update_where (lifecycle_key run tgt) f rows)
     = map_option f (select_one (lifecycle_key run tgt) rows)"
  by (subst select_one_update_where)
     (auto simp: lifecycle_key_def dest: select_one_Some split: option.split intro!: option.map_cong)

section \<open>Properties\<close>

text \<open>Collection completeness is all or nothing: the derived collection status is success exactly
  when every collection stage succeeded; otherwise it is failed or interrupted if some stage was, and
  partial or not run, so it can never be taken for complete.\<close>

theorem collection_success_needs_every_stage:
  "fst (derive_collection_status db run tgt stages) = ''success''
     \<longleftrightarrow> (\<forall>s \<in> set stages. stage_status db run tgt s = Some ''success'')"
proof -
  have broken: "broken_stage st ss = None \<longleftrightarrow> (\<forall>s \<in> set ss. st s \<noteq> Some ''interrupted'' \<and> st s \<noteq> Some ''failed'')" for st ss
    by (induction ss) auto
  have kind: "broken_stage st ss = Some r \<Longrightarrow> fst r \<noteq> ''success'' \<and> (\<exists>s \<in> set ss. st s \<noteq> Some ''success'')" for st ss r
    by (induction ss) (auto split: if_splits)
  show ?thesis
  proof (cases "broken_stage (stage_status db run tgt) stages")
    case None
    then show ?thesis by (auto simp: derive_collection_status_def Let_def filter_empty_conv)
  next
    case (Some r)
    with kind[OF Some] show ?thesis by (auto simp: derive_collection_status_def Let_def)
  qed
qed

definition stage_db :: "(string \<times> string) list \<Rightarrow> recon_store" where
  "stage_db sts = \<lparr>runs = [], run_targets = [], stage_runs = map (\<lambda>(s, st). \<lparr>sg_run = ''r'', sg_target = ''t'', sg_stage = s,
     sg_status = st, sg_metrics = JObj []\<rparr>) sts, analysis_runs = [], lifecycles = [], baselines = [], commits = [],
     snapshots = [], receipts = [], reviews = [], tracked = (\<lambda>_. []), derived_sets = [], derived_items = [],
     working_sets = [], working_items = [], stable_states = [], stable_runs = [], js_files = [], js_history = [],
     change_snapshots = []\<rparr>"

theorem collection_success_needs_every_stage_witness:
  "fst (derive_collection_status (stage_db [(''dns'', ''success''), (''urls'', ''partial'')]) ''r'' ''t'' [''dns'', ''urls'']) \<noteq> ''success''"
  using collection_success_needs_every_stage[of "stage_db [(''dns'', ''success''), (''urls'', ''partial'')]" "''r''" "''t''" "[''dns'', ''urls'']"]
  by (simp add: stage_status_def stage_db_def select_one_def)

text \<open>Only complete collection makes a run eligible to become the baseline: whatever the analysis,
  report and notification outcomes are, recording the lifecycle with valid statuses sets the
  eligibility to whether collection succeeded, and an invalid status is refused and changes no row.\<close>

theorem eligibility_follows_collection_only:
  "case record_target_lifecycle now run tgt s why details db of
     (db', None) \<Rightarrow> status_error s = None
        \<and> (\<exists>r. lifecycle_record db' run tgt = Some r \<and> lc_eligible r = (s_collection s = ''success''))
   | (db', Some e) \<Rightarrow> status_error s = Some e \<and> db' = begin_target_lifecycle now run tgt db"
proof (cases "status_error s")
  case None
  obtain r where "lifecycle_record (begin_target_lifecycle now run tgt db) run tgt = Some r"
    using begin_lifecycle_has by blast
  with None show ?thesis
    by (simp add: record_target_lifecycle_def Let_def lifecycle_record_def update_lifecycle_record)
next
  case (Some e)
  then show ?thesis by (simp add: record_target_lifecycle_def Let_def)
qed

text \<open>The overall status never hides a broken collection.\<close>

lemma overall_success_needs_all_parts:
  "derive_overall_status c a r n = ''success''
     \<longleftrightarrow> c = ''success'' \<and> a = ''success'' \<and> r = ''success'' \<and> (n = ''success'' \<or> n = ''queued'')"
  by (auto simp: derive_overall_status_def)

text \<open>Committing a baseline establishes it, and not committing keeps what was: after a commit the
  target has an established baseline refreshed by this run, whose establishment run and time survive a
  refresh; after a non-commit the registry is unchanged, and the state recorded for the run is retained
  exactly when an established baseline exists.\<close>

theorem baseline_commit_and_retain:
  "(\<exists>b. established (fst (mark_baseline_committed now run tgt why db)) tgt = Some b \<and> bl_refreshed_run b = run
      \<and> (case established db tgt of
           None \<Rightarrow> bl_established_run b = run \<and> bl_established_at b = now
         | Some old \<Rightarrow> bl_established_run b = bl_established_run old \<and> bl_established_at b = bl_established_at old))
   \<and> baselines (fst (mark_baseline_not_committed now run tgt why db)) = baselines db
   \<and> snd (mark_baseline_not_committed now run tgt why db) = (if established db tgt = None then ''blocked'' else ''retained'')"
proof (intro conjI)
  show "\<exists>b. established (fst (mark_baseline_committed now run tgt why db)) tgt = Some b \<and> bl_refreshed_run b = run
      \<and> (case established db tgt of
           None \<Rightarrow> bl_established_run b = run \<and> bl_established_at b = now
         | Some old \<Rightarrow> bl_established_run b = bl_established_run old \<and> bl_established_at b = bl_established_at old)"
  proof (cases "established db tgt")
    case None
    then show ?thesis
      by (simp add: mark_baseline_committed_def Let_def established_def baseline_record_def select_one_upsert
          split: option.splits)
  next
    case (Some old)
    then have old: "select_one (\<lambda>b. bl_target b = tgt) (baselines db) = Some old" "bl_target old = tgt"
      by (auto simp: established_def baseline_record_def dest: select_one_Some split: option.splits if_splits)
    show ?thesis
      unfolding mark_baseline_committed_def Some
      by (simp add: Let_def established_def baseline_record_def select_one_update_where old)
  qed
qed (simp_all add: mark_baseline_not_committed_def Let_def)

end
