(* ===== verification/Baseline_Integrity.thy ===== *)
theory Baseline_Integrity
  imports Target_Lifecycle
begin

text \<open>
  \<open>src/app/baseline_integrity.py\<close>: comparison baselines that are proven incomplete are quarantined
  without deleting evidence, and a verified recollection of the same run recovers them.  \<open>None\<close>
  results are the exception of \<open>stage_coverage\<close>.  \<open>audit\<close> is \<open>_audit_legacy_origins\<close>, which reads
  retained evidence files and may annotate metrics of stages; without paths it is the identity.
\<close>

section \<open>Receipts\<close>

definition observed_coverage :: "stage_run list \<Rightarrow> (string \<times> coverage) list option" where
  "observed_coverage rows = those (map (\<lambda>r. map_option (Pair (sg_stage r)) (stage_coverage (sg_stage r) (stage_row_of r))) rows)"

definition collection_stages :: "recon_store \<Rightarrow> string \<Rightarrow> string \<Rightarrow> stage_run list" where
  "collection_stages db tgt run =
     filter (\<lambda>r. sg_target r = tgt \<and> sg_run r = run \<and> sg_stage r \<noteq> ''report'') (stage_runs db)"

definition record_baseline_receipt :: "stamp \<Rightarrow> string \<Rightarrow> string \<Rightarrow> bool \<Rightarrow> recon_store \<Rightarrow> recon_store option" where
  "record_baseline_receipt now tgt run replace db =
     (case observed_coverage (collection_stages db tgt run) of
        None \<Rightarrow> None
      | Some obs \<Rightarrow>
          let row = \<lparr>rc_target = tgt, rc_run = run, rc_coverage = obs, rc_at = now\<rparr>;
              same = (\<lambda>r. rc_target r = tgt)
          in Some (db\<lparr>receipts := (if replace then upsert same row (\<lambda>r. row) (receipts db)
                                 else insert_ignore same row (receipts db))\<rparr>))"

section \<open>Reviews\<close>

definition review_key :: "string \<Rightarrow> string \<Rightarrow> review_row \<Rightarrow> bool" where
  "review_key tgt run r \<longleftrightarrow> rv_target r = tgt \<and> rv_run r = run"

definition baseline_review :: "recon_store \<Rightarrow> string \<Rightarrow> string \<Rightarrow> review_row option" where
  "baseline_review db tgt run = select_one (review_key tgt run) (reviews db)"

definition baseline_run_excluded :: "recon_store \<Rightarrow> string \<Rightarrow> string \<Rightarrow> bool" where
  "baseline_run_excluded db tgt run \<longleftrightarrow>
     (case baseline_review db tgt run of None \<Rightarrow> False | Some r \<Rightarrow> rv_state r = ''quarantined'')"

definition refresh_js_observation :: "string \<Rightarrow> string \<Rightarrow> string \<Rightarrow> js_row list \<Rightarrow> js_row list" where
  "refresh_js_observation tgt url run = update_where (\<lambda>r. js_target r = tgt \<and> js_url r = url \<and> js_run r = run)
     (\<lambda>r. r\<lparr>js_quarantined := False\<rparr>)"

section \<open>Collection gaps\<close>

definition GAP_STATUSES :: "string list" where
  "GAP_STATUSES = [''access_restricted'', ''partial'', ''failed'', ''interrupted'']"

definition coverage_gaps :: "(string \<times> coverage) list \<Rightarrow> gap list" where
  "coverage_gaps obs = map (\<lambda>(s, c). \<lparr>gap_stage = s, gap_status = cov_status c, gap_reason = reason c, gap_url = None\<rparr>)
     (filter (\<lambda>(s, c). cov_status c \<in> set GAP_STATUSES) obs)"

definition restricted_gap :: "string \<Rightarrow> obs_row \<Rightarrow> gap" where
  "restricted_gap why r = \<lparr>gap_stage = ''fingerprint'', gap_status = ''access_restricted'', gap_reason = Lit why,
     gap_url = Some (case ob_key r of [] \<Rightarrow> '''' | u # _ \<Rightarrow> u, count (get (ob_cols r) ''status_code''))\<rparr>"

definition first_gap :: "(obs_row \<Rightarrow> bool) \<Rightarrow> string \<Rightarrow> obs_row list \<Rightarrow> gap list" where
  "first_gap p why rows = (case select_one p rows of None \<Rightarrow> [] | Some r \<Rightarrow> [restricted_gap why r])"

text \<open>What the stage rows or the receipt prove about the collection.\<close>

definition stage_gaps :: "recon_store \<Rightarrow> string \<Rightarrow> string \<Rightarrow> bool \<Rightarrow> gap list option" where
  "stage_gaps db tgt run working =
     (case (select_one (\<lambda>r. rc_target r = tgt \<and> rc_run r = run) (receipts db), working) of
        (Some rc, False) \<Rightarrow> Some (coverage_gaps (rc_coverage rc))
      | _ \<Rightarrow>
          (case target_row db run tgt of
             None \<Rightarrow> Some []
           | Some t \<Rightarrow>
               if working \<or> rt_status t \<noteq> ''running''
               then map_option coverage_gaps (observed_coverage (collection_stages db tgt run)) else Some []))"

text \<open>A restricted response among the frozen fingerprints, or among the working ones.\<close>

definition frozen_restricted :: "string \<Rightarrow> obs_row \<Rightarrow> bool" where
  "frozen_restricted run r \<longleftrightarrow> ob_last_run r = Some run \<and> count (get (ob_cols r) ''status_code'') \<in> {401, 403}"

definition working_restricted :: "string \<Rightarrow> string \<Rightarrow> obs_row \<Rightarrow> bool" where
  "working_restricted tgt run r \<longleftrightarrow> ob_target r = tgt \<and> ob_last_run r = Some run
     \<and> get (ob_cols r) ''status_code'' \<in> {JInt 401, JInt 403}"

definition collection_gaps :: "recon_store \<Rightarrow> string \<Rightarrow> string \<Rightarrow> bool \<Rightarrow> gap list option" where
  "collection_gaps db tgt run working =
     (let extra = (if working
            then first_gap (working_restricted tgt run) ''Collected HTTP response restricted content visibility.'' (tracked db Fingerprints)
            else first_gap (frozen_restricted run) ''Committed HTTP response restricted content visibility.''
              (map sn_row (filter (\<lambda>s. sn_target s = tgt \<and> sn_table s = Fingerprints \<and> sn_run s = run) (snapshots db))))
      in map_option (\<lambda>gaps. gaps @ extra) (stage_gaps db tgt run working))"

section \<open>Quarantine and recovery\<close>

datatype review_action = No_Baseline | No_Proven_Gap | Already_Quarantined | Quarantined

record review_result =
  rr_target :: string
  rr_run :: string
  rr_action :: review_action
  rr_changed :: bool
  rr_gaps :: "gap list"

definition quarantine_review ::
    "stamp \<Rightarrow> string \<Rightarrow> string \<Rightarrow> string \<Rightarrow> gap list \<Rightarrow> recon_store \<Rightarrow> recon_store" where
  "quarantine_review now actor tgt run gaps db =
     (let current = commit_of db tgt;
          row = \<lparr>rv_target = tgt, rv_run = run, rv_state = ''quarantined'', rv_gaps = gaps,
            rv_snapshot = (case current of Some c \<Rightarrow> if cm_run c = run then Some c else None | None \<Rightarrow> None),
            rv_baseline = baseline_record db tgt, rv_actor = actor, rv_detected = now, rv_recovered = None\<rparr>
      in db\<lparr>reviews := upsert (review_key tgt run) row
              (\<lambda>r. r\<lparr>rv_state := ''quarantined'', rv_gaps := rv_gaps row, rv_snapshot := rv_snapshot row,
                     rv_baseline := rv_baseline row, rv_actor := actor, rv_recovered := None\<rparr>) (reviews db),
            js_files := update_where (\<lambda>r. js_target r = tgt \<and> js_run r = run) (\<lambda>r. r\<lparr>js_quarantined := True\<rparr>) (js_files db),
            js_history := update_where (\<lambda>r. js_target r = tgt \<and> js_run r = run) (\<lambda>r. r\<lparr>js_quarantined := True\<rparr>) (js_history db)\<rparr>)"

definition baseline_is_current :: "recon_store \<Rightarrow> string \<Rightarrow> string \<Rightarrow> bool" where
  "baseline_is_current db tgt run \<longleftrightarrow>
     (case (commit_of db tgt, baseline_record db tgt) of
        (Some c, Some b) \<Rightarrow> cm_run c = run \<and> bl_refreshed_run b = run \<and> bl_state b \<noteq> ''quarantined''
      | _ \<Rightarrow> False)"

definition review_source :: "recon_store \<Rightarrow> string \<Rightarrow> string \<Rightarrow> string" where
  "review_source db tgt run = (if run \<noteq> '''' then run else case commit_of db tgt of Some c \<Rightarrow> cm_run c | None \<Rightarrow> '''')"

definition review_committed_baseline ::
    "stamp \<Rightarrow> (recon_store \<Rightarrow> recon_store) \<Rightarrow> string \<Rightarrow> string \<Rightarrow> string \<Rightarrow> recon_store \<Rightarrow> (recon_store \<times> review_result) option" where
  "review_committed_baseline now audit tgt run actor db0 =
     (let source = review_source db0 tgt run;
          db = (case target_row db0 source tgt of Some t \<Rightarrow> if rt_status t \<noteq> ''running'' then audit db0 else db0 | None \<Rightarrow> db0)
      in if source = '''' then Some (db0, \<lparr>rr_target = tgt, rr_run = '''', rr_action = No_Baseline, rr_changed = False, rr_gaps = []\<rparr>)
         else case collection_gaps db tgt source False of
           None \<Rightarrow> None
         | Some [] \<Rightarrow> Some (db, \<lparr>rr_target = tgt, rr_run = source, rr_action = No_Proven_Gap, rr_changed = False, rr_gaps = []\<rparr>)
         | Some gaps \<Rightarrow>
             let already = baseline_run_excluded db tgt source;
                 db1 = (if already then db else quarantine_review now actor tgt source gaps db);
                 changed = baseline_is_current db tgt source;
                 db2 = (if changed then db1\<lparr>baselines := update_where (\<lambda>b. bl_target b = tgt \<and> bl_refreshed_run b = source)
                          (\<lambda>b. b\<lparr>bl_state := ''quarantined'', bl_reason := ''baseline_coverage_incomplete'', bl_updated := now\<rparr>)
                          (baselines db1)\<rparr> else db1);
                 db3 = db2\<lparr>change_snapshots := delete_where (\<lambda>c. ch_target c = tgt \<and> (ch_run c = source \<or> ch_previous c = source))
                          (change_snapshots db2)\<rparr>
             in Some (db3, \<lparr>rr_target = tgt, rr_run = source, rr_action = (if already then Already_Quarantined else Quarantined),
                            rr_changed = changed, rr_gaps = gaps\<rparr>))"

definition recover_baseline_review :: "stamp \<Rightarrow> string \<Rightarrow> string \<Rightarrow> recon_store \<Rightarrow> recon_store" where
  "recover_baseline_review now tgt run db = db\<lparr>reviews :=
     update_where (\<lambda>r. review_key tgt run r \<and> rv_state r = ''quarantined'')
       (\<lambda>r. r\<lparr>rv_state := ''recovered'', rv_recovered := Some now\<rparr>) (reviews db)\<rparr>"

section \<open>Repair\<close>

datatype repair_error =
    Selector_Required
  | Run_Not_Found
  | Run_Running
  | No_History
  | Target_Running string
  | Coverage_Error

fun review_all ::
    "stamp \<Rightarrow> (string \<Rightarrow> recon_store \<Rightarrow> recon_store) \<Rightarrow> string \<Rightarrow> string list \<Rightarrow> recon_store \<Rightarrow> (recon_store \<times> review_result list) option" where
  "review_all now audit run [] db = Some (db, [])"
| "review_all now audit run (t # ts) db =
     (case review_committed_baseline now (audit t) t run ''cli-baseline-repair'' db of
        None \<Rightarrow> None
      | Some (db', r) \<Rightarrow> (case review_all now audit run ts db' of None \<Rightarrow> None | Some (db'', rs) \<Rightarrow> Some (db'', r # rs)))"

definition repair_targets :: "recon_store \<Rightarrow> string \<Rightarrow> string \<Rightarrow> string list" where
  "repair_targets db run tgt =
     (if run \<noteq> '''' then map rt_target (filter (\<lambda>r. rt_run r = run \<and> (tgt = '''' \<or> rt_target r = tgt)) (run_targets db))
      else map bl_target (filter (\<lambda>b. bl_target b = tgt) (baselines db)))"

definition target_running :: "recon_store \<Rightarrow> string \<Rightarrow> bool" where
  "target_running db tgt \<longleftrightarrow> list_ex (\<lambda>r. rt_target r = tgt \<and> rt_status r = ''running'') (run_targets db)"

text \<open>The part of \<open>repair_baselines\<close> under its transaction: any error rolls back.  Refreshing the
  diagnostic projections of the finalized runs follows it.\<close>

definition repair_baselines ::
    "stamp \<Rightarrow> (string \<Rightarrow> recon_store \<Rightarrow> recon_store) \<Rightarrow> string \<Rightarrow> string \<Rightarrow> recon_store
     \<Rightarrow> recon_store \<times> (repair_error + review_result list \<times> string list)" where
  "repair_baselines now audit run tgt db =
     (if run = '''' \<and> tgt = '''' then (db, Inl Selector_Required)
      else if run \<noteq> '''' \<and> select_one (\<lambda>r. ru_id r = run) (runs db) = None then (db, Inl Run_Not_Found)
      else if run \<noteq> '''' \<and> map_option ru_status (select_one (\<lambda>r. ru_id r = run) (runs db)) = Some ''running'' then (db, Inl Run_Running)
      else
        let ts = repair_targets db run tgt
        in if ts = [] then (db, Inl No_History)
           else case select_one (target_running db) ts of
             Some t \<Rightarrow> (db, Inl (Target_Running t))
           | None \<Rightarrow>
               (case review_all now audit run ts db of
                  None \<Rightarrow> (db, Inl Coverage_Error)
                | Some (db', rs) \<Rightarrow> (db', Inr (rs, sort (dedup (filter (\<lambda>r. r \<noteq> '''') (map rr_run rs)))))))"

section \<open>Facts\<close>

lemma upsert_review_record:
  "(\<And>r. rv_target (f r) = rv_target r \<and> rv_run (f r) = rv_run r) \<Longrightarrow> review_key tgt run row \<Longrightarrow>
   select_one (review_key tgt run) (upsert (review_key tgt run) row f rs)
     = Some (case select_one (review_key tgt run) rs of None \<Rightarrow> row | Some r \<Rightarrow> f r)"
  by (rule select_one_upsert) (auto simp: review_key_def)

lemma excluded_iff:
  "baseline_run_excluded db tgt run \<longleftrightarrow> map_option rv_state (select_one (review_key tgt run) (reviews db)) = Some ''quarantined''"
  by (simp add: baseline_run_excluded_def baseline_review_def split: option.split)

lemma quarantine_reviews:
  "\<exists>row f. reviews (quarantine_review now actor tgt run gaps db) = upsert (review_key tgt run) row f (reviews db)
     \<and> review_key tgt run row \<and> rv_state row = ''quarantined''
     \<and> (\<forall>r. rv_target (f r) = rv_target r \<and> rv_run (f r) = rv_run r \<and> rv_state (f r) = ''quarantined'')"
  unfolding quarantine_review_def Let_def by (intro exI conjI) (auto simp: review_key_def)

lemma quarantine_excludes: "baseline_run_excluded (quarantine_review now actor tgt run gaps db) tgt run"
proof -
  obtain row f where q: "reviews (quarantine_review now actor tgt run gaps db) = upsert (review_key tgt run) row f (reviews db)"
    "review_key tgt run row" "rv_state row = ''quarantined''"
    "\<And>r. rv_target (f r) = rv_target r \<and> rv_run (f r) = rv_run r" "\<And>r. rv_state (f r) = ''quarantined''"
    using quarantine_reviews by blast
  show ?thesis
    unfolding excluded_iff q(1) upsert_review_record[OF q(4,2)] using q(3,5) by (simp split: option.split)
qed

lemma quarantine_fields [simp]:
  "baselines (quarantine_review now actor tgt run gaps db) = baselines db"
  "commits (quarantine_review now actor tgt run gaps db) = commits db"
  "snapshots (quarantine_review now actor tgt run gaps db) = snapshots db"
  "receipts (quarantine_review now actor tgt run gaps db) = receipts db"
  "tracked (quarantine_review now actor tgt run gaps db) = tracked db"
  "stage_runs (quarantine_review now actor tgt run gaps db) = stage_runs db"
  "run_targets (quarantine_review now actor tgt run gaps db) = run_targets db"
  by (simp_all add: quarantine_review_def Let_def)

text \<open>A review in one equation, without an audit.\<close>

definition reviewed :: "stamp \<Rightarrow> string \<Rightarrow> string \<Rightarrow> string \<Rightarrow> gap list \<Rightarrow> recon_store \<Rightarrow> recon_store" where
  "reviewed now actor tgt run gaps db =
     (let db1 = (if baseline_run_excluded db tgt run then db else quarantine_review now actor tgt run gaps db);
          db2 = (if baseline_is_current db tgt run then db1\<lparr>baselines := update_where (\<lambda>b. bl_target b = tgt \<and> bl_refreshed_run b = run)
                   (\<lambda>b. b\<lparr>bl_state := ''quarantined'', bl_reason := ''baseline_coverage_incomplete'', bl_updated := now\<rparr>)
                   (baselines db1)\<rparr> else db1)
      in db2\<lparr>change_snapshots := delete_where (\<lambda>c. ch_target c = tgt \<and> (ch_run c = run \<or> ch_previous c = run)) (change_snapshots db2)\<rparr>)"

lemma review_id:
  "review_committed_baseline now id tgt run actor db =
     (let source = review_source db tgt run
      in if source = '''' then Some (db, \<lparr>rr_target = tgt, rr_run = '''', rr_action = No_Baseline, rr_changed = False, rr_gaps = []\<rparr>)
         else case collection_gaps db tgt source False of
           None \<Rightarrow> None
         | Some [] \<Rightarrow> Some (db, \<lparr>rr_target = tgt, rr_run = source, rr_action = No_Proven_Gap, rr_changed = False, rr_gaps = []\<rparr>)
         | Some (g # gs) \<Rightarrow> Some (reviewed now actor tgt source (g # gs) db, \<lparr>rr_target = tgt, rr_run = source,
              rr_action = (if baseline_run_excluded db tgt source then Already_Quarantined else Quarantined),
              rr_changed = baseline_is_current db tgt source, rr_gaps = g # gs\<rparr>))"
proof -
  have audit: "(case target_row db source tgt of Some t \<Rightarrow> if rt_status t \<noteq> ''running'' then id db else db | None \<Rightarrow> db) = db" for source
    by (simp split: option.split)
  show ?thesis unfolding review_committed_baseline_def audit reviewed_def Let_def by simp
qed

lemma review_cases:
  assumes "review_committed_baseline now id tgt run actor db = Some (db', res)"
  shows "(db' = db \<and> rr_changed res = False \<and> rr_action res \<in> {No_Baseline, No_Proven_Gap} \<and> rr_gaps res = [])
    \<or> (rr_gaps res \<noteq> [] \<and> collection_gaps db tgt (rr_run res) False = Some (rr_gaps res) \<and> rr_run res \<noteq> ''''
       \<and> rr_run res = review_source db tgt run
       \<and> db' = reviewed now actor tgt (rr_run res) (rr_gaps res) db
       \<and> rr_changed res = baseline_is_current db tgt (rr_run res)
       \<and> rr_action res = (if baseline_run_excluded db tgt (rr_run res) then Already_Quarantined else Quarantined))"
proof (cases "review_source db tgt run = ''''")
  case True
  with assms show ?thesis unfolding review_id Let_def by auto
next
  case False
  then obtain gaps where g: "collection_gaps db tgt (review_source db tgt run) False = Some gaps"
    using assms unfolding review_id Let_def by (cases "collection_gaps db tgt (review_source db tgt run) False") auto
  with False assms show ?thesis unfolding review_id Let_def by (cases gaps) auto
qed

lemma reviewed_baselines:
  "baselines (reviewed now actor tgt run gaps db) =
     (if baseline_is_current db tgt run
      then update_where (\<lambda>b. bl_target b = tgt \<and> bl_refreshed_run b = run)
             (\<lambda>b. b\<lparr>bl_state := ''quarantined'', bl_reason := ''baseline_coverage_incomplete'', bl_updated := now\<rparr>) (baselines db)
      else baselines db)"
  by (simp add: reviewed_def Let_def)

lemma reviewed_fields [simp]:
  "commits (reviewed now actor tgt run gaps db) = commits db"
  "snapshots (reviewed now actor tgt run gaps db) = snapshots db"
  "receipts (reviewed now actor tgt run gaps db) = receipts db"
  "tracked (reviewed now actor tgt run gaps db) = tracked db"
  "stage_runs (reviewed now actor tgt run gaps db) = stage_runs db"
  "run_targets (reviewed now actor tgt run gaps db) = run_targets db"
  by (simp_all add: reviewed_def Let_def)

lemma reviewed_excludes: "baseline_run_excluded (reviewed now actor tgt run gaps db) tgt run"
proof -
  have "reviews (reviewed now actor tgt run gaps db) =
      reviews (if baseline_run_excluded db tgt run then db else quarantine_review now actor tgt run gaps db)"
    by (simp add: reviewed_def Let_def)
  then show ?thesis
    using quarantine_excludes[of now actor tgt run gaps db] by (simp add: excluded_iff split: if_splits)
qed

lemma gaps_cong:
  assumes "receipts db = receipts db'" "run_targets db = run_targets db'" "stage_runs db = stage_runs db'"
    "snapshots db = snapshots db'" "tracked db = tracked db'"
  shows "collection_gaps db tgt run w = collection_gaps db' tgt run w"
proof -
  have eq: "target_row db = target_row db'" "collection_stages db = collection_stages db'"
    using assms by (simp_all add: fun_eq_iff target_row_def collection_stages_def)
  show ?thesis unfolding collection_gaps_def stage_gaps_def assms eq by (rule refl)
qed

section \<open>Properties\<close>

text \<open>A review never demotes a newer baseline: a baseline row is changed only if both the committed
  snapshot and the registry still name the reviewed run, only that target's row is touched, and it becomes
  quarantined; reviewing a superseded run, or one without proven gaps, leaves the registry as it is.\<close>

theorem review_spares_newer_baselines:
  assumes "review_committed_baseline now id tgt run actor db = Some (db', res)"
  shows "(rr_changed res \<longrightarrow> (\<exists>c b. commit_of db tgt = Some c \<and> baseline_record db tgt = Some b
            \<and> cm_run c = rr_run res \<and> bl_refreshed_run b = rr_run res \<and> rr_gaps res \<noteq> []
            \<and> established db' tgt = None))
    \<and> (\<not> rr_changed res \<longrightarrow> baselines db' = baselines db)
    \<and> (\<forall>t. t \<noteq> tgt \<longrightarrow> baseline_record db' t = baseline_record db t)"
proof -
  have other: "baseline_record (reviewed now actor tgt r g db) t = baseline_record db t" if "t \<noteq> tgt" for t r g
    using that by (auto simp: baseline_record_def reviewed_baselines intro!: select_one_update_other)
  from review_cases[OF assms] show ?thesis
  proof (elim disjE conjE)
    assume r: "rr_gaps res \<noteq> []" "db' = reviewed now actor tgt (rr_run res) (rr_gaps res) db"
      "rr_changed res = baseline_is_current db tgt (rr_run res)"
    show ?thesis
    proof (cases "baseline_is_current db tgt (rr_run res)")
      case True
      then obtain c b where cb: "commit_of db tgt = Some c" "baseline_record db tgt = Some b" "cm_run c = rr_run res"
        "bl_refreshed_run b = rr_run res" by (auto simp: baseline_is_current_def split: option.splits)
      then have "bl_target b = tgt" by (auto simp: baseline_record_def dest: select_one_Some)
      with cb True have "map_option bl_state (baseline_record db' tgt) = Some ''quarantined''"
        by (simp add: r(2) baseline_record_def reviewed_baselines select_one_update_where)
      then have "established db' tgt = None" by (auto simp: established_def split: option.split)
      with cb r True other show ?thesis by auto
    next
      case False
      with r other show ?thesis by (simp add: reviewed_baselines)
    qed
  qed auto
qed

text \<open>A store in which run \<open>r1\<close> of target \<open>t\<close> committed a snapshot with a restricted fingerprint.\<close>

definition restricted_fingerprint :: obs_row where
  "restricted_fingerprint = \<lparr>ob_target = ''t'', ob_key = [''https://t/''], ob_last_run = Some ''r1'',
     ob_cols = [(''status_code'', JInt 403)]\<rparr>"

definition gap_store :: recon_store where
  "gap_store = (stage_db [])
     \<lparr>commits := [\<lparr>cm_target = ''t'', cm_run = ''r1'', cm_at = 5, cm_bootstrap = False, cm_tables = 4, cm_rows = 1\<rparr>],
      snapshots := [\<lparr>sn_target = ''t'', sn_table = Fingerprints, sn_hash = ''h'', sn_row = restricted_fingerprint,
        sn_run = ''r1'', sn_at = 5\<rparr>],
      baselines := [migrated_baseline 6 \<lparr>cm_target = ''t'', cm_run = ''r1'', cm_at = 5, cm_bootstrap = False,
        cm_tables = 4, cm_rows = 1\<rparr>]\<rparr>"

lemma gap_store_gaps:
  "collection_gaps gap_store ''t'' ''r1'' False =
     Some [restricted_gap ''Committed HTTP response restricted content visibility.'' restricted_fingerprint]"
  by (simp add: collection_gaps_def stage_gaps_def gap_store_def stage_db_def target_row_def first_gap_def
      select_one_def frozen_restricted_def restricted_fingerprint_def get_def count_def)

lemma gap_store_review:
  "review_committed_baseline now id ''t'' '''' actor gap_store =
     Some (reviewed now actor ''t'' ''r1'' [restricted_gap ''Committed HTTP response restricted content visibility.'' restricted_fingerprint] gap_store,
       \<lparr>rr_target = ''t'', rr_run = ''r1'', rr_action = Quarantined, rr_changed = True,
        rr_gaps = [restricted_gap ''Committed HTTP response restricted content visibility.'' restricted_fingerprint]\<rparr>)"
proof -
  have "review_source gap_store ''t'' '''' = ''r1''"
    by (simp add: review_source_def commit_of_def gap_store_def select_one_def)
  moreover have "\<not> baseline_run_excluded gap_store ''t'' ''r1''" "baseline_is_current gap_store ''t'' ''r1''"
    by (simp_all add: baseline_run_excluded_def baseline_review_def gap_store_def stage_db_def select_one_def
        baseline_is_current_def commit_of_def baseline_record_def migrated_baseline_def)
  ultimately show ?thesis unfolding review_id Let_def by (simp add: gap_store_gaps)
qed

theorem review_spares_newer_baselines_witness:
  "established (reviewed 9 ''automatic'' ''t'' ''r1'' [restricted_gap ''Committed HTTP response restricted content visibility.''
     restricted_fingerprint] gap_store) ''t'' = None"
  using review_spares_newer_baselines[OF gap_store_review[of 9 "''automatic''"]] by auto

text \<open>Quarantine is idempotent and sticks: after a review that found a gap the run is excluded, and
  reviewing it again finds the same gaps, reports it as already quarantined, and changes neither the
  reviews nor the registry.\<close>

theorem quarantine_is_idempotent:
  assumes "review_committed_baseline now id tgt run actor db = Some (db', res)" "rr_gaps res \<noteq> []"
  shows "baseline_run_excluded db' tgt (rr_run res)
    \<and> (\<exists>db2 res2. review_committed_baseline later id tgt run actor2 db' = Some (db2, res2)
        \<and> rr_action res2 = Already_Quarantined \<and> rr_gaps res2 = rr_gaps res
        \<and> reviews db2 = reviews db' \<and> (baseline_is_current db tgt (rr_run res) \<longrightarrow> baselines db2 = baselines db'))"
proof -
  let ?r = "rr_run res" and ?g = "rr_gaps res"
  from review_cases[OF assms(1)] assms(2) have c: "collection_gaps db tgt ?r False = Some ?g" "?r \<noteq> ''''"
    "?r = review_source db tgt run" "db' = reviewed now actor tgt ?r ?g db" by auto
  have ex: "baseline_run_excluded db' tgt ?r" unfolding c(4) by (rule reviewed_excludes)
  have src: "review_source db' tgt run = ?r" using c(3) by (simp add: c(4) review_source_def commit_of_def)
  have gaps: "collection_gaps db' tgt ?r False = Some ?g"
    using c(1) gaps_cong[of db' db tgt ?r False] by (simp add: c(4))
  obtain g gs where g: "?g = g # gs" using assms(2) by (cases ?g) auto
  have rv: "review_committed_baseline later id tgt run actor2 db' = Some (reviewed later actor2 tgt ?r ?g db',
      \<lparr>rr_target = tgt, rr_run = ?r, rr_action = Already_Quarantined, rr_changed = baseline_is_current db' tgt ?r, rr_gaps = ?g\<rparr>)"
    unfolding review_id Let_def src using c(2) gaps ex g by simp
  have "reviews (reviewed later actor2 tgt ?r ?g db') = reviews db'"
    using ex by (simp add: reviewed_def Let_def)
  moreover have "baselines (reviewed later actor2 tgt ?r ?g db') = baselines db'" if "baseline_is_current db tgt ?r"
  proof -
    from that obtain b where b: "baseline_record db tgt = Some b" "bl_refreshed_run b = ?r"
      by (auto simp: baseline_is_current_def split: option.splits)
    then have "bl_target b = tgt" by (auto simp: baseline_record_def dest: select_one_Some)
    with b that have "map_option bl_state (baseline_record db' tgt) = Some ''quarantined''"
      by (simp add: c(4) baseline_record_def reviewed_baselines select_one_update_where)
    then have "\<not> baseline_is_current db' tgt ?r"
      by (auto simp: baseline_is_current_def split: option.splits)
    then show ?thesis by (simp add: reviewed_baselines)
  qed
  ultimately show ?thesis using ex rv by auto
qed

theorem quarantine_is_idempotent_witness:
  "baseline_run_excluded (reviewed 9 ''automatic'' ''t'' ''r1'' [restricted_gap ''Committed HTTP response restricted content visibility.''
     restricted_fingerprint] gap_store) ''t'' ''r1''"
  using quarantine_is_idempotent[OF gap_store_review] by simp

text \<open>A recovery ends the exclusion of that one run and of no other.\<close>

lemma recovery_ends_exclusion:
  "baseline_run_excluded (recover_baseline_review now tgt run db) t r
     \<longleftrightarrow> baseline_run_excluded db t r \<and> (t, r) \<noteq> (tgt, run)"
proof (cases "(t, r) = (tgt, run)")
  case True
  then have "select_one (review_key t r) (update_where (\<lambda>q. review_key tgt run q \<and> rv_state q = ''quarantined'')
      (\<lambda>q. q\<lparr>rv_state := ''recovered'', rv_recovered := Some now\<rparr>) (reviews db))
    = map_option (\<lambda>q. if review_key tgt run q \<and> rv_state q = ''quarantined'' then q\<lparr>rv_state := ''recovered'', rv_recovered := Some now\<rparr> else q)
        (select_one (review_key t r) (reviews db))"
    by (intro select_one_update_where) (simp add: review_key_def)
  with True show ?thesis
    by (auto simp: excluded_iff recover_baseline_review_def dest!: select_one_Some)
next
  case False
  then have "select_one (review_key t r) (update_where (\<lambda>q. review_key tgt run q \<and> rv_state q = ''quarantined'')
      (\<lambda>q. q\<lparr>rv_state := ''recovered'', rv_recovered := Some now\<rparr>) (reviews db)) = select_one (review_key t r) (reviews db)"
    by (intro select_one_update_other) (auto simp: review_key_def)
  with False show ?thesis by (simp add: excluded_iff recover_baseline_review_def)
qed

text \<open>Baseline repair is all or nothing: when it reports an error (no selector, an unknown or running
  run, a target that is running elsewhere, no history, unreadable coverage), no table has changed, and it
  never succeeds while a selected target is running.\<close>

theorem repair_is_atomic_and_waits:
  "case repair_baselines now audit run tgt db of
     (db', Inl e) \<Rightarrow> db' = db
   | (db', Inr (rs, finalized)) \<Rightarrow> \<not> (run = '''' \<and> tgt = '''') \<and> rs \<noteq> []
        \<and> list_all (\<lambda>t. \<not> target_running db t) (repair_targets db run tgt)"
proof -
  have len: "review_all now audit run ts d = Some (d', rs) \<Longrightarrow> length rs = length ts" for ts d d' rs
    by (induction ts arbitrary: d rs) (auto split: option.splits prod.splits)
  define ts where "ts = repair_targets db run tgt"
  let ?bad = "run = '''' \<and> tgt = '''' \<or> run \<noteq> '''' \<and> (select_one (\<lambda>r. ru_id r = run) (runs db) = None
      \<or> map_option ru_status (select_one (\<lambda>r. ru_id r = run) (runs db)) = Some ''running'')"
  show ?thesis
  proof (cases "?bad \<or> ts = [] \<or> select_one (target_running db) ts \<noteq> None")
    case True
    then have "\<exists>e. repair_baselines now audit run tgt db = (db, Inl e)"
      unfolding repair_baselines_def Let_def ts_def[symmetric] by (auto split: option.split)
    then show ?thesis by auto
  next
    case False
    then have eq: "repair_baselines now audit run tgt db = (case review_all now audit run ts db of
          None \<Rightarrow> (db, Inl Coverage_Error)
        | Some (db', rs) \<Rightarrow> (db', Inr (rs, sort (dedup (filter (\<lambda>r. r \<noteq> '''') (map rr_run rs))))))"
      unfolding repair_baselines_def Let_def ts_def[symmetric] by auto
    show ?thesis
    proof (cases "review_all now audit run ts db")
      case None
      with eq show ?thesis by simp
    next
      case (Some p)
      obtain db' rs where p: "p = (db', rs)" by fastforce
      with Some len have "rs \<noteq> []" using False by fastforce
      moreover have "list_all (\<lambda>t. \<not> target_running db t) ts"
        using False by (simp add: list_all_iff select_one_None)
      ultimately show ?thesis using eq Some p False by (auto simp: ts_def)
    qed
  qed
qed

end
