(* ===== verification/Stable_Confirmation.thy ===== *)
theory Stable_Confirmation
  imports Baseline_Integrity
begin

text \<open>
  \<open>src/app/stable_confirmation.py\<close>: confirmation of volatile DNS and fingerprint changes as a state
  machine over successful runs.  A run observes a state provisionally; only a successful target run
  promotes its observations, and each contributes at most one.  SHA-256 (\<open>sha\<close>) and the printing of
  floats (\<open>fr\<close>) are arguments.
\<close>

section \<open>Observation\<close>

definition discard_stale_stable_change_runs :: "string \<Rightarrow> string \<Rightarrow> recon_store \<Rightarrow> recon_store" where
  "discard_stale_stable_change_runs tgt keep db =
     db\<lparr>stable_runs := delete_where (\<lambda>r. st_target r = tgt \<and> st_run r \<noteq> keep) (stable_runs db)\<rparr>"

type_synonym template = "(string \<times> json) list"

definition dedup_key :: "template \<Rightarrow> string" where
  "dedup_key t = text_of (get t ''dedup_key'')"

definition append_template :: "template list \<Rightarrow> template option \<Rightarrow> template list" where
  "append_template ts t =
     (case t of
        None \<Rightarrow> ts
      | Some c \<Rightarrow> if c = [] then ts
                  else if dedup_key c \<noteq> '''' \<and> list_ex (\<lambda>r. dedup_key r = dedup_key c) ts then ts
                  else ts @ [c])"

record observation =
  o_run :: string
  o_target :: string
  o_subject :: string
  o_category :: string
  o_version :: string
  o_confirmations :: int
  o_immediate :: bool
  o_template :: "template option"

record observed =
  r_occurrences :: nat
  r_state :: string
  r_transitioned :: bool
  r_templates :: "template list"

definition threshold :: "int \<Rightarrow> nat" where
  "threshold c = nat (max 1 (if c = 0 then 1 else c))"

definition confirm :: "observation \<Rightarrow> nat \<Rightarrow> string" where
  "confirm ob n = (if o_immediate ob \<or> threshold (o_confirmations ob) \<le> n then ''confirmed'' else ''observed'')"

definition provisional :: "recon_store \<Rightarrow> string \<Rightarrow> string \<Rightarrow> string \<Rightarrow> stable_row option" where
  "provisional db run tgt subject =
     select_one (\<lambda>r. st_run r = run \<and> st_target r = tgt \<and> st_subject r = subject) (stable_runs db)"

definition committed :: "recon_store \<Rightarrow> string \<Rightarrow> string \<Rightarrow> stable_row option" where
  "committed db tgt subject = select_one (\<lambda>r. st_target r = tgt \<and> st_subject r = subject) (stable_states db)"

text \<open>A fresh state: the first observation.\<close>

definition first_observation :: "stamp \<Rightarrow> observation \<Rightarrow> nat \<times> string \<times> stamp \<times> template list \<times> bool" where
  "first_observation now ob = (1, confirm ob 1, now, append_template [] (o_template ob), confirm ob 1 = ''confirmed'')"

definition observe_row :: "stamp \<Rightarrow> observation \<Rightarrow> recon_store \<Rightarrow> nat \<times> string \<times> stamp \<times> template list \<times> bool" where
  "observe_row now ob db =
     (case provisional db (o_run ob) (o_target ob) (o_subject ob) of
        Some p \<Rightarrow>
          if st_version p = o_version ob
          then (st_occurrences p, st_state p, st_first p, append_template (st_templates p) (o_template ob), False)
          else first_observation now ob
      | None \<Rightarrow>
          (case committed db (o_target ob) (o_subject ob) of
             Some c \<Rightarrow>
               if \<not> baseline_run_excluded db (o_target ob) (st_run c) \<and> st_version c = o_version ob
               then let n = st_occurrences c + 1
                    in (n, confirm ob n, st_first c, append_template (st_templates c) (o_template ob),
                        confirm ob n = ''confirmed'' \<and> st_state c \<noteq> ''confirmed'')
               else first_observation now ob
           | None \<Rightarrow> first_observation now ob))"

definition observe_stable_change_state :: "stamp \<Rightarrow> observation \<Rightarrow> recon_store \<Rightarrow> recon_store \<times> observed" where
  "observe_stable_change_state now ob db =
     (let (n, state, first, ts, moved) = observe_row now ob db;
          row = \<lparr>st_target = o_target ob, st_subject = o_subject ob, st_category = o_category ob, st_version = o_version ob,
                 st_occurrences = n, st_state = state, st_first = first, st_last = now, st_run = o_run ob, st_templates = ts\<rparr>
      in (db\<lparr>stable_runs := upsert (\<lambda>r. st_run r = o_run ob \<and> st_target r = o_target ob \<and> st_subject r = o_subject ob)
                row (\<lambda>r. row) (stable_runs db)\<rparr>,
          \<lparr>r_occurrences = n, r_state = state, r_transitioned = moved, r_templates = ts\<rparr>))"

definition promote_row :: "stable_row list \<Rightarrow> stable_row \<Rightarrow> stable_row list" where
  "promote_row states row =
     upsert (\<lambda>r. st_target r = st_target row \<and> st_subject r = st_subject row) row (\<lambda>r. row) states"

definition finalize_stable_change_run :: "string \<Rightarrow> string \<Rightarrow> string \<Rightarrow> recon_store \<Rightarrow> recon_store" where
  "finalize_stable_change_run run tgt status db =
     (let mine = (\<lambda>r. st_run r = run \<and> st_target r = tgt)
      in db\<lparr>stable_states := (if status = ''success'' then foldl promote_row (stable_states db) (filter mine (stable_runs db))
                             else stable_states db),
            stable_runs := delete_where mine (stable_runs db)\<rparr>)"

section \<open>Subjects and pending changes\<close>

text \<open>The fingerprint of a URL, and the current values of a DNS record set, in order.\<close>

definition fingerprint_row :: "recon_store \<Rightarrow> string \<Rightarrow> string \<Rightarrow> obs_row option" where
  "fingerprint_row db tgt url = select_one (\<lambda>r. ob_target r = tgt \<and> ob_key r = [url]) (tracked db Fingerprints)"

definition fingerprint_version :: "recon_store \<Rightarrow> string \<Rightarrow> string \<Rightarrow> string" where
  "fingerprint_version db tgt url =
     (case fingerprint_row db tgt url of None \<Rightarrow> '''' | Some r \<Rightarrow> text_of (get (ob_cols r) ''fingerprint_hash''))"

definition dns_values :: "recon_store \<Rightarrow> string \<Rightarrow> string \<Rightarrow> string \<Rightarrow> string list" where
  "dns_values db tgt host rrtype = sort (concat (map (\<lambda>r. case ob_key r of [h, t, v] \<Rightarrow>
     if ob_target r = tgt \<and> h = host \<and> t = rrtype \<and> get (ob_cols r) ''is_current'' = JInt 1 then [v] else [] | _ \<Rightarrow> [])
     (tracked db Dns_Records)))"

definition dns_version :: "(string \<Rightarrow> string) \<Rightarrow> (rat \<Rightarrow> string) \<Rightarrow> recon_store \<Rightarrow> string \<Rightarrow> string \<Rightarrow> string \<Rightarrow> string" where
  "dns_version sha fr db tgt host rrtype = sha (json_dumps fr (JList (map JText (dns_values db tgt host rrtype))))"

definition state_identity ::
    "(string \<Rightarrow> string) \<Rightarrow> (rat \<Rightarrow> string) \<Rightarrow> recon_store \<Rightarrow> string \<Rightarrow> string \<Rightarrow> string \<Rightarrow> template \<Rightarrow> (string \<times> string) option" where
  "state_identity sha fr db tgt category item details =
     (if category = ''fingerprint_change''
      then let v = fingerprint_version db tgt item
           in Some (''fingerprint:'' @ item,
                if v = '''' then sha (json_dumps fr (case map_of details ''new'' of None \<Rightarrow> JObj [] | Some n \<Rightarrow> n)) else v)
      else if category = ''dns_change''
      then let host = py_strip (text_of (get details ''host'')); rrtype = py_upper (py_strip (text_of (get details ''rrtype'')))
           in if host = '''' \<or> rrtype = '''' then None
              else Some (''dns:'' @ host @ '':'' @ rrtype, dns_version sha fr db tgt host rrtype)
      else None)"

text \<open>Unconfirmed candidates by subject; those of the current run replace the committed ones.\<close>

fun put_subject :: "stable_row \<Rightarrow> stable_row list \<Rightarrow> stable_row list" where
  "put_subject r [] = [r]"
| "put_subject r (q # qs) = (if st_subject q = st_subject r then r # qs else q # put_subject r qs)"

definition active_candidates :: "recon_store \<Rightarrow> string \<Rightarrow> string \<Rightarrow> string \<Rightarrow> stable_row list" where
  "active_candidates db run tgt category =
     (let open_row = (\<lambda>r. st_target r = tgt \<and> st_category r = category \<and> st_state r \<noteq> ''confirmed'')
      in foldl (\<lambda>cs r. put_subject r cs) []
           (filter open_row (stable_states db) @ filter (\<lambda>r. st_run r = run \<and> open_row r) (stable_runs db)))"

text \<open>A written confirmation event: the template, the count, and the transition mark.\<close>

definition transition_events :: "observed \<Rightarrow> (template \<times> nat) list" where
  "transition_events ob = (if r_transitioned ob then map (\<lambda>t. (t, r_occurrences ob)) (r_templates ob) else [])"

definition fingerprint_item :: "stable_row \<Rightarrow> string" where
  "fingerprint_item c =
     (let item = (case st_templates c of [] \<Rightarrow> '''' | t # _ \<Rightarrow> text_of (get t ''item''))
      in if item \<noteq> '''' then item
         else if startswith (st_subject c) ''fingerprint:'' then drop 12 (st_subject c) else '''')"

record pending_args =
  p_run :: string
  p_target :: string
  p_baseline :: bool
  p_track :: bool
  p_confirmations :: int

definition pending_observation :: "pending_args \<Rightarrow> string \<Rightarrow> stable_row \<Rightarrow> string \<Rightarrow> observation" where
  "pending_observation a category c version =
     \<lparr>o_run = p_run a, o_target = p_target a, o_subject = st_subject c, o_category = category, o_version = version,
      o_confirmations = p_confirmations a, o_immediate = False, o_template = None\<rparr>"

text \<open>One candidate: \<open>version\<close> is \<open>None\<close> when this run has no current evidence for it.\<close>

definition observe_candidate ::
    "stamp \<Rightarrow> pending_args \<Rightarrow> string \<Rightarrow> (recon_store \<Rightarrow> stable_row \<Rightarrow> string option) \<Rightarrow> stable_row
     \<Rightarrow> recon_store \<times> (template \<times> nat) list \<Rightarrow> recon_store \<times> (template \<times> nat) list" where
  "observe_candidate now a category version c = (\<lambda>(db, evs).
     (case version db c of
        None \<Rightarrow> (db, evs)
      | Some v \<Rightarrow> let (db', ob) = observe_stable_change_state now (pending_observation a category c v) db
                  in (db', evs @ transition_events ob)))"

definition fingerprint_evidence :: "pending_args \<Rightarrow> recon_store \<Rightarrow> stable_row \<Rightarrow> string option" where
  "fingerprint_evidence a db c =
     (let item = fingerprint_item c
      in if item = '''' then None
         else case fingerprint_row db (p_target a) item of
           None \<Rightarrow> None
         | Some r \<Rightarrow> let v = text_of (get (ob_cols r) ''fingerprint_hash'')
                     in if ob_last_run r = Some (p_run a) \<and> v \<noteq> '''' then Some v else None)"

definition observe_pending_fingerprints :: "stamp \<Rightarrow> pending_args \<Rightarrow> recon_store \<Rightarrow> recon_store \<times> (template \<times> nat) list" where
  "observe_pending_fingerprints now a db =
     (if p_baseline a \<or> \<not> p_track a then (db, [])
      else fold (observe_candidate now a ''fingerprint_change'' (fingerprint_evidence a))
             (active_candidates db (p_run a) (p_target a) ''fingerprint_change'') (db, []))"

text \<open>The hosts and record types that this run queried successfully are arguments.\<close>

definition dns_evidence ::
    "(string \<Rightarrow> string) \<Rightarrow> (rat \<Rightarrow> string) \<Rightarrow> pending_args \<Rightarrow> string list \<Rightarrow> string list \<Rightarrow> string list \<Rightarrow> recon_store \<Rightarrow> stable_row \<Rightarrow> string option" where
  "dns_evidence sha fr a rrtypes normal roots db c =
     (let details = (case st_templates c of [] \<Rightarrow> [] | t # _ \<Rightarrow> (case get t ''details'' of JObj d \<Rightarrow> d | _ \<Rightarrow> []));
          host = py_strip (text_of (get details ''host'')); rrtype = py_upper (py_strip (text_of (get details ''rrtype'')))
      in if host = '''' \<or> rrtype \<notin> set rrtypes \<or> host \<notin> set (if rrtype = ''NS'' then roots else normal) then None
         else Some (dns_version sha fr db (p_target a) host rrtype))"

definition observe_pending_dns ::
    "(string \<Rightarrow> string) \<Rightarrow> (rat \<Rightarrow> string) \<Rightarrow> stamp \<Rightarrow> pending_args \<Rightarrow> string list \<Rightarrow> string list \<Rightarrow> string list \<Rightarrow> recon_store
     \<Rightarrow> recon_store \<times> (template \<times> nat) list" where
  "observe_pending_dns sha fr now a rrtypes normal roots db =
     (if p_baseline a \<or> \<not> p_track a \<or> rrtypes = [] then (db, [])
      else fold (observe_candidate now a ''dns_change'' (dns_evidence sha fr a (map py_upper rrtypes) normal roots))
             (active_candidates db (p_run a) (p_target a) ''dns_change'') (db, []))"

section \<open>Facts\<close>

lemma observe_fields [simp]:
  "stable_states (fst (observe_stable_change_state now ob db)) = stable_states db"
  "reviews (fst (observe_stable_change_state now ob db)) = reviews db"
  "commits (fst (observe_stable_change_state now ob db)) = commits db"
  "baselines (fst (observe_stable_change_state now ob db)) = baselines db"
  "tracked (fst (observe_stable_change_state now ob db)) = tracked db"
  by (simp_all add: observe_stable_change_state_def Let_def split: prod.split)

lemma finalize_fields [simp]:
  "reviews (finalize_stable_change_run run tgt st db) = reviews db"
  "commits (finalize_stable_change_run run tgt st db) = commits db"
  "baselines (finalize_stable_change_run run tgt st db) = baselines db"
  "snapshots (finalize_stable_change_run run tgt st db) = snapshots db"
  "receipts (finalize_stable_change_run run tgt st db) = receipts db"
  "tracked (finalize_stable_change_run run tgt st db) = tracked db"
  "derived_sets (finalize_stable_change_run run tgt st db) = derived_sets db"
  "derived_items (finalize_stable_change_run run tgt st db) = derived_items db"
  "working_sets (finalize_stable_change_run run tgt st db) = working_sets db"
  "working_items (finalize_stable_change_run run tgt st db) = working_items db"
  "lifecycles (finalize_stable_change_run run tgt st db) = lifecycles db"
  "run_targets (finalize_stable_change_run run tgt st db) = run_targets db"
  "stage_runs (finalize_stable_change_run run tgt st db) = stage_runs db"
  by (simp_all add: finalize_stable_change_run_def Let_def)

lemma observed_row:
  "provisional (fst (observe_stable_change_state now ob db)) (o_run ob) (o_target ob) (o_subject ob) =
     (case observe_row now ob db of (n, state, first, ts, moved) \<Rightarrow>
        Some \<lparr>st_target = o_target ob, st_subject = o_subject ob, st_category = o_category ob, st_version = o_version ob,
              st_occurrences = n, st_state = state, st_first = first, st_last = now, st_run = o_run ob, st_templates = ts\<rparr>)"
  by (simp add: observe_stable_change_state_def provisional_def Let_def select_one_upsert split: prod.split option.split)

lemma observe_result:
  "snd (observe_stable_change_state now ob db) = (case observe_row now ob db of (n, state, first, ts, moved) \<Rightarrow>
     \<lparr>r_occurrences = n, r_state = state, r_transitioned = moved, r_templates = ts\<rparr>)"
  by (simp add: observe_stable_change_state_def Let_def split: prod.split)






lemma confirm_update [simp]: "confirm (ob\<lparr>o_run := run, o_version := v\<rparr>) n = confirm ob n"
  by (simp add: confirm_def)




section \<open>Properties\<close>


definition dns_observation :: observation where
  "dns_observation = \<lparr>o_run = '''', o_target = ''t'', o_subject = ''dns:a:A'', o_category = ''dns_change'', o_version = '''',
     o_confirmations = 2, o_immediate = False, o_template = None\<rparr>"


text \<open>Within one run a state is counted once: observing the same version of a subject again in the
  same run neither raises the count nor reports a transition, whatever the first observation was.\<close>

theorem one_observation_per_run:
  assumes "o_version ob2 = o_version ob" "o_run ob2 = o_run ob" "o_target ob2 = o_target ob" "o_subject ob2 = o_subject ob"
    and "observe_stable_change_state now ob db = (db1, r1)" "observe_stable_change_state later ob2 db1 = (db2, r2)"
  shows "r_occurrences r2 = r_occurrences r1 \<and> r_state r2 = r_state r1 \<and> \<not> r_transitioned r2"
proof -
  obtain n st first ts moved where row: "observe_row now ob db = (n, st, first, ts, moved)" by (metis prod_cases5)
  have db1: "db1 = fst (observe_stable_change_state now ob db)" "r1 = snd (observe_stable_change_state now ob db)"
    and r2: "r2 = snd (observe_stable_change_state later ob2 db1)" using assms(5,6) by simp_all
  have "observe_row later ob2 db1 = (n, st, first, append_template ts (o_template ob2), False)"
    using observed_row[of now ob db] assms(1-4) row by (simp add: observe_row_def db1)
  with row show ?thesis by (simp add: r2 db1(2) observe_result)
qed

theorem one_observation_per_run_witness:
  "r_occurrences (snd (observe_stable_change_state 8 dns_observation (fst (observe_stable_change_state 7 dns_observation (stage_db []))))) = 1"
proof -
  obtain db1 r1 where 1: "observe_stable_change_state 7 dns_observation (stage_db []) = (db1, r1)" by fastforce
  obtain db2 r2 where 2: "observe_stable_change_state 8 dns_observation db1 = (db2, r2)" by fastforce
  have "r_occurrences r1 = 1"
    using observe_result[of 7 dns_observation "stage_db []"] 1
    by (simp add: observe_row_def provisional_def committed_def select_one_def stage_db_def first_observation_def)
  with one_observation_per_run[OF refl refl refl refl 1 2] 1 2 show ?thesis by simp
qed

end
