(* ===== verification/Successful_Snapshot.thy ===== *)
theory Successful_Snapshot
  imports Stable_Confirmation "HOL-Library.Multiset"
begin

text \<open>
  \<open>src/app/successful_snapshot.py\<close>: the commit boundary of the comparison state.  A new run restores
  the last committed snapshot, a resumed run keeps its working rows, and only a run whose collection is
  complete replaces the snapshot, promotes derived sets and confirmations, and moves the baseline.

  \<open>None\<close> is an exception (the transaction rolls back).  \<open>now\<close> is the clock of one operation;
  SHA-256 (\<open>sha\<close>) and the printing of floats (\<open>fr\<close>) are arguments.  Tables keep their columns while
  a snapshot exists.
\<close>

section \<open>Rows as JSON\<close>

fun key_columns :: "tracked_table \<Rightarrow> string list" where
  "key_columns Assets = [''host'']"
| "key_columns Dns_Records = [''host'', ''rrtype'', ''value'']"
| "key_columns Urls = [''url'']"
| "key_columns Fingerprints = [''url'']"

definition row_payload :: "tracked_table \<Rightarrow> obs_row \<Rightarrow> json" where
  "row_payload tbl r = JObj ([(''target'', JText (ob_target r))] @ zip (key_columns tbl) (map JText (ob_key r))
     @ [(''last_run_id'', case ob_last_run r of None \<Rightarrow> JNull | Some x \<Rightarrow> JText x)] @ ob_cols r)"

definition row_hash :: "(string \<Rightarrow> string) \<Rightarrow> (rat \<Rightarrow> string) \<Rightarrow> tracked_table \<Rightarrow> obs_row \<Rightarrow> string" where
  "row_hash sha fr tbl r = sha (json_dumps fr (row_payload tbl r))"

section \<open>Commit and restore\<close>

definition run_is_snapshot_safe :: "recon_store \<Rightarrow> string \<Rightarrow> string \<Rightarrow> bool \<Rightarrow> bool" where
  "run_is_snapshot_safe db run tgt allow_missing \<longleftrightarrow>
     \<not> list_ex (\<lambda>r. sg_run r = run \<and> sg_target r = tgt \<and> sg_status r \<in> {''failed'', ''interrupted''}) (stage_runs db)
     \<and> (case stage_status db run tgt ''report'' of None \<Rightarrow> allow_missing | Some s \<Rightarrow> s = ''success'')"

definition target_has_history :: "stamp \<Rightarrow> string \<Rightarrow> recon_store \<Rightarrow> (recon_store \<times> bool) option" where
  "target_has_history now tgt db0 =
     (case review_committed_baseline now id tgt '''' ''automatic'' db0 of
        None \<Rightarrow> None
      | Some (db, _) \<Rightarrow> Some (db, has_established_baseline db tgt
          \<and> (case commit_of db tgt of None \<Rightarrow> False | Some c \<Rightarrow> \<not> baseline_run_excluded db tgt (cm_run c))))"

definition frozen_rows ::
    "(string \<Rightarrow> string) \<Rightarrow> (rat \<Rightarrow> string) \<Rightarrow> stamp \<Rightarrow> string \<Rightarrow> string \<Rightarrow> recon_store \<Rightarrow> snap_row list" where
  "frozen_rows sha fr now run tgt db = concat (map (\<lambda>tbl.
     map (\<lambda>r. \<lparr>sn_target = tgt, sn_table = tbl, sn_hash = row_hash sha fr tbl r, sn_row = r, sn_run = run, sn_at = now\<rparr>)
       (filter (\<lambda>r. ob_target r = tgt) (tracked db tbl))) TRACKED_TABLES)"

text \<open>The primary key of the snapshot rows refuses two rows of one table with the same hash.\<close>

definition replace_successful_snapshot ::
    "(string \<Rightarrow> string) \<Rightarrow> (rat \<Rightarrow> string) \<Rightarrow> stamp \<Rightarrow> string \<Rightarrow> string \<Rightarrow> bool \<Rightarrow> recon_store \<Rightarrow> recon_store option" where
  "replace_successful_snapshot sha fr now tgt run bootstrap db =
     (let rows = frozen_rows sha fr now run tgt db;
          commit = \<lparr>cm_target = tgt, cm_run = run, cm_at = now, cm_bootstrap = bootstrap,
                    cm_tables = length TRACKED_TABLES, cm_rows = length rows\<rparr>;
          db' = db\<lparr>snapshots := delete_where (\<lambda>s. sn_target s = tgt) (snapshots db) @ rows,
                   commits := upsert (\<lambda>c. cm_target c = tgt) commit (\<lambda>c. commit) (commits db)\<rparr>
      in if \<not> distinct (map (\<lambda>s. (sn_table s, sn_hash s)) rows) then None
         else if bootstrap then Some db' else record_baseline_receipt now tgt run True db')"

definition usable_commit :: "recon_store \<Rightarrow> string \<Rightarrow> commit_row option" where
  "usable_commit db tgt =
     (case commit_of db tgt of
        None \<Rightarrow> None
      | Some c \<Rightarrow> if \<not> has_established_baseline db tgt \<or> baseline_run_excluded db tgt (cm_run c) then None else Some c)"

definition snapshot_rows :: "recon_store \<Rightarrow> string \<Rightarrow> tracked_table \<Rightarrow> obs_row list" where
  "snapshot_rows db tgt tbl =
     map sn_row (sort_key sn_hash (filter (\<lambda>s. sn_target s = tgt \<and> sn_table s = tbl) (snapshots db)))"

definition restored_table :: "recon_store \<Rightarrow> string \<Rightarrow> tracked_table \<Rightarrow> obs_row list" where
  "restored_table db tgt tbl = delete_where (\<lambda>r. ob_target r = tgt) (tracked db tbl)
     @ (if usable_commit db tgt = None then [] else snapshot_rows db tgt tbl)"

definition restore_successful_snapshot :: "string \<Rightarrow> recon_store \<Rightarrow> recon_store option" where
  "restore_successful_snapshot tgt db =
     (if usable_commit db tgt \<noteq> None
         \<and> list_ex (\<lambda>tbl. list_ex (\<lambda>r. ob_target r \<noteq> tgt) (snapshot_rows db tgt tbl)
                         \<or> \<not> distinct (map ob_key (snapshot_rows db tgt tbl))) TRACKED_TABLES
      then None else Some (db\<lparr>tracked := restored_table db tgt\<rparr>))"

section \<open>Derived sets\<close>

datatype derived_error = Invalid_Type | Too_Many_Items | Invalid_Item_Key | Review_Failed

fun collect_items :: "(string \<times> json) list \<Rightarrow> (string \<times> json) list \<Rightarrow> (string \<times> json) list option" where
  "collect_items acc [] = Some acc"
| "collect_items acc ((k, v) # items) =
     (let key = py_strip k in if key = '''' \<or> 2000 < length key then None else collect_items (obj_set key v acc) items)"

record derived_diff =
  dd_type :: string
  dd_baseline :: bool
  dd_run :: string
  dd_count :: nat
  dd_added :: "(string \<times> json) list"
  dd_removed :: "(string \<times> json) list"
  dd_changed :: "(string \<times> json \<times> json) list"

definition item_of :: "json option \<Rightarrow> json" where
  "item_of v = (case v of None \<Rightarrow> JNull | Some j \<Rightarrow> j)"

text \<open>The comparison with the previous set, which is given with the stored hashes.\<close>

definition derived_difference ::
    "(json \<Rightarrow> string) \<Rightarrow> (string \<times> json) list \<Rightarrow> (string \<times> string \<times> json) list
     \<Rightarrow> (string \<times> json) list \<times> (string \<times> json) list \<times> (string \<times> json \<times> json) list" where
  "derived_difference hash current previous =
     (let ck = map fst current; pk = map fst previous
      in (map (\<lambda>k. (k, item_of (map_of current k))) (sort (dedup (filter (\<lambda>k. k \<notin> set pk) ck))),
          map (\<lambda>k. (k, item_of (map_option snd (map_of previous k)))) (sort (dedup (filter (\<lambda>k. k \<notin> set ck) pk))),
          map (\<lambda>k. (k, item_of (map_option snd (map_of previous k)), item_of (map_of current k)))
            (filter (\<lambda>k. map_option hash (map_of current k) \<noteq> map_option fst (map_of previous k))
              (sort (dedup (filter (\<lambda>k. k \<in> set pk) ck))))))"

definition working_key :: "string \<Rightarrow> string \<Rightarrow> string \<Rightarrow> working_item \<Rightarrow> bool" where
  "working_key run tgt ty w \<longleftrightarrow> wi_run w = run \<and> wi_target w = tgt \<and> wi_type w = ty"

definition prepare_working ::
    "(json \<Rightarrow> string) \<Rightarrow> stamp \<Rightarrow> string \<Rightarrow> string \<Rightarrow> string \<Rightarrow> (string \<times> json) list \<Rightarrow> recon_store \<Rightarrow> recon_store" where
  "prepare_working hash now run tgt ty current db =
     (let set_row = \<lparr>ws_run = run, ws_target = tgt, ws_type = ty, ws_rows = length current, ws_at = now\<rparr>
      in db\<lparr>working_items := delete_where (working_key run tgt ty) (working_items db)
              @ map (\<lambda>(k, v). \<lparr>wi_run = run, wi_target = tgt, wi_type = ty, wi_key = k, wi_hash = hash v, wi_json = v\<rparr>)
                  (sort_key fst current),
            working_sets := upsert (\<lambda>w. ws_run w = run \<and> ws_target w = tgt \<and> ws_type w = ty) set_row (\<lambda>w. set_row) (working_sets db)\<rparr>)"

definition baseline_set :: "recon_store \<Rightarrow> string \<Rightarrow> string \<Rightarrow> derived_set option" where
  "baseline_set db tgt ty =
     (case select_one (\<lambda>d. ds_target d = tgt \<and> ds_type d = ty) (derived_sets db) of
        None \<Rightarrow> None
      | Some d \<Rightarrow> if \<not> has_established_baseline db tgt \<or> baseline_run_excluded db tgt (ds_run d) then None else Some d)"

definition previous_items :: "recon_store \<Rightarrow> string \<Rightarrow> string \<Rightarrow> (string \<times> string \<times> json) list" where
  "previous_items db tgt ty = map (\<lambda>d. (di_key d, di_hash d, di_json d))
     (sort_key di_key (filter (\<lambda>d. di_target d = tgt \<and> di_type d = ty) (derived_items db)))"

definition replace_recon_derived_working_state ::
    "(json \<Rightarrow> string) \<Rightarrow> stamp \<Rightarrow> string \<Rightarrow> string \<Rightarrow> string \<Rightarrow> (string \<times> json) list \<Rightarrow> recon_store
     \<Rightarrow> recon_store \<times> (derived_error + derived_diff)" where
  "replace_recon_derived_working_state hash now run tgt ty0 items db0 =
     (let ty = py_strip ty0
      in if ty = '''' \<or> 100 < length ty then (db0, Inl Invalid_Type)
         else if 50000 < length items then (db0, Inl Too_Many_Items)
         else case collect_items [] items of
           None \<Rightarrow> (db0, Inl Invalid_Item_Key)
         | Some current \<Rightarrow>
             (case review_committed_baseline now id tgt '''' ''automatic'' db0 of
                None \<Rightarrow> (db0, Inl Review_Failed)
              | Some (db, _) \<Rightarrow>
                  let prev = previous_items db tgt ty; db' = prepare_working hash now run tgt ty current db
                  in (db', Inr (case baseline_set db tgt ty of
                        None \<Rightarrow> \<lparr>dd_type = ty, dd_baseline = False, dd_run = '''', dd_count = length current,
                                 dd_added = [], dd_removed = [], dd_changed = []\<rparr>
                      | Some b \<Rightarrow> (case derived_difference hash current prev of (add, rem, chg) \<Rightarrow>
                          \<lparr>dd_type = ty, dd_baseline = True, dd_run = ds_run b, dd_count = length current,
                           dd_added = add, dd_removed = rem, dd_changed = chg\<rparr>)))))"

definition discard_derived_working :: "string \<Rightarrow> string \<Rightarrow> recon_store \<Rightarrow> recon_store" where
  "discard_derived_working run tgt db =
     db\<lparr>working_items := delete_where (\<lambda>w. wi_run w = run \<and> wi_target w = tgt) (working_items db),
        working_sets := delete_where (\<lambda>w. ws_run w = run \<and> ws_target w = tgt) (working_sets db)\<rparr>"

definition promote_set :: "stamp \<Rightarrow> string \<Rightarrow> string \<Rightarrow> recon_store \<Rightarrow> working_set \<Rightarrow> recon_store" where
  "promote_set now run tgt db w =
     (let ty = ws_type w;
          rows = sort_key wi_key (filter (working_key run tgt ty) (working_items db));
          set_row = \<lparr>ds_target = tgt, ds_type = ty, ds_run = run, ds_at = now, ds_rows = length rows\<rparr>
      in db\<lparr>derived_items := delete_where (\<lambda>d. di_target d = tgt \<and> di_type d = ty) (derived_items db)
              @ map (\<lambda>i. \<lparr>di_target = tgt, di_type = ty, di_key = wi_key i, di_hash = wi_hash i, di_json = wi_json i,
                          di_run = run, di_at = now\<rparr>) rows,
            derived_sets := upsert (\<lambda>d. ds_target d = tgt \<and> ds_type d = ty) set_row (\<lambda>d. set_row) (derived_sets db)\<rparr>)"

definition promote_derived_working :: "stamp \<Rightarrow> string \<Rightarrow> string \<Rightarrow> recon_store \<Rightarrow> recon_store" where
  "promote_derived_working now run tgt db =
     discard_derived_working run tgt
       (foldl (promote_set now run tgt) db
          (sort_key ws_type (filter (\<lambda>w. ws_run w = run \<and> ws_target w = tgt) (working_sets db))))"

section \<open>Runs of a target\<close>

definition base_create_run_target :: "stamp \<Rightarrow> string \<Rightarrow> string \<Rightarrow> string \<Rightarrow> string \<Rightarrow> bool \<Rightarrow> recon_store \<Rightarrow> recon_store" where
  "base_create_run_target now run tgt policy dir baseline db = db\<lparr>run_targets :=
     upsert (\<lambda>r. rt_run r = run \<and> rt_target r = tgt)
       \<lparr>rt_run = run, rt_target = tgt, rt_policy = policy, rt_status = ''running'', rt_started = now, rt_finished = None,
        rt_dir = dir, rt_baseline = baseline\<rparr>
       (\<lambda>r. r\<lparr>rt_status := ''running'', rt_finished := None\<rparr>) (run_targets db)\<rparr>"

definition base_finish_run_target :: "stamp \<Rightarrow> string \<Rightarrow> string \<Rightarrow> string \<Rightarrow> recon_store \<Rightarrow> recon_store" where
  "base_finish_run_target now run tgt status db = db\<lparr>run_targets :=
     update_where (\<lambda>r. rt_run r = run \<and> rt_target r = tgt) (\<lambda>r. r\<lparr>rt_status := status, rt_finished := Some now\<rparr>) (run_targets db)\<rparr>"

definition resume_run_target ::
    "stamp \<Rightarrow> string \<Rightarrow> string \<Rightarrow> string \<Rightarrow> string \<Rightarrow> bool \<Rightarrow> bool \<Rightarrow> run_target \<Rightarrow> recon_store \<Rightarrow> recon_store option" where
  "resume_run_target now run tgt policy dir baseline quarantined existing db =
     (let own = (case commit_of db tgt of None \<Rightarrow> False | Some c \<Rightarrow> cm_run c = run)
      in case (if \<not> quarantined \<and> own then record_baseline_receipt now tgt run False db else Some db) of
           None \<Rightarrow> None
         | Some db1 \<Rightarrow>
             let db2 = begin_target_lifecycle now run tgt db1;
                 db3 = (if quarantined \<and> \<not> rt_baseline existing
                        then db2\<lparr>tracked := (\<lambda>tbl. delete_where (\<lambda>r. ob_target r = tgt \<and> ob_last_run r \<noteq> Some run) (tracked db2 tbl)),
                                 stable_runs := delete_where (\<lambda>r. st_target r = tgt \<and> st_run r = run) (stable_runs db2)\<rparr>
                        else db2);
                 db4 = base_create_run_target now run tgt policy dir baseline db3
             in Some (db4\<lparr>run_targets := update_where (\<lambda>r. rt_run r = run \<and> rt_target r = tgt) (\<lambda>r. r\<lparr>rt_baseline := baseline\<rparr>)
                        (run_targets db4)\<rparr>))"

definition create_run_target ::
    "stamp \<Rightarrow> string \<Rightarrow> string \<Rightarrow> string \<Rightarrow> string \<Rightarrow> bool \<Rightarrow> recon_store \<Rightarrow> recon_store option" where
  "create_run_target now run tgt policy dir baseline0 db0 =
     (case review_committed_baseline now id tgt '''' ''automatic'' db0 of
        None \<Rightarrow> None
      | Some (db, _) \<Rightarrow>
          let quarantined = list_ex (\<lambda>b. bl_target b = tgt \<and> bl_state b = ''quarantined'') (baselines db);
              baseline = (baseline0 \<or> quarantined)
          in case target_row db run tgt of
               Some existing \<Rightarrow> resume_run_target now run tgt policy dir baseline quarantined existing db
             | None \<Rightarrow>
                 (let db1 = discard_stale_stable_change_runs tgt run db;
                      db2 = db1\<lparr>working_items := delete_where (\<lambda>w. wi_target w = tgt) (working_items db1),
                                working_sets := delete_where (\<lambda>w. ws_target w = tgt) (working_sets db1)\<rparr>
                  in case restore_successful_snapshot tgt db2 of
                       None \<Rightarrow> None
                     | Some db3 \<Rightarrow> Some (begin_target_lifecycle now run tgt
                                          (base_create_run_target now run tgt policy dir baseline db3))))"

definition snapshot_commit_ready :: "recon_store \<Rightarrow> string \<Rightarrow> string \<Rightarrow> string \<Rightarrow> bool" where
  "snapshot_commit_ready db run tgt status \<longleftrightarrow> status = ''success'' \<and> run_is_snapshot_safe db run tgt True"

text \<open>Whether the run may replace the snapshot; \<open>None\<close> is the exception of reading its coverage.\<close>

definition commit_ready :: "recon_store \<Rightarrow> string \<Rightarrow> string \<Rightarrow> string \<Rightarrow> bool option" where
  "commit_ready db run tgt status =
     (let ready = (case baseline_commit_eligible db run tgt of
            None \<Rightarrow> snapshot_commit_ready db run tgt status | Some e \<Rightarrow> e)
      in if ready then map_option (\<lambda>gaps. gaps = []) (collection_gaps db tgt run True) else Some False)"

definition lifecycle_reason :: "recon_store \<Rightarrow> string \<Rightarrow> string \<Rightarrow> string" where
  "lifecycle_reason db run tgt =
     (case lifecycle_record db run tgt of None \<Rightarrow> ''collection_complete'' | Some r \<Rightarrow> or_complete (lc_baseline_reason r))"

text \<open>Before a commit: confirmations from quarantined runs go, and a run that is being recovered loses the
  derived sets it did not prepare anew.\<close>

definition clear_quarantined :: "string \<Rightarrow> string \<Rightarrow> recon_store \<Rightarrow> recon_store" where
  "clear_quarantined run tgt db =
     (let db1 = db\<lparr>stable_states := delete_where (\<lambda>r. st_target r = tgt \<and> baseline_run_excluded db tgt (st_run r)) (stable_states db)\<rparr>;
          prepared = (\<lambda>ty. list_ex (\<lambda>w. ws_target w = tgt \<and> ws_run w = run \<and> ws_type w = ty) (working_sets db))
      in if baseline_run_excluded db tgt run
         then db1\<lparr>derived_items := delete_where (\<lambda>d. di_target d = tgt \<and> di_run d = run \<and> \<not> prepared (di_type d)) (derived_items db1),
                  derived_sets := delete_where (\<lambda>d. ds_target d = tgt \<and> ds_run d = run \<and> \<not> prepared (ds_type d)) (derived_sets db1)\<rparr>
         else db1)"

definition commit_run ::
    "(string \<Rightarrow> string) \<Rightarrow> (rat \<Rightarrow> string) \<Rightarrow> stamp \<Rightarrow> string \<Rightarrow> string \<Rightarrow> recon_store \<Rightarrow> recon_store option" where
  "commit_run sha fr now run tgt db =
     (let db1 = finalize_stable_change_run run tgt ''success'' (clear_quarantined run tgt db)
      in case replace_successful_snapshot sha fr now tgt run False db1 of
           None \<Rightarrow> None
         | Some db2 \<Rightarrow>
             let db3 = promote_derived_working now run tgt db2;
                 db4 = (if lifecycle_record db run tgt = None then db3
                        else fst (mark_baseline_committed now run tgt (lifecycle_reason db run tgt) db3))
             in Some (recover_baseline_review now tgt run db4))"

definition discard_run :: "stamp \<Rightarrow> string \<Rightarrow> string \<Rightarrow> recon_store \<Rightarrow> recon_store" where
  "discard_run now run tgt db =
     (let db1 = discard_derived_working run tgt (finalize_stable_change_run run tgt ''failed'' db)
      in if lifecycle_record db run tgt = None then db1
         else fst (mark_baseline_not_committed now run tgt (lifecycle_reason db run tgt) db1))"

definition finish_run_target ::
    "(string \<Rightarrow> string) \<Rightarrow> (rat \<Rightarrow> string) \<Rightarrow> stamp \<Rightarrow> string \<Rightarrow> string \<Rightarrow> string \<Rightarrow> recon_store \<Rightarrow> recon_store option" where
  "finish_run_target sha fr now run tgt status db =
     (case commit_ready db run tgt status of
        None \<Rightarrow> None
      | Some ready \<Rightarrow>
          map_option (base_finish_run_target now run tgt status)
            (if ready then commit_run sha fr now run tgt db else Some (discard_run now run tgt db)))"

section \<open>Bootstrap and status\<close>

text \<open>The latest run of a target: \<open>ORDER BY COALESCE(finished_at, started_at) DESC, rowid DESC\<close>.\<close>

definition latest_run :: "recon_store \<Rightarrow> string \<Rightarrow> run_target option" where
  "latest_run db tgt =
     (case rev (sort_key (\<lambda>r. case rt_finished r of None \<Rightarrow> rt_started r | Some t \<Rightarrow> t)
             (filter (\<lambda>r. rt_target r = tgt) (run_targets db)))
      of [] \<Rightarrow> None | r # _ \<Rightarrow> Some r)"

definition bootstrap_target ::
    "(string \<Rightarrow> string) \<Rightarrow> (rat \<Rightarrow> string) \<Rightarrow> stamp \<Rightarrow> string \<Rightarrow> recon_store \<Rightarrow> recon_store option" where
  "bootstrap_target sha fr now tgt db =
     (case latest_run db tgt of
        None \<Rightarrow> Some db
      | Some r \<Rightarrow>
          if rt_status r \<noteq> ''success'' \<or> \<not> run_is_snapshot_safe db (rt_run r) tgt True then Some db
          else replace_successful_snapshot sha fr now tgt (rt_run r) True db)"

fun bootstrap_targets ::
    "(string \<Rightarrow> string) \<Rightarrow> (rat \<Rightarrow> string) \<Rightarrow> stamp \<Rightarrow> string list \<Rightarrow> recon_store \<Rightarrow> recon_store option" where
  "bootstrap_targets sha fr now [] db = Some db"
| "bootstrap_targets sha fr now (t # ts) db =
     (case bootstrap_target sha fr now t db of None \<Rightarrow> None | Some db' \<Rightarrow> bootstrap_targets sha fr now ts db')"

text \<open>\<open>done\<close> is the presence of the bootstrap marker.\<close>

definition migrate_successful_snapshot ::
    "(string \<Rightarrow> string) \<Rightarrow> (rat \<Rightarrow> string) \<Rightarrow> stamp \<Rightarrow> bool \<Rightarrow> recon_store \<Rightarrow> recon_store option" where
  "migrate_successful_snapshot sha fr now marked db =
     (if marked then Some db
      else bootstrap_targets sha fr now (sort (dedup (map rt_target (run_targets db)))) db)"

record snapshot_status =
  ss_exists :: bool
  ss_usable :: bool
  ss_quarantined :: bool
  ss_run :: string
  ss_rows :: nat
  ss_derived_sets :: nat
  ss_derived_rows :: nat

definition successful_snapshot_status :: "recon_store \<Rightarrow> string \<Rightarrow> snapshot_status" where
  "successful_snapshot_status db tgt =
     (let ds = filter (\<lambda>d. ds_target d = tgt) (derived_sets db); n = length ds; rows = sum_list (map ds_rows ds)
      in case commit_of db tgt of
           None \<Rightarrow> \<lparr>ss_exists = False, ss_usable = False, ss_quarantined = False, ss_run = '''', ss_rows = 0,
                    ss_derived_sets = n, ss_derived_rows = rows\<rparr>
         | Some c \<Rightarrow> \<lparr>ss_exists = True,
              ss_usable = (has_established_baseline db tgt \<and> \<not> baseline_run_excluded db tgt (cm_run c)),
              ss_quarantined = baseline_run_excluded db tgt (cm_run c), ss_run = cm_run c, ss_rows = cm_rows c,
              ss_derived_sets = n, ss_derived_rows = rows\<rparr>)"

section \<open>Facts\<close>

lemma discard_working_fields [simp]:
  "commits (discard_derived_working run tgt db) = commits db"
  "snapshots (discard_derived_working run tgt db) = snapshots db"
  "receipts (discard_derived_working run tgt db) = receipts db"
  "reviews (discard_derived_working run tgt db) = reviews db"
  "baselines (discard_derived_working run tgt db) = baselines db"
  "tracked (discard_derived_working run tgt db) = tracked db"
  "derived_sets (discard_derived_working run tgt db) = derived_sets db"
  "derived_items (discard_derived_working run tgt db) = derived_items db"
  "stable_states (discard_derived_working run tgt db) = stable_states db"
  by (simp_all add: discard_derived_working_def)

lemma base_finish_fields [simp]:
  "commits (base_finish_run_target now run tgt st db) = commits db"
  "snapshots (base_finish_run_target now run tgt st db) = snapshots db"
  "receipts (base_finish_run_target now run tgt st db) = receipts db"
  "reviews (base_finish_run_target now run tgt st db) = reviews db"
  "baselines (base_finish_run_target now run tgt st db) = baselines db"
  "tracked (base_finish_run_target now run tgt st db) = tracked db"
  "derived_sets (base_finish_run_target now run tgt st db) = derived_sets db"
  "derived_items (base_finish_run_target now run tgt st db) = derived_items db"
  "stable_states (base_finish_run_target now run tgt st db) = stable_states db"
  "stage_runs (base_finish_run_target now run tgt st db) = stage_runs db"
  by (simp_all add: base_finish_run_target_def)

lemma not_committed_fields [simp]:
  "commits (fst (mark_baseline_not_committed now run tgt why db)) = commits db"
  "snapshots (fst (mark_baseline_not_committed now run tgt why db)) = snapshots db"
  "receipts (fst (mark_baseline_not_committed now run tgt why db)) = receipts db"
  "reviews (fst (mark_baseline_not_committed now run tgt why db)) = reviews db"
  "baselines (fst (mark_baseline_not_committed now run tgt why db)) = baselines db"
  "tracked (fst (mark_baseline_not_committed now run tgt why db)) = tracked db"
  "derived_sets (fst (mark_baseline_not_committed now run tgt why db)) = derived_sets db"
  "derived_items (fst (mark_baseline_not_committed now run tgt why db)) = derived_items db"
  "stable_states (fst (mark_baseline_not_committed now run tgt why db)) = stable_states db"
  by (simp_all add: mark_baseline_not_committed_def Let_def)

lemma failed_confirmation: "stable_states (finalize_stable_change_run run tgt ''failed'' db) = stable_states db"
  by (simp add: finalize_stable_change_run_def Let_def)

text \<open>The part of the database that later runs compare against.\<close>

definition reference_state ::
    "recon_store \<Rightarrow> commit_row list \<times> snap_row list \<times> receipt_row list \<times> baseline_row list
       \<times> derived_set list \<times> derived_item list \<times> stable_row list \<times> review_row list" where
  "reference_state db = (commits db, snapshots db, receipts db, baselines db, derived_sets db, derived_items db,
     stable_states db, reviews db)"

lemma discard_run_reference: "reference_state (discard_run now run tgt db) = reference_state db"
  by (simp add: reference_state_def discard_run_def Let_def failed_confirmation)

lemma base_finish_reference: "reference_state (base_finish_run_target now run tgt st db) = reference_state db"
  by (simp add: reference_state_def)

lemma discard_run_tracked: "tracked (discard_run now run tgt db) = tracked db"
  by (simp add: discard_run_def Let_def)

lemma committed_mark_fields [simp]:
  "commits (fst (mark_baseline_committed now run tgt why db)) = commits db"
  "snapshots (fst (mark_baseline_committed now run tgt why db)) = snapshots db"
  "receipts (fst (mark_baseline_committed now run tgt why db)) = receipts db"
  "reviews (fst (mark_baseline_committed now run tgt why db)) = reviews db"
  "tracked (fst (mark_baseline_committed now run tgt why db)) = tracked db"
  "run_targets (fst (mark_baseline_committed now run tgt why db)) = run_targets db"
  "stage_runs (fst (mark_baseline_committed now run tgt why db)) = stage_runs db"
  by (simp_all add: mark_baseline_committed_def Let_def split: option.split)

lemma promote_set_fields:
  "commits (promote_set now run tgt db w) = commits db"
  "snapshots (promote_set now run tgt db w) = snapshots db"
  "receipts (promote_set now run tgt db w) = receipts db"
  "reviews (promote_set now run tgt db w) = reviews db"
  "baselines (promote_set now run tgt db w) = baselines db"
  "tracked (promote_set now run tgt db w) = tracked db"
  "run_targets (promote_set now run tgt db w) = run_targets db"
  "stage_runs (promote_set now run tgt db w) = stage_runs db"
  by (simp_all add: promote_set_def Let_def)

lemma promote_fields [simp]:
  "commits (promote_derived_working now run tgt db) = commits db"
  "snapshots (promote_derived_working now run tgt db) = snapshots db"
  "receipts (promote_derived_working now run tgt db) = receipts db"
  "reviews (promote_derived_working now run tgt db) = reviews db"
  "baselines (promote_derived_working now run tgt db) = baselines db"
  "tracked (promote_derived_working now run tgt db) = tracked db"
  by (simp_all add: promote_derived_working_def foldl_keep[where f = commits] foldl_keep[where f = snapshots]
      foldl_keep[where f = receipts] foldl_keep[where f = reviews] foldl_keep[where f = baselines]
      foldl_keep[where f = tracked] promote_set_fields)

lemma clear_quarantined_fields [simp]:
  "commits (clear_quarantined run tgt db) = commits db"
  "snapshots (clear_quarantined run tgt db) = snapshots db"
  "receipts (clear_quarantined run tgt db) = receipts db"
  "reviews (clear_quarantined run tgt db) = reviews db"
  "baselines (clear_quarantined run tgt db) = baselines db"
  "tracked (clear_quarantined run tgt db) = tracked db"
  "stage_runs (clear_quarantined run tgt db) = stage_runs db"
  by (simp_all add: clear_quarantined_def Let_def)

lemma recover_fields [simp]:
  "commits (recover_baseline_review now tgt run db) = commits db"
  "snapshots (recover_baseline_review now tgt run db) = snapshots db"
  "receipts (recover_baseline_review now tgt run db) = receipts db"
  "baselines (recover_baseline_review now tgt run db) = baselines db"
  "tracked (recover_baseline_review now tgt run db) = tracked db"
  by (simp_all add: recover_baseline_review_def)

text \<open>What a commit leaves behind.\<close>

definition new_commit :: "stamp \<Rightarrow> string \<Rightarrow> string \<Rightarrow> snap_row list \<Rightarrow> commit_row" where
  "new_commit now run tgt rows = \<lparr>cm_target = tgt, cm_run = run, cm_at = now, cm_bootstrap = False,
     cm_tables = length TRACKED_TABLES, cm_rows = length rows\<rparr>"

lemma frozen_rows_cong: "tracked db = tracked db' \<Longrightarrow> frozen_rows sha fr now run tgt db = frozen_rows sha fr now run tgt db'"
  by (simp add: frozen_rows_def)

lemma replace_committed:
  assumes "replace_successful_snapshot sha fr now tgt run False db = Some db'"
  shows "\<exists>obs. observed_coverage (collection_stages db tgt run) = Some obs
    \<and> db' = db\<lparr>snapshots := delete_where (\<lambda>s. sn_target s = tgt) (snapshots db) @ frozen_rows sha fr now run tgt db,
         commits := upsert (\<lambda>c. cm_target c = tgt) (new_commit now run tgt (frozen_rows sha fr now run tgt db))
           (\<lambda>c. new_commit now run tgt (frozen_rows sha fr now run tgt db)) (commits db),
         receipts := upsert (\<lambda>r. rc_target r = tgt) \<lparr>rc_target = tgt, rc_run = run, rc_coverage = obs, rc_at = now\<rparr>
           (\<lambda>r. \<lparr>rc_target = tgt, rc_run = run, rc_coverage = obs, rc_at = now\<rparr>) (receipts db)\<rparr>"
  using assms
  by (auto simp: replace_successful_snapshot_def Let_def record_baseline_receipt_def collection_stages_def new_commit_def
      split: option.splits if_splits)

lemma commit_run_fields:
  assumes "commit_run sha fr now run tgt db = Some db'"
  obtains obs where "observed_coverage (collection_stages db tgt run) = Some obs"
    and "snapshots db' = delete_where (\<lambda>s. sn_target s = tgt) (snapshots db) @ frozen_rows sha fr now run tgt db"
    and "commit_of db' tgt = Some (new_commit now run tgt (frozen_rows sha fr now run tgt db))"
    and "select_one (\<lambda>r. rc_target r = tgt \<and> rc_run r = run) (receipts db') = Some \<lparr>rc_target = tgt, rc_run = run, rc_coverage = obs, rc_at = now\<rparr>"
    and "\<not> baseline_run_excluded db' tgt run" and "tracked db' = tracked db"
    and "lifecycle_record db run tgt \<noteq> None \<Longrightarrow> has_established_baseline db' tgt"
proof -
  let ?db1 = "finalize_stable_change_run run tgt ''success'' (clear_quarantined run tgt db)"
  have t1: "tracked ?db1 = tracked db" "stage_runs ?db1 = stage_runs db" by simp_all
  from assms obtain db2 where 2: "replace_successful_snapshot sha fr now tgt run False ?db1 = Some db2"
    by (auto simp: commit_run_def Let_def split: option.splits)
  define db3 where "db3 = promote_derived_working now run tgt db2"
  define db4 where "db4 = (if lifecycle_record db run tgt = None then db3
        else fst (mark_baseline_committed now run tgt (lifecycle_reason db run tgt) db3))"
  have db': "db' = recover_baseline_review now tgt run db4"
    using assms 2 by (auto simp: commit_run_def Let_def db3_def db4_def)
  have keep: "commits db' = commits db2" "snapshots db' = snapshots db2" "receipts db' = receipts db2" "tracked db' = tracked db2"
    by (simp_all add: db' db4_def db3_def)
  from replace_committed[OF 2] obtain obs where obs: "observed_coverage (collection_stages ?db1 tgt run) = Some obs"
    "db2 = ?db1\<lparr>snapshots := delete_where (\<lambda>s. sn_target s = tgt) (snapshots ?db1) @ frozen_rows sha fr now run tgt ?db1,
         commits := upsert (\<lambda>c. cm_target c = tgt) (new_commit now run tgt (frozen_rows sha fr now run tgt ?db1))
           (\<lambda>c. new_commit now run tgt (frozen_rows sha fr now run tgt ?db1)) (commits ?db1),
         receipts := upsert (\<lambda>r. rc_target r = tgt) \<lparr>rc_target = tgt, rc_run = run, rc_coverage = obs, rc_at = now\<rparr>
           (\<lambda>r. \<lparr>rc_target = tgt, rc_run = run, rc_coverage = obs, rc_at = now\<rparr>) (receipts ?db1)\<rparr>" by blast
  have fr: "frozen_rows sha fr now run tgt ?db1 = frozen_rows sha fr now run tgt db" by (rule frozen_rows_cong) simp
  show ?thesis
  proof (rule that[of obs])
    show "observed_coverage (collection_stages db tgt run) = Some obs"
      using obs(1) by (simp add: collection_stages_def)
    show "snapshots db' = delete_where (\<lambda>s. sn_target s = tgt) (snapshots db) @ frozen_rows sha fr now run tgt db"
      by (simp add: keep obs(2) fr)
    show "commit_of db' tgt = Some (new_commit now run tgt (frozen_rows sha fr now run tgt db))"
      by (simp add: commit_of_def keep obs(2) fr select_one_upsert new_commit_def split: option.split)
    let ?rc = "\<lparr>rc_target = tgt, rc_run = run, rc_coverage = obs, rc_at = now\<rparr>"
    have "select_one (\<lambda>r. rc_target r = tgt \<and> rc_run r = run) (upsert (\<lambda>r. rc_target r = tgt) ?rc (\<lambda>r. ?rc) rs) = Some ?rc" for rs
      by (induction rs) (auto simp: upsert_def select_one_def update_where_def)
    then show "select_one (\<lambda>r. rc_target r = tgt \<and> rc_run r = run) (receipts db') = Some ?rc"
      by (simp add: keep obs(2))
    show "\<not> baseline_run_excluded db' tgt run" by (simp add: db' recovery_ends_exclusion)
    show "tracked db' = tracked db" by (simp add: keep obs(2))
    show "has_established_baseline db' tgt" if "lifecycle_record db run tgt \<noteq> None"
      using that committed_is_established[of now run tgt "lifecycle_reason db run tgt" db3]
      by (auto simp: db' db4_def has_established_iff)
  qed
qed

section \<open>Properties of finishing a run\<close>

text \<open>What it means that a run did not collect cleanly, read off its rows: its life cycle has been decided and is not
  eligible, or has not been decided and the run did not succeed in every stage; or a collection stage has a coverage with a gap; or a
  response seen in this run was restricted.\<close>

definition incomplete_collection :: "recon_store \<Rightarrow> string \<Rightarrow> string \<Rightarrow> string \<Rightarrow> bool" where
  "incomplete_collection db run tgt status \<longleftrightarrow>
     (case [r \<leftarrow> lifecycles db. lc_run r = run \<and> lc_target r = tgt \<and> (lc_collection r \<noteq> ''not_run'' \<or> lc_baseline_state r \<noteq> ''pending'')] of
        r # _ \<Rightarrow> \<not> lc_eligible r
      | [] \<Rightarrow> status \<noteq> ''success'' \<or> stage_status db run tgt ''report'' \<notin> {None, Some ''success''}
          \<or> (\<exists>g \<in> set (stage_runs db). sg_run g = run \<and> sg_target g = tgt \<and> sg_status g \<in> {''failed'', ''interrupted''}))
     \<or> (\<exists>t \<in> set (run_targets db). rt_run t = run \<and> rt_target t = tgt)
       \<and> (\<exists>g \<in> set (stage_runs db). sg_run g = run \<and> sg_target g = tgt \<and> sg_stage g \<noteq> ''report''
            \<and> (\<exists>c. stage_coverage (sg_stage g) (stage_row_of g) = Some c
                 \<and> cov_status c \<in> {''access_restricted'', ''partial'', ''failed'', ''interrupted''}))
     \<or> (\<exists>r \<in> set (tracked db Fingerprints). ob_target r = tgt \<and> ob_last_run r = Some run
          \<and> get (ob_cols r) ''status_code'' \<in> {JInt 401, JInt 403})"

lemma decided_lifecycle:
  assumes "keyed (\<lambda>r. (lc_run r, lc_target r)) ls"
  shows "(case select_one (lifecycle_key run tgt) ls of
            None \<Rightarrow> None | Some r \<Rightarrow> if lc_collection r = ''not_run'' \<and> lc_baseline_state r = ''pending'' then None else Some (lc_eligible r))
       = (case [r \<leftarrow> ls. lc_run r = run \<and> lc_target r = tgt \<and> (lc_collection r \<noteq> ''not_run'' \<or> lc_baseline_state r \<noteq> ''pending'')] of
            [] \<Rightarrow> None | r # _ \<Rightarrow> Some (lc_eligible r))"
  using assms
proof (induction ls)
  case (Cons l ls)
  show ?case
  proof (cases "lifecycle_key run tgt l")
    case True
    with Cons.prems have "[r \<leftarrow> ls. lc_run r = run \<and> lc_target r = tgt \<and> (lc_collection r \<noteq> ''not_run'' \<or> lc_baseline_state r \<noteq> ''pending'')] = []"
      by (auto simp: keyed_def lifecycle_key_def filter_empty_conv image_iff)
    with True show ?thesis by (auto simp: select_one_def lifecycle_key_def)
  next
    case False
    with Cons show ?thesis by (auto simp: select_one_def lifecycle_key_def keyed_def)
  qed
qed (simp add: select_one_def)



lemma observed_coverage_set:
  assumes "observed_coverage rows = Some obs"
  shows "coverage_gaps obs = [] \<longleftrightarrow> \<not> (\<exists>g \<in> set rows. \<exists>c. stage_coverage (sg_stage g) (stage_row_of g) = Some c \<and> cov_status c \<in> set GAP_STATUSES)"
  using assms
proof (induction rows arbitrary: obs)
  case (Cons g rows)
  then obtain c obs' where "stage_coverage (sg_stage g) (stage_row_of g) = Some c" "observed_coverage rows = Some obs'" "obs = (sg_stage g, c) # obs'"
    by (auto simp: observed_coverage_def split: option.splits)
  with Cons.IH[of obs'] show ?case by (simp add: coverage_gaps_def)
qed (simp add: observed_coverage_def coverage_gaps_def)

lemma working_stage_gaps:
  "stage_gaps db tgt run True =
     (case target_row db run tgt of None \<Rightarrow> Some [] | Some t \<Rightarrow> map_option coverage_gaps (observed_coverage (collection_stages db tgt run)))"
  by (simp add: stage_gaps_def split: option.split)

lemma working_gaps:
  assumes "collection_gaps db tgt run True = Some gaps"
  shows "gaps = [] \<longleftrightarrow>
     \<not> ((\<exists>t \<in> set (run_targets db). rt_run t = run \<and> rt_target t = tgt)
         \<and> (\<exists>g \<in> set (collection_stages db tgt run). \<exists>c. stage_coverage (sg_stage g) (stage_row_of g) = Some c \<and> cov_status c \<in> set GAP_STATUSES))
     \<and> \<not> (\<exists>r \<in> set (tracked db Fingerprints). working_restricted tgt run r)"
proof -
  obtain stages where st: "stage_gaps db tgt run True = Some stages"
    and gaps: "gaps = stages @ first_gap (working_restricted tgt run) ''Collected HTTP response restricted content visibility.'' (tracked db Fingerprints)"
    using assms by (auto simp: collection_gaps_def)
  have "first_gap (working_restricted tgt run) why rows = [] \<longleftrightarrow> \<not> (\<exists>r \<in> set rows. working_restricted tgt run r)" for why rows
    by (auto simp: first_gap_def select_one_None split: option.split dest: select_one_Some)
  moreover have "stages = [] \<longleftrightarrow> \<not> ((\<exists>t \<in> set (run_targets db). rt_run t = run \<and> rt_target t = tgt)
         \<and> (\<exists>g \<in> set (collection_stages db tgt run). \<exists>c. stage_coverage (sg_stage g) (stage_row_of g) = Some c \<and> cov_status c \<in> set GAP_STATUSES))"
  proof (cases "target_row db run tgt")
    case None
    then have "\<not> (\<exists>t \<in> set (run_targets db). rt_run t = run \<and> rt_target t = tgt)" by (auto simp: target_row_def select_one_None)
    with None st show ?thesis by (simp add: working_stage_gaps)
  next
    case (Some t)
    with st obtain obs where "observed_coverage (collection_stages db tgt run) = Some obs" "stages = coverage_gaps obs"
      by (auto simp: working_stage_gaps)
    moreover have "\<exists>t \<in> set (run_targets db). rt_run t = run \<and> rt_target t = tgt"
      using Some by (auto simp: target_row_def dest: select_one_Some)
    ultimately show ?thesis by (simp add: observed_coverage_set)
  qed
  ultimately show ?thesis unfolding gaps by auto
qed

lemma commit_ready_iff:
  assumes "keyed (\<lambda>r. (lc_run r, lc_target r)) (lifecycles db)" "commit_ready db run tgt status = Some ready"
  shows "ready \<longleftrightarrow> \<not> incomplete_collection db run tgt status"
proof -
  let ?decided = "[r \<leftarrow> lifecycles db. lc_run r = run \<and> lc_target r = tgt \<and> (lc_collection r \<noteq> ''not_run'' \<or> lc_baseline_state r \<noteq> ''pending'')]"
  have e: "baseline_commit_eligible db run tgt = (case ?decided of [] \<Rightarrow> None | r # _ \<Rightarrow> Some (lc_eligible r))"
    unfolding baseline_commit_eligible_def lifecycle_record_def by (rule decided_lifecycle[OF assms(1)])
  have safe: "snapshot_commit_ready db run tgt status \<longleftrightarrow> \<not> (status \<noteq> ''success'' \<or> stage_status db run tgt ''report'' \<notin> {None, Some ''success''}
      \<or> (\<exists>g \<in> set (stage_runs db). sg_run g = run \<and> sg_target g = tgt \<and> sg_status g \<in> {''failed'', ''interrupted''}))"
    by (auto simp: snapshot_commit_ready_def run_is_snapshot_safe_def list_ex_iff split: option.splits)
  let ?first = "case ?decided of r # _ \<Rightarrow> \<not> lc_eligible r
      | [] \<Rightarrow> status \<noteq> ''success'' \<or> stage_status db run tgt ''report'' \<notin> {None, Some ''success''}
          \<or> (\<exists>g \<in> set (stage_runs db). sg_run g = run \<and> sg_target g = tgt \<and> sg_status g \<in> {''failed'', ''interrupted''})"
  have first: "(case baseline_commit_eligible db run tgt of None \<Rightarrow> snapshot_commit_ready db run tgt status | Some x \<Rightarrow> x) \<longleftrightarrow> \<not> ?first"
    unfolding e safe by (cases ?decided) simp_all
  have stages: "(\<exists>g \<in> set (collection_stages db tgt run). \<exists>c. stage_coverage (sg_stage g) (stage_row_of g) = Some c \<and> cov_status c \<in> set GAP_STATUSES)
      \<longleftrightarrow> (\<exists>g \<in> set (stage_runs db). sg_run g = run \<and> sg_target g = tgt \<and> sg_stage g \<noteq> ''report''
            \<and> (\<exists>c. stage_coverage (sg_stage g) (stage_row_of g) = Some c
                 \<and> cov_status c \<in> {''access_restricted'', ''partial'', ''failed'', ''interrupted''}))"
    by (auto simp: collection_stages_def GAP_STATUSES_def)
  have inc: "incomplete_collection db run tgt status \<longleftrightarrow> ?first
      \<or> (\<exists>t \<in> set (run_targets db). rt_run t = run \<and> rt_target t = tgt)
         \<and> (\<exists>g \<in> set (collection_stages db tgt run). \<exists>c. stage_coverage (sg_stage g) (stage_row_of g) = Some c \<and> cov_status c \<in> set GAP_STATUSES)
      \<or> (\<exists>r \<in> set (tracked db Fingerprints). working_restricted tgt run r)"
    unfolding incomplete_collection_def stages working_restricted_def by (rule refl)
  show ?thesis
  proof (cases ?first)
    case True
    with assms(2) show ?thesis by (simp add: commit_ready_def first inc)
  next
    case False
    with assms(2) obtain gaps where "collection_gaps db tgt run True = Some gaps" "ready \<longleftrightarrow> gaps = []"
      by (auto simp: commit_ready_def Let_def first)
    with False show ?thesis unfolding inc by (simp add: working_gaps)
  qed
qed

text \<open>C2: Incomplete collection never becomes the reference: when the rows of a run show that it did not collect cleanly (its
  decided life cycle is not eligible; or, undecided, the run or one of its stages did not succeed; or a collection stage has a gap in its
  coverage; or a response of the run was restricted), finishing it leaves the committed snapshot, its receipt, the baseline registry,
  the derived sets, the confirmed states and the reviews exactly as they were, and its working rows stay.  Any other run is
  committed.  The life cycles are keyed by run and target, as the primary key of their table says, and finishing does not raise.\<close>

theorem ineligible_run_keeps_the_reference:
  assumes "keyed (\<lambda>r. (lc_run r, lc_target r)) (lifecycles db)" "finish_run_target sha fr now run tgt status db = Some db'"
  shows "if incomplete_collection db run tgt status
     then reference_state db' = reference_state db \<and> tracked db' = tracked db
     else \<exists>c. commit_of db' tgt = Some c \<and> cm_run c = run \<and> cm_at c = now"
proof -
  from assms(2) obtain ready where r: "commit_ready db run tgt status = Some ready"
    by (auto simp: finish_run_target_def split: option.splits)
  show ?thesis
  proof (cases ready)
    case True
    with assms(2) r obtain db1 where "commit_run sha fr now run tgt db = Some db1" "db' = base_finish_run_target now run tgt status db1"
      by (auto simp: finish_run_target_def)
    then have "commit_of db' tgt = Some (new_commit now run tgt (frozen_rows sha fr now run tgt db))"
      by (auto simp: commit_of_def elim!: commit_run_fields)
    with True commit_ready_iff[OF assms(1) r] show ?thesis by (simp add: new_commit_def)
  next
    case False
    with assms(2) r have "db' = base_finish_run_target now run tgt status (discard_run now run tgt db)"
      by (auto simp: finish_run_target_def)
    with False commit_ready_iff[OF assms(1) r] show ?thesis
      by (simp add: base_finish_reference discard_run_reference discard_run_tracked)
  qed
qed

text \<open>A run target whose collection stopped partially.\<close>

definition partial_store :: recon_store where
  "partial_store = gap_store\<lparr>lifecycles := [\<lparr>lc_run = ''r2'', lc_target = ''t'', lc_collection = ''partial'',
     lc_analysis = ''not_run'', lc_report = ''not_run'', lc_notification = ''not_run'', lc_overall = ''partial'',
     lc_eligible = False, lc_baseline_state = ''pending'', lc_baseline_reason = ''collection_partial:dns'',
     lc_baseline_source = ''r1'', lc_baseline_established = Some 5, lc_details = JObj [], lc_created = 8, lc_updated = 9\<rparr>]\<rparr>"

theorem ineligible_run_keeps_the_reference_witness:
  "\<exists>db'. finish_run_target (\<lambda>s. s) (\<lambda>r. '''') 10 ''r2'' ''t'' ''partial'' partial_store = Some db'
     \<and> commits db' = commits gap_store \<and> baselines db' = baselines gap_store"
proof -
  have "commit_ready partial_store ''r2'' ''t'' ''partial'' = Some False"
    by (simp add: commit_ready_def baseline_commit_eligible_def lifecycle_record_def lifecycle_key_def partial_store_def select_one_def)
  then obtain db' where f: "finish_run_target (\<lambda>s. s) (\<lambda>r. '''') 10 ''r2'' ''t'' ''partial'' partial_store = Some db'"
    by (auto simp: finish_run_target_def)
  have k: "keyed (\<lambda>r. (lc_run r, lc_target r)) (lifecycles partial_store)" by (simp add: keyed_def partial_store_def)
  have "incomplete_collection partial_store ''r2'' ''t'' ''partial''" by (simp add: incomplete_collection_def partial_store_def)
  with ineligible_run_keeps_the_reference[OF k f] f show ?thesis by (auto simp: reference_state_def partial_store_def)
qed

section \<open>Commit, then restore\<close>

lemma commit_ready_gapless:
  assumes "commit_ready db run tgt status = Some True"
  shows "collection_gaps db tgt run True = Some []"
  using assms by (auto simp: commit_ready_def Let_def split: if_splits)

lemma frozen_fingerprints:
  "map sn_row (filter (\<lambda>s. sn_table s = tbl) (frozen_rows sha fr now run tgt db)) = filter (\<lambda>r. ob_target r = tgt) (tracked db tbl)"
proof -
  have pick: "map sn_row (filter (\<lambda>s. sn_table s = tbl)
      (map (\<lambda>r. \<lparr>sn_target = tgt, sn_table = u, sn_hash = h u r, sn_row = r, sn_run = run, sn_at = now\<rparr>) rs))
    = (if u = tbl then rs else [])" for u h rs
    by (induction rs) auto
  have strip: "map sn_row (map (\<lambda>r. \<lparr>sn_target = tgt, sn_table = u, sn_hash = h r, sn_row = r, sn_run = run, sn_at = now\<rparr>) rs) = rs"
    for u h rs by (induction rs) auto
  show ?thesis
    by (cases tbl) (simp_all add: frozen_rows_def TRACKED_TABLES_def pick strip del: map_map filter_map)
qed

lemma frozen_keys: "s \<in> set (frozen_rows sha fr now run tgt db) \<Longrightarrow> sn_target s = tgt \<and> sn_run s = run"
  by (auto simp: frozen_rows_def)

lemma filter_frozen:
  "filter (\<lambda>s. sn_target s = tgt \<and> p s) (delete_where (\<lambda>s. sn_target s = tgt) old @ frozen_rows sha fr now run tgt db)
     = filter p (frozen_rows sha fr now run tgt db)"
proof -
  have "filter (\<lambda>s. sn_target s = tgt \<and> p s) (delete_where (\<lambda>s. sn_target s = tgt) old) = []"
    by (auto simp: delete_where_def filter_empty_conv)
  moreover have "filter (\<lambda>s. sn_target s = tgt \<and> p s) (frozen_rows sha fr now run tgt db) = filter p (frozen_rows sha fr now run tgt db)"
    by (rule filter_cong) (auto dest: frozen_keys)
  ultimately show ?thesis by simp
qed

text \<open>The status codes the fingerprint stage stores.\<close>

definition status_codes_numeric :: "recon_store \<Rightarrow> string \<Rightarrow> bool" where
  "status_codes_numeric db tgt \<longleftrightarrow> list_all (\<lambda>r. ob_target r = tgt \<longrightarrow>
     (case get (ob_cols r) ''status_code'' of JInt _ \<Rightarrow> True | JNull \<Rightarrow> True | _ \<Rightarrow> False)) (tracked db Fingerprints)"

lemma no_restricted_rows:
  assumes "collection_gaps db tgt run True = Some []" "status_codes_numeric db tgt"
  shows "list_all (\<lambda>r. \<not> frozen_restricted run r) (filter (\<lambda>r. ob_target r = tgt) (tracked db Fingerprints))"
proof -
  have "first_gap (working_restricted tgt run) ''Collected HTTP response restricted content visibility.'' (tracked db Fingerprints) = []"
    using assms(1) by (auto simp: collection_gaps_def)
  then have "list_all (\<lambda>r. \<not> working_restricted tgt run r) (tracked db Fingerprints)"
    by (auto simp: first_gap_def list_all_iff select_one_None split: option.splits)
  with assms(2) show ?thesis
    by (fastforce simp: list_all_iff status_codes_numeric_def working_restricted_def frozen_restricted_def count_def
        split: json.splits)
qed

lemma snapshot_of_frozen:
  assumes "snapshots db2 = delete_where (\<lambda>s. sn_target s = tgt) old @ frozen_rows sha fr now run tgt db"
  shows "mset (snapshot_rows db2 tgt tbl) = mset (filter (\<lambda>r. ob_target r = tgt) (tracked db tbl))"
proof -
  have "mset (snapshot_rows db2 tgt tbl)
      = image_mset sn_row (mset (filter (\<lambda>s. sn_target s = tgt \<and> sn_table s = tbl) (snapshots db2)))"
    by (simp add: snapshot_rows_def)
  also have "\<dots> = mset (map sn_row (filter (\<lambda>s. sn_table s = tbl) (frozen_rows sha fr now run tgt db)))"
    unfolding assms filter_frozen by simp
  finally show ?thesis by (simp add: frozen_fingerprints)
qed

lemma committed_has_no_gaps:
  assumes gaps: "collection_gaps db tgt run True = Some []" and row: "target_row db run tgt \<noteq> None"
    and codes: "status_codes_numeric db tgt"
    and obs: "observed_coverage (collection_stages db tgt run) = Some obs"
    and rc: "select_one (\<lambda>r. rc_target r = tgt \<and> rc_run r = run) (receipts db2) = Some \<lparr>rc_target = tgt, rc_run = run, rc_coverage = obs, rc_at = t\<rparr>"
    and sn: "snapshots db2 = delete_where (\<lambda>s. sn_target s = tgt) old @ frozen_rows sha fr now run tgt db"
  shows "collection_gaps db2 tgt run False = Some []"
proof -
  have "coverage_gaps obs = []"
    using gaps row obs by (auto simp: collection_gaps_def stage_gaps_def split: option.splits)
  moreover have "filter (\<lambda>s. sn_target s = tgt \<and> sn_table s = Fingerprints \<and> sn_run s = run) (snapshots db2)
      = filter (\<lambda>s. sn_table s = Fingerprints) (frozen_rows sha fr now run tgt db)"
    unfolding sn filter_frozen by (rule filter_cong) (auto dest: frozen_keys)
  ultimately show ?thesis
    using no_restricted_rows[OF gaps codes] rc
    by (simp add: collection_gaps_def stage_gaps_def first_gap_def frozen_fingerprints list_all_iff
        select_one_None[THEN iffD2] del: filter_map)
qed

lemma new_run_keeps [simp]:
  "commits (discard_stale_stable_change_runs tgt run db) = commits db"
  "snapshots (discard_stale_stable_change_runs tgt run db) = snapshots db"
  "reviews (discard_stale_stable_change_runs tgt run db) = reviews db"
  "baselines (discard_stale_stable_change_runs tgt run db) = baselines db"
  "tracked (discard_stale_stable_change_runs tgt run db) = tracked db"
  "tracked (base_create_run_target now run tgt policy dir b db) = tracked db"
  "tracked (begin_target_lifecycle now run tgt db) = tracked db"
  by (simp_all add: discard_stale_stable_change_runs_def base_create_run_target_def begin_target_lifecycle_def
      ensure_lifecycle_def Let_def split: option.split)

lemma usable_commit_cong:
  "commits db = commits db' \<Longrightarrow> baselines db = baselines db' \<Longrightarrow> reviews db = reviews db' \<Longrightarrow> usable_commit db tgt = usable_commit db' tgt"
  unfolding usable_commit_def commit_of_def has_established_baseline_def baseline_run_excluded_def baseline_review_def
  by (simp split: option.split)

lemma restore_result:
  assumes "restore_successful_snapshot tgt db = Some db'" "usable_commit db tgt \<noteq> None"
  shows "tracked db' tbl = delete_where (\<lambda>r. ob_target r = tgt) (tracked db tbl) @ snapshot_rows db tgt tbl"
  using assms by (auto simp: restore_successful_snapshot_def restored_table_def split: if_splits)

lemma new_run_restores:
  assumes review: "review_committed_baseline now id tgt '''' ''automatic'' db = Some (db, res)"
    and fresh: "target_row db run tgt = None" and use: "usable_commit db tgt \<noteq> None"
    and rows: "\<And>tbl. \<exists>rs. mset (snapshot_rows db tgt tbl) = mset rs \<and> distinct (map ob_key rs) \<and> list_all (\<lambda>r. ob_target r = tgt) rs"
  shows "\<exists>db'. create_run_target now run tgt policy dir b db = Some db'
     \<and> (\<forall>tbl. tracked db' tbl = delete_where (\<lambda>r. ob_target r = tgt) (tracked db tbl) @ snapshot_rows db tgt tbl)"
proof -
  define db1 where "db1 = discard_stale_stable_change_runs tgt run db"
  define db2 where "db2 = db1\<lparr>working_items := delete_where (\<lambda>w. wi_target w = tgt) (working_items db1),
                                working_sets := delete_where (\<lambda>w. ws_target w = tgt) (working_sets db1)\<rparr>"
  have same: "usable_commit db2 tgt = usable_commit db tgt" "snapshot_rows db2 tgt tbl = snapshot_rows db tgt tbl"
    "tracked db2 = tracked db" for tbl
    by (simp_all add: db2_def db1_def snapshot_rows_def cong: usable_commit_cong)
  have good: "distinct (map ob_key (snapshot_rows db tgt tbl)) \<and> (\<forall>r \<in> set (snapshot_rows db tgt tbl). ob_target r = tgt)" for tbl
  proof -
    from rows[of tbl] obtain rs where rs: "mset (snapshot_rows db tgt tbl) = mset rs" "distinct (map ob_key rs)"
      "list_all (\<lambda>r. ob_target r = tgt) rs" by blast
    from rs(1) have "mset (map ob_key (snapshot_rows db tgt tbl)) = mset (map ob_key rs)" by simp
    from mset_eq_imp_distinct_iff[OF this] mset_eq_setD[OF rs(1)] rs(2,3) show ?thesis by (auto simp: list_all_iff)
  qed
  then have "restore_successful_snapshot tgt db2 \<noteq> None"
    by (auto simp: restore_successful_snapshot_def list_ex_iff same)
  then obtain db3 where db3: "restore_successful_snapshot tgt db2 = Some db3" by blast
  with restore_result[OF this] use same
  have "tracked db3 tbl = delete_where (\<lambda>r. ob_target r = tgt) (tracked db tbl) @ snapshot_rows db tgt tbl" for tbl by simp
  moreover have "create_run_target now run tgt policy dir b db = Some (begin_target_lifecycle now run tgt
      (base_create_run_target now run tgt policy dir (b \<or> list_ex (\<lambda>b. bl_target b = tgt \<and> bl_state b = ''quarantined'') (baselines db)) db3))"
    by (simp add: create_run_target_def review fresh Let_def db1_def[symmetric] db2_def[symmetric] db3)
  ultimately show ?thesis by simp
qed

text \<open>C1: The next run starts from what the last good run committed: after a run with an eligible, gapless
  collection finishes, however the working rows are changed afterwards (as long as nothing replaces the
  reference), registering a new run puts back exactly the rows the target had at the commit, in every
  tracked table, and touches no other target's rows.\<close>

theorem next_run_starts_from_the_commit:
  assumes finish: "finish_run_target sha fr now run tgt status db = Some db1"
    and ready: "commit_ready db run tgt status = Some True"
    and rows: "lifecycle_record db run tgt \<noteq> None" "target_row db run tgt \<noteq> None" "run \<noteq> ''''"
    and keys: "\<And>tbl. distinct (map ob_key (filter (\<lambda>r. ob_target r = tgt) (tracked db tbl)))"
    and codes: "status_codes_numeric db tgt"
    and later: "reference_state db2 = reference_state db1" "target_row db2 run' tgt = None"
  shows "\<exists>db3. create_run_target now' run' tgt policy dir baseline db2 = Some db3
    \<and> (\<forall>tbl. mset (filter (\<lambda>r. ob_target r = tgt) (tracked db3 tbl)) = mset (filter (\<lambda>r. ob_target r = tgt) (tracked db tbl))
         \<and> filter (\<lambda>r. ob_target r \<noteq> tgt) (tracked db3 tbl) = filter (\<lambda>r. ob_target r \<noteq> tgt) (tracked db2 tbl))"
proof -
  from finish ready obtain dbc where c: "commit_run sha fr now run tgt db = Some dbc" "db1 = base_finish_run_target now run tgt status dbc"
    by (auto simp: finish_run_target_def)
  from c(1) obtain obs where f: "observed_coverage (collection_stages db tgt run) = Some obs"
    "snapshots dbc = delete_where (\<lambda>s. sn_target s = tgt) (snapshots db) @ frozen_rows sha fr now run tgt db"
    "commit_of dbc tgt = Some (new_commit now run tgt (frozen_rows sha fr now run tgt db))"
    "select_one (\<lambda>r. rc_target r = tgt \<and> rc_run r = run) (receipts dbc) = Some \<lparr>rc_target = tgt, rc_run = run, rc_coverage = obs, rc_at = now\<rparr>"
    "\<not> baseline_run_excluded dbc tgt run" "has_established_baseline dbc tgt"
    by (rule commit_run_fields) (rule that, assumption+, use rows(1) in blast)
  have ref: "commits db2 = commits dbc" "snapshots db2 = snapshots dbc" "receipts db2 = receipts dbc"
    "baselines db2 = baselines dbc" "reviews db2 = reviews dbc"
    using later(1) by (simp_all add: reference_state_def c(2))
  have commit2: "commit_of db2 tgt = Some (new_commit now run tgt (frozen_rows sha fr now run tgt db))"
    using f(3) by (simp add: commit_of_def ref)
  then have source: "review_source db2 tgt '''' = run" by (simp add: review_source_def new_commit_def)
  have gaps: "collection_gaps db2 tgt run False = Some []"
    using committed_has_no_gaps[OF commit_ready_gapless[OF ready] rows(2) codes f(1), of db2 now "snapshots db" sha fr now] f
    by (simp add: ref)
  have use: "usable_commit db2 tgt \<noteq> None"
    using f usable_commit_cong[OF ref(1,4,5), of tgt] by (simp add: usable_commit_def new_commit_def)
  have sn: "mset (snapshot_rows db2 tgt tbl) = mset (filter (\<lambda>r. ob_target r = tgt) (tracked db tbl))" for tbl
    by (rule snapshot_of_frozen) (simp add: ref f)
  have "\<exists>db3. create_run_target now' run' tgt policy dir baseline db2 = Some db3
     \<and> (\<forall>tbl. tracked db3 tbl = delete_where (\<lambda>r. ob_target r = tgt) (tracked db2 tbl) @ snapshot_rows db2 tgt tbl)"
  proof (rule new_run_restores[OF _ later(2) use])
    show "review_committed_baseline now' id tgt '''' ''automatic'' db2 =
        Some (db2, \<lparr>rr_target = tgt, rr_run = run, rr_action = No_Proven_Gap, rr_changed = False, rr_gaps = []\<rparr>)"
      unfolding review_id Let_def source using rows(3) gaps by simp
    show "\<exists>rs. mset (snapshot_rows db2 tgt tbl) = mset rs \<and> distinct (map ob_key rs) \<and> list_all (\<lambda>r. ob_target r = tgt) rs" for tbl
      using sn[of tbl] keys[of tbl] by (intro exI[of _ "filter (\<lambda>r. ob_target r = tgt) (tracked db tbl)"]) (simp add: list_all_iff)
  qed
  then obtain db3 where db3: "create_run_target now' run' tgt policy dir baseline db2 = Some db3"
    "\<And>tbl. tracked db3 tbl = delete_where (\<lambda>r. ob_target r = tgt) (tracked db2 tbl) @ snapshot_rows db2 tgt tbl" by blast
  have own: "list_all (\<lambda>r. ob_target r = tgt) (snapshot_rows db2 tgt tbl)" for tbl
    using mset_eq_setD[OF sn[of tbl]] by (auto simp: list_all_iff)
  have "filter (\<lambda>r. ob_target r = tgt) (tracked db3 tbl) = snapshot_rows db2 tgt tbl" for tbl
    using own[of tbl] by (simp add: db3 delete_where_def list_all_iff filter_empty_conv)
  moreover have "filter (\<lambda>r. ob_target r \<noteq> tgt) (tracked db3 tbl) = filter (\<lambda>r. ob_target r \<noteq> tgt) (tracked db2 tbl)" for tbl
    using own[of tbl] by (simp add: db3 delete_where_def list_all_iff filter_empty_conv)
  ultimately show ?thesis using db3(1) sn by (simp del: mset_filter)
qed

text \<open>A run that found one asset and stopped cleanly.\<close>

definition good_asset :: obs_row where
  "good_asset = \<lparr>ob_target = ''t'', ob_key = [''a.t''], ob_last_run = Some ''r1'', ob_cols = []\<rparr>"

definition good_store :: recon_store where
  "good_store = (stage_db [])\<lparr>tracked := (\<lambda>tbl. if tbl = Assets then [good_asset] else []),
     run_targets := [\<lparr>rt_run = ''r1'', rt_target = ''t'', rt_policy = ''p'', rt_status = ''running'', rt_started = 1,
       rt_finished = None, rt_dir = ''d'', rt_baseline = True\<rparr>],
     lifecycles := [\<lparr>lc_run = ''r1'', lc_target = ''t'', lc_collection = ''success'',
       lc_analysis = ''success'', lc_report = ''success'', lc_notification = ''success'', lc_overall = ''success'',
       lc_eligible = True, lc_baseline_state = ''pending'', lc_baseline_reason = '''',
       lc_baseline_source = '''', lc_baseline_established = None, lc_details = JObj [], lc_created = 1, lc_updated = 2\<rparr>]\<rparr>"

lemma good_store_ready: "commit_ready good_store ''r1'' ''t'' ''success'' = Some True"
  by (simp add: commit_ready_def baseline_commit_eligible_def lifecycle_record_def lifecycle_key_def good_store_def
      select_one_def collection_gaps_def first_gap_def stage_gaps_def stage_db_def target_row_def collection_stages_def
      observed_coverage_def coverage_gaps_def)

lemma commit_run_defined:
  assumes "distinct (map (\<lambda>s. (sn_table s, sn_hash s)) (frozen_rows sha fr now run tgt db))"
    "observed_coverage (collection_stages db tgt run) \<noteq> None"
  shows "\<exists>db'. commit_run sha fr now run tgt db = Some db' \<and> run_targets db' = run_targets db"
proof -
  let ?db1 = "finalize_stable_change_run run tgt ''success'' (clear_quarantined run tgt db)"
  have same: "frozen_rows sha fr now run tgt ?db1 = frozen_rows sha fr now run tgt db"
    "collection_stages ?db1 = collection_stages db" "run_targets ?db1 = run_targets db"
    by (rule frozen_rows_cong) (simp_all add: collection_stages_def fun_eq_iff clear_quarantined_def finalize_stable_change_run_def Let_def)
  with assms obtain db2 where db2: "replace_successful_snapshot sha fr now tgt run False ?db1 = Some db2"
    "run_targets db2 = run_targets db"
    by (fastforce simp: replace_successful_snapshot_def Let_def record_baseline_receipt_def collection_stages_def)
  have "run_targets (promote_derived_working now run tgt d) = run_targets d" for d
    by (simp add: promote_derived_working_def discard_derived_working_def foldl_keep[where f = run_targets] promote_set_fields)
  then show ?thesis using db2 by (simp add: commit_run_def Let_def recover_baseline_review_def)
qed

lemma good_store_commits: "\<exists>db. finish_run_target (\<lambda>s. s) (\<lambda>r. '''') 5 ''r1'' ''t'' ''success'' good_store = Some db
    \<and> target_row db ''r2'' ''t'' = None"
proof -
  have "\<exists>db'. commit_run (\<lambda>s. s) (\<lambda>r. '''') 5 ''r1'' ''t'' good_store = Some db' \<and> run_targets db' = run_targets good_store"
    by (rule commit_run_defined)
       (simp_all add: frozen_rows_def TRACKED_TABLES_def good_store_def good_asset_def stage_db_def collection_stages_def observed_coverage_def)
  then obtain db' where db': "commit_run (\<lambda>s. s) (\<lambda>r. '''') 5 ''r1'' ''t'' good_store = Some db'"
    "run_targets db' = run_targets good_store" by blast
  moreover from this(2) have "target_row (base_finish_run_target 5 ''r1'' ''t'' ''success'' db') ''r2'' ''t'' = None"
    by (simp add: target_row_def base_finish_run_target_def good_store_def select_one_def)
  ultimately show ?thesis by (simp add: finish_run_target_def good_store_ready)
qed

theorem next_run_starts_from_the_commit_witness:
  "\<exists>db1 db3. finish_run_target (\<lambda>s. s) (\<lambda>r. '''') 5 ''r1'' ''t'' ''success'' good_store = Some db1
     \<and> create_run_target 9 ''r2'' ''t'' ''p'' ''d'' False (db1\<lparr>tracked := (\<lambda>_. [])\<rparr>) = Some db3
     \<and> mset (filter (\<lambda>r. ob_target r = ''t'') (tracked db3 Assets)) = {#good_asset#}"
proof -
  obtain db1 where db1: "finish_run_target (\<lambda>s. s) (\<lambda>r. '''') 5 ''r1'' ''t'' ''success'' good_store = Some db1"
    "target_row db1 ''r2'' ''t'' = None" using good_store_commits by blast
  have h: "lifecycle_record good_store ''r1'' ''t'' \<noteq> None" "target_row good_store ''r1'' ''t'' \<noteq> None"
    "distinct (map ob_key (filter (\<lambda>r. ob_target r = ''t'') (tracked good_store tbl)))" "status_codes_numeric good_store ''t''" for tbl
    by (simp_all add: lifecycle_record_def lifecycle_key_def target_row_def good_store_def select_one_def status_codes_numeric_def)
  have "reference_state (db1\<lparr>tracked := (\<lambda>_. [])\<rparr>) = reference_state db1" "target_row (db1\<lparr>tracked := (\<lambda>_. [])\<rparr>) ''r2'' ''t'' = None"
    using db1(2) by (simp_all add: reference_state_def target_row_def)
  from next_run_starts_from_the_commit[OF db1(1) good_store_ready h(1,2) _ h(3,4) this, of 9 "''p''" "''d''" False]
  show ?thesis using db1(1) by (auto simp: good_store_def good_asset_def)
qed

section \<open>The derived comparison\<close>

lemma derived_difference_parts:
  "case derived_difference hash current previous of (added, removed, changed) \<Rightarrow>
     (\<forall>k. k \<in> fst ` set added \<longleftrightarrow> map_of current k \<noteq> None \<and> map_of previous k = None)
   \<and> (\<forall>k. k \<in> fst ` set removed \<longleftrightarrow> map_of current k = None \<and> map_of previous k \<noteq> None)
   \<and> (\<forall>k. k \<in> fst ` set changed \<longleftrightarrow> (\<exists>v h old. map_of current k = Some v \<and> map_of previous k = Some (h, old) \<and> hash v \<noteq> h))
   \<and> (\<forall>k v. (k, v) \<in> set added \<longrightarrow> map_of current k = Some v)
   \<and> (\<forall>k v. (k, v) \<in> set removed \<longrightarrow> (\<exists>h. map_of previous k = Some (h, v)))
   \<and> (\<forall>k old v. (k, old, v) \<in> set changed \<longrightarrow> map_of current k = Some v \<and> (\<exists>h. map_of previous k = Some (h, old)))
   \<and> sorted (map fst added) \<and> sorted (map fst removed) \<and> sorted (map fst changed)
   \<and> distinct (map fst (added) @ map fst removed @ map fst changed)"
proof -
  let ?A = "sort (dedup (filter (\<lambda>k. k \<notin> set (map fst previous)) (map fst current)))"
  let ?R = "sort (dedup (filter (\<lambda>k. k \<notin> set (map fst current)) (map fst previous)))"
  let ?B = "sort (dedup (filter (\<lambda>k. k \<in> set (map fst previous)) (map fst current)))"
  let ?C = "filter (\<lambda>k. map_option hash (map_of current k) \<noteq> map_option fst (map_of previous k)) ?B"
  have key: "k \<in> fst ` set m \<longleftrightarrow> map_of m k \<noteq> None" for k :: string and m :: "(string \<times> 'x) list"
    by (simp add: map_of_eq_None_iff)
  have A: "k \<in> set ?A \<longleftrightarrow> map_of current k \<noteq> None \<and> map_of previous k = None" for k
    by (simp only: set_sort set_dedup set_filter set_map key mem_Collect_eq not_not conj_ac)
  have R: "k \<in> set ?R \<longleftrightarrow> map_of current k = None \<and> map_of previous k \<noteq> None" for k
    by (simp only: set_sort set_dedup set_filter set_map key mem_Collect_eq not_not conj_ac)
  have C: "k \<in> set ?C \<longleftrightarrow> (\<exists>v h old. map_of current k = Some v \<and> map_of previous k = Some (h, old) \<and> hash v \<noteq> h)" for k
    by (simp only: set_sort set_dedup set_filter set_map key mem_Collect_eq) fastforce
  have order: "sorted ?A" "sorted ?R" "sorted ?C" "distinct ?A" "distinct ?R" "distinct ?C"
    by (simp_all add: sorted_filter[where f = "\<lambda>x. x", simplified])
  have apart: "set ?A \<inter> (set ?R \<union> set ?C) = {}" "set ?R \<inter> set ?C = {}"
    using A R C by (auto simp del: set_sort set_filter)
  have fsts: "map fst (map (\<lambda>k. (k, f k)) ks) = ks" "k \<in> fst ` set (map (\<lambda>k. (k, f k)) ks) \<longleftrightarrow> k \<in> set ks"
    "(k, x) \<in> set (map (\<lambda>k. (k, f k)) ks) \<longleftrightarrow> k \<in> set ks \<and> x = f k"
    for ks :: "string list" and f :: "string \<Rightarrow> 'y" and k x
    by (induction ks) (auto simp: comp_def)
  show ?thesis
    unfolding derived_difference_def Let_def prod.case fsts A R C
    using order apart by (auto simp: item_of_def simp del: set_sort set_filter)
qed

text \<open>The derived comparison is exact: an item is reported as added when only the current set has it, as
  removed when only the committed set has it, and as changed when both have it with different hashes, each
  with the values of its side; every report is sorted by key without repetition, and an item in none of
  the three is in both sets with the committed hash or in neither.\<close>

theorem derived_difference_is_exact:
  "case derived_difference hash current previous of (added, removed, changed) \<Rightarrow>
     (\<forall>k. k \<in> fst ` set added \<longleftrightarrow> map_of current k \<noteq> None \<and> map_of previous k = None)
   \<and> (\<forall>k. k \<in> fst ` set removed \<longleftrightarrow> map_of current k = None \<and> map_of previous k \<noteq> None)
   \<and> (\<forall>k. k \<in> fst ` set changed \<longleftrightarrow> (\<exists>v h old. map_of current k = Some v \<and> map_of previous k = Some (h, old) \<and> hash v \<noteq> h))
   \<and> list_all (\<lambda>(k, v). map_of current k = Some v) added
   \<and> list_all (\<lambda>(k, v). \<exists>h. map_of previous k = Some (h, v)) removed
   \<and> list_all (\<lambda>(k, old, v). map_of current k = Some v \<and> (\<exists>h. map_of previous k = Some (h, old))) changed
   \<and> sorted (map fst added) \<and> sorted (map fst removed) \<and> sorted (map fst changed)
   \<and> distinct (map fst (added) @ map fst removed @ map fst changed)"
  using derived_difference_parts[where hash = hash and current = current and previous = previous] by (auto simp: list_all_iff split: prod.splits)

end
