(* ===== verification/Work_Queue.thy ===== *)
theory Work_Queue
  imports Outbox_Base Json_Text
begin

text \<open>
  The persistent work queue: the \<open>work_items\<close> and \<open>run_budgets\<close> statements of \<open>core.Database\<close>
  (\<open>src/app/core.py\<close>) and the classes \<open>WorkQueue\<close> and \<open>BudgetManager\<close> of \<open>src/app/execution.py\<close>.
  Local workers start, finish and fail items by number; remote workers hold a lease, a token hash with an
  expiry, and every statement of theirs names it.

  A JSON column holds its decoded value, with the keys in the order \<open>json_dumps\<close> writes them.  \<open>now\<close>
  is the clock of one operation; the lease-less time columns are kept because later statements read them.
\<close>

section \<open>Tables\<close>

datatype work_status = W_Queued | W_Running | W_Retry | W_Artifact | W_Completed | W_Failed

record work_item =
  wk_id :: nat
  wk_run :: string
  wk_target :: string
  wk_stage :: string
  wk_key :: string
  wk_payload :: json
  wk_status :: work_status
  wk_attempts :: nat
  wk_worker :: "string option"
  wk_token :: "string option"
  wk_expires :: "stamp option"
  wk_result :: json
  wk_error :: "string option"
  wk_created :: stamp
  wk_started :: "stamp option"
  wk_finished :: "stamp option"
  wk_heartbeat :: "stamp option"

record budget_row =
  bg_run :: string
  bg_target :: string
  bg_metric :: string
  bg_used :: int
  bg_limit :: int
  bg_updated :: stamp

text \<open>\<open>next_work\<close> is the next \<open>AUTOINCREMENT\<close> number.\<close>

record work_db =
  next_work :: nat
  items :: "work_item list"
  budgets :: "budget_row list"

definition work_key :: "string \<Rightarrow> string \<Rightarrow> string \<Rightarrow> string \<Rightarrow> work_item \<Rightarrow> bool" where
  "work_key run tgt stage k r \<longleftrightarrow> wk_run r = run \<and> wk_target r = tgt \<and> wk_stage r = stage \<and> wk_key r = k"

section \<open>Statements on work items\<close>

definition fresh_item :: "nat \<Rightarrow> stamp \<Rightarrow> string \<Rightarrow> string \<Rightarrow> string \<Rightarrow> string \<Rightarrow> (string \<times> json) list \<Rightarrow> work_item" where
  "fresh_item n now run tgt stage k payload = \<lparr>wk_id = n, wk_run = run, wk_target = tgt, wk_stage = stage, wk_key = k,
     wk_payload = sorted_keys (JObj payload), wk_status = W_Queued, wk_attempts = 0, wk_worker = None, wk_token = None,
     wk_expires = None, wk_result = JObj [], wk_error = None, wk_created = now, wk_started = None, wk_finished = None,
     wk_heartbeat = None\<rparr>"

definition work_row :: "work_db \<Rightarrow> string \<Rightarrow> string \<Rightarrow> string \<Rightarrow> string \<Rightarrow> work_item option" where
  "work_row db run tgt stage k = select_one (work_key run tgt stage k) (items db)"

definition enqueue_work ::
    "stamp \<Rightarrow> string \<Rightarrow> string \<Rightarrow> string \<Rightarrow> string \<Rightarrow> (string \<times> json) list \<Rightarrow> work_db \<Rightarrow> work_db \<times> nat" where
  "enqueue_work now run tgt stage k payload db =
     (let db' = (if list_ex (work_key run tgt stage k) (items db) then db
                 else db\<lparr>next_work := next_work db + 1,
                         items := items db @ [fresh_item (next_work db) now run tgt stage k payload]\<rparr>)
      in (db', case work_row db' run tgt stage k of None \<Rightarrow> 0 | Some r \<Rightarrow> wk_id r))"

definition work_state :: "work_db \<Rightarrow> string \<Rightarrow> string \<Rightarrow> string \<Rightarrow> string \<Rightarrow> work_status option" where
  "work_state db run tgt stage k = map_option wk_status (work_row db run tgt stage k)"

text \<open>A lease may be reclaimed strictly after its expiry.\<close>

definition lapsed :: "stamp \<Rightarrow> work_item \<Rightarrow> bool" where
  "lapsed now r \<longleftrightarrow> wk_status r = W_Running \<and> (case wk_expires r of None \<Rightarrow> False | Some e \<Rightarrow> e < now)"

definition or_recovered :: "string option \<Rightarrow> string" where
  "or_recovered e = (case e of None \<Rightarrow> ''Recovered expired remote work lease''
     | Some s \<Rightarrow> if s = '''' then ''Recovered expired remote work lease'' else s)"

definition reclaimed :: "stamp \<Rightarrow> work_item \<Rightarrow> work_item" where
  "reclaimed now r = r\<lparr>wk_status := W_Retry, wk_worker := None, wk_token := None, wk_expires := None, wk_started := None,
     wk_error := Some (or_recovered (wk_error r)), wk_heartbeat := Some now\<rparr>"

definition reclaim_expired_work_leases :: "stamp \<Rightarrow> work_item list \<Rightarrow> work_item list \<times> nat" where
  "reclaim_expired_work_leases now t = (update_where (lapsed now) (reclaimed now) t, rowcount (lapsed now) t)"

definition startable :: "nat \<Rightarrow> string \<Rightarrow> work_item \<Rightarrow> bool" where
  "startable i token r \<longleftrightarrow> wk_id r = i
     \<and> (wk_status r = W_Queued \<or> wk_status r = W_Retry \<or> wk_status r = W_Artifact \<and> token = '''')"

definition started :: "stamp \<Rightarrow> string \<Rightarrow> string \<Rightarrow> stamp option \<Rightarrow> work_item \<Rightarrow> work_item" where
  "started now worker token expires r = r\<lparr>wk_status := W_Running, wk_attempts := wk_attempts r + 1, wk_worker := Some worker,
     wk_token := (if token = '''' then None else Some token), wk_expires := expires, wk_started := Some now,
     wk_heartbeat := Some now, wk_error := None, wk_finished := None\<rparr>"

definition work_start ::
    "stamp \<Rightarrow> nat \<Rightarrow> string \<Rightarrow> string \<Rightarrow> stamp option \<Rightarrow> work_item list \<Rightarrow> work_item list \<times> bool" where
  "work_start now i worker token expires t =
     (update_where (startable i token) (started now worker token expires) t, rowcount (startable i token) t = 1)"

definition work_reopen :: "stamp \<Rightarrow> nat \<Rightarrow> string \<Rightarrow> work_item list \<Rightarrow> work_item list \<times> bool" where
  "work_reopen now i err t =
     (let p = (\<lambda>r. wk_id r = i \<and> (wk_status r = W_Completed \<or> wk_status r = W_Failed))
      in (update_where p (\<lambda>r. r\<lparr>wk_status := W_Retry, wk_error := Some err, wk_finished := None, wk_heartbeat := Some now\<rparr>) t,
          rowcount p t = 1))"

text \<open>The guard of every statement of a remote worker.\<close>

definition leased_to :: "stamp \<Rightarrow> nat \<Rightarrow> string \<Rightarrow> string \<Rightarrow> work_item \<Rightarrow> bool" where
  "leased_to now i worker token r \<longleftrightarrow> wk_id r = i \<and> wk_status r = W_Running \<and> wk_worker r = Some worker
     \<and> wk_token r = Some token \<and> (case wk_expires r of None \<Rightarrow> False | Some e \<Rightarrow> now \<le> e)"

definition artifact_received :: "stamp \<Rightarrow> (string \<times> json) list \<Rightarrow> work_item \<Rightarrow> work_item" where
  "artifact_received now res r = r\<lparr>wk_status := W_Artifact, wk_result := sorted_keys (JObj res), wk_error := None,
     wk_finished := None, wk_heartbeat := Some now, wk_token := None, wk_expires := None, wk_started := None\<rparr>"

definition work_receive_artifact ::
    "stamp \<Rightarrow> nat \<Rightarrow> (string \<times> json) list \<Rightarrow> string \<Rightarrow> string \<Rightarrow> work_item list \<Rightarrow> work_item list \<times> bool" where
  "work_receive_artifact now i res worker token t =
     (update_where (leased_to now i worker token) (artifact_received now res) t, rowcount (leased_to now i worker token) t = 1)"

definition finished :: "stamp \<Rightarrow> (string \<times> json) list \<Rightarrow> work_item \<Rightarrow> work_item" where
  "finished now res r = r\<lparr>wk_status := W_Completed, wk_result := sorted_keys (JObj res), wk_finished := Some now,
     wk_heartbeat := Some now, wk_token := None, wk_expires := None\<rparr>"

text \<open>\<open>by\<close> is the worker with its token hash, \<open>None\<close> for a local caller.\<close>

definition settle_guard :: "stamp \<Rightarrow> nat \<Rightarrow> (string \<times> string) option \<Rightarrow> work_item \<Rightarrow> bool" where
  "settle_guard now i who r \<longleftrightarrow>
     (case who of None \<Rightarrow> wk_id r = i | Some (worker, token) \<Rightarrow> token \<noteq> '''' \<and> leased_to now i worker token r)"

definition work_finish ::
    "stamp \<Rightarrow> nat \<Rightarrow> (string \<times> json) list \<Rightarrow> (string \<times> string) option \<Rightarrow> work_item list \<Rightarrow> work_item list \<times> bool" where
  "work_finish now i res who t =
     (update_where (settle_guard now i who) (finished now res) t, rowcount (settle_guard now i who) t = 1)"

definition failed :: "stamp \<Rightarrow> string \<Rightarrow> bool \<Rightarrow> (string \<times> json) list option \<Rightarrow> work_item \<Rightarrow> work_item" where
  "failed now err retry res r = r\<lparr>wk_status := (if retry then W_Retry else W_Failed), wk_error := Some err,
     wk_finished := Some now, wk_heartbeat := Some now,
     wk_result := (case res of None \<Rightarrow> wk_result r | Some o' \<Rightarrow> sorted_keys (JObj o')), wk_token := None, wk_expires := None\<rparr>"

definition work_fail ::
    "stamp \<Rightarrow> nat \<Rightarrow> string \<Rightarrow> bool \<Rightarrow> (string \<times> json) list option \<Rightarrow> (string \<times> string) option
     \<Rightarrow> work_item list \<Rightarrow> work_item list \<times> bool" where
  "work_fail now i err retry res who t =
     (update_where (settle_guard now i who) (failed now err retry res) t, rowcount (settle_guard now i who) t = 1)"

section \<open>The queue of a stage\<close>

record queue_id =
  q_run :: string
  q_target :: string
  q_stage :: string

definition completed :: "queue_id \<Rightarrow> string \<Rightarrow> work_db \<Rightarrow> bool" where
  "completed q k db \<longleftrightarrow> work_state db (q_run q) (q_target q) (q_stage q) k = Some W_Completed"

definition stored_result :: "nat \<Rightarrow> work_db \<Rightarrow> (string \<times> json) list" where
  "stored_result i db = (case select_one (\<lambda>r. wk_id r = i) (items db) of
     None \<Rightarrow> [] | Some r \<Rightarrow> (case wk_result r of JObj o' \<Rightarrow> o' | _ \<Rightarrow> []))"

text \<open>\<open>fn\<close> is the stage's function: it may change the database and raise (\<open>Inl\<close>).  \<open>t1\<close> to \<open>t3\<close> are the
  clocks of enqueueing, starting and settling.\<close>

definition run_item ::
    "queue_id \<Rightarrow> stamp \<Rightarrow> stamp \<Rightarrow> stamp \<Rightarrow> string \<Rightarrow> (work_db \<Rightarrow> work_db \<times> (string + (string \<times> json) list))
     \<Rightarrow> (string \<times> json) list \<Rightarrow> string \<Rightarrow> work_db \<Rightarrow> work_db \<times> (string + (string \<times> json) list)" where
  "run_item q t1 t2 t3 k fn payload worker db0 =
     (case enqueue_work t1 (q_run q) (q_target q) (q_stage q) k payload db0 of (db, i) \<Rightarrow>
        if completed q k db then (db, Inr (stored_result i db))
        else case fn (db\<lparr>items := fst (work_start t2 i worker '''' None (items db))\<rparr>) of
          (db', Inl e) \<Rightarrow> (db'\<lparr>items := fst (work_fail t3 i e True None None (items db'))\<rparr>, Inl e)
        | (db', Inr res) \<Rightarrow> (db'\<lparr>items := fst (work_finish t3 i res None (items db'))\<rparr>, Inr res))"

definition counts :: "queue_id \<Rightarrow> work_db \<Rightarrow> (work_status \<times> nat) list" where
  "counts q db = map (\<lambda>(s, rs). (s, length rs)) (group_by wk_status
     (filter (\<lambda>r. wk_run r = q_run q \<and> wk_target r = q_target q \<and> wk_stage r = q_stage q) (items db)))"

section \<open>Budgets\<close>

definition budget_key :: "string \<Rightarrow> string \<Rightarrow> string \<Rightarrow> budget_row \<Rightarrow> bool" where
  "budget_key run tgt metric b \<longleftrightarrow> bg_run b = run \<and> bg_target b = tgt \<and> bg_metric b = metric"

definition budget_set :: "stamp \<Rightarrow> string \<Rightarrow> string \<Rightarrow> budget_row list \<Rightarrow> string \<times> int \<Rightarrow> budget_row list" where
  "budget_set now run tgt bs ml = (case ml of (metric, cap) \<Rightarrow>
     upsert (budget_key run tgt metric)
       \<lparr>bg_run = run, bg_target = tgt, bg_metric = metric, bg_used = 0, bg_limit = cap, bg_updated = now\<rparr>
       (\<lambda>b. b\<lparr>bg_limit := cap, bg_updated := now\<rparr>) bs)"

definition budget_init :: "stamp \<Rightarrow> string \<Rightarrow> string \<Rightarrow> (string \<times> int) list \<Rightarrow> budget_row list \<Rightarrow> budget_row list" where
  "budget_init now run tgt limits bs = foldl (budget_set now run tgt) bs limits"

definition budget_consume ::
    "stamp \<Rightarrow> string \<Rightarrow> string \<Rightarrow> string \<Rightarrow> int \<Rightarrow> budget_row list \<Rightarrow> budget_row list \<times> int \<times> int \<times> bool" where
  "budget_consume now run tgt metric amount0 bs =
     (let amount = max 0 amount0
      in case select_one (budget_key run tgt metric) bs of
           None \<Rightarrow> (bs, amount, 0, True)
         | Some b \<Rightarrow>
             let used = bg_used b + amount
             in if bg_limit b \<noteq> 0 \<and> bg_limit b < used then (bs, used, bg_limit b, False)
                else ((if amount = 0 then bs
                       else update_where (budget_key run tgt metric) (\<lambda>b. b\<lparr>bg_used := used, bg_updated := now\<rparr>) bs),
                      used, bg_limit b, True))"

record run_limits =
  max_http_requests :: int
  max_dns_queries :: int
  max_download_mb :: int
  max_new_assets :: int
  max_runtime_minutes :: int

definition budget_create :: "stamp \<Rightarrow> string \<Rightarrow> string \<Rightarrow> run_limits \<Rightarrow> budget_row list \<Rightarrow> budget_row list" where
  "budget_create now run tgt l bs = budget_init now run tgt
     [(''http_requests'', max_http_requests l), (''dns_queries'', max_dns_queries l),
      (''download_bytes'', max_download_mb l * 1024 * 1024), (''new_assets'', max_new_assets l)] bs"

datatype budget_error = Budget_Exceeded string int int

text \<open>\<open>elapsed\<close> is the number of seconds since the manager was created.\<close>

definition check_runtime :: "run_limits \<Rightarrow> int \<Rightarrow> budget_error option" where
  "check_runtime l elapsed =
     (let cap = max_runtime_minutes l * 60
      in if cap \<noteq> 0 \<and> cap < elapsed then Some (Budget_Exceeded ''runtime_seconds'' elapsed cap) else None)"

definition consume ::
    "run_limits \<Rightarrow> int \<Rightarrow> stamp \<Rightarrow> string \<Rightarrow> string \<Rightarrow> string \<Rightarrow> int \<Rightarrow> budget_row list \<Rightarrow> budget_row list \<times> (budget_error + int \<times> int)" where
  "consume l elapsed now run tgt metric amount bs =
     (case check_runtime l elapsed of
        Some e \<Rightarrow> (bs, Inl e)
      | None \<Rightarrow>
          (case budget_consume now run tgt metric amount bs of (bs', used, cap, allowed) \<Rightarrow>
             if cap \<noteq> 0 \<and> \<not> allowed then (bs', Inl (Budget_Exceeded metric used cap)) else (bs', Inr (used, cap))))"

definition budget_snapshot :: "string \<Rightarrow> string \<Rightarrow> budget_row list \<Rightarrow> (string \<times> int \<times> int) list" where
  "budget_snapshot run tgt bs = map (\<lambda>b. (bg_metric b, bg_used b, bg_limit b))
     (sort_key bg_metric (filter (\<lambda>b. bg_run b = run \<and> bg_target b = tgt) bs))"

end
