(* ===== verification/Work_Queue_System.thy ===== *)
theory Work_Queue_System
  imports Work_Queue
begin

text \<open>
  The work queue under concurrent local and remote workers: what one lease guarantees (an interpretation of
  \<open>lease_table\<close>), a step relation with the tokens that were issued and accepted, the budget under any
  sequence of reservations, and the idempotence of \<open>WorkQueue.run_item\<close>.
\<close>

section \<open>Leases of remote workers\<close>

datatype remote_outcome =
    R_Finish "(string \<times> json) list"
  | R_Fail string bool "(string \<times> json) list option"
  | R_Artifact "(string \<times> json) list"

definition remote_claim :: "stamp \<Rightarrow> string \<Rightarrow> nat \<times> string \<times> stamp option \<Rightarrow> work_item list \<Rightarrow> work_item list" where
  "remote_claim now token a t = (case a of (i, worker, expires) \<Rightarrow>
     fst (work_start now i worker token expires (fst (reclaim_expired_work_leases now t))))"

definition remote_settle ::
    "stamp \<Rightarrow> string \<Rightarrow> nat \<Rightarrow> string \<times> remote_outcome \<Rightarrow> work_item list \<Rightarrow> work_item list \<times> bool" where
  "remote_settle now token i b t = (case b of
       (worker, R_Finish res) \<Rightarrow> work_finish now i res (Some (worker, token)) t
     | (worker, R_Fail err retry res) \<Rightarrow> work_fail now i err retry res (Some (worker, token)) t
     | (worker, R_Artifact res) \<Rightarrow> work_receive_artifact now i res worker token t)"

definition lease_holder :: "work_item \<Rightarrow> string option" where
  "lease_holder r = (if wk_status r = W_Running then wk_token r else None)"

lemma started_fields [simp]:
  "wk_id (started now w tok e r) = wk_id r" "wk_status (started now w tok e r) = W_Running"
  "wk_token (started now w tok e r) = (if tok = '''' then None else Some tok)"
  by (simp_all add: started_def)

lemma reclaimed_fields [simp]:
  "wk_id (reclaimed now r) = wk_id r" "wk_status (reclaimed now r) = W_Retry" "wk_token (reclaimed now r) = None"
  by (simp_all add: reclaimed_def)

lemma finished_fields [simp]:
  "wk_id (finished now res r) = wk_id r" "wk_status (finished now res r) = W_Completed" "wk_token (finished now res r) = None"
  by (simp_all add: finished_def)

lemma failed_fields [simp]:
  "wk_id (failed now e retry res r) = wk_id r" "wk_token (failed now e retry res r) = None"
  by (simp_all add: failed_def)

lemma artifact_fields [simp]:
  "wk_id (artifact_received now res r) = wk_id r" "wk_status (artifact_received now res r) = W_Artifact"
  "wk_token (artifact_received now res r) = None"
  by (simp_all add: artifact_received_def)

text \<open>Every settlement of a remote worker is one guarded update.\<close>

lemma remote_settle_shape:
  "\<exists>p f. (\<forall>t. remote_settle now token i b t = (update_where p f t, rowcount p t = 1))
     \<and> (\<forall>r. p r \<longrightarrow> leased_to now i (fst b) token r) \<and> (\<forall>r. wk_id (f r) = wk_id r \<and> wk_token (f r) = None)"
proof (cases b)
  case (Pair worker out)
  show ?thesis
  proof (cases out)
    case (R_Finish res)
    then show ?thesis unfolding remote_settle_def Pair
      by (intro exI[of _ "settle_guard now i (Some (worker, token))"] exI[of _ "finished now res"])
         (simp add: work_finish_def settle_guard_def)
  next
    case (R_Fail err retry res)
    then show ?thesis unfolding remote_settle_def Pair
      by (intro exI[of _ "settle_guard now i (Some (worker, token))"] exI[of _ "failed now err retry res"])
         (simp add: work_fail_def settle_guard_def)
  next
    case (R_Artifact res)
    then show ?thesis unfolding remote_settle_def Pair
      by (intro exI[of _ "leased_to now i worker token"] exI[of _ "artifact_received now res"])
         (simp add: work_receive_artifact_def)
  qed
qed

lemma leased_holder: "leased_to now i worker token r \<Longrightarrow> lease_holder r = Some token \<and> wk_id r = i \<and> wk_token r = Some token"
  by (simp add: leased_to_def lease_holder_def)

interpretation work_lease: lease_table wk_id lease_holder wk_expires remote_claim "\<lambda>now l k b t. fst (remote_settle now l k b t)"
proof unfold_locales
  fix now l and a :: "nat \<times> string \<times> stamp option" and t :: "work_item list" and r m e
  obtain i w ex where a: "a = (i, w, ex)" by (cases a) auto
  show "map wk_id (remote_claim now l a t) = map wk_id t"
    by (simp add: remote_claim_def a work_start_def reclaim_expired_work_leases_def map_update_where)
  show "r \<in> set (remote_claim now l a t)"
    if "r \<in> set t" "lease_holder r = Some m" "wk_expires r = Some e" "now < e"
  proof -
    have "wk_status r = W_Running" "\<not> lapsed now r" "\<not> startable i l r"
      using that by (auto simp: lease_holder_def lapsed_def startable_def split: if_splits)
    with that(1) show ?thesis
      by (force simp: remote_claim_def a work_start_def reclaim_expired_work_leases_def set_update_where)
  qed
  show "r \<in> set t \<or> lease_holder r = None \<or> lease_holder r = Some l" if "r \<in> set (remote_claim now l a t)"
    using that by (auto simp: remote_claim_def a work_start_def reclaim_expired_work_leases_def set_update_where lease_holder_def
        split: if_splits)
next
  fix now l k and b :: "string \<times> remote_outcome" and t :: "work_item list" and r
  obtain p f where pf: "\<And>t. remote_settle now l k b t = (update_where p f t, rowcount p t = 1)"
    "\<And>r. p r \<Longrightarrow> leased_to now k (fst b) l r" "\<And>r. wk_id (f r) = wk_id r \<and> wk_token (f r) = None"
    using remote_settle_shape[of now l k b] by blast
  show "map wk_id (fst (remote_settle now l k b t)) = map wk_id t" by (simp add: pf map_update_where)
  show "r \<in> set (fst (remote_settle now l k b t))" if "r \<in> set t" "lease_holder r \<noteq> Some l"
    using that pf(2)[of r] leased_holder[of now k "fst b" l r] by (force simp: pf(1) set_update_where)
  show "r \<in> set t \<or> lease_holder r = None \<or> lease_holder r = Some l" if "r \<in> set (fst (remote_settle now l k b t))"
    using that pf(3) by (auto simp: pf(1) set_update_where lease_holder_def)
qed

section \<open>Concurrent workers\<close>

text \<open>\<open>issued\<close> are the token hashes handed out, \<open>accepted\<close> those under which an outcome was accepted.  A token
  is 32 random bytes; that it is fresh is the freshness of the random source.\<close>

record work_sys =
  wdb :: work_db
  issued :: "string list"
  accepted :: "string list"

inductive work_step :: "work_sys \<Rightarrow> work_sys \<Rightarrow> bool" where
  enqueue: "work_step s (s\<lparr>wdb := fst (enqueue_work now run tgt stage k payload (wdb s))\<rparr>)"
| claim: "token \<notin> set (issued s) \<Longrightarrow> token \<noteq> '''' \<Longrightarrow>
    work_step s (s\<lparr>wdb := (wdb s)\<lparr>items := remote_claim now token (i, worker, Some expires) (items (wdb s))\<rparr>,
                   issued := token # issued s\<rparr>)"
| reclaim: "work_step s (s\<lparr>wdb := (wdb s)\<lparr>items := fst (reclaim_expired_work_leases now (items (wdb s)))\<rparr>\<rparr>)"
| settle: "remote_settle now token i out (items (wdb s)) = (t, ok) \<Longrightarrow>
    work_step s (s\<lparr>wdb := (wdb s)\<lparr>items := t\<rparr>, accepted := (if ok then token # accepted s else accepted s)\<rparr>)"
| local_start: "work_step s (s\<lparr>wdb := (wdb s)\<lparr>items := fst (work_start now i worker '''' None (items (wdb s)))\<rparr>\<rparr>)"
| local_finish: "work_step s (s\<lparr>wdb := (wdb s)\<lparr>items := fst (work_finish now i res None (items (wdb s)))\<rparr>\<rparr>)"
| local_fail: "work_step s (s\<lparr>wdb := (wdb s)\<lparr>items := fst (work_fail now i err retry res' None (items (wdb s)))\<rparr>\<rparr>)"
| reopen: "work_step s (s\<lparr>wdb := (wdb s)\<lparr>items := fst (work_reopen now i err (items (wdb s)))\<rparr>\<rparr>)"

definition empty_queue :: work_sys where
  "empty_queue = \<lparr>wdb = \<lparr>next_work = 1, items = [], budgets = []\<rparr>, issued = [], accepted = []\<rparr>"

inductive work_reachable :: "work_sys \<Rightarrow> bool" where
  init: "work_reachable empty_queue"
| step: "work_reachable s \<Longrightarrow> work_step s s' \<Longrightarrow> work_reachable s'"

text \<open>What the tokens in the table mean.\<close>

definition token_inv :: "string list \<Rightarrow> string list \<Rightarrow> work_item list \<Rightarrow> bool" where
  "token_inv iss acc t \<longleftrightarrow>
     (\<forall>r \<in> set t. \<forall>tok. wk_token r = Some tok \<longrightarrow> wk_status r = W_Running \<and> tok \<in> set iss \<and> tok \<notin> set acc)
   \<and> (\<forall>r \<in> set t. \<forall>q \<in> set t. wk_token r \<noteq> None \<and> wk_token r = wk_token q \<longrightarrow> r = q)"

definition work_inv :: "work_sys \<Rightarrow> bool" where
  "work_inv s \<longleftrightarrow> keyed wk_id (items (wdb s)) \<and> (\<forall>r \<in> set (items (wdb s)). wk_id r < next_work (wdb s))
     \<and> token_inv (issued s) (accepted s) (items (wdb s))
     \<and> set (accepted s) \<subseteq> set (issued s) \<and> distinct (accepted s)"

lemma token_invD:
  "token_inv iss acc t \<Longrightarrow> r \<in> set t \<Longrightarrow> wk_token r = Some tok \<Longrightarrow> wk_status r = W_Running \<and> tok \<in> set iss \<and> tok \<notin> set acc"
  "token_inv iss acc t \<Longrightarrow> r \<in> set t \<Longrightarrow> q \<in> set t \<Longrightarrow> wk_token r = Some tok \<Longrightarrow> wk_token q = Some tok \<Longrightarrow> r = q"
  by (auto simp: token_inv_def)

text \<open>An update that only takes tokens away keeps the invariant.\<close>

lemma token_inv_drop:
  assumes inv: "token_inv iss acc t"
    and f: "\<And>r. r \<in> set t \<Longrightarrow> p r \<Longrightarrow> wk_token (f r) = None"
  shows "token_inv iss acc (update_where p f t)"
proof -
  have kept: "r \<in> set t" if "r \<in> set (update_where p f t)" "wk_token r \<noteq> None" for r
    using that f by (auto simp: set_update_where split: if_splits)
  show ?thesis using inv kept unfolding token_inv_def by (metis option.distinct(1))
qed

lemma token_inv_more: "token_inv iss acc t \<Longrightarrow> set iss \<subseteq> set iss' \<Longrightarrow> token_inv iss' acc t"
  by (auto simp: token_inv_def)

lemma token_inv_snoc: "token_inv iss acc t \<Longrightarrow> wk_token new = None \<Longrightarrow> token_inv iss acc (t @ [new])"
  unfolding token_inv_def by (auto, metis)

text \<open>A fresh token goes to at most one row.\<close>

lemma token_inv_start:
  assumes inv: "token_inv iss acc t" and keys: "keyed wk_id t" and fresh: "token \<notin> set iss" "set acc \<subseteq> set iss"
  shows "token_inv (token # iss) acc (fst (work_start now i worker token expires t))"
proof -
  let ?p = "startable i token" and ?f = "started now worker token expires"
  have new: "r \<in> set t \<and> \<not> ?p r \<or> (\<exists>s \<in> set t. ?p s \<and> r = ?f s)" if "r \<in> set (update_where ?p ?f t)" for r
    using that unfolding set_update_where by (metis (full_types))
  have one: "s = s'" if "s \<in> set t" "s' \<in> set t" "?p s" "?p s'" for s s'
    using that keyed_unique[OF keys, of s s'] by (auto simp: startable_def)
  show ?thesis
    unfolding work_start_def fst_conv token_inv_def
  proof (intro conjI ballI allI impI)
    fix r tok assume r: "r \<in> set (update_where ?p ?f t)" "wk_token r = Some tok"
    from new[OF r(1)] show "wk_status r = W_Running" "tok \<in> set (token # iss)" "tok \<notin> set acc"
      using r(2) token_invD(1)[OF inv] fresh by (auto split: if_splits)
  next
    fix r q assume r: "r \<in> set (update_where ?p ?f t)" "q \<in> set (update_where ?p ?f t)" "wk_token r \<noteq> None \<and> wk_token r = wk_token q"
    then obtain tok where tok1: "wk_token r = Some tok" by blast
    moreover from this r(3) have "wk_token q = Some tok" by simp
    ultimately have tok: "wk_token r = Some tok" "wk_token q = Some tok" by simp_all
    from new[OF r(1)] new[OF r(2)] show "r = q"
      using tok one token_invD[OF inv] fresh(1) by (auto split: if_splits)
  qed
qed

lemma keyed_ids: "keyed wk_id t \<Longrightarrow> (\<And>r. p r \<Longrightarrow> wk_id (f r) = wk_id r) \<Longrightarrow> keyed wk_id (update_where p f t)"
  by (rule keyed_update_where)

lemma ids_below:
  "\<forall>r \<in> set t. wk_id r < n \<Longrightarrow> (\<And>r. p r \<Longrightarrow> wk_id (f r) = wk_id r) \<Longrightarrow> \<forall>r \<in> set (update_where p f t). wk_id r < n"
  by (auto simp: set_update_where)

text \<open>A token-dropping statement keeps the whole invariant.\<close>

lemma work_inv_drop:
  assumes "work_inv s" "\<And>r. r \<in> set (items (wdb s)) \<Longrightarrow> p r \<Longrightarrow> wk_token (f r) = None" "\<And>r. p r \<Longrightarrow> wk_id (f r) = wk_id r"
  shows "work_inv (s\<lparr>wdb := (wdb s)\<lparr>items := update_where p f (items (wdb s))\<rparr>\<rparr>)"
  using assms token_inv_drop[of "issued s" "accepted s" "items (wdb s)" p f]
    ids_below[of "items (wdb s)" "next_work (wdb s)" p f]
  by (simp add: work_inv_def keyed_ids)

lemma enqueue_shape:
  "fst (enqueue_work now run tgt stage k payload db) = db \<or>
   fst (enqueue_work now run tgt stage k payload db) = db\<lparr>next_work := next_work db + 1,
     items := items db @ [fresh_item (next_work db) now run tgt stage k payload]\<rparr>"
  by (simp add: enqueue_work_def Let_def)

lemma work_enqueue_inv:
  assumes "work_inv s"
  shows "work_inv (s\<lparr>wdb := fst (enqueue_work now run tgt stage k payload (wdb s))\<rparr>)"
  using enqueue_shape[of now run tgt stage k payload "wdb s"]
proof
  assume "fst (enqueue_work now run tgt stage k payload (wdb s)) = wdb s"
  with assms show ?thesis by (simp add: work_inv_def)
next
  let ?new = "fresh_item (next_work (wdb s)) now run tgt stage k payload"
  assume eq: "fst (enqueue_work now run tgt stage k payload (wdb s)) =
    (wdb s)\<lparr>next_work := next_work (wdb s) + 1, items := items (wdb s) @ [?new]\<rparr>"
  have "token_inv (issued s) (accepted s) (items (wdb s) @ [?new])"
    using assms by (intro token_inv_snoc) (simp_all add: work_inv_def fresh_item_def)
  then show ?thesis using assms by (auto simp: eq work_inv_def keyed_def fresh_item_def less_Suc_eq)
qed

lemma work_settle_inv:
  assumes inv: "work_inv s" and st: "remote_settle now token i out (items (wdb s)) = (t, ok)"
  shows "work_inv (s\<lparr>wdb := (wdb s)\<lparr>items := t\<rparr>, accepted := (if ok then token # accepted s else accepted s)\<rparr>)"
proof -
  let ?t = "items (wdb s)"
  obtain p f where pf: "\<And>t. remote_settle now token i out t = (update_where p f t, rowcount p t = 1)"
    "\<And>r. p r \<Longrightarrow> leased_to now i (fst out) token r" "\<And>r. wk_id (f r) = wk_id r \<and> wk_token (f r) = None"
    using remote_settle_shape[of now token i out] by blast
  have t: "t = update_where p f ?t" and ok: "ok = (rowcount p ?t = 1)" using st pf(1)[of ?t] by simp_all
  have dropped: "work_inv (s\<lparr>wdb := (wdb s)\<lparr>items := t\<rparr>\<rparr>)"
    unfolding t by (rule work_inv_drop[OF inv]) (simp_all add: pf(3))
  show ?thesis
  proof (cases ok)
    case False
    with dropped show ?thesis by simp
  next
    case True
    then have "filter p ?t \<noteq> []" by (auto simp: ok rowcount_def)
    then obtain r where r: "r \<in> set ?t" "p r" by (auto simp: filter_empty_conv)
    have tok: "wk_token r = Some token" "wk_id r = i" using leased_holder[OF pf(2)[OF r(2)]] by simp_all
    have tinv: "token_inv (issued s) (accepted s) ?t" using inv by (simp add: work_inv_def)
    have gone: "wk_token q \<noteq> Some token" if "q \<in> set t" for q
    proof
      assume q: "wk_token q = Some token"
      from that obtain q' where q': "q' \<in> set ?t" "q = (if p q' then f q' else q')" by (auto simp: t set_update_where)
      show False
      proof (cases "p q'")
        case True
        with q q' pf(3) show False by simp
      next
        case False
        with q q' tok r token_invD(2)[OF tinv, of q r token] show False by auto
      qed
    qed
    have "token_inv (issued s) (token # accepted s) t"
      using dropped gone by (auto simp: work_inv_def token_inv_def)
    with dropped True token_invD(1)[OF tinv r(1) tok(1)] show ?thesis by (simp add: work_inv_def)
  qed
qed

lemma work_step_inv:
  assumes "work_step s s'" "work_inv s"
  shows "work_inv s'"
  using assms
proof (induction rule: work_step.induct)
  case (enqueue s now run tgt stage k payload)
  then show ?case by (rule work_enqueue_inv)
next
  case (claim token s now i worker expires)
  let ?t = "update_where (lapsed now) (reclaimed now) (items (wdb s))"
  have mid: "work_inv (s\<lparr>wdb := (wdb s)\<lparr>items := ?t\<rparr>\<rparr>)"
    by (rule work_inv_drop[OF claim.prems]) simp_all
  then have parts: "token_inv (issued s) (accepted s) ?t" "keyed wk_id ?t" "set (accepted s) \<subseteq> set (issued s)"
    "\<forall>r \<in> set ?t. wk_id r < next_work (wdb s)" by (simp_all add: work_inv_def)
  have "token_inv (token # issued s) (accepted s) (fst (work_start now i worker token (Some expires) ?t))"
    by (rule token_inv_start[OF parts(1,2) claim(1) parts(3)])
  moreover have "keyed wk_id (fst (work_start now i worker token (Some expires) ?t))"
    unfolding work_start_def fst_conv by (rule keyed_ids[OF parts(2)]) simp
  moreover have "\<forall>r \<in> set (fst (work_start now i worker token (Some expires) ?t)). wk_id r < next_work (wdb s)"
    unfolding work_start_def fst_conv by (rule ids_below[OF parts(4)]) simp
  ultimately show ?case using claim.prems parts(3)
    by (simp add: work_inv_def remote_claim_def reclaim_expired_work_leases_def subset_insertI2)
next
  case (reclaim s now)
  then show ?case
    unfolding reclaim_expired_work_leases_def fst_conv by (rule work_inv_drop) simp_all
next
  case (settle now token i out s t ok)
  then show ?case by (intro work_settle_inv)
next
  case (local_start s now i worker)
  then show ?case unfolding work_start_def fst_conv by (rule work_inv_drop) simp_all
next
  case (local_finish s now i res)
  then show ?case unfolding work_finish_def fst_conv by (rule work_inv_drop) simp_all
next
  case (local_fail s now i err retry res')
  then show ?case unfolding work_fail_def fst_conv by (rule work_inv_drop) simp_all
next
  case (reopen s now i err)
  then have "token_inv (issued s) (accepted s) (items (wdb s))" by (simp add: work_inv_def)
  then have none: "wk_token r = None" if "r \<in> set (items (wdb s))" "wk_status r = W_Completed \<or> wk_status r = W_Failed" for r
    using that token_invD(1)[of "issued s" "accepted s" "items (wdb s)" r] by (cases "wk_token r") auto
  show ?case unfolding work_reopen_def Let_def fst_conv
    by (rule work_inv_drop[OF reopen]) (auto simp: none)
qed

lemma work_reachable_inv: "work_reachable s \<Longrightarrow> work_inv s"
proof (induction rule: work_reachable.induct)
  case init
  show ?case by (simp add: work_inv_def empty_queue_def token_inv_def keyed_def)
next
  case (step s s')
  then show ?case by (blast intro: work_step_inv)
qed

section \<open>What a lease guarantees\<close>

lemma settle_without_lease:
  assumes "\<And>r. r \<in> set t \<Longrightarrow> \<not> leased_to now i (fst out) token r"
  shows "remote_settle now token i out t = (t, False)"
proof -
  obtain p f where pf: "\<And>t. remote_settle now token i out t = (update_where p f t, rowcount p t = 1)"
    "\<And>r. p r \<Longrightarrow> leased_to now i (fst out) token r"
    using remote_settle_shape[of now token i out] by blast
  have none: "\<not> p r" if "r \<in> set t" for r using that assms pf(2) by blast
  then have "update_where p f t = t" "filter p t = []"
    by (auto simp: update_where_def filter_empty_conv intro!: map_idI)
  then show ?thesis by (simp add: pf(1) rowcount_def)
qed

text \<open>C15: A lease of a work item is settled at most once: whatever local and remote workers do in whatever
  order, no token has two accepted outcomes, and once an outcome was accepted under a token, every further
  result, failure or artifact sent with it is refused and changes nothing.\<close>

theorem lease_settles_at_most_once:
  assumes "work_reachable s"
  shows "distinct (accepted s)
    \<and> (\<forall>tok \<in> set (accepted s). \<forall>now i out. remote_settle now tok i out (items (wdb s)) = (items (wdb s), False))"
proof -
  have inv: "work_inv s" by (rule work_reachable_inv[OF assms])
  have "remote_settle now tok i out (items (wdb s)) = (items (wdb s), False)" if "tok \<in> set (accepted s)" for tok now i out
  proof (rule settle_without_lease)
    fix r assume "r \<in> set (items (wdb s))"
    with inv that have "wk_token r \<noteq> Some tok" using token_invD(1)[of "issued s" "accepted s" "items (wdb s)" r tok]
      by (auto simp: work_inv_def)
    then show "\<not> leased_to now i (fst out) tok r" by (auto dest: leased_holder)
  qed
  with inv show ?thesis by (simp add: work_inv_def)
qed

text \<open>One item, claimed by a remote worker that reports success in time.\<close>

definition demo_item :: work_item where
  "demo_item = fresh_item 1 10 ''r'' ''t'' ''js'' ''k'' []"

definition demo_claimed :: work_item where
  "demo_claimed = started 20 ''w'' ''tok'' (Some 320) demo_item"

definition demo_settled :: work_sys where
  "demo_settled = \<lparr>wdb = \<lparr>next_work = 2, items = [finished 100 [] demo_claimed], budgets = []\<rparr>,
     issued = [''tok''], accepted = [''tok'']\<rparr>"

lemma demo_settled_reachable: "work_reachable demo_settled"
proof -
  let ?s1 = "\<lparr>wdb = \<lparr>next_work = 2, items = [demo_item], budgets = []\<rparr>, issued = [], accepted = []\<rparr>"
  let ?s2 = "\<lparr>wdb = \<lparr>next_work = 2, items = [demo_claimed], budgets = []\<rparr>, issued = [''tok''], accepted = []\<rparr>"
  have enq: "work_step empty_queue ?s1"
    using work_step.enqueue[of empty_queue 10 "''r''" "''t''" "''js''" "''k''" "[]"]
    by (simp add: enqueue_work_def Let_def empty_queue_def demo_item_def numeral_2_eq_2)
  have clm: "work_step ?s1 ?s2"
    using work_step.claim[of "''tok''" ?s1 20 1 "''w''" 320]
    by (simp add: remote_claim_def reclaim_expired_work_leases_def work_start_def lapsed_def startable_def
        demo_item_def fresh_item_def demo_claimed_def)
  have fin: "work_step ?s2 demo_settled"
    using work_step.settle[of 100 "''tok''" 1 "(''w'', R_Finish [])" ?s2 "[finished 100 [] demo_claimed]" True]
    by (simp add: remote_settle_def work_finish_def settle_guard_def leased_to_def rowcount_def demo_settled_def
        demo_claimed_def demo_item_def fresh_item_def started_def)
  show ?thesis by (rule work_reachable.step[OF work_reachable.step[OF work_reachable.step[OF work_reachable.init enq] clm] fin])
qed

theorem lease_settles_at_most_once_witness:
  "snd (remote_settle 130 ''tok'' 1 (''w'', R_Fail ''late'' True None) (items (wdb demo_settled))) = False"
  using lease_settles_at_most_once[OF demo_settled_reachable] by (simp add: demo_settled_def)

text \<open>A crashed worker's item is handed over: when its lease has lapsed, the next claim of the item
  succeeds, the item runs under the new lease, and whatever the old worker sends under its own token, at any
  time, is refused; as long as the lease has not lapsed, the holder's settlements are accepted.\<close>

theorem expired_lease_is_handed_over:
  assumes keys: "keyed wk_id t" and r: "r \<in> set t" "wk_status r = W_Running" "wk_worker r = Some worker"
    "wk_token r = Some old" "wk_expires r = Some e"
    and old: "old \<noteq> ''''" "new \<noteq> old" and others: "\<And>q. q \<in> set t \<Longrightarrow> wk_token q = Some old \<Longrightarrow> q = r"
  shows "if e < now
    then snd (work_start now (wk_id r) worker2 new (Some expires) (fst (reclaim_expired_work_leases now t)))
       \<and> (\<forall>now' i out. remote_settle now' old i out (remote_claim now new (wk_id r, worker2, Some expires) t)
            = (remote_claim now new (wk_id r, worker2, Some expires) t, False))
    else snd (work_finish now (wk_id r) res (Some (worker, old)) t)"
proof (cases "e < now")
  case True
  let ?t = "update_where (lapsed now) (reclaimed now) t"
  have lapsed: "lapsed now r" using True r by (simp add: lapsed_def)
  have keys': "keyed wk_id ?t" by (rule keyed_ids[OF keys]) simp
  have again: "reclaimed now r \<in> set ?t" using lapsed r(1) by (auto simp: update_where_def image_iff intro!: bexI[of _ r])
  have "rowcount (\<lambda>q. wk_id q = wk_id r \<and> (wk_status q = W_Queued \<or> wk_status q = W_Retry \<or> wk_status q = W_Artifact \<and> new = '''')) ?t = 1"
    unfolding rowcount_key[OF keys'] using again by (auto intro!: bexI[of _ "reclaimed now r"])
  then have "rowcount (startable (wk_id r) new) ?t = 1" by (simp add: startable_def[abs_def])
  moreover have mid: "wk_token q \<noteq> Some old" if "q \<in> set ?t" for q
  proof -
    from that obtain s where s: "s \<in> set t" "q = (if lapsed now s then reclaimed now s else s)" by (auto simp: set_update_where)
    with others[of s] lapsed show ?thesis by (cases "lapsed now s") auto
  qed
  have "wk_token q \<noteq> Some old" if "q \<in> set (remote_claim now new (wk_id r, worker2, Some expires) t)" for q
  proof -
    from that obtain s where s: "s \<in> set ?t"
      "q = (if startable (wk_id r) new s then started now worker2 new (Some expires) s else s)"
      by (auto simp: remote_claim_def reclaim_expired_work_leases_def work_start_def set_update_where)
    with mid[of s] old show ?thesis by (cases "startable (wk_id r) new s") auto
  qed
  then have "remote_settle now' old i out (remote_claim now new (wk_id r, worker2, Some expires) t)
      = (remote_claim now new (wk_id r, worker2, Some expires) t, False)" for now' i out
    by (intro settle_without_lease) (auto dest: leased_holder)
  ultimately show ?thesis using True by (simp add: work_start_def reclaim_expired_work_leases_def)
next
  case False
  have "rowcount (\<lambda>q. wk_id q = wk_id r \<and> settle_guard now (wk_id r) (Some (worker, old)) q) t = 1"
    unfolding rowcount_key[OF keys] using False r old by (auto simp: settle_guard_def leased_to_def)
  moreover have "(\<lambda>q. wk_id q = wk_id r \<and> settle_guard now (wk_id r) (Some (worker, old)) q) = settle_guard now (wk_id r) (Some (worker, old))"
    by (auto simp: fun_eq_iff settle_guard_def leased_to_def)
  ultimately show ?thesis using False by (simp add: work_finish_def)
qed

theorem expired_lease_is_handed_over_witness:
  "snd (work_start 400 1 ''w2'' ''tok2'' (Some 700) (fst (reclaim_expired_work_leases 400 [demo_claimed])))"
  using expired_lease_is_handed_over[of "[demo_claimed]" demo_claimed "''w''" "''tok''" 320 "''tok2''" 400 "''w2''" 700]
  by (simp add: keyed_def demo_claimed_def started_def demo_item_def fresh_item_def)

section \<open>Budgets\<close>

text \<open>Any number of reservations, with the amounts that were admitted.\<close>

fun reserve_all ::
    "string \<Rightarrow> string \<Rightarrow> string \<Rightarrow> (stamp \<times> int) list \<Rightarrow> budget_row list \<Rightarrow> budget_row list \<times> int list" where
  "reserve_all run tgt metric [] bs = (bs, [])"
| "reserve_all run tgt metric ((now, amount) # reqs) bs =
     (case budget_consume now run tgt metric amount bs of (bs1, _, _, allowed) \<Rightarrow>
        case reserve_all run tgt metric reqs bs1 of (bs2, granted) \<Rightarrow>
          (bs2, if allowed then max 0 amount # granted else granted))"

lemma budget_after_update:
  "select_one (budget_key run tgt metric) (update_where (budget_key run tgt metric) (\<lambda>b. b\<lparr>bg_used := u, bg_updated := now\<rparr>) bs)
     = map_option (\<lambda>b. b\<lparr>bg_used := u, bg_updated := now\<rparr>) (select_one (budget_key run tgt metric) bs)"
proof -
  have "select_one (budget_key run tgt metric) (update_where (budget_key run tgt metric) (\<lambda>b. b\<lparr>bg_used := u, bg_updated := now\<rparr>) bs)
      = map_option (\<lambda>b. if budget_key run tgt metric b then b\<lparr>bg_used := u, bg_updated := now\<rparr> else b) (select_one (budget_key run tgt metric) bs)"
    by (rule select_one_update_where) (simp add: budget_key_def)
  then show ?thesis by (auto dest: select_one_Some split: option.splits intro!: option.map_cong)
qed

lemma consume_other:
  "\<not> (r = run \<and> t = tgt \<and> m = metric) \<Longrightarrow>
   select_one (budget_key r t m) (fst (budget_consume now run tgt metric amount bs)) = select_one (budget_key r t m) bs"
  by (auto simp: budget_consume_def Let_def budget_key_def split: option.split intro!: select_one_update_other)

text \<open>C16: A budget is never overspent: whatever amounts are requested in whatever order, the recorded usage
  grows by exactly the amounts that were admitted and never passes the limit, a rejected reservation leaves
  no trace, and every other budget is untouched.\<close>

theorem budget_is_never_overspent:
  assumes "select_one (budget_key run tgt metric) bs = Some b" "bg_limit b \<noteq> 0" "bg_used b \<le> bg_limit b"
    and "reserve_all run tgt metric reqs bs = (bs', granted)"
  shows "(\<exists>b'. select_one (budget_key run tgt metric) bs' = Some b' \<and> bg_limit b' = bg_limit b
            \<and> bg_used b' = bg_used b + sum_list granted \<and> bg_used b' \<le> bg_limit b)
    \<and> (\<forall>r t m. (r, t, m) \<noteq> (run, tgt, metric) \<longrightarrow> select_one (budget_key r t m) bs' = select_one (budget_key r t m) bs)"
  using assms
proof (induction reqs arbitrary: bs b granted)
  case (Cons req reqs)
  obtain now amount where req: "req = (now, amount)" by (cases req) auto
  obtain bs1 u l allowed where c: "budget_consume now run tgt metric amount bs = (bs1, u, l, allowed)"
    by (cases "budget_consume now run tgt metric amount bs") auto
  obtain rest where r: "reserve_all run tgt metric reqs bs1 = (bs', rest)" "granted = (if allowed then max 0 amount # rest else rest)"
    using Cons.prems(4) by (auto simp: req c split: prod.splits)
  have other: "select_one (budget_key r t m) bs1 = select_one (budget_key r t m) bs" if "(r, t, m) \<noteq> (run, tgt, metric)" for r t m
    using consume_other[of r run t tgt m metric now amount bs] that by (auto simp: c)
  let ?b1 = "if allowed \<and> max 0 amount \<noteq> 0 then b\<lparr>bg_used := bg_used b + max 0 amount, bg_updated := now\<rparr> else b"
  have b1: "select_one (budget_key run tgt metric) bs1 = Some ?b1" "bg_limit ?b1 = bg_limit b" "bg_used ?b1 \<le> bg_limit b"
    "bg_used ?b1 = bg_used b + (if allowed then max 0 amount else 0)"
    using c Cons.prems(1,2,3) by (auto simp: budget_consume_def Let_def budget_after_update split: if_splits)
  from Cons.IH[OF b1(1) _ _ r(1)] b1(2,3) Cons.prems(2)
  have "(\<exists>b'. select_one (budget_key run tgt metric) bs' = Some b' \<and> bg_limit b' = bg_limit b
            \<and> bg_used b' = bg_used ?b1 + sum_list rest \<and> bg_used b' \<le> bg_limit b)"
    "\<forall>r t m. (r, t, m) \<noteq> (run, tgt, metric) \<longrightarrow> select_one (budget_key r t m) bs' = select_one (budget_key r t m) bs1"
    by simp_all
  with b1(4) other r(2) show ?case by (auto simp: add.assoc)
qed simp

definition demo_budget :: budget_row where
  "demo_budget = \<lparr>bg_run = ''r'', bg_target = ''t'', bg_metric = ''dns_queries'', bg_used = 95, bg_limit = 100, bg_updated = 1\<rparr>"

theorem budget_is_never_overspent_witness:
  "\<exists>b'. select_one (budget_key ''r'' ''t'' ''dns_queries'')
      (fst (reserve_all ''r'' ''t'' ''dns_queries'' [(2, 10), (3, 5), (4, 1)] [demo_budget])) = Some b' \<and> bg_used b' = 100"
proof -
  have res: "reserve_all ''r'' ''t'' ''dns_queries'' [(2, 10), (3, 5), (4, 1)] [demo_budget]
      = ([demo_budget\<lparr>bg_used := 100, bg_updated := 3\<rparr>], [5])"
    by (simp add: budget_consume_def select_one_def budget_key_def demo_budget_def)
  have "select_one (budget_key ''r'' ''t'' ''dns_queries'') [demo_budget] = Some demo_budget" "bg_limit demo_budget \<noteq> 0"
    "bg_used demo_budget \<le> bg_limit demo_budget" "bg_used demo_budget = 95"
    by (simp_all add: select_one_def budget_key_def demo_budget_def)
  from budget_is_never_overspent[OF this(1-3) res, THEN conjunct1] this(4) show ?thesis unfolding res fst_conv by auto
qed

section \<open>Idempotence of items\<close>

definition queue_ok :: "work_db \<Rightarrow> bool" where
  "queue_ok db \<longleftrightarrow> keyed wk_id (items db) \<and> keyed (\<lambda>r. (wk_run r, wk_target r, wk_stage r, wk_key r)) (items db)
     \<and> (\<forall>r \<in> set (items db). wk_id r < next_work db)"

lemma work_key_tuple: "work_key run tgt stage k = (\<lambda>r. (wk_run r, wk_target r, wk_stage r, wk_key r) = (run, tgt, stage, k))"
  by (auto simp: work_key_def fun_eq_iff)

lemma work_row_unique:
  assumes "queue_ok db" "r \<in> set (items db)" "work_key run tgt stage k r"
  shows "work_row db run tgt stage k = Some r"
  using assms select_one_key[of "\<lambda>r. (wk_run r, wk_target r, wk_stage r, wk_key r)" "items db" r]
  by (simp add: work_row_def work_key_tuple queue_ok_def)

lemma enqueue_ok: "queue_ok db \<Longrightarrow> queue_ok (fst (enqueue_work now run tgt stage k payload db))"
  by (auto simp: queue_ok_def enqueue_work_def Let_def fresh_item_def keyed_def work_key_def list_ex_iff less_Suc_eq image_iff
      split: if_split)

lemma enqueue_finds:
  assumes "queue_ok db" "enqueue_work now run tgt stage k payload db = (db', i)"
  shows "\<exists>r \<in> set (items db'). work_key run tgt stage k r \<and> wk_id r = i"
proof -
  have "work_row db' run tgt stage k \<noteq> None"
    using assms(2) by (auto simp: enqueue_work_def Let_def work_row_def list_ex_select select_one_snoc fresh_item_def work_key_def
        split: if_splits option.splits)
  then obtain r where "work_row db' run tgt stage k = Some r" by blast
  with assms(2) show ?thesis
    by (auto simp: enqueue_work_def Let_def work_row_def dest: select_one_Some split: if_splits)
qed

abbreviation item_key :: "work_item \<Rightarrow> string \<times> string \<times> string \<times> string" where
  "item_key r \<equiv> (wk_run r, wk_target r, wk_stage r, wk_key r)"

definition same_item :: "work_item \<Rightarrow> work_item \<Rightarrow> bool" where
  "same_item r q \<longleftrightarrow> item_key q = item_key r \<and> wk_id q = wk_id r"

lemma settled_same [simp]:
  "same_item r (started now w tok e r)" "same_item r (finished now res r)" "same_item r (failed now err retry res' r)"
  by (simp_all add: same_item_def started_def finished_def failed_def)

lemma work_key_same: "same_item r q \<Longrightarrow> work_key run tgt stage k q = work_key run tgt stage k r"
  by (auto simp: same_item_def work_key_def)

lemma settled_results [simp]:
  "wk_result (finished now res r) = sorted_keys (JObj res)" "wk_error (failed now err retry res' r) = Some err"
  "wk_status (failed now err retry res' r) = (if retry then W_Retry else W_Failed)"
  by (simp_all add: finished_def failed_def)

lemma row_after_update:
  assumes "keyed wk_id t" "keyed item_key t" "r \<in> set t" "\<And>r. same_item r (f r)"
  shows "keyed wk_id (update_where p f t)" "keyed item_key (update_where p f t)"
    "(if p r then f r else r) \<in> set (update_where p f t)"
  using assms by (auto simp: same_item_def set_update_where intro!: keyed_update_where)

lemma found_row:
  assumes "keyed item_key (items db)" "r \<in> set (items db)" "work_key run tgt stage k r"
  shows "work_row db run tgt stage k = Some r" "enqueue_work now run tgt stage k payload db = (db, wk_id r)"
proof -
  show row: "work_row db run tgt stage k = Some r"
    using assms select_one_key[of item_key "items db" r] by (simp add: work_row_def work_key_tuple)
  have "list_ex (work_key run tgt stage k) (items db)" using assms(2,3) by (auto simp: list_ex_iff)
  then show "enqueue_work now run tgt stage k payload db = (db, wk_id r)" by (simp add: enqueue_work_def Let_def row)
qed

lemma found_by_id: "keyed wk_id (items db) \<Longrightarrow> r \<in> set (items db) \<Longrightarrow> select_one (\<lambda>q. wk_id q = wk_id r) (items db) = Some r"
  by (rule select_one_key)

text \<open>What a run of an item leaves behind.\<close>

lemma run_item_leaves:
  assumes ok: "queue_ok db0" and fn: "\<And>d. items (fst (fn d)) = items d"
    and run: "run_item q t1 t2 t3 k fn payload w db0 = (db1, out)"
  shows "\<exists>r \<in> set (items db1). keyed wk_id (items db1) \<and> keyed item_key (items db1)
    \<and> work_key (q_run q) (q_target q) (q_stage q) k r
    \<and> (case out of Inr res \<Rightarrow> wk_status r = W_Completed \<and> (wk_result r = sorted_keys (JObj res) \<or> res = stored_result (wk_id r) db1)
        | Inl e \<Rightarrow> wk_status r = W_Retry \<and> wk_error r = Some e)"
proof -
  obtain db i where e: "enqueue_work t1 (q_run q) (q_target q) (q_stage q) k payload db0 = (db, i)" by fastforce
  from enqueue_finds[OF ok e] obtain r where r: "r \<in> set (items db)" "work_key (q_run q) (q_target q) (q_stage q) k r" "wk_id r = i" by blast
  have keyed: "keyed wk_id (items db)" "keyed item_key (items db)"
    using enqueue_ok[OF ok, of t1 "q_run q" "q_target q" "q_stage q" k payload] e by (simp_all add: queue_ok_def)
  have compl: "completed q k db \<longleftrightarrow> wk_status r = W_Completed"
    using found_row(1)[OF keyed(2) r(1,2)] by (simp add: completed_def work_state_def)
  show ?thesis
  proof (cases "completed q k db")
    case True
    with run have "db1 = db" "out = Inr (stored_result i db)" by (auto simp: run_item_def e)
    with True compl r keyed show ?thesis by auto
  next
    case False
    define db2 where "db2 = db\<lparr>items := fst (work_start t2 i w '''' None (items db))\<rparr>"
    have it2: "items db2 = update_where (startable i '''') (started t2 w '''' None) (items db)" by (simp add: db2_def work_start_def)
    note k2 = row_after_update[OF keyed r(1), of "started t2 w '''' None" "startable i ''''", folded it2]
    define r2 where "r2 = (if startable i '''' r then started t2 w '''' None r else r)"
    have r2: "r2 \<in> set (items db2)" "same_item r r2" "keyed wk_id (items db2)" "keyed item_key (items db2)"
      using k2 by (simp_all add: r2_def same_item_def[of r r])
    obtain db3 res where fn2: "fn db2 = (db3, res)" by fastforce
    have it3: "items db3 = items db2" using fn[of db2] by (simp add: fn2)
    have guard: "settle_guard t3 i None r2" using r2(2) r(3) by (simp add: settle_guard_def same_item_def)
    have key2: "work_key (q_run q) (q_target q) (q_stage q) k r2" using r2(2) r(2) by (auto simp: work_key_def same_item_def)
    show ?thesis
    proof (cases res)
      case (Inl err)
      with run False have "items db1 = update_where (settle_guard t3 i None) (failed t3 err True None) (items db2)" "out = Inl err"
        by (auto simp: run_item_def e db2_def[symmetric] fn2 it3 work_fail_def)
      with row_after_update[where f = "failed t3 err True None" and p = "settle_guard t3 i None", OF r2(3,4,1) settled_same(3)] guard key2 show ?thesis
        by (intro bexI[of _ "failed t3 err True None r2"]) (simp_all add: work_key_same[OF settled_same(3)])
    next
      case (Inr v)
      with run False have "items db1 = update_where (settle_guard t3 i None) (finished t3 v) (items db2)" "out = Inr v"
        by (auto simp: run_item_def e db2_def[symmetric] fn2 it3 work_finish_def)
      with row_after_update[where f = "finished t3 v" and p = "settle_guard t3 i None", OF r2(3,4,1) settled_same(2)] guard key2 show ?thesis
        by (intro bexI[of _ "finished t3 v r2"]) (simp_all add: work_key_same[OF settled_same(2)])
    qed
  qed
qed

text \<open>Work items are idempotent: once \<open>run_item\<close> returned a result, running the same item again, with
  whatever function, executes nothing, changes nothing and returns that result as it is stored (with its
  keys sorted); when the function raised, the item waits for its retry with the error recorded.\<close>

theorem completed_item_is_not_repeated:
  assumes "queue_ok db0" "\<And>d. items (fst (fn d)) = items d"
    and "run_item q t1 t2 t3 k fn payload w db0 = (db1, out)"
  shows "case out of
      Inr res \<Rightarrow> (\<exists>stored. run_item q u1 u2 u3 k fn2 payload2 w2 db1 = (db1, Inr stored)
        \<and> (stored = res \<or> JObj stored = sorted_keys (JObj res)))
    | Inl e \<Rightarrow> (\<exists>r. work_row db1 (q_run q) (q_target q) (q_stage q) k = Some r \<and> wk_status r = W_Retry \<and> wk_error r = Some e)"
proof -
  from run_item_leaves[OF assms] obtain r where r: "r \<in> set (items db1)" "keyed wk_id (items db1)" "keyed item_key (items db1)"
    "work_key (q_run q) (q_target q) (q_stage q) k r"
    "case out of Inr res \<Rightarrow> wk_status r = W_Completed \<and> (wk_result r = sorted_keys (JObj res) \<or> res = stored_result (wk_id r) db1)
        | Inl e \<Rightarrow> wk_status r = W_Retry \<and> wk_error r = Some e" by blast
  note row = found_row[OF r(3,1,4)]
  show ?thesis
  proof (cases out)
    case (Inl e)
    with r row show ?thesis by auto
  next
    case (Inr res)
    with r(5) have st: "wk_status r = W_Completed" by simp
    have "run_item q u1 u2 u3 k fn2 payload2 w2 db1 = (db1, Inr (stored_result (wk_id r) db1))"
      using st by (simp add: run_item_def row completed_def work_state_def)
    moreover have "JObj (stored_result (wk_id r) db1) = sorted_keys (JObj res)" if "wk_result r = sorted_keys (JObj res)"
      using that found_by_id[OF r(2,1)] by (simp add: stored_result_def)
    ultimately show ?thesis using Inr r(5) by auto
  qed
qed

theorem completed_item_is_not_repeated_witness:
  "\<exists>db1 stored. run_item \<lparr>q_run = ''r'', q_target = ''t'', q_stage = ''js''\<rparr> 1 2 3 ''k'' (\<lambda>d. (d, Inr [(''n'', JInt 1)])) [] ''w''
      \<lparr>next_work = 1, items = [], budgets = []\<rparr> = (db1, Inr [(''n'', JInt 1)])
    \<and> run_item \<lparr>q_run = ''r'', q_target = ''t'', q_stage = ''js''\<rparr> 4 5 6 ''k'' (\<lambda>d. (d, Inl ''never'')) [] ''w'' db1 = (db1, Inr stored)"
proof -
  let ?q = "\<lparr>q_run = ''r'', q_target = ''t'', q_stage = ''js''\<rparr>" and ?db = "\<lparr>next_work = 1, items = [], budgets = []\<rparr>"
  have ok: "queue_ok ?db" by (simp add: queue_ok_def keyed_def)
  have "\<exists>db1. run_item ?q 1 2 3 ''k'' (\<lambda>d. (d, Inr [(''n'', JInt 1)])) [] ''w'' ?db = (db1, Inr [(''n'', JInt 1)])"
    by (simp add: run_item_def enqueue_work_def Let_def completed_def work_state_def work_row_def select_one_def work_key_def fresh_item_def)
  then obtain db1 where db1: "run_item ?q 1 2 3 ''k'' (\<lambda>d. (d, Inr [(''n'', JInt 1)])) [] ''w'' ?db = (db1, Inr [(''n'', JInt 1)])" by blast
  from completed_item_is_not_repeated[OF ok _ this, of 4 5 6 "\<lambda>d. (d, Inl ''never'')" "[]" "''w''"] db1 show ?thesis by auto
qed

end
