(* ===== verification/Content_Store.thy ===== *)
theory Content_Store
  imports Sql_Table "HOL-Library.AList"
begin

text \<open>
  The content-addressed object store, \<open>src/app/storage.py\<close>: objects named by their digest in the file
  system, their metadata in \<open>object_store\<close>, and the owners that keep them alive in \<open>cas_references\<close>.

  The files are a partial map from paths, which are written relative to the state directory and resolved
  (without dot segments or links).  SHA-256 is the argument \<open>sha\<close>; that its digests are 64 lower-case
  hexadecimal digits is the named hypothesis \<open>hex_digest\<close>.  Whether the operating system lets a file be
  removed is an argument of the deletion.  Every operation holds the store's lock.
\<close>

section \<open>State\<close>

type_synonym stamp = nat
type_synonym bytes = string

record object_row =
  os_sha :: string
  os_path :: string
  os_size :: nat
  os_type :: string
  os_count :: nat
  os_created :: stamp
  os_accessed :: stamp

record ref_row =
  rf_kind :: string
  rf_key :: string
  rf_sha :: string
  rf_created :: stamp
  rf_updated :: stamp

text \<open>\<open>js_blobs\<close> are target, URL and blob path of the JavaScript files with a blob.\<close>

record cas_db =
  objects :: "object_row list"
  refs :: "ref_row list"
  files :: "string \<Rightarrow> bytes option"
  js_blobs :: "(string \<times> string \<times> string) list"
  legacy_seeded :: bool

datatype cas_error =
    File_Not_Found
  | Bad_Path
  | Bad_Owner
  | Outside_Prefix
  | Unlink_Failed

definition cas_path :: "string \<Rightarrow> string" where
  "cas_path digest = ''objects/sha256/'' @ take 2 digest @ ''/'' @ take 2 (drop 2 digest) @ ''/'' @ digest"

definition row_path :: "string \<Rightarrow> string option" where
  "row_path rel = (if startswith rel ''objects/sha256/'' then Some rel else None)"

definition object_of :: "cas_db \<Rightarrow> string \<Rightarrow> object_row option" where
  "object_of db digest = select_one (\<lambda>r. os_sha r = digest) (objects db)"

section \<open>Objects\<close>

definition put_object ::
    "(bytes \<Rightarrow> string) \<Rightarrow> stamp \<Rightarrow> bytes \<Rightarrow> string \<Rightarrow> cas_db \<Rightarrow> cas_db \<times> string \<times> bool" where
  "put_object sha now data ctype db =
     (let digest = sha data; path = cas_path digest;
          fresh = \<lparr>os_sha = digest, os_path = path, os_size = length data, os_type = ctype, os_count = 0,
                   os_created = now, os_accessed = now\<rparr>
      in (db\<lparr>files := (if files db path = Some data then files db else (files db)(path \<mapsto> data)),
             objects := upsert (\<lambda>r. os_sha r = digest) fresh
               (\<lambda>r. r\<lparr>os_path := path, os_size := length data, os_type := ctype, os_accessed := now\<rparr>) (objects db)\<rparr>,
          digest, files db path = None))"

definition put_file ::
    "(bytes \<Rightarrow> string) \<Rightarrow> stamp \<Rightarrow> bytes \<Rightarrow> string \<Rightarrow> string option \<Rightarrow> cas_db \<Rightarrow> cas_db \<times> string \<times> bool" where
  "put_file sha now data ctype guessed db = put_object sha now data
     (if ctype \<noteq> '''' then ctype
      else case guessed of None \<Rightarrow> ''application/octet-stream''
        | Some g \<Rightarrow> if g = '''' then ''application/octet-stream'' else g) db"

definition get_object :: "stamp \<Rightarrow> string \<Rightarrow> cas_db \<Rightarrow> cas_db \<times> (cas_error + bytes)" where
  "get_object now digest db =
     (case object_of db digest of
        None \<Rightarrow> (db, Inl File_Not_Found)
      | Some r \<Rightarrow>
          (case row_path (os_path r) of
             None \<Rightarrow> (db, Inl Bad_Path)
           | Some p \<Rightarrow>
               (case files db p of
                  None \<Rightarrow> (db, Inl File_Not_Found)
                | Some data \<Rightarrow> (db\<lparr>objects := update_where (\<lambda>r. os_sha r = digest) (\<lambda>r. r\<lparr>os_accessed := now\<rparr>) (objects db)\<rparr>, Inr data))))"

section \<open>References\<close>

definition owner :: "string \<Rightarrow> string \<Rightarrow> (string \<times> string) option" where
  "owner kind k = (if py_strip kind = '''' \<or> py_strip k = '''' then None else Some (take 80 (py_strip kind), py_strip k))"

definition ref_count :: "ref_row list \<Rightarrow> string \<Rightarrow> nat" where
  "ref_count rs digest = rowcount (\<lambda>r. rf_sha r = digest) rs"

text \<open>\<open>only\<close> restricts the refresh to some digests; with none it covers all.\<close>

definition refresh_counts :: "string list \<Rightarrow> cas_db \<Rightarrow> cas_db" where
  "refresh_counts only db = db\<lparr>objects := update_where (\<lambda>r. only = [] \<or> os_sha r \<in> set only)
     (\<lambda>r. r\<lparr>os_count := ref_count (refs db) (os_sha r)\<rparr>) (objects db)\<rparr>"

definition ref_key :: "string \<Rightarrow> string \<Rightarrow> ref_row \<Rightarrow> bool" where
  "ref_key kind k r \<longleftrightarrow> rf_kind r = kind \<and> rf_key r = k"

definition put_ref :: "stamp \<Rightarrow> string \<Rightarrow> string \<Rightarrow> string \<Rightarrow> ref_row list \<Rightarrow> ref_row list" where
  "put_ref now kind k digest = upsert (ref_key kind k)
     \<lparr>rf_kind = kind, rf_key = k, rf_sha = digest, rf_created = now, rf_updated = now\<rparr>
     (\<lambda>r. r\<lparr>rf_sha := digest, rf_updated := now\<rparr>)"

text \<open>The digest must have a row whose file exists.\<close>

definition present :: "cas_db \<Rightarrow> string \<Rightarrow> cas_error option" where
  "present db digest =
     (case object_of db digest of
        None \<Rightarrow> Some File_Not_Found
      | Some r \<Rightarrow> (case row_path (os_path r) of
          None \<Rightarrow> Some Bad_Path
        | Some p \<Rightarrow> if files db p = None then Some File_Not_Found else None))"

definition set_reference :: "stamp \<Rightarrow> string \<Rightarrow> string \<Rightarrow> string \<Rightarrow> cas_db \<Rightarrow> cas_db \<times> cas_error option" where
  "set_reference now kind0 key0 digest0 db =
     (let digest = py_lower (py_strip digest0)
      in case owner kind0 key0 of
           None \<Rightarrow> (db, Some Bad_Owner)
         | Some (kind, k) \<Rightarrow>
             (case present db digest of
                Some e \<Rightarrow> (db, Some e)
              | None \<Rightarrow>
                  (let old = (case select_one (ref_key kind k) (refs db) of None \<Rightarrow> [] | Some r \<Rightarrow> [rf_sha r])
                   in (refresh_counts (digest # old) (db\<lparr>refs := put_ref now kind k digest (refs db)\<rparr>), None))))"

fun desired_owners :: "(string \<times> string) list \<Rightarrow> (string \<times> string) list \<Rightarrow> (string \<times> string) list" where
  "desired_owners acc [] = acc"
| "desired_owners acc ((k, d) # rest) =
     desired_owners (if py_strip k \<noteq> '''' \<and> py_strip d \<noteq> ''''
                     then AList.update (py_strip k) (py_lower (py_strip d)) acc else acc) rest"

definition sync_one ::
    "stamp \<Rightarrow> string \<Rightarrow> (string \<times> string) list \<Rightarrow> ref_row list \<times> nat \<Rightarrow> string \<times> string \<Rightarrow> ref_row list \<times> nat" where
  "sync_one now kind existing st kd = (case (st, kd) of ((rs, n), (k, d)) \<Rightarrow>
     if map_of existing k = Some d then (update_where (ref_key kind k) (\<lambda>r. r\<lparr>rf_updated := now\<rparr>) rs, n)
     else (put_ref now kind k d rs, n + 1))"

text \<open>The result counts the changed, the removed and all owners.\<close>

definition sync_references ::
    "stamp \<Rightarrow> string \<Rightarrow> (string \<times> string) list \<Rightarrow> string \<Rightarrow> cas_db \<Rightarrow> cas_db \<times> (cas_error + nat \<times> nat \<times> nat)" where
  "sync_references now kind0 wanted prefix db =
     (let kind = take 80 (py_strip kind0); desired = desired_owners [] wanted
      in if kind = '''' then (db, Inl Bad_Owner)
         else if prefix \<noteq> '''' \<and> list_ex (\<lambda>(k, d). \<not> startswith k prefix) desired then (db, Inl Outside_Prefix)
         else
           let existing = map (\<lambda>r. (rf_key r, rf_sha r))
                 (filter (\<lambda>r. rf_kind r = kind \<and> (prefix = '''' \<or> startswith (rf_key r) prefix)) (refs db))
           in case select_one (\<lambda>e. e \<noteq> None) (map (\<lambda>(k, d). present db d) desired) of
                Some (Some e) \<Rightarrow> (db, Inl e)
              | _ \<Rightarrow>
                  (let gone = filter (\<lambda>k. k \<notin> set (map fst desired)) (map fst existing);
                       kept = delete_where (\<lambda>r. rf_kind r = kind \<and> rf_key r \<in> set gone) (refs db);
                       (rs, changed) = foldl (sync_one now kind existing) (kept, 0) desired
                   in (refresh_counts (map snd existing @ map snd desired) (db\<lparr>refs := rs\<rparr>),
                       Inr (changed, length gone, length desired))))"

definition drop_reference :: "string \<Rightarrow> string \<Rightarrow> cas_db \<Rightarrow> cas_db \<times> (cas_error + bool)" where
  "drop_reference kind0 key0 db =
     (case owner kind0 key0 of
        None \<Rightarrow> (db, Inl Bad_Owner)
      | Some (kind, k) \<Rightarrow>
          (case select_one (ref_key kind k) (refs db) of
             None \<Rightarrow> (db, Inr False)
           | Some r \<Rightarrow> (refresh_counts [rf_sha r] (db\<lparr>refs := delete_where (ref_key kind k) (refs db)\<rparr>), Inr True)))"

section \<open>Reconciliation\<close>

definition hex_char :: "char \<Rightarrow> bool" where
  "hex_char c \<longleftrightarrow> c \<in> set ''0123456789abcdef''"

definition path_name :: "string \<Rightarrow> string" where
  "path_name p = rev (takeWhile (\<lambda>c. c \<noteq> CHR ''/'') (rev p))"

definition digest_from_object_path :: "cas_db \<Rightarrow> string \<Rightarrow> string" where
  "digest_from_object_path db raw =
     (if py_strip raw = '''' \<or> row_path raw = None then ''''
      else let digest = py_lower (path_name raw)
           in if length digest \<noteq> 64 \<or> list_ex (\<lambda>c. \<not> hex_char c) digest then ''''
              else if list_ex (\<lambda>r. os_sha r = digest \<and> os_path r = raw) (objects db) then digest else '''')"

definition seed_js :: "stamp \<Rightarrow> cas_db \<Rightarrow> ref_row list \<times> nat \<Rightarrow> string \<times> string \<times> string \<Rightarrow> ref_row list \<times> nat" where
  "seed_js now db st row = (case (st, row) of ((rs, n), (tgt, url, blob)) \<Rightarrow>
     (let digest = digest_from_object_path db blob; k = tgt @ [CHR 0x0A] @ url
      in if blob = '''' \<or> digest = '''' then (rs, n)
         else if map_option rf_sha (select_one (ref_key ''js_file'' k) rs) = Some digest then (rs, n)
         else (put_ref now ''js_file'' k digest rs, n + 1)))"

definition seed_legacy :: "stamp \<Rightarrow> ref_row list \<times> nat \<Rightarrow> object_row \<Rightarrow> ref_row list \<times> nat" where
  "seed_legacy now st r = (case st of (rs, n) \<Rightarrow>
     if os_count r = 0 \<or> list_ex (\<lambda>q. rf_sha q = os_sha r) rs then (rs, n)
     else (insert_ignore (ref_key ''legacy_unclassified'' (os_sha r))
            \<lparr>rf_kind = ''legacy_unclassified'', rf_key = os_sha r, rf_sha = os_sha r, rf_created = now, rf_updated = now\<rparr> rs, n + 1))"

record cas_report =
  cr_seeded :: nat
  cr_legacy :: nat
  cr_missing :: nat
  cr_unreferenced :: nat

definition file_missing :: "cas_db \<Rightarrow> object_row \<Rightarrow> bool" where
  "file_missing db r \<longleftrightarrow> (case row_path (os_path r) of None \<Rightarrow> True | Some p \<Rightarrow> files db p = None)"

definition reconciled :: "stamp \<Rightarrow> cas_db \<Rightarrow> cas_db \<times> nat \<times> nat" where
  "reconciled now db =
     (let (rs, seeded) = foldl (seed_js now db) (refs db, 0) (js_blobs db);
          (rs', legacy) = (if legacy_seeded db then (rs, rowcount (\<lambda>q. rf_kind q = ''legacy_unclassified'') rs)
                           else foldl (seed_legacy now) (rs, 0) (objects db))
      in (refresh_counts [] (db\<lparr>refs := rs', legacy_seeded := True\<rparr>), seeded, legacy))"

definition reconcile_reference_counts :: "stamp \<Rightarrow> cas_db \<Rightarrow> cas_db \<times> cas_report" where
  "reconcile_reference_counts now db0 = (case reconciled now db0 of (db, seeded, legacy) \<Rightarrow>
     (db, \<lparr>cr_seeded = seeded, cr_legacy = legacy,
           cr_missing = rowcount (\<lambda>r. 0 < os_count r \<and> file_missing db r) (objects db),
           cr_unreferenced = rowcount (\<lambda>r. os_count r = 0) (objects db)\<rparr>))"

definition release :: "stamp \<Rightarrow> string \<Rightarrow> cas_db \<Rightarrow> cas_db" where
  "release now digest0 db0 =
     (let digest = py_lower (py_strip digest0); db = fst (reconcile_reference_counts now db0)
      in if 0 < ref_count (refs db) digest then db
         else db\<lparr>objects := update_where (\<lambda>r. os_sha r = digest) (\<lambda>r. r\<lparr>os_count := 0\<rparr>) (objects db)\<rparr>)"

section \<open>Deletion\<close>

text \<open>The objects nobody refers to whose last access lies before the cut-off, oldest first.\<close>

definition retention_candidates :: "stamp \<Rightarrow> stamp \<Rightarrow> cas_db \<Rightarrow> cas_db \<times> object_row list" where
  "retention_candidates now cutoff db0 =
     (let db = fst (reconcile_reference_counts now db0)
      in (db, filter (\<lambda>r. os_accessed r < cutoff \<and> row_path (os_path r) \<noteq> None)
                (sort_key os_accessed (sort_key os_sha (filter (\<lambda>r. os_count r = 0) (objects db))))))"

datatype deletion =
    Missing_Metadata
  | Referenced nat
  | Recently_Accessed
  | Path_Changed
  | Deleted nat

text \<open>\<open>path\<close> and \<open>seen\<close> are what the caller expects, \<open>unlink\<close> whether the file can be removed.\<close>

definition delete_if_unreferenced ::
    "stamp \<Rightarrow> string \<Rightarrow> string option \<Rightarrow> stamp option \<Rightarrow> bool \<Rightarrow> cas_db \<Rightarrow> cas_db \<times> (cas_error + deletion)" where
  "delete_if_unreferenced now digest0 path seen unlink db0 =
     (let digest = py_lower (py_strip digest0); db = fst (reconcile_reference_counts now db0)
      in case object_of db digest of
           None \<Rightarrow> (db, Inr Missing_Metadata)
         | Some r \<Rightarrow>
             let n = ref_count (refs db) digest
             in if 0 < n \<or> 0 < os_count r then (db, Inr (Referenced (max n (os_count r))))
                else if seen \<noteq> None \<and> seen \<noteq> Some (os_accessed r) then (db, Inr Recently_Accessed)
                else case row_path (os_path r) of
                  None \<Rightarrow> (db, Inl Bad_Path)
                | Some p \<Rightarrow>
                    if path \<noteq> None \<and> path \<noteq> Some p then (db, Inr Path_Changed)
                    else if \<not> unlink \<and> files db p \<noteq> None
                    then (db\<lparr>objects := delete_where (\<lambda>q. os_sha q = digest) (objects db) @ [r\<lparr>os_count := 0\<rparr>]\<rparr>, Inl Unlink_Failed)
                    else (db\<lparr>objects := delete_where (\<lambda>q. os_sha q = digest) (objects db), files := (files db)(p := None)\<rparr>,
                          Inr (Deleted (case files db p of None \<Rightarrow> 0 | Some d \<Rightarrow> length d))))"

record gc_report =
  gc_removed :: nat
  gc_bytes :: nat
  gc_skipped :: nat

fun gc_rows :: "stamp \<Rightarrow> (string \<Rightarrow> bool) \<Rightarrow> object_row list \<Rightarrow> cas_db \<Rightarrow> gc_report \<Rightarrow> cas_db \<times> (cas_error + gc_report)" where
  "gc_rows now unlink [] db rep = (db, Inr rep)"
| "gc_rows now unlink (r # rows) db rep =
     (case delete_if_unreferenced now (os_sha r) None None (unlink (os_sha r)) db of
        (db', Inl e) \<Rightarrow> (db', Inl e)
      | (db', Inr (Deleted n)) \<Rightarrow> gc_rows now unlink rows db' (rep\<lparr>gc_removed := gc_removed rep + 1, gc_bytes := gc_bytes rep + n\<rparr>)
      | (db', Inr (Referenced n)) \<Rightarrow> gc_rows now unlink rows db' (rep\<lparr>gc_skipped := gc_skipped rep + 1\<rparr>)
      | (db', Inr _) \<Rightarrow> gc_rows now unlink rows db' rep)"

definition gc :: "stamp \<Rightarrow> bool \<Rightarrow> (string \<Rightarrow> bool) \<Rightarrow> cas_db \<Rightarrow> cas_db \<times> (cas_error + gc_report)" where
  "gc now dry unlink db0 =
     (let db = fst (reconcile_reference_counts now db0); rows = filter (\<lambda>r. os_count r = 0) (objects db)
      in if dry then (db, Inr \<lparr>gc_removed = length rows, gc_bytes = sum_list (map os_size rows), gc_skipped = 0\<rparr>)
         else gc_rows now unlink rows db \<lparr>gc_removed = 0, gc_bytes = 0, gc_skipped = 0\<rparr>)"

end
