(* ===== verification/Content_Store_Facts.thy ===== *)
theory Content_Store_Facts
  imports Content_Store
begin

text \<open>
  What keeps the object store sound: the invariant of its tables and files, that every operation of
  \<open>Content_Store\<close> preserves it, and the properties of reachable stores and of deletion.
\<close>

definition hex_digest :: "(bytes \<Rightarrow> string) \<Rightarrow> bool" where
  "hex_digest sha \<longleftrightarrow> (\<forall>d. length (sha d) = 64 \<and> list_all hex_char (sha d))"

abbreviation owner_key :: "ref_row \<Rightarrow> string \<times> string" where
  "owner_key r \<equiv> (rf_kind r, rf_key r)"

definition intact :: "(bytes \<Rightarrow> string) \<Rightarrow> (string \<Rightarrow> bytes option) \<Rightarrow> object_row \<Rightarrow> bool" where
  "intact sha fs r \<longleftrightarrow> os_path r = cas_path (os_sha r)
     \<and> (\<exists>data. fs (os_path r) = Some data \<and> sha data = os_sha r \<and> length data = os_size r)"

definition refs_resolve :: "object_row list \<Rightarrow> ref_row list \<Rightarrow> bool" where
  "refs_resolve os rs \<longleftrightarrow> rf_sha ` set rs \<subseteq> os_sha ` set os"

definition cas_shape :: "(bytes \<Rightarrow> string) \<Rightarrow> cas_db \<Rightarrow> bool" where
  "cas_shape sha db \<longleftrightarrow> keyed os_sha (objects db) \<and> keyed owner_key (refs db) \<and> refs_resolve (objects db) (refs db)
     \<and> (\<forall>r \<in> set (objects db). intact sha (files db) r)"

definition counted :: "cas_db \<Rightarrow> bool" where
  "counted db \<longleftrightarrow> (\<forall>r \<in> set (objects db). os_count r = ref_count (refs db) (os_sha r))"

definition cas_ok :: "(bytes \<Rightarrow> string) \<Rightarrow> cas_db \<Rightarrow> bool" where
  "cas_ok sha db \<longleftrightarrow> cas_shape sha db \<and> counted db"

section \<open>Paths\<close>

lemma cas_path_inj: "length d = 64 \<Longrightarrow> length e = 64 \<Longrightarrow> cas_path d = cas_path e \<Longrightarrow> d = e"
  by (simp add: cas_path_def)

lemma row_path_cas [simp]: "row_path (cas_path d) = Some (cas_path d)"
  by (simp add: row_path_def cas_path_def startswith_def)

lemma intact_len: "hex_digest sha \<Longrightarrow> intact sha fs r \<Longrightarrow> length (os_sha r) = 64"
  unfolding intact_def hex_digest_def by metis

lemma intact_file:
  "intact sha fs r \<Longrightarrow> os_path r = cas_path (os_sha r) \<and> (\<exists>data. fs (cas_path (os_sha r)) = Some data \<and> sha data = os_sha r)"
  unfolding intact_def by metis

lemma intact_row: "os_sha q = os_sha r \<Longrightarrow> os_path q = os_path r \<Longrightarrow> os_size q = os_size r \<Longrightarrow> intact sha fs q = intact sha fs r"
  by (simp only: intact_def)

lemma intact_cong: "fs' (os_path r) = fs (os_path r) \<Longrightarrow> intact sha fs' r = intact sha fs r"
  by (simp only: intact_def)

section \<open>Reference counts\<close>

lemma rowcount_update: "(\<And>r. r \<in> set t \<Longrightarrow> p r \<Longrightarrow> q (f r) = q r) \<Longrightarrow> rowcount q (update_where p f t) = rowcount q t"
  by (induction t) (auto simp: rowcount_def)

lemma rowcount_snoc: "rowcount q (t @ [n]) = rowcount q t + (if q n then 1 else 0)"
  by (simp add: rowcount_def)

lemma rowcount_zero: "rowcount q t = 0 \<longleftrightarrow> (\<forall>r \<in> set t. \<not> q r)"
  by (auto simp: rowcount_def filter_empty_conv)

lemma ref_count_zero: "ref_count rs d = 0 \<longleftrightarrow> d \<notin> rf_sha ` set rs"
  by (auto simp: ref_count_def rowcount_zero)

lemma put_ref_count:
  assumes "d \<noteq> digest" "\<And>r. r \<in> set rs \<Longrightarrow> ref_key kind k r \<Longrightarrow> rf_sha r \<noteq> d"
  shows "ref_count (put_ref now kind k digest rs) d = ref_count rs d"
  using assms by (auto simp: put_ref_def ref_count_def upsert_def rowcount_snoc intro!: rowcount_update)

lemma set_put_ref:
  "r \<in> set (put_ref now kind k digest rs) \<Longrightarrow> r \<in> set rs \<and> \<not> ref_key kind k r \<or> ref_key kind k r \<and> rf_sha r = digest"
proof (cases "list_ex (ref_key kind k) rs")
  case True
  assume "r \<in> set (put_ref now kind k digest rs)"
  with True obtain q where "q \<in> set rs" "r = (if ref_key kind k q then q\<lparr>rf_sha := digest, rf_updated := now\<rparr> else q)"
    by (auto simp: put_ref_def upsert_def set_update_where)
  then show ?thesis by (cases "ref_key kind k q") (auto simp: ref_key_def)
next
  case False
  assume "r \<in> set (put_ref now kind k digest rs)"
  moreover have "put_ref now kind k digest rs = rs @ [\<lparr>rf_kind = kind, rf_key = k, rf_sha = digest, rf_created = now, rf_updated = now\<rparr>]"
    using False by (simp add: put_ref_def upsert_def)
  ultimately show ?thesis using False by (auto simp: ref_key_def list_ex_iff)
qed

lemma put_ref_keyed: "keyed owner_key rs \<Longrightarrow> keyed owner_key (put_ref now kind k digest rs)"
  unfolding put_ref_def upsert_def
  by (auto simp: keyed_def ref_key_def list_ex_iff map_update_where)

lemma put_ref_resolve:
  "refs_resolve os rs \<Longrightarrow> digest \<in> os_sha ` set os \<Longrightarrow> refs_resolve os (put_ref now kind k digest rs)"
  by (auto simp: refs_resolve_def dest!: set_put_ref)

section \<open>Refreshing the counts\<close>

lemma refresh_fields [simp]:
  "refs (refresh_counts only db) = refs db" "files (refresh_counts only db) = files db"
  "js_blobs (refresh_counts only db) = js_blobs db" "legacy_seeded (refresh_counts only db) = legacy_seeded db"
  "map os_sha (objects (refresh_counts only db)) = map os_sha (objects db)"
  by (simp_all add: refresh_counts_def map_update_where)

lemma refresh_shas [simp]: "os_sha ` set (objects (refresh_counts only db)) = os_sha ` set (objects db)"
  using refresh_fields(5)[of only db] by (metis set_map)

text \<open>An update of columns other than digest, path and size.\<close>

lemma shape_update:
  assumes "\<And>r. os_sha (f r) = os_sha r \<and> os_path (f r) = os_path r \<and> os_size (f r) = os_size r"
  shows "cas_shape sha (db\<lparr>objects := update_where p f (objects db)\<rparr>) = cas_shape sha db"
proof -
  have shas: "map os_sha (update_where p f (objects db)) = map os_sha (objects db)" by (simp add: map_update_where assms)
  then have "os_sha ` set (update_where p f (objects db)) = os_sha ` set (objects db)" by (metis set_map)
  moreover have "intact sha (files db) (if p r then f r else r) = intact sha (files db) r" for r by (simp add: intact_def assms)
  then have "(\<forall>r \<in> set (update_where p f (objects db)). intact sha (files db) r) = (\<forall>r \<in> set (objects db). intact sha (files db) r)"
    by (simp only: ball_update_where)
  ultimately show ?thesis by (simp add: cas_shape_def keyed_def refs_resolve_def shas)
qed

lemma refresh_shape: "cas_shape sha (refresh_counts only db) = cas_shape sha db"
  unfolding refresh_counts_def by (rule shape_update) simp

lemma refresh_counted:
  assumes "\<And>r. r \<in> set (objects db) \<Longrightarrow> only \<noteq> [] \<Longrightarrow> os_sha r \<notin> set only \<Longrightarrow> os_count r = ref_count (refs db) (os_sha r)"
  shows "counted (refresh_counts only db)"
  using assms by (auto simp: counted_def refresh_counts_def set_update_where)

section \<open>Operations keep the invariant\<close>

lemma present_object: "present db d = None \<Longrightarrow> d \<in> os_sha ` set (objects db)"
  by (auto simp: present_def object_of_def dest: select_one_Some split: option.splits)

lemma access_ok:
  "cas_ok sha (db\<lparr>objects := update_where p (\<lambda>r. r\<lparr>os_accessed := now\<rparr>) (objects db)\<rparr>) = cas_ok sha db"
proof -
  have "counted (db\<lparr>objects := update_where p (\<lambda>r. r\<lparr>os_accessed := now\<rparr>) (objects db)\<rparr>) = counted db"
    by (auto simp: counted_def ball_update_where)
  then show ?thesis by (simp add: cas_ok_def shape_update)
qed

lemma get_ok: "cas_ok sha db \<Longrightarrow> cas_ok sha (fst (get_object now d db))"
  by (simp add: get_object_def access_ok split: option.split)

lemma put_ok:
  assumes ok: "cas_ok sha db" and hex: "hex_digest sha"
  shows "cas_ok sha (fst (put_object sha now data ctype db))"
proof -
  let ?d = "sha data" and ?db = "fst (put_object sha now data ctype db)"
  let ?upd = "\<lambda>r. r\<lparr>os_path := cas_path ?d, os_size := length data, os_type := ctype, os_accessed := now\<rparr>"
  let ?new = "\<lparr>os_sha = ?d, os_path = cas_path ?d, os_size = length data, os_type = ctype, os_count = 0, os_created = now, os_accessed = now\<rparr>"
  from ok have parts: "keyed os_sha (objects db)" "keyed owner_key (refs db)" "refs_resolve (objects db) (refs db)"
    "\<And>r. r \<in> set (objects db) \<Longrightarrow> intact sha (files db) r" "\<And>r. r \<in> set (objects db) \<Longrightarrow> os_count r = ref_count (refs db) (os_sha r)"
    by (auto simp: cas_ok_def cas_shape_def counted_def)
  have db: "refs ?db = refs db" "objects ?db = upsert (\<lambda>r. os_sha r = ?d) ?new ?upd (objects db)"
    "files ?db = (files db)(cas_path ?d \<mapsto> data)"
    by (auto simp: put_object_def Let_def)
  have here: "intact sha (files ?db) r" if "os_sha r = ?d" "os_path r = cas_path ?d" "os_size r = length data" for r
    using that by (simp add: intact_def db)
  have there: "intact sha (files ?db) r" if "r \<in> set (objects db)" "os_sha r \<noteq> ?d" for r
  proof -
    have "intact sha (files db) r" "length (os_sha r) = 64" "length ?d = 64"
      using parts(4)[OF that(1)] intact_len[OF hex] hex by (auto simp: hex_digest_def)
    with that(2) cas_path_inj[of "os_sha r" ?d] show ?thesis by (auto simp: intact_def db)
  qed
  show ?thesis
  proof (cases "list_ex (\<lambda>r. os_sha r = ?d) (objects db)")
    case True
    then have objs: "objects ?db = update_where (\<lambda>r. os_sha r = ?d) ?upd (objects db)" by (simp add: db upsert_def)
    have shas: "map os_sha (objects ?db) = map os_sha (objects db)" by (simp add: objs map_update_where)
    have "intact sha (files ?db) r \<and> os_count r = ref_count (refs db) (os_sha r)" if r: "r \<in> set (objects ?db)" for r
    proof -
      from r obtain q where q: "q \<in> set (objects db)" "r = (if os_sha q = ?d then ?upd q else q)" by (auto simp: objs set_update_where)
      show ?thesis
      proof (cases "os_sha q = ?d")
        case True
        with q parts(5)[OF q(1)] show ?thesis by (auto intro: here)
      next
        case False
        with q parts(5)[OF q(1)] show ?thesis by (auto intro: there)
      qed
    qed
    moreover have "os_sha ` set (objects ?db) = os_sha ` set (objects db)" using shas by (metis set_map)
    ultimately show ?thesis using parts(1-3) by (simp add: cas_ok_def cas_shape_def counted_def keyed_def shas refs_resolve_def db(1))
  next
    case False
    then have objs: "objects ?db = objects db @ [?new]" by (simp add: db upsert_def)
    have fresh: "\<And>r. r \<in> set (objects db) \<Longrightarrow> os_sha r \<noteq> ?d" using False by (auto simp: list_ex_iff)
    then have "?d \<notin> rf_sha ` set (refs db)" using parts(3) by (auto simp: refs_resolve_def)
    then have "ref_count (refs db) ?d = 0" by (simp add: ref_count_zero)
    moreover have "keyed os_sha (objects ?db)" using parts(1) fresh by (auto simp: objs keyed_def image_iff) (metis fresh)
    moreover have "refs_resolve (objects ?db) (refs ?db)" using parts(3) by (auto simp: refs_resolve_def objs db(1))
    moreover have "\<forall>r \<in> set (objects ?db). intact sha (files ?db) r"
      using there fresh here[of ?new] by (auto simp: objs)
    ultimately show ?thesis using parts(2,5) by (auto simp: cas_ok_def cas_shape_def counted_def objs db(1))
  qed
qed

section \<open>Changing references\<close>

lemma refs_change_ok:
  assumes "cas_ok sha db" "keyed owner_key rs" "refs_resolve (objects db) rs"
    and "\<And>d. only \<noteq> [] \<Longrightarrow> d \<notin> set only \<Longrightarrow> ref_count rs d = ref_count (refs db) d"
  shows "cas_ok sha (refresh_counts only (db\<lparr>refs := rs\<rparr>))"
proof -
  have "cas_shape sha (db\<lparr>refs := rs\<rparr>)" using assms(1-3) by (simp add: cas_ok_def cas_shape_def)
  moreover have "counted (refresh_counts only (db\<lparr>refs := rs\<rparr>))"
    using assms(1,4) by (intro refresh_counted) (simp add: cas_ok_def counted_def)
  ultimately show ?thesis by (simp add: cas_ok_def refresh_shape)
qed

lemma shape_parts:
  "cas_ok sha db \<Longrightarrow> keyed owner_key (refs db)" "cas_ok sha db \<Longrightarrow> refs_resolve (objects db) (refs db)"
  "cas_ok sha db \<Longrightarrow> keyed os_sha (objects db)"
  "cas_ok sha db \<Longrightarrow> r \<in> set (objects db) \<Longrightarrow> intact sha (files db) r"
  "cas_ok sha db \<Longrightarrow> r \<in> set (objects db) \<Longrightarrow> os_count r = ref_count (refs db) (os_sha r)"
  by (auto simp: cas_ok_def cas_shape_def counted_def)

lemma objects_ok:
  assumes "cas_ok sha db" "keyed os_sha os" "refs_resolve os (refs db)"
    and "\<And>r. r \<in> set os \<Longrightarrow> intact sha fs r"
    and "\<And>r. r \<in> set os \<Longrightarrow> os_count r = ref_count (refs db) (os_sha r)"
  shows "cas_ok sha (db\<lparr>objects := os, files := fs\<rparr>)"
  using assms by (simp add: cas_ok_def cas_shape_def counted_def)

lemma same_owner: "keyed owner_key rs \<Longrightarrow> r \<in> set rs \<Longrightarrow> q \<in> set rs \<Longrightarrow> ref_key kind k r \<Longrightarrow> ref_key kind k q \<Longrightarrow> r = q"
  using keyed_unique[of owner_key rs r q] by (auto simp: ref_key_def)

lemma set_reference_ok: "cas_ok sha db \<Longrightarrow> cas_ok sha (fst (set_reference now kind k digest db))"
proof (cases "set_reference now kind k digest db = (db, snd (set_reference now kind k digest db))")
  case True
  assume "cas_ok sha db"
  with True show ?thesis by (metis fst_conv)
next
  case False
  assume ok: "cas_ok sha db"
  let ?d = "py_lower (py_strip digest)"
  from False obtain kd ky where o': "owner kind k = Some (kd, ky)" "present db ?d = None"
    by (auto simp: set_reference_def Let_def split: option.splits)
  define old where "old = (case select_one (ref_key kd ky) (refs db) of None \<Rightarrow> [] | Some r \<Rightarrow> [rf_sha r])"
  have "rf_sha r \<in> set old" if "r \<in> set (refs db)" "ref_key kd ky r" for r
  proof (cases "select_one (ref_key kd ky) (refs db)")
    case None
    with that show ?thesis by (auto simp: select_one_None)
  next
    case (Some q)
    with that same_owner[OF shape_parts(1)[OF ok] that(1), of q kd ky] show ?thesis by (auto simp: old_def dest: select_one_Some)
  qed
  then have "ref_count (put_ref now kd ky ?d (refs db)) d = ref_count (refs db) d" if "d \<notin> set (?d # old)" for d
    using that by (intro put_ref_count) auto
  then have "cas_ok sha (refresh_counts (?d # old) (db\<lparr>refs := put_ref now kd ky ?d (refs db)\<rparr>))"
    using ok shape_parts[OF ok] present_object[OF o'(2)] by (intro refs_change_ok put_ref_keyed put_ref_resolve) auto
  then show ?thesis by (simp add: set_reference_def Let_def o' old_def)
qed

lemma drop_reference_ok: "cas_ok sha db \<Longrightarrow> cas_ok sha (fst (drop_reference kind k db))"
proof -
  assume ok: "cas_ok sha db"
  have "cas_ok sha (refresh_counts [rf_sha r] (db\<lparr>refs := delete_where (ref_key kd ky) (refs db)\<rparr>))"
    if sel: "select_one (ref_key kd ky) (refs db) = Some r" for kd ky r
  proof (rule refs_change_ok[OF ok])
    show "keyed owner_key (delete_where (ref_key kd ky) (refs db))" by (rule keyed_delete_where[OF shape_parts(1)[OF ok]])
    show "refs_resolve (objects db) (delete_where (ref_key kd ky) (refs db))"
      using shape_parts(2)[OF ok] by (auto simp: refs_resolve_def delete_where_def)
    fix d assume "d \<notin> set [rf_sha r]"
    then have "\<not> ref_key kd ky q" if "q \<in> set (refs db)" "rf_sha q = d" for q
      using sel that same_owner[OF shape_parts(1)[OF ok], of q r kd ky] by (auto dest: select_one_Some)
    then have "filter (\<lambda>q. rf_sha q = d \<and> \<not> ref_key kd ky q) (refs db) = filter (\<lambda>q. rf_sha q = d) (refs db)"
      by (intro filter_cong) auto
    then show "ref_count (delete_where (ref_key kd ky) (refs db)) d = ref_count (refs db) d"
      by (simp add: ref_count_def rowcount_def delete_where_def conj_commute)
  qed
  with ok show ?thesis by (auto simp: drop_reference_def split: option.split)
qed

text \<open>What the loop of \<open>sync_references\<close> keeps: \<open>K\<close> are the wanted owners, \<open>T\<close> the digests to be refreshed.\<close>

definition sync_inv :: "object_row list \<Rightarrow> string \<Rightarrow> string set \<Rightarrow> string set \<Rightarrow> ref_row list \<Rightarrow> ref_row list \<Rightarrow> bool" where
  "sync_inv os kind K T rs0 rs \<longleftrightarrow> keyed owner_key rs \<and> refs_resolve os rs
     \<and> (\<forall>r \<in> set rs. rf_kind r = kind \<and> rf_key r \<in> K \<longrightarrow> rf_sha r \<in> T)
     \<and> (\<forall>d. d \<notin> T \<longrightarrow> ref_count rs d = ref_count rs0 d)"

lemma sync_put:
  assumes "sync_inv os kind K T rs0 rs" "k \<in> K" "d \<in> T" "d \<in> os_sha ` set os"
  shows "sync_inv os kind K T rs0 (put_ref now kind k d rs)"
proof -
  have "ref_count (put_ref now kind k d rs) e = ref_count rs e" if "e \<notin> T" for e
    using assms that by (intro put_ref_count) (auto simp: sync_inv_def ref_key_def)
  moreover have "rf_sha r \<in> T" if "r \<in> set (put_ref now kind k d rs)" "rf_kind r = kind" "rf_key r \<in> K" for r
    using set_put_ref[OF that(1)] assms(1,3) that(2,3) by (auto simp: sync_inv_def)
  ultimately show ?thesis
    using assms put_ref_keyed[of rs] put_ref_resolve[of os rs d] by (auto simp: sync_inv_def)
qed

lemma sync_touch:
  assumes "sync_inv os kind K T rs0 rs"
  shows "sync_inv os kind K T rs0 (update_where p (\<lambda>r. r\<lparr>rf_updated := now\<rparr>) rs)"
proof -
  have "rf_sha ` set (update_where p (\<lambda>r. r\<lparr>rf_updated := now\<rparr>) rs) = rf_sha ` set rs"
    using map_update_where[of p rf_sha "\<lambda>r. r\<lparr>rf_updated := now\<rparr>" rs] by (metis (no_types, lifting) ref_row.select_convs(3) ref_row.surjective ref_row.update_convs(5) set_map)
  moreover have "ref_count (update_where p (\<lambda>r. r\<lparr>rf_updated := now\<rparr>) rs) d = ref_count rs d" for d
    unfolding ref_count_def by (rule rowcount_update) simp
  ultimately show ?thesis using assms
    by (auto simp: sync_inv_def refs_resolve_def ball_update_where intro!: keyed_update_where)
qed

lemma sync_fold:
  assumes "sync_inv os kind K T rs0 rs" "\<And>k d. (k, d) \<in> set todo \<Longrightarrow> k \<in> K \<and> d \<in> T \<and> d \<in> os_sha ` set os"
  shows "sync_inv os kind K T rs0 (fst (foldl (sync_one now kind existing) (rs, n) todo))"
  using assms
proof (induction todo arbitrary: rs n)
  case (Cons kd todo)
  obtain k d where kd: "kd = (k, d)" by fastforce
  have "\<exists>rs' n'. sync_one now kind existing (rs, n) (k, d) = (rs', n') \<and> sync_inv os kind K T rs0 rs'"
    using Cons.prems(1) Cons.prems(2)[of k d] sync_put[of os kind K T rs0 rs k d now] sync_touch
    by (auto simp: sync_one_def kd)
  then obtain rs' n' where "sync_one now kind existing (rs, n) (k, d) = (rs', n')" "sync_inv os kind K T rs0 rs'" by blast
  with Cons.IH[of rs' n'] Cons.prems(2) show ?case by (auto simp: kd)
qed simp

lemma sync_references_ok:
  assumes ok: "cas_ok sha db"
  shows "cas_ok sha (fst (sync_references now kind0 wanted prefix db))"
proof -
  define kind where "kind = take 80 (py_strip kind0)"
  define desired where "desired = desired_owners [] wanted"
  define rows where "rows = filter (\<lambda>r. rf_kind r = kind \<and> (prefix = [] \<or> startswith (rf_key r) prefix)) (refs db)"
  define existing where "existing = map (\<lambda>r. (rf_key r, rf_sha r)) rows"
  define gone where "gone = filter (\<lambda>k. k \<notin> set (map fst desired)) (map fst existing)"
  define kept where "kept = delete_where (\<lambda>r. rf_kind r = kind \<and> rf_key r \<in> set gone) (refs db)"
  define T where "T = set (map snd existing @ map snd desired)"
  show ?thesis
  proof (cases "kind = [] \<or> (prefix \<noteq> [] \<and> list_ex (\<lambda>(k, d). \<not> startswith k prefix) desired)
                \<or> select_one (\<lambda>e. e \<noteq> None) (map (\<lambda>(k, d). present db d) desired) \<noteq> None")
    case True
    let ?bad = "select_one (\<lambda>e. e \<noteq> None) (map (\<lambda>(k, d). present db d) desired)"
    have "?bad = None \<or> (\<exists>e. ?bad = Some (Some e))"
      using select_one_Some[of "\<lambda>e. e \<noteq> None" "map (\<lambda>(k, d). present db d) desired"] by (cases ?bad) auto
    with True have "fst (sync_references now kind0 wanted prefix db) = db"
      unfolding sync_references_def Let_def kind_def[symmetric] desired_def[symmetric] by (elim disjE exE) simp_all
    with ok show ?thesis by simp
  next
    case False
    then have inside: "\<And>k d. (k, d) \<in> set desired \<Longrightarrow> prefix = [] \<or> startswith k prefix"
      and there: "\<And>k d. (k, d) \<in> set desired \<Longrightarrow> present db d = None"
      by (auto simp: list_ex_iff select_one_None)
    have row: "r \<in> set rows" if "r \<in> set (refs db)" "rf_kind r = kind" "rf_key r \<in> fst ` set desired \<or> rf_key r \<in> set gone" for r
      using that by (fastforce simp: rows_def gone_def existing_def dest: inside)
    have rowT: "rf_sha r \<in> T" if "r \<in> set rows" for r using that by (auto simp: T_def existing_def)
    have inv: "sync_inv (objects db) kind (fst ` set desired) T (refs db) kept"
    proof -
      have "ref_count kept d = ref_count (refs db) d" if "d \<notin> T" for d
      proof -
        have "filter (\<lambda>r. rf_sha r = d \<and> \<not> (rf_kind r = kind \<and> rf_key r \<in> set gone)) (refs db) = filter (\<lambda>r. rf_sha r = d) (refs db)"
          using row rowT that by (intro filter_cong) auto
        then show ?thesis by (simp add: ref_count_def rowcount_def kept_def delete_where_def conj_commute)
      qed
      moreover have "keyed owner_key kept" unfolding kept_def by (rule keyed_delete_where[OF shape_parts(1)[OF ok]])
      moreover have "refs_resolve (objects db) kept" using shape_parts(2)[OF ok] by (auto simp: refs_resolve_def kept_def delete_where_def)
      moreover have "rf_sha r \<in> T" if "r \<in> set kept" "rf_kind r = kind" "rf_key r \<in> fst ` set desired" for r
        using that row rowT by (auto simp: kept_def delete_where_def)
      ultimately show ?thesis by (auto simp: sync_inv_def)
    qed
    obtain rs n where fold: "foldl (sync_one now kind existing) (kept, 0) desired = (rs, n)" by fastforce
    have "sync_inv (objects db) kind (fst ` set desired) T (refs db) (fst (foldl (sync_one now kind existing) (kept, 0) desired))"
      using inv there by (intro sync_fold) (force simp: T_def dest: present_object)+
    then have "sync_inv (objects db) kind (fst ` set desired) T (refs db) rs" by (simp add: fold)
    then have "cas_ok sha (refresh_counts (map snd existing @ map snd desired) (db\<lparr>refs := rs\<rparr>))"
      by (intro refs_change_ok[OF ok]) (auto simp: sync_inv_def T_def)
    moreover have "fst (sync_references now kind0 wanted prefix db) = refresh_counts (map snd existing @ map snd desired) (db\<lparr>refs := rs\<rparr>)"
      using False fold unfolding sync_references_def Let_def kind_def[symmetric] desired_def[symmetric] rows_def[symmetric]
        existing_def[symmetric] gone_def[symmetric] kept_def[symmetric] by auto
    ultimately show ?thesis by simp
  qed
qed

section \<open>Reconciliation\<close>

lemma digest_object: "digest_from_object_path db p \<noteq> [] \<Longrightarrow> digest_from_object_path db p \<in> os_sha ` set (objects db)"
  by (auto simp: digest_from_object_path_def Let_def list_ex_iff split: if_splits intro: image_eqI[OF sym])

abbreviation refs_sound :: "object_row list \<Rightarrow> ref_row list \<Rightarrow> bool" where
  "refs_sound os rs \<equiv> keyed owner_key rs \<and> refs_resolve os rs"

lemma seed_js_sound:
  assumes "refs_sound (objects db) (fst st)"
  shows "refs_sound (objects db) (fst (seed_js now db st row))"
proof -
  obtain rs n t u b where "st = (rs, n)" "row = (t, u, b)" by (metis prod.exhaust)
  with assms digest_object[of db b] put_ref_keyed[of rs] put_ref_resolve[of "objects db" rs "digest_from_object_path db b"] show ?thesis
    by (auto simp: seed_js_def Let_def)
qed

lemma seed_legacy_sound:
  assumes "refs_sound os (fst st)" "r \<in> set os"
  shows "refs_sound os (fst (seed_legacy now st r))"
proof -
  obtain rs n where "st = (rs, n)" by fastforce
  with assms show ?thesis
    by (auto simp: seed_legacy_def insert_ignore_def refs_resolve_def keyed_def ref_key_def list_ex_iff)
qed

lemma fold_sound:
  assumes "\<And>st x. x \<in> set xs \<Longrightarrow> P (fst st) \<Longrightarrow> P (fst (g st x))" "P (fst st)"
  shows "P (fst (foldl g st xs))"
  using assms by (induction xs arbitrary: st) auto

lemma reconciled_ok: "cas_ok sha db \<Longrightarrow> cas_ok sha (fst (reconciled now db))"
proof -
  assume ok: "cas_ok sha db"
  obtain rs n where js: "foldl (seed_js now db) (refs db, 0) (js_blobs db) = (rs, n)" by fastforce
  have "refs_sound (objects db) (fst (foldl (seed_js now db) (refs db, 0) (js_blobs db)))"
    by (rule fold_sound[where P = "refs_sound (objects db)"]) (simp_all add: seed_js_sound shape_parts[OF ok])
  with js have rs: "refs_sound (objects db) rs" by simp
  obtain rs' m where leg: "(if legacy_seeded db then (rs, rowcount (\<lambda>q. rf_kind q = ''legacy_unclassified'') rs)
                           else foldl (seed_legacy now) (rs, 0) (objects db)) = (rs', m)" by fastforce
  have "refs_sound (objects db) (fst (foldl (seed_legacy now) (rs, 0) (objects db)))"
    using rs by (intro fold_sound[where P = "refs_sound (objects db)"] seed_legacy_sound) auto
  with leg rs have rs': "refs_sound (objects db) rs'" by (auto split: if_splits)
  have flag: "cas_ok sha (db\<lparr>legacy_seeded := True\<rparr>)" using ok by (simp add: cas_ok_def cas_shape_def counted_def)
  have "cas_ok sha (refresh_counts [] (db\<lparr>legacy_seeded := True, refs := rs'\<rparr>))"
    using refs_change_ok[OF flag, of rs' "[]"] rs' by simp
  moreover have "db\<lparr>legacy_seeded := True, refs := rs'\<rparr> = db\<lparr>refs := rs', legacy_seeded := True\<rparr>" by simp
  ultimately show ?thesis by (simp only: reconciled_def js leg Let_def prod.case fst_conv)
qed

lemma reconcile_ok: "cas_ok sha db \<Longrightarrow> cas_ok sha (fst (reconcile_reference_counts now db))"
  using reconciled_ok[of sha db now] by (auto simp: reconcile_reference_counts_def split: prod.split)

lemma reconciled_keeps:
  "map os_sha (objects (fst (reconcile_reference_counts now db))) = map os_sha (objects db)"
  "files (fst (reconcile_reference_counts now db)) = files db"
  by (auto simp: reconcile_reference_counts_def reconciled_def Let_def split: prod.split)

lemma release_ok:
  assumes ok: "cas_ok sha db" shows "cas_ok sha (release now d0 db)"
proof -
  define db1 where "db1 = fst (reconcile_reference_counts now db)"
  have ok1: "cas_ok sha db1" unfolding db1_def by (rule reconcile_ok[OF ok])
  let ?d = "py_lower (py_strip d0)"
  let ?db2 = "db1\<lparr>objects := update_where (\<lambda>r. os_sha r = ?d) (\<lambda>r. r\<lparr>os_count := 0\<rparr>) (objects db1)\<rparr>"
  have "cas_ok sha ?db2" if "ref_count (refs db1) ?d = 0"
  proof -
    have "cas_shape sha ?db2" using ok1 by (simp add: shape_update cas_ok_def)
    moreover have "counted ?db2" using ok1 that by (simp add: cas_ok_def counted_def ball_update_where)
    ultimately show ?thesis by (simp add: cas_ok_def)
  qed
  with ok1 show ?thesis by (simp add: release_def Let_def db1_def)
qed

lemma retention_ok: "cas_ok sha db \<Longrightarrow> cas_ok sha (fst (retention_candidates now cutoff db))"
  by (simp add: retention_candidates_def Let_def reconcile_ok)

section \<open>Deletion\<close>

text \<open>A sound store without an object that nobody refers to, its file gone or the row back at the end.\<close>

lemma without_ok:
  assumes ok: "cas_ok sha db" and hex: "hex_digest sha" and r: "r \<in> set (objects db)" and none: "ref_count (refs db) (os_sha r) = 0"
  defines "rest \<equiv> delete_where (\<lambda>q. os_sha q = os_sha r) (objects db)"
  shows "cas_ok sha (db\<lparr>objects := rest, files := (files db)(os_path r := None)\<rparr>)"
    and "cas_ok sha (db\<lparr>objects := rest @ [r\<lparr>os_count := 0\<rparr>]\<rparr>)"
proof -
  have rest: "q \<in> set rest \<longleftrightarrow> q \<in> set (objects db) \<and> os_sha q \<noteq> os_sha r" for q by (auto simp: rest_def delete_where_def)
  have path: "os_path q \<noteq> os_path r" if "q \<in> set rest" for q
  proof -
    have "intact sha (files db) q" "intact sha (files db) r" using that rest shape_parts(4)[OF ok] r by auto
    then show ?thesis
      using that rest cas_path_inj[OF intact_len[OF hex] intact_len[OF hex]] by (metis intact_def)
  qed
  have keyed: "keyed os_sha rest" unfolding rest_def by (rule keyed_delete_where[OF shape_parts(3)[OF ok]])
  have res: "refs_resolve rest (refs db)"
    using shape_parts(2)[OF ok] none by (force simp: refs_resolve_def ref_count_zero rest)
  have "intact sha ((files db)(os_path r := None)) q" if "q \<in> set rest" for q
  proof -
    have "((files db)(os_path r := None)) (os_path q) = files db (os_path q)" using path[OF that] by simp
    moreover have "intact sha (files db) q" using that rest shape_parts(4)[OF ok] by blast
    ultimately show ?thesis by (rule intact_cong[THEN iffD2])
  qed
  then show "cas_ok sha (db\<lparr>objects := rest, files := (files db)(os_path r := None)\<rparr>)"
    using rest shape_parts(5)[OF ok] by (intro objects_ok[OF ok keyed res]) blast+
  have "os_sha r \<notin> os_sha ` set rest" by (metis imageE rest)
  with keyed have "keyed os_sha (rest @ [r\<lparr>os_count := 0\<rparr>])" by (simp add: keyed_def)
  moreover have "refs_resolve (rest @ [r\<lparr>os_count := 0\<rparr>]) (refs db)" using res by (auto simp: refs_resolve_def)
  moreover have "intact sha (files db) q \<and> os_count q = ref_count (refs db) (os_sha q)" if "q \<in> set (rest @ [r\<lparr>os_count := 0\<rparr>])" for q
  proof (cases "q \<in> set rest")
    case True
    with rest shape_parts(4)[OF ok] shape_parts(5)[OF ok] show ?thesis by blast
  next
    case False
    with that have "q = r\<lparr>os_count := 0\<rparr>" by simp
    moreover have "intact sha (files db) (r\<lparr>os_count := 0\<rparr>)" using shape_parts(4)[OF ok r] by (rule intact_row[THEN iffD2, rotated -1]) simp_all
    ultimately show ?thesis using none by simp
  qed
  ultimately have "cas_ok sha (db\<lparr>objects := rest @ [r\<lparr>os_count := 0\<rparr>], files := files db\<rparr>)"
    by (intro objects_ok[OF ok]) blast+
  then show "cas_ok sha (db\<lparr>objects := rest @ [r\<lparr>os_count := 0\<rparr>]\<rparr>)" by simp
qed

text \<open>In a sound store a deletion has two effects: none besides the reconciliation, or the row and its file
  go.  A failing unlink leaves the row behind.\<close>

lemma delete_cases:
  fixes now :: stamp
  assumes "cas_ok sha db"
  defines "db1 \<equiv> fst (reconcile_reference_counts now db)"
  obtains (kept) out where "delete_if_unreferenced now d0 path seen unlink db = (db1, out)" "\<And>n. out \<noteq> Inr (Deleted n)"
  | (unlink_failed) r where "r \<in> set (objects db1)" "os_sha r = py_lower (py_strip d0)" "ref_count (refs db1) (os_sha r) = 0"
      "delete_if_unreferenced now d0 path seen unlink db =
         (db1\<lparr>objects := delete_where (\<lambda>q. os_sha q = os_sha r) (objects db1) @ [r\<lparr>os_count := 0\<rparr>]\<rparr>, Inl Unlink_Failed)"
  | (gone) r data where "r \<in> set (objects db1)" "os_sha r = py_lower (py_strip d0)" "ref_count (refs db1) (os_sha r) = 0"
      "files db1 (os_path r) = Some data" "unlink"
      "delete_if_unreferenced now d0 path seen unlink db =
         (db1\<lparr>objects := delete_where (\<lambda>q. os_sha q = os_sha r) (objects db1), files := (files db1)(os_path r := None)\<rparr>,
          Inr (Deleted (length data)))"
proof -
  let ?d = "py_lower (py_strip d0)" and ?out = "delete_if_unreferenced now d0 path seen unlink db"
  have ok1: "cas_ok sha db1" unfolding db1_def by (rule reconcile_ok[OF assms(1)])
  show thesis
  proof (cases "object_of db1 ?d")
    case None
    then have "?out = (db1, Inr Missing_Metadata)" by (simp add: delete_if_unreferenced_def Let_def db1_def)
    then show ?thesis by (intro kept) auto
  next
    case (Some r)
    then have r: "r \<in> set (objects db1)" "os_sha r = ?d" by (auto simp: object_of_def dest: select_one_Some)
    from shape_parts(4)[OF ok1 r(1)] obtain data where stored: "files db1 (os_path r) = Some data" and p: "row_path (os_path r) = Some (os_path r)"
      by (auto simp: intact_def)
    have eq: "?out = (let n = ref_count (refs db1) ?d
             in if 0 < n \<or> 0 < os_count r then (db1, Inr (Referenced (max n (os_count r))))
                else if seen \<noteq> None \<and> seen \<noteq> Some (os_accessed r) then (db1, Inr Recently_Accessed)
                else if path \<noteq> None \<and> path \<noteq> Some (os_path r) then (db1, Inr Path_Changed)
                    else if \<not> unlink
                    then (db1\<lparr>objects := delete_where (\<lambda>q. os_sha q = ?d) (objects db1) @ [r\<lparr>os_count := 0\<rparr>]\<rparr>, Inl Unlink_Failed)
                    else (db1\<lparr>objects := delete_where (\<lambda>q. os_sha q = ?d) (objects db1), files := (files db1)(os_path r := None)\<rparr>,
                          Inr (Deleted (length data))))"
      unfolding delete_if_unreferenced_def Let_def db1_def[symmetric] Some p option.case stored by simp
    show ?thesis
    proof (cases "0 < ref_count (refs db1) ?d \<or> 0 < os_count r \<or> (seen \<noteq> None \<and> seen \<noteq> Some (os_accessed r)) \<or> (path \<noteq> None \<and> path \<noteq> Some (os_path r))")
      case True
      then show ?thesis by (intro kept[of "snd ?out"]) (auto simp: eq Let_def)
    next
      case False
      then have none: "ref_count (refs db1) (os_sha r) = 0" by (simp add: r(2))
      show ?thesis
      proof (cases unlink)
        case True
        with False have "?out = (db1\<lparr>objects := delete_where (\<lambda>q. os_sha q = os_sha r) (objects db1), files := (files db1)(os_path r := None)\<rparr>,
            Inr (Deleted (length data)))" unfolding eq by (auto simp: Let_def r(2))
        from gone[OF r none stored True this] show ?thesis .
      next
        case unlinkable: False
        with False have "?out = (db1\<lparr>objects := delete_where (\<lambda>q. os_sha q = os_sha r) (objects db1) @ [r\<lparr>os_count := 0\<rparr>]\<rparr>, Inl Unlink_Failed)"
          unfolding eq by (auto simp: Let_def r(2))
        from unlink_failed[OF r none this] show ?thesis .
      qed
    qed
  qed
qed

lemma delete_ok:
  assumes ok: "cas_ok sha db" and hex: "hex_digest sha"
  shows "cas_ok sha (fst (delete_if_unreferenced now d0 path seen unlink db))"
proof -
  have ok1: "cas_ok sha (fst (reconcile_reference_counts now db))" by (rule reconcile_ok[OF ok])
  show ?thesis
  proof (rule delete_cases[OF ok, where now = now and ?d0.0 = d0 and path = path and seen = seen and unlink = unlink])
    fix r assume "r \<in> set (objects (fst (reconcile_reference_counts now db)))"
      "ref_count (refs (fst (reconcile_reference_counts now db))) (os_sha r) = 0"
    note both = without_ok[OF ok1 hex this]
    { assume "delete_if_unreferenced now d0 path seen unlink db = (fst (reconcile_reference_counts now db)
         \<lparr>objects := delete_where (\<lambda>q. os_sha q = os_sha r) (objects (fst (reconcile_reference_counts now db))) @ [r\<lparr>os_count := 0\<rparr>]\<rparr>,
         Inl Unlink_Failed)"
      with both(2) show ?thesis by simp }
    { fix data assume "delete_if_unreferenced now d0 path seen unlink db = (fst (reconcile_reference_counts now db)
         \<lparr>objects := delete_where (\<lambda>q. os_sha q = os_sha r) (objects (fst (reconcile_reference_counts now db))),
          files := (files (fst (reconcile_reference_counts now db)))(os_path r := None)\<rparr>, Inr (Deleted (length data)))"
      with both(1) show ?thesis by simp }
  qed (simp_all add: ok1)
qed

lemma gc_rows_ok: "cas_ok sha db \<Longrightarrow> hex_digest sha \<Longrightarrow> cas_ok sha (fst (gc_rows now unlink rows db rep))"
proof (induction rows arbitrary: db rep)
  case (Cons r rows)
  obtain db' out where "delete_if_unreferenced now (os_sha r) None None (unlink (os_sha r)) db = (db', out)" by fastforce
  with Cons.IH[of db'] Cons.prems delete_ok[of sha db now "os_sha r" None None "unlink (os_sha r)"] show ?case
    by (auto split: sum.split deletion.split)
qed simp

lemma gc_ok: "cas_ok sha db \<Longrightarrow> hex_digest sha \<Longrightarrow> cas_ok sha (fst (gc now dry unlink db))"
  by (simp add: gc_def Let_def reconcile_ok gc_rows_ok)

section \<open>Reachable stores\<close>

text \<open>A step is one call of an operation of \<open>ContentAddressedStore\<close>, or a collector recording the blob path of a
  JavaScript file.\<close>

inductive cas_step :: "(bytes \<Rightarrow> string) \<Rightarrow> cas_db \<Rightarrow> cas_db \<Rightarrow> bool" for sha where
  put: "cas_step sha db (fst (put_object sha now data ctype db))"
| get: "cas_step sha db (fst (get_object now d db))"
| bind: "cas_step sha db (fst (set_reference now kind k d db))"
| sync: "cas_step sha db (fst (sync_references now kind wanted prefix db))"
| drop: "cas_step sha db (fst (drop_reference kind k db))"
| reconcile: "cas_step sha db (fst (reconcile_reference_counts now db))"
| release: "cas_step sha db (release now d db)"
| candidates: "cas_step sha db (fst (retention_candidates now cutoff db))"
| delete: "cas_step sha db (fst (delete_if_unreferenced now d path seen unlink db))"
| collect: "cas_step sha db (fst (gc now dry unlink' db))"
| js: "cas_step sha db (db\<lparr>js_blobs := blobs\<rparr>)"

definition empty_store :: cas_db where
  "empty_store = \<lparr>objects = [], refs = [], files = (\<lambda>_. None), js_blobs = [], legacy_seeded = False\<rparr>"

definition cas_reachable :: "(bytes \<Rightarrow> string) \<Rightarrow> cas_db \<Rightarrow> bool" where
  "cas_reachable sha db \<longleftrightarrow> (cas_step sha)\<^sup>*\<^sup>* empty_store db"

lemma step_ok:
  assumes "cas_step sha db db'" "hex_digest sha" "cas_ok sha db"
  shows "cas_ok sha db'"
  using assms
proof cases
  case (js blobs)
  with assms show ?thesis by (simp add: cas_ok_def cas_shape_def counted_def)
qed (simp_all add: put_ok get_ok set_reference_ok sync_references_ok drop_reference_ok reconcile_ok release_ok retention_ok delete_ok gc_ok)

lemma reachable_ok:
  assumes "cas_reachable sha db" "hex_digest sha"
  shows "cas_ok sha db"
proof -
  have start: "cas_ok sha empty_store"
    by (simp add: empty_store_def cas_ok_def cas_shape_def counted_def keyed_def refs_resolve_def)
  have "(cas_step sha)\<^sup>*\<^sup>* empty_store db" using assms(1) by (simp add: cas_reachable_def)
  from this start show ?thesis
    by (induction rule: rtranclp_induct) (auto intro: step_ok[OF _ assms(2)])
qed

lemma reachable_step: "cas_reachable sha db \<Longrightarrow> cas_step sha db db' \<Longrightarrow> cas_reachable sha db'"
  unfolding cas_reachable_def by (rule rtranclp.rtrancl_into_rtrancl)

lemma reachable_empty: "cas_reachable sha empty_store"
  by (simp add: cas_reachable_def)

lemma served:
  assumes "cas_ok sha db" "d \<in> os_sha ` set (objects db)"
  shows "\<exists>data. snd (get_object now d db) = Inr data \<and> sha data = d"
proof -
  from assms(2) obtain q where "q \<in> set (objects db)" "os_sha q = d" by auto
  then obtain r where sel: "object_of db d = Some r"
    using select_one_None[of "\<lambda>r. os_sha r = d" "objects db"] by (cases "object_of db d") (auto simp: object_of_def)
  then have "r \<in> set (objects db)" "os_sha r = d" by (auto simp: object_of_def dest: select_one_Some)
  with intact_file[OF shape_parts(4)[OF assms(1), of r]] obtain data
    where "os_path r = cas_path d" "files db (cas_path d) = Some data" "sha data = d" by auto
  with sel show ?thesis by (simp add: get_object_def)
qed

text \<open>C17: In every store the operations can produce - puts, references set, synchronised and dropped, reconciliations,
  releases, retention, deletions and garbage collections in any order - every reference still serves its content: reading
  the digest it names returns bytes with that digest, and the stored reference count of every object is the number of its
  references.\<close>

theorem referenced_content_is_served:
  assumes "hex_digest sha" "cas_reachable sha db" "r \<in> set (refs db)"
  shows "(\<exists>data. snd (get_object now (rf_sha r) db) = Inr data \<and> sha data = rf_sha r)
     \<and> list_all (\<lambda>q. os_count q = ref_count (refs db) (os_sha q)) (objects db)"
proof -
  have ok: "cas_ok sha db" by (rule reachable_ok[OF assms(2,1)])
  have "rf_sha r \<in> os_sha ` set (objects db)" using shape_parts(2)[OF ok] assms(3) by (auto simp: refs_resolve_def)
  with served[OF ok] show ?thesis using shape_parts(5)[OF ok] by (auto simp: list_all_iff)
qed

definition flat_sha :: "bytes \<Rightarrow> string" where
  "flat_sha data = replicate 64 (if data = ''x'' then CHR ''1'' else CHR ''0'')"

lemma flat_hex: "hex_digest flat_sha"
  by (simp add: hex_digest_def flat_sha_def hex_char_def list_all_iff)

definition two_objects :: cas_db where
  "two_objects = fst (put_object flat_sha 2 ''y'' ''t'' (fst (put_object flat_sha 1 ''x'' ''t'' empty_store)))"

definition bound_store :: cas_db where
  "bound_store = fst (set_reference 3 ''js_file'' ''k'' (replicate 64 CHR ''1'') two_objects)"

lemma bound_reachable: "cas_reachable flat_sha two_objects" "cas_reachable flat_sha bound_store"
  unfolding bound_store_def two_objects_def by (intro reachable_step[OF _ cas_step.bind] reachable_step[OF _ cas_step.put] reachable_empty)+

text \<open>Deletion is safe and exact. Deleting a digest from a reachable store succeeds only when no reference names it, and
  then removes precisely its row and its file: the reference rows stay as the reconciliation left them, every other digest
  is listed as before, and no other file changes. Any other answer leaves every file alone.\<close>

theorem deletion_is_safe_and_exact:
  assumes "hex_digest sha" "cas_reachable sha db" "delete_if_unreferenced now d0 path seen unlink db = (db', out)"
  defines "digest \<equiv> py_lower (py_strip d0)"
  shows "case out of
      Inr (Deleted n) \<Rightarrow> ref_count (refs db') digest = 0 \<and> refs db' = refs (fst (reconcile_reference_counts now db))
        \<and> map os_sha (objects db') = removeAll digest (map os_sha (objects db))
        \<and> files db' = (files db)(cas_path digest := None) \<and> map_option length (files db (cas_path digest)) = Some n
    | _ \<Rightarrow> files db' = files db \<and> set (map os_sha (objects db')) = set (map os_sha (objects db))"
proof -
  have ok: "cas_ok sha db" by (rule reachable_ok[OF assms(2,1)])
  let ?db1 = "fst (reconcile_reference_counts now db)"
  have ok1: "cas_ok sha ?db1" by (rule reconcile_ok[OF ok])
  have shas: "map os_sha (delete_where (\<lambda>q. os_sha q = d) os) = removeAll d (map os_sha os)" for d os
    by (induction os) (auto simp: delete_where_def)
  have set1: "os_sha ` set (objects ?db1) = os_sha ` set (objects db)" using reconciled_keeps(1)[of now db] by (metis set_map)
  show ?thesis
  proof (rule delete_cases[OF ok, where now = now and ?d0.0 = d0 and path = path and seen = seen and unlink = unlink])
    fix out' assume "delete_if_unreferenced now d0 path seen unlink db = (?db1, out')" "\<And>n. out' \<noteq> Inr (Deleted n)"
    with assms(3) have "db' = ?db1" "\<And>n. out \<noteq> Inr (Deleted n)" by auto
    then show ?thesis by (simp add: reconciled_keeps(2) set1 split: sum.split deletion.split)
  next
    fix r assume r: "r \<in> set (objects ?db1)" "os_sha r = py_lower (py_strip d0)" "ref_count (refs ?db1) (os_sha r) = 0"
    { assume "delete_if_unreferenced now d0 path seen unlink db =
         (?db1\<lparr>objects := delete_where (\<lambda>q. os_sha q = os_sha r) (objects ?db1) @ [r\<lparr>os_count := 0\<rparr>]\<rparr>, Inl Unlink_Failed)"
      with assms(3) have out: "out = Inl Unlink_Failed"
        and eq: "db' = ?db1\<lparr>objects := delete_where (\<lambda>q. os_sha q = os_sha r) (objects ?db1) @ [r\<lparr>os_count := 0\<rparr>]\<rparr>" by auto
      have fs: "files db' = files db"
        and objs: "objects db' = delete_where (\<lambda>q. os_sha q = os_sha r) (objects ?db1) @ [r\<lparr>os_count := 0\<rparr>]"
        by (simp_all add: eq reconciled_keeps(2))
      have "set (map os_sha (objects db')) = os_sha ` set (objects ?db1)" using r(1) by (auto simp: objs delete_where_def)
      then show ?thesis by (simp add: out fs set1) }
    { fix data assume file': "files ?db1 (os_path r) = Some data" and "delete_if_unreferenced now d0 path seen unlink db =
         (?db1\<lparr>objects := delete_where (\<lambda>q. os_sha q = os_sha r) (objects ?db1), files := (files ?db1)(os_path r := None)\<rparr>,
          Inr (Deleted (length data)))"
      moreover have "os_path r = cas_path (os_sha r)" using shape_parts(4)[OF ok1 r(1)] by (simp add: intact_def)
      ultimately show ?thesis using assms(3) r by (auto simp: digest_def shas reconciled_keeps) }
  qed
qed

lemma bound_refs: "refs bound_store = [\<lparr>rf_kind = ''js_file'', rf_key = ''k'', rf_sha = replicate 64 CHR ''1'', rf_created = 3, rf_updated = 3\<rparr>]"
  by code_simp

lemma referenced_content_is_served_witness:
  "(\<exists>data. snd (get_object 9 (replicate 64 CHR ''1'') bound_store) = Inr data \<and> flat_sha data = replicate 64 CHR ''1'')
   \<and> list_all (\<lambda>q. os_count q = ref_count (refs bound_store) (os_sha q)) (objects bound_store)"
  using referenced_content_is_served[OF flat_hex bound_reachable(2), of "hd (refs bound_store)" 9] by (simp add: bound_refs)

lemma deletion_is_safe_and_exact_witness:
  "files (fst (delete_if_unreferenced 9 (replicate 64 CHR ''0'') None None True bound_store)) =
     (files bound_store)(cas_path (replicate 64 CHR ''0'') := None)
   \<and> files (fst (delete_if_unreferenced 9 (replicate 64 CHR ''1'') None None True bound_store)) = files bound_store"
proof -
  have "snd (delete_if_unreferenced 9 (replicate 64 CHR ''0'') None None True bound_store) = Inr (Deleted 1)"
    and "snd (delete_if_unreferenced 9 (replicate 64 CHR ''1'') None None True bound_store) = Inr (Referenced 1)" by code_simp+
  moreover have "py_lower (py_strip (replicate 64 CHR ''0'')) = replicate 64 CHR ''0''" by code_simp
  ultimately show ?thesis
    using deletion_is_safe_and_exact[OF flat_hex bound_reachable(2) prod.collapse[symmetric], of 9 "replicate 64 CHR ''0''" None None True]
      deletion_is_safe_and_exact[OF flat_hex bound_reachable(2) prod.collapse[symmetric], of 9 "replicate 64 CHR ''1''" None None True]
    by (simp only: sum.case deletion.case)
qed

end
