(* ===== verification/Audit_Chain.thy ===== *)
theory Audit_Chain
  imports Sql_Table Json_Text
begin

text \<open>
  The audit log: \<open>Database.audit\<close> and \<open>Database.transaction\<close> of \<open>src/app/core.py\<close>, the hash chain in
  \<open>audit_integrity\<close>, the mirror file \<open>audit.jsonl\<close>, and \<open>verify_audit_chain\<close> of \<open>src/app/platform_v6.py\<close>.

  The JSON columns hold text here, because the chain hashes text.  \<open>sha\<close> is \<open>sha256_text\<close> and \<open>fr\<close>
  the printing of floats.  Whether a line can be written to the mirror is the predicate \<open>w\<close>.
\<close>

section \<open>Tables\<close>

record audit_row =
  al_id :: nat
  al_actor :: string
  al_action :: string
  al_target :: "string option"
  al_type :: "string option"
  al_value :: "string option"
  al_details :: string
  al_created :: string

record integrity_row =
  ai_id :: nat
  ai_previous :: string
  ai_hash :: string
  ai_event :: string
  ai_created :: string

text \<open>\<open>audit_seq\<close> is the \<open>AUTOINCREMENT\<close> sequence, \<open>in_tx\<close> the connection's \<open>in_transaction\<close>.\<close>

record audit_db =
  log :: "audit_row list"
  chain :: "integrity_row list"
  audit_seq :: nat
  in_tx :: bool
  depth :: nat
  pending :: "string list"
  mirror :: "string list"

record audit_event =
  ev_actor :: string
  ev_action :: string
  ev_target :: string
  ev_type :: string
  ev_value :: string
  ev_details :: "(string \<times> json) list"

definition or_null :: "string \<Rightarrow> string option" where
  "or_null s = (if s = '''' then None else Some s)"

definition or_empty :: "string option \<Rightarrow> string" where
  "or_empty v = (case v of None \<Rightarrow> '''' | Some s \<Rightarrow> s)"

section \<open>Appending\<close>

definition event_record :: "string \<Rightarrow> string \<Rightarrow> string \<Rightarrow> string \<Rightarrow> string \<Rightarrow> string \<Rightarrow> json \<Rightarrow> json" where
  "event_record created actor action tgt ty v details = JObj
     [(''created_at'', JText created), (''actor'', JText actor), (''action'', JText action), (''target'', JText tgt),
      (''entity_type'', JText ty), (''entity_value'', JText v), (''details'', details)]"

definition event_json :: "(rat \<Rightarrow> string) \<Rightarrow> string \<Rightarrow> audit_event \<Rightarrow> string" where
  "event_json fr now e = json_dumps fr
     (event_record now (ev_actor e) (ev_action e) (ev_target e) (ev_type e) (ev_value e) (JObj (ev_details e)))"

definition next_id :: "audit_db \<Rightarrow> nat" where
  "next_id db = Suc (foldl max (audit_seq db) (map al_id (log db)))"

text \<open>The hash of the row with the greatest number.\<close>

definition head_hash :: "integrity_row list \<Rightarrow> string" where
  "head_hash t = (case rev (sort_key ai_id t) of [] \<Rightarrow> '''' | r # rs \<Rightarrow> ai_hash r)"

definition chained :: "string \<Rightarrow> string \<Rightarrow> string" where
  "chained previous event = previous @ ''|'' @ event"

definition log_row :: "(rat \<Rightarrow> string) \<Rightarrow> nat \<Rightarrow> string \<Rightarrow> audit_event \<Rightarrow> audit_row" where
  "log_row fr i now e = \<lparr>al_id = i, al_actor = ev_actor e, al_action = ev_action e, al_target = or_null (ev_target e),
     al_type = or_null (ev_type e), al_value = or_null (ev_value e), al_details = json_dumps fr (JObj (ev_details e)), al_created = now\<rparr>"

definition chain_row :: "(string \<Rightarrow> string) \<Rightarrow> nat \<Rightarrow> string \<Rightarrow> string \<Rightarrow> string \<Rightarrow> integrity_row" where
  "chain_row sha i now previous event =
     \<lparr>ai_id = i, ai_previous = previous, ai_hash = sha (chained previous event), ai_event = event, ai_created = now\<rparr>"

text \<open>The second insertion is refused when a chain row has the new number already.\<close>

definition append_rows :: "(string \<Rightarrow> string) \<Rightarrow> (rat \<Rightarrow> string) \<Rightarrow> string \<Rightarrow> audit_event \<Rightarrow> audit_db \<Rightarrow> audit_db \<times> bool" where
  "append_rows sha fr now e db =
     (let i = next_id db; db' = db\<lparr>log := log db @ [log_row fr i now e], audit_seq := i\<rparr>
      in if list_ex (\<lambda>r. ai_id r = i) (chain db) then (db', False)
         else (db'\<lparr>chain := chain db @ [chain_row sha i now (head_hash (chain db)) (event_json fr now e)]\<rparr>, True))"

text \<open>A call that owns its transaction rolls back; one that joined a transaction leaves that to the owner.\<close>

definition audit :: "(string \<Rightarrow> string) \<Rightarrow> (rat \<Rightarrow> string) \<Rightarrow> (string \<Rightarrow> bool) \<Rightarrow> string \<Rightarrow> audit_event \<Rightarrow> audit_db \<Rightarrow> audit_db \<times> bool" where
  "audit sha fr w now e db =
     (let line = event_json fr now e; (db', stored) = append_rows sha fr now e db
      in if \<not> stored then (if in_tx db then db' else db, False)
         else if 0 < depth db \<and> in_tx db then (db'\<lparr>pending := pending db @ [line]\<rparr>, True)
         else (db'\<lparr>mirror := mirror db @ filter w [line]\<rparr>, True))"

section \<open>Transactions\<close>

text \<open>\<open>body\<close> is the block under \<open>with db.transaction()\<close>, \<open>False\<close> an exception.  \<open>BEGIN\<close> fails within a
  transaction.\<close>

definition transaction :: "(string \<Rightarrow> bool) \<Rightarrow> (audit_db \<Rightarrow> audit_db \<times> bool) \<Rightarrow> audit_db \<Rightarrow> audit_db \<times> bool" where
  "transaction w body db =
     (if in_tx db then (db, False)
      else case body (db\<lparr>in_tx := True, depth := depth db + 1\<rparr>) of
        (db', fine) \<Rightarrow>
          (let lines = drop (length (pending db)) (pending db');
               closed = db'\<lparr>in_tx := False, depth := depth db' - 1, pending := take (length (pending db)) (pending db')\<rparr>
           in if fine then (closed\<lparr>mirror := mirror db' @ filter w lines\<rparr>, True)
              else (closed\<lparr>log := log db, chain := chain db, audit_seq := audit_seq db\<rparr>, False)))"

section \<open>Verification\<close>

definition canonical_event :: "(rat \<Rightarrow> string) \<Rightarrow> audit_row \<Rightarrow> string" where
  "canonical_event fr r = json_dumps fr
     (event_record (al_created r) (al_actor r) (al_action r) (or_empty (al_target r)) (or_empty (al_type r)) (or_empty (al_value r))
       (safe_json_loads (JText (al_details r)) (JObj []) (Some Dict_Kind)))"

datatype chain_fault = Orphan_Integrity | Missing_Integrity | Log_Mismatch | Previous_Mismatch | Hash_Mismatch

datatype verdict = Chain_Bad nat nat chain_fault | Chain_Ok nat string

fun verify_rows ::
    "(string \<Rightarrow> string) \<Rightarrow> (rat \<Rightarrow> string) \<Rightarrow> integrity_row list \<Rightarrow> string \<Rightarrow> nat \<Rightarrow> audit_row list \<Rightarrow> verdict" where
  "verify_rows sha fr t previous n [] = Chain_Ok n previous"
| "verify_rows sha fr t previous n (r # rows) =
     (case select_one (\<lambda>c. ai_id c = al_id r) t of
        None \<Rightarrow> Chain_Bad n (al_id r) Missing_Integrity
      | Some c \<Rightarrow>
          if ai_event c \<noteq> canonical_event fr r then Chain_Bad n (al_id r) Log_Mismatch
          else if ai_previous c \<noteq> previous then Chain_Bad n (al_id r) Previous_Mismatch
          else if ai_hash c \<noteq> sha (chained previous (ai_event c)) then Chain_Bad n (al_id r) Hash_Mismatch
          else verify_rows sha fr t (sha (chained previous (ai_event c))) (n + 1) rows)"

definition verify_audit_chain :: "(string \<Rightarrow> string) \<Rightarrow> (rat \<Rightarrow> string) \<Rightarrow> audit_db \<Rightarrow> verdict" where
  "verify_audit_chain sha fr db =
     (case sort_key ai_id (filter (\<lambda>c. \<not> list_ex (\<lambda>r. al_id r = ai_id c) (log db)) (chain db)) of
        c # cs \<Rightarrow> Chain_Bad 0 (ai_id c) Orphan_Integrity
      | [] \<Rightarrow> verify_rows sha fr (chain db) '''' 0 (sort_key al_id (log db)))"

end
