(* ===== verification/Audit_Chain_Facts.thy ===== *)
theory Audit_Chain_Facts
  imports Audit_Chain
begin

text \<open>
  The audit log as the program writes it always verifies and its mirror never shows an event that was rolled
  back; a log that was changed and still verifies has another head hash.
\<close>

section \<open>What one append stores\<close>

lemma sorted_idem [simp]: "sorted_keys (sorted_keys v) = sorted_keys v"
proof (induction v)
  case (JObj m)
  let ?s = "sort_key fst (map (map_prod id sorted_keys) m)"
  have "map_prod id sorted_keys p = p" if "p \<in> set ?s" for p
  proof -
    from that obtain k v where "(k, v) \<in> set m" "p = (k, sorted_keys v)" by auto
    with JObj.IH[of "(k, v)" v] show ?thesis by simp
  qed
  then have "map (map_prod id sorted_keys) ?s = ?s" by (simp only: map_idI)
  then show ?case by (simp add: sort_key_id_if_sorted)
qed auto

lemma or_empty_null [simp]: "or_empty (or_null s) = s"
  by (simp add: or_empty_def or_null_def)

lemma dumps_sorted_details:
  "json_dumps fr (event_record c a b t y v (sorted_keys d)) = json_dumps fr (event_record c a b t y v d)"
  by (simp add: json_dumps_def event_record_def)

lemma canonical_log_row:
  assumes "json_ok (JObj (ev_details e))"
  shows "canonical_event fr (log_row fr i now e) = event_json fr now e"
proof -
  have "safe_json_loads (JText (json_dumps fr (JObj (ev_details e)))) (JObj []) (Some Dict_Kind) = sorted_keys (JObj (ev_details e))"
    using loads_dumps[OF assms] by simp
  then show ?thesis
    by (simp add: canonical_event_def log_row_def event_json_def dumps_sorted_details del: sorted_keys.simps)
qed

section \<open>The chain as it is written\<close>

fun linked :: "(string \<Rightarrow> string) \<Rightarrow> (rat \<Rightarrow> string) \<Rightarrow> string \<Rightarrow> audit_row list \<Rightarrow> integrity_row list \<Rightarrow> bool" where
  "linked sha fr p [] [] = True"
| "linked sha fr p (r # rs) (c # cs) = (ai_id c = al_id r \<and> ai_event c = canonical_event fr r \<and> ai_previous c = p
     \<and> ai_hash c = sha (chained p (ai_event c)) \<and> linked sha fr (ai_hash c) rs cs)"
| "linked sha fr p _ _ = False"

definition last_hash :: "string \<Rightarrow> integrity_row list \<Rightarrow> string" where
  "last_hash p t = (if t = [] then p else ai_hash (last t))"

lemma linked_snoc:
  "linked sha fr p rs cs \<Longrightarrow> ai_id c = al_id r \<Longrightarrow> ai_event c = canonical_event fr r \<Longrightarrow> ai_previous c = last_hash p cs
   \<Longrightarrow> ai_hash c = sha (chained (last_hash p cs) (ai_event c)) \<Longrightarrow> linked sha fr p (rs @ [r]) (cs @ [c])"
  by (induction sha fr p rs cs rule: linked.induct) (auto simp: last_hash_def split: if_splits)

lemma linked_verifies:
  "linked sha fr p rs cs \<Longrightarrow> set cs \<subseteq> set t \<Longrightarrow> keyed ai_id t
   \<Longrightarrow> verify_rows sha fr t p n rs = Chain_Ok (n + length rs) (last_hash p cs)"
proof (induction sha fr p rs cs arbitrary: n rule: linked.induct)
  case (2 sha fr p r rs c cs)
  then have "select_one (\<lambda>q. ai_id q = al_id r) t = Some c" using select_one_key[of ai_id t c] by simp
  with 2 show ?case by (auto simp: last_hash_def)
qed (auto simp: last_hash_def)

definition chain_inv :: "(string \<Rightarrow> string) \<Rightarrow> (rat \<Rightarrow> string) \<Rightarrow> audit_db \<Rightarrow> bool" where
  "chain_inv sha fr db \<longleftrightarrow> sorted_wrt (<) (map al_id (log db)) \<and> map ai_id (chain db) = map al_id (log db)
     \<and> (\<forall>r \<in> set (log db). al_id r \<le> audit_seq db) \<and> linked sha fr '''' (log db) (chain db)"

lemma sort_chain: "sorted_wrt (<) (map f xs) \<Longrightarrow> sort_key f xs = xs" for f :: "'a \<Rightarrow> nat"
  by (simp add: sort_key_id_if_sorted strict_sorted_iff)

lemma head_last: "chain_inv sha fr db \<Longrightarrow> head_hash (chain db) = last_hash '''' (chain db)"
proof -
  assume "chain_inv sha fr db"
  then have "sorted_wrt (<) (map ai_id (chain db))" by (simp add: chain_inv_def)
  then show ?thesis by (cases "chain db" rule: rev_cases) (simp_all add: head_hash_def last_hash_def sort_chain)
qed

lemma next_id_fresh: "chain_inv sha fr db \<Longrightarrow> next_id db = Suc (audit_seq db)"
proof -
  have "\<forall>x \<in> set xs. x \<le> s \<Longrightarrow> foldl max s xs = s" for xs and s :: nat by (induction xs) (auto simp: max_def)
  then show "chain_inv sha fr db \<Longrightarrow> ?thesis" by (simp add: chain_inv_def next_id_def)
qed

lemma append_stores:
  fixes now :: string
  assumes inv: "chain_inv sha fr db" and ok: "json_ok (JObj (ev_details e))"
  defines "c \<equiv> chain_row sha (next_id db) now (head_hash (chain db)) (event_json fr now e)"
  shows "append_rows sha fr now e db =
      (db\<lparr>log := log db @ [log_row fr (next_id db) now e], audit_seq := next_id db, chain := chain db @ [c]\<rparr>, True)"
    and "chain_inv sha fr (db\<lparr>log := log db @ [log_row fr (next_id db) now e], audit_seq := next_id db, chain := chain db @ [c]\<rparr>)"
proof -
  have i: "next_id db = Suc (audit_seq db)" by (rule next_id_fresh[OF inv])
  have below: "\<forall>r \<in> set (log db). al_id r \<le> audit_seq db" using inv by (simp add: chain_inv_def)
  moreover have "ai_id ` set (chain db) = al_id ` set (log db)" using inv by (metis chain_inv_def set_map)
  ultimately have new: "\<forall>r \<in> set (chain db). ai_id r \<noteq> next_id db" by (metis i imageE imageI Suc_n_not_le_n)
  then show "append_rows sha fr now e db =
      (db\<lparr>log := log db @ [log_row fr (next_id db) now e], audit_seq := next_id db, chain := chain db @ [c]\<rparr>, True)"
    by (auto simp: append_rows_def Let_def c_def list_ex_iff)
  have "linked sha fr '''' (log db @ [log_row fr (next_id db) now e]) (chain db @ [c])"
    using inv canonical_log_row[OF ok] head_last[OF inv]
    by (intro linked_snoc) (simp_all add: chain_inv_def c_def chain_row_def log_row_def)
  then show "chain_inv sha fr (db\<lparr>log := log db @ [log_row fr (next_id db) now e], audit_seq := next_id db, chain := chain db @ [c]\<rparr>)"
    using inv below by (auto simp: chain_inv_def sorted_wrt_append c_def chain_row_def log_row_def i le_imp_less_Suc)
qed

section \<open>Reachable logs\<close>

fun block :: "(string \<Rightarrow> string) \<Rightarrow> (rat \<Rightarrow> string) \<Rightarrow> (string \<Rightarrow> bool) \<Rightarrow> (string \<times> audit_event) list \<Rightarrow> bool \<Rightarrow> audit_db \<Rightarrow> audit_db \<times> bool" where
  "block sha fr w [] fine db = (db, fine)"
| "block sha fr w ((now, e) # es) fine db =
     (case audit sha fr w now e db of (db', stored) \<Rightarrow> if stored then block sha fr w es fine db' else (db', False))"

definition no_log :: audit_db where
  "no_log = \<lparr>log = [], chain = [], audit_seq = 0, in_tx = False, depth = 0, pending = [], mirror = []\<rparr>"

text \<open>The program audits single events, or several within a transaction that ends in either way.\<close>

inductive audited :: "(string \<Rightarrow> string) \<Rightarrow> (rat \<Rightarrow> string) \<Rightarrow> (string \<Rightarrow> bool) \<Rightarrow> audit_db \<Rightarrow> bool" for sha fr w where
  start: "audited sha fr w no_log"
| single: "audited sha fr w db \<Longrightarrow> json_ok (JObj (ev_details e)) \<Longrightarrow> audited sha fr w (fst (audit sha fr w now e db))"
| transacted: "audited sha fr w db \<Longrightarrow> list_all (\<lambda>(now, e). json_ok (JObj (ev_details e))) es
     \<Longrightarrow> audited sha fr w (fst (transaction w (block sha fr w es fine) db))"

definition audit_inv :: "(string \<Rightarrow> string) \<Rightarrow> (rat \<Rightarrow> string) \<Rightarrow> (string \<Rightarrow> bool) \<Rightarrow> audit_db \<Rightarrow> bool" where
  "audit_inv sha fr w db \<longleftrightarrow> chain_inv sha fr db \<and> \<not> in_tx db \<and> depth db = 0 \<and> pending db = []
     \<and> mirror db = filter w (map ai_event (chain db))"

lemma block_result:
  assumes "chain_inv sha fr db" "in_tx db" "0 < depth db" "list_all (\<lambda>(now, e). json_ok (JObj (ev_details e))) es"
  shows "\<exists>l c s. block sha fr w es fine db =
      (db\<lparr>log := l, chain := chain db @ c, audit_seq := s, pending := pending db @ map ai_event c\<rparr>, fine)
    \<and> chain_inv sha fr (db\<lparr>log := l, chain := chain db @ c, audit_seq := s, pending := pending db @ map ai_event c\<rparr>)"
  using assms
proof (induction es arbitrary: db)
  case Nil
  then show ?case by (intro exI[of _ "log db"] exI[of _ "[]"] exI[of _ "audit_seq db"]) simp
next
  case (Cons x es)
  obtain now e where x: "x = (now, e)" by fastforce
  with Cons.prems have ok: "json_ok (JObj (ev_details e))" by simp
  define c1 where "c1 = chain_row sha (next_id db) now (head_hash (chain db)) (event_json fr now e)"
  define db1 where "db1 = db\<lparr>log := log db @ [log_row fr (next_id db) now e], audit_seq := next_id db, chain := chain db @ [c1],
    pending := pending db @ [event_json fr now e]\<rparr>"
  have step: "audit sha fr w now e db = (db1, True)"
    using append_stores(1)[OF Cons.prems(1) ok, of now] Cons.prems(2,3) by (simp add: audit_def c1_def db1_def)
  have "chain_inv sha fr db1" using append_stores(2)[OF Cons.prems(1) ok, of now] by (simp add: chain_inv_def db1_def c1_def)
  moreover have "in_tx db1" "0 < depth db1" using Cons.prems(2,3) by (simp_all add: db1_def)
  ultimately obtain l c s where IH: "block sha fr w es fine db1 =
      (db1\<lparr>log := l, chain := chain db1 @ c, audit_seq := s, pending := pending db1 @ map ai_event c\<rparr>, fine)"
    "chain_inv sha fr (db1\<lparr>log := l, chain := chain db1 @ c, audit_seq := s, pending := pending db1 @ map ai_event c\<rparr>)"
    using Cons.IH[of db1] Cons.prems(4) by auto
  have "db1\<lparr>log := l, chain := chain db1 @ c, audit_seq := s, pending := pending db1 @ map ai_event c\<rparr>
      = db\<lparr>log := l, chain := chain db @ (c1 # c), audit_seq := s, pending := pending db @ map ai_event (c1 # c)\<rparr>"
    by (simp add: db1_def c1_def chain_row_def)
  with IH step x show ?case by (intro exI[of _ l] exI[of _ "c1 # c"] exI[of _ s]) simp
qed

lemma audited_inv: "audited sha fr w db \<Longrightarrow> audit_inv sha fr w db"
proof (induction rule: audited.induct)
  case start
  then show ?case by (simp add: audit_inv_def chain_inv_def no_log_def)
next
  case (single db e now)
  then have inv: "chain_inv sha fr db" by (simp add: audit_inv_def)
  from append_stores[OF inv single(2), of now] single(3) show ?case
    by (auto simp: audit_def Let_def audit_inv_def chain_inv_def chain_row_def)
next
  case (transacted db es fine)
  let ?db = "db\<lparr>in_tx := True, depth := Suc (depth db)\<rparr>"
  have inv: "chain_inv sha fr ?db" using transacted(3) by (simp add: audit_inv_def chain_inv_def)
  from block_result[OF inv, of es w fine] transacted(2) obtain l c s where b: "block sha fr w es fine ?db =
      (?db\<lparr>log := l, chain := chain db @ c, audit_seq := s, pending := pending db @ map ai_event c\<rparr>, fine)"
    "chain_inv sha fr (?db\<lparr>log := l, chain := chain db @ c, audit_seq := s, pending := pending db @ map ai_event c\<rparr>)" by auto
  have "\<not> in_tx db" using transacted(3) by (simp add: audit_inv_def)
  then have "fst (transaction w (block sha fr w es fine) db) =
      (if fine then db\<lparr>log := l, chain := chain db @ c, audit_seq := s, mirror := mirror db @ filter w (map ai_event c)\<rparr> else db)"
    by (simp add: transaction_def b(1) Let_def)
  with b(2) transacted(3) show ?case by (auto simp: audit_inv_def chain_inv_def)
qed

lemma audited_verifies:
  assumes "audited sha fr w db"
  shows "verify_audit_chain sha fr db = Chain_Ok (length (log db)) (head_hash (chain db))"
proof -
  have inv: "chain_inv sha fr db" using audited_inv[OF assms] by (simp add: audit_inv_def)
  then have ids: "sorted_wrt (<) (map al_id (log db))" "map ai_id (chain db) = map al_id (log db)" and link: "linked sha fr '''' (log db) (chain db)"
    by (simp_all add: chain_inv_def)
  have "ai_id ` set (chain db) = al_id ` set (log db)" using ids(2) by (metis set_map)
  then have none: "filter (\<lambda>c. \<not> list_ex (\<lambda>r. al_id r = ai_id c) (log db)) (chain db) = []"
    by (auto simp: filter_empty_conv list_ex_iff) (metis imageE imageI)
  have "keyed ai_id (chain db)" using ids by (simp add: keyed_def strict_sorted_iff)
  then show ?thesis
    using linked_verifies[OF link subset_refl, of 0] by (simp add: verify_audit_chain_def none sort_chain[OF ids(1)] head_last[OF inv])
qed

text \<open>C19: The audit log the program writes verifies: after any sequence of audited events and transactions, committed
  or rolled back, \<open>verify_audit_chain\<close> confirms every row and reports the hash of the newest one.\<close>

theorem written_log_verifies:
  assumes "audited sha fr w db"
  shows "verify_audit_chain sha fr db = Chain_Ok (length (log db)) (head_hash (chain db))"
  by (rule audited_verifies[OF assms])

text \<open>The mirror file shows exactly the stored events: its lines are the events of the chain in order, less those
  whose write failed, so an event of a transaction that was rolled back never appears and one of a committed transaction
  is never missing.\<close>

theorem mirror_shows_the_stored_events:
  assumes "audited sha fr w db"
  shows "mirror db = filter w (map ai_event (chain db)) \<and> pending db = []"
  using audited_inv[OF assms] by (simp add: audit_inv_def)

section \<open>Tampering\<close>

definition plain_digest :: "(string \<Rightarrow> string) \<Rightarrow> bool" where
  "plain_digest sha \<longleftrightarrow> (\<forall>s. sha s \<noteq> '''' \<and> CHR ''|'' \<notin> set (sha s))"

definition hash_fold :: "(string \<Rightarrow> string) \<Rightarrow> string list \<Rightarrow> string" where
  "hash_fold sha es = foldl (\<lambda>p e. sha (chained p e)) '''' es"

text \<open>The texts hashed along a chain of events.\<close>

fun hashed :: "(string \<Rightarrow> string) \<Rightarrow> string \<Rightarrow> string list \<Rightarrow> string list" where
  "hashed sha p [] = []"
| "hashed sha p (e # es) = chained p e # hashed sha (sha (chained p e)) es"

lemma hashed_append: "hashed sha p (es @ fs) = hashed sha p es @ hashed sha (foldl (\<lambda>p e. sha (chained p e)) p es) fs"
  by (induction es arbitrary: p) auto

lemma hashed_snoc: "hashed sha '''' (es @ [e]) = hashed sha '''' es @ [chained (hash_fold sha es) e]"
  by (simp add: hashed_append hash_fold_def)

lemma fold_snoc: "hash_fold sha (es @ [e]) = sha (chained (hash_fold sha es) e)"
  by (simp add: hash_fold_def)

lemma fold_plain: "plain_digest sha \<Longrightarrow> CHR ''|'' \<notin> set (hash_fold sha es) \<and> (hash_fold sha es = '''' \<longleftrightarrow> es = [])"
  by (cases es rule: rev_cases) (simp_all add: fold_snoc plain_digest_def, simp add: hash_fold_def)

lemma chained_inj: "CHR ''|'' \<notin> set a \<Longrightarrow> CHR ''|'' \<notin> set b \<Longrightarrow> chained a x = chained b y \<Longrightarrow> a = b \<and> x = y"
  unfolding chained_def by (induction a arbitrary: b) (case_tac b; auto)+

lemma hash_fold_inj:
  "plain_digest sha \<Longrightarrow> inj_on sha (set (hashed sha '''' xs) \<union> set (hashed sha '''' ys)) \<Longrightarrow> hash_fold sha xs = hash_fold sha ys
   \<Longrightarrow> xs = ys"
proof (induction xs arbitrary: ys rule: rev_induct)
  case Nil
  then show ?case using fold_plain[of sha ys] by (simp add: hash_fold_def)
next
  case (snoc x xs)
  have "ys \<noteq> []" using fold_plain[OF snoc.prems(1), of "xs @ [x]"] fold_plain[OF snoc.prems(1), of ys] snoc.prems(3) by auto
  then obtain zs z where ys: "ys = zs @ [z]" by (cases ys rule: rev_cases) auto
  have "chained (hash_fold sha xs) x = chained (hash_fold sha zs) z"
    by (rule inj_onD[OF snoc.prems(2)]) (use snoc.prems(3) in \<open>simp_all add: ys hashed_snoc fold_snoc\<close>)
  then have "hash_fold sha xs = hash_fold sha zs" "x = z" using chained_inj fold_plain[OF snoc.prems(1)] by blast+
  moreover have "inj_on sha (set (hashed sha '''' xs) \<union> set (hashed sha '''' zs))"
    by (rule inj_on_subset[OF snoc.prems(2)]) (auto simp: ys hashed_snoc)
  ultimately show ?case using snoc.IH[OF snoc.prems(1)] ys by blast
qed

definition logged :: "(rat \<Rightarrow> string) \<Rightarrow> audit_db \<Rightarrow> string list" where
  "logged fr db = map (canonical_event fr) (sort_key al_id (log db))"

lemma verify_rows_fold:
  "verify_rows sha fr t p n rows = Chain_Ok m h
   \<Longrightarrow> m = n + length rows \<and> h = foldl (\<lambda>p e. sha (chained p e)) p (map (canonical_event fr) rows)"
proof (induction rows arbitrary: p n)
  case (Cons r rows)
  then obtain c where "select_one (\<lambda>c. ai_id c = al_id r) t = Some c" "ai_event c = canonical_event fr r"
    "verify_rows sha fr t (sha (chained p (canonical_event fr r))) (n + 1) rows = Chain_Ok m h"
    by (auto split: option.splits if_splits)
  with Cons.IH[of "sha (chained p (canonical_event fr r))" "n + 1"] show ?case by simp
qed simp

lemma verified_head: "verify_audit_chain sha fr db = Chain_Ok n h \<Longrightarrow> h = hash_fold sha (logged fr db) \<and> n = length (log db)"
  by (auto simp: verify_audit_chain_def hash_fold_def logged_def dest!: verify_rows_fold split: list.splits)

definition details_of :: "audit_row \<Rightarrow> json" where
  "details_of r = safe_json_loads (JText (al_details r)) (JObj []) (Some Dict_Kind)"

text \<open>What a row says: when, who, what, about what, with which details.\<close>

definition event_view :: "audit_row \<Rightarrow> string \<times> string \<times> string \<times> string \<times> string \<times> string \<times> json" where
  "event_view r = (al_created r, al_actor r, al_action r, or_empty (al_target r), or_empty (al_type r), or_empty (al_value r),
     sorted_keys (details_of r))"

lemma dumps_inj: "json_ok v \<Longrightarrow> json_ok u \<Longrightarrow> json_dumps fr v = json_dumps fr u \<Longrightarrow> sorted_keys v = sorted_keys u"
  by (metis json_dumps_def json_ok_sorted loads_dump_plain option.inject)

lemma sorted_record:
  assumes "sorted_keys (event_record c a b t y v d) = sorted_keys (event_record c' a' b' t' y' v' d')"
  shows "c = c' \<and> a = a' \<and> b = b' \<and> t = t' \<and> y = y' \<and> v = v' \<and> sorted_keys d = sorted_keys d'"
proof -
  have lookup: "map_of (sort_key fst m) = map_of m" if "distinct (map fst m)" for m :: "(string \<times> json) list"
    using that by (intro map_of_inject_set[THEN iffD2]) (simp_all only: distinct_map_sort set_sort)
  let ?m = "\<lambda>c a b t y v d. [(''created_at'', JText c), (''actor'', JText a), (''action'', JText b), (''target'', JText t),
      (''entity_type'', JText y), (''entity_value'', JText v), (''details'', sorted_keys d)]"
  have "sort_key fst (?m c a b t y v d) = sort_key fst (?m c' a' b' t' y' v' d')"
    using assms by (simp only: event_record_def sorted_keys.simps json.inject list.map map_prod_simp id_apply)
  then have "map_of (?m c a b t y v d) k = map_of (?m c' a' b' t' y' v' d') k" for k
    using lookup[of "?m c a b t y v d"] lookup[of "?m c' a' b' t' y' v' d'"] by simp
  from this[of "''created_at''"] this[of "''actor''"] this[of "''action''"] this[of "''target''"] this[of "''entity_type''"]
    this[of "''entity_value''"] this[of "''details''"] show ?thesis by simp
qed

lemma canonical_view:
  assumes "json_ok (details_of r)" "json_ok (details_of q)" "canonical_event fr r = canonical_event fr q"
  shows "event_view r = event_view q"
proof -
  have "json_ok (event_record c a b t y v d) = json_ok d" for c a b t y v d by (simp add: event_record_def)
  with assms have "sorted_keys (event_record (al_created r) (al_actor r) (al_action r) (or_empty (al_target r)) (or_empty (al_type r)) (or_empty (al_value r)) (details_of r))
    = sorted_keys (event_record (al_created q) (al_actor q) (al_action q) (or_empty (al_target q)) (or_empty (al_type q)) (or_empty (al_value q)) (details_of q))"
    by (intro dumps_inj[of _ _ fr]) (simp_all add: canonical_event_def details_of_def)
  then show ?thesis by (auto simp: event_view_def dest: sorted_record)
qed

text \<open>C18: Tampering shows: two audit databases that both verify and have the same head hash tell the same story - equally
  many rows, and row by row the same time, actor, action, target, entity and details - provided the details of both are JSON
  values without floats and with distinct keys (\<open>json_ok\<close>) and no two of the texts hashed in them collide.  So deleting, inserting, reordering or
  editing such events changes the head hash or fails to verify.\<close>

theorem tampering_changes_the_head:
  assumes "plain_digest sha"
    and "verify_audit_chain sha fr db = Chain_Ok n h" "verify_audit_chain sha fr db' = Chain_Ok m h"
    and "inj_on sha (set (hashed sha '''' (logged fr db)) \<union> set (hashed sha '''' (logged fr db')))"
    and "list_all (\<lambda>r. json_ok (details_of r)) (log db @ log db')"
  shows "n = m \<and> map event_view (sort_key al_id (log db)) = map event_view (sort_key al_id (log db'))"
proof -
  have "hash_fold sha (logged fr db) = hash_fold sha (logged fr db')"
    using verified_head[OF assms(2)] verified_head[OF assms(3)] by simp
  then have same: "logged fr db = logged fr db'" by (rule hash_fold_inj[OF assms(1,4)])
  then have len: "length (log db) = length (log db')" by (metis logged_def length_map length_sort)
  have "event_view (sort_key al_id (log db) ! i) = event_view (sort_key al_id (log db') ! i)" if i: "i < length (log db)" for i
  proof (rule canonical_view[where fr = fr])
    have "sort_key al_id (log db) ! i \<in> set (log db)" "sort_key al_id (log db') ! i \<in> set (log db')"
      using i len nth_mem[of i "sort_key al_id (log db)"] nth_mem[of i "sort_key al_id (log db')"] by simp_all
    then show "json_ok (details_of (sort_key al_id (log db) ! i))" "json_ok (details_of (sort_key al_id (log db') ! i))"
      using assms(5) by (auto simp: list_all_iff)
    show "canonical_event fr (sort_key al_id (log db) ! i) = canonical_event fr (sort_key al_id (log db') ! i)"
      using arg_cong[OF same, of "\<lambda>xs. xs ! i"] i len by (simp add: logged_def)
  qed
  then show ?thesis using len verified_head[OF assms(2)] verified_head[OF assms(3)] by (auto intro: nth_equalityI)
qed

section \<open>Examples\<close>

definition long_hash :: "string \<Rightarrow> string" where
  "long_hash s = replicate (Suc (length s)) CHR ''h''"

definition demo_event :: audit_event where
  "demo_event = \<lparr>ev_actor = ''a'', ev_action = ''run'', ev_target = ''t'', ev_type = '''', ev_value = '''', ev_details = []\<rparr>"

definition demo_audit :: audit_db where
  "demo_audit = fst (audit long_hash (\<lambda>_. '''') (\<lambda>_. True) ''2'' demo_event
     (fst (transaction (\<lambda>_. True) (block long_hash (\<lambda>_. '''') (\<lambda>_. True) [(''1'', demo_event)] False)
       (fst (audit long_hash (\<lambda>_. '''') (\<lambda>_. True) ''1'' demo_event no_log)))))"

text \<open>The same events under other numbers.\<close>

definition renumbered :: "audit_db \<Rightarrow> audit_db" where
  "renumbered db = db\<lparr>log := map (\<lambda>r. r\<lparr>al_id := al_id r + 10\<rparr>) (log db), chain := map (\<lambda>r. r\<lparr>ai_id := ai_id r + 10\<rparr>) (chain db)\<rparr>"

lemma demo_audited: "audited long_hash (\<lambda>_. '''') (\<lambda>_. True) demo_audit"
  unfolding demo_audit_def by (intro audited.intros) (simp_all add: demo_event_def)

lemma demo_rows:
  "log demo_audit = [log_row (\<lambda>_. '''') 1 ''1'' demo_event, log_row (\<lambda>_. '''') 2 ''2'' demo_event]"
  "map ai_id (chain demo_audit) = [1, 2]"
  by code_simp+

lemma demo_size: "length (log demo_audit) = 2 \<and> length (chain demo_audit) = 2"
  using arg_cong[OF demo_rows(2), of length] by (simp add: demo_rows(1))

lemma demo_lines:
  "length (event_json (\<lambda>_. '''') ''1'' demo_event) = 106" "length (event_json (\<lambda>_. '''') ''2'' demo_event) = 106"
  by code_simp+

theorem written_log_verifies_witness: "\<exists>h. verify_audit_chain long_hash (\<lambda>_. '''') demo_audit = Chain_Ok 2 h"
  using written_log_verifies[OF demo_audited] demo_size by simp

theorem mirror_shows_the_stored_events_witness: "length (mirror demo_audit) = 2"
  using mirror_shows_the_stored_events[OF demo_audited] demo_size by simp

lemma long_plain: "plain_digest long_hash"
  by (simp add: plain_digest_def long_hash_def)

lemma renumbered_rows:
  "log (renumbered demo_audit) = [log_row (\<lambda>_. '''') 11 ''1'' demo_event, log_row (\<lambda>_. '''') 12 ''2'' demo_event]"
  by (simp add: renumbered_def demo_rows log_row_def)

lemma demo_canonical: "canonical_event fr (log_row fr i now demo_event) = event_json fr now demo_event"
  by (rule canonical_log_row) (simp add: demo_event_def)

lemma log_row_id: "al_id (log_row fr i now e) = i"
  by (simp add: log_row_def)

lemma demo_logged:
  "logged (\<lambda>_. '''') demo_audit = [event_json (\<lambda>_. '''') ''1'' demo_event, event_json (\<lambda>_. '''') ''2'' demo_event]"
  "logged (\<lambda>_. '''') (renumbered demo_audit) = logged (\<lambda>_. '''') demo_audit"
  by (simp_all add: logged_def demo_rows renumbered_rows demo_canonical log_row_id)

lemma demo_details: "json_ok (details_of (log_row fr i now demo_event))"
  using loads_dumps[of "JObj []" fr "JObj []"] by (simp add: details_of_def log_row_def demo_event_def)

lemma renumbered_verifies:
  "verify_audit_chain long_hash (\<lambda>_. '''') (renumbered demo_audit) = verify_audit_chain long_hash (\<lambda>_. '''') demo_audit"
  by code_simp

lemma distinct_lengths: "distinct (map length xs) \<Longrightarrow> inj_on long_hash (set xs)"
proof -
  assume "distinct (map length xs)"
  then have "inj_on length (set xs)" by (simp add: distinct_map)
  moreover have "long_hash x = long_hash y \<Longrightarrow> length x = length y" for x y by (auto simp: long_hash_def dest: arg_cong[where f = length])
  ultimately show ?thesis by (auto intro!: inj_onI dest: inj_onD)
qed

theorem tampering_changes_the_head_witness:
  "map event_view (sort_key al_id (log demo_audit)) = map event_view (sort_key al_id (log (renumbered demo_audit)))"
proof -
  obtain h where h: "verify_audit_chain long_hash (\<lambda>_. '''') demo_audit = Chain_Ok (length (log demo_audit)) h"
    using audited_verifies[OF demo_audited] by blast
  have "inj_on long_hash (set (hashed long_hash '''' (logged (\<lambda>_. '''') demo_audit)) \<union> set (hashed long_hash '''' (logged (\<lambda>_. '''') (renumbered demo_audit))))"
    unfolding demo_logged(2) Un_absorb by (rule distinct_lengths) (simp add: demo_logged(1) chained_def demo_lines long_hash_def)
  with tampering_changes_the_head[OF long_plain h _ this] h renumbered_verifies show ?thesis by (simp add: demo_rows renumbered_rows demo_details)
qed

end
