(* ===== verification/Target_Policy.thy ===== *)
theory Target_Policy
  imports Py_Regex Json_Text "HOL-Library.AList" "HOL-Library.Monad_Syntax"
begin

text \<open>
  Configuration, limits and scope: \<open>parse_bool\<close>, \<open>parse_int\<close>, \<open>parse_env_file\<close>, \<open>Config\<close>, \<open>Limits\<close>,
  \<open>TargetPolicy\<close> and \<open>PolicySet\<close> of \<open>src/app/core.py\<close>.

  A policy is read from JSON.  \<open>rp\<close> is the text \<open>str\<close> gives floats, lists and mappings; \<open>rs\<close> is Python's
  regular expression compiler with \<open>re.IGNORECASE\<close>: \<open>None\<close> for an invalid pattern, otherwise the
  predicate \<open>re.search\<close> decides.  What is relied on of it is stated for the pattern of a root alone
  (\<open>root_pattern_law\<close>).  Numerals beyond the interpreter's digit limit are out of the model, and \<open>dict\<close> is
  taken of mappings and of lists of pairs with text keys.
\<close>

section \<open>Values\<close>

definition py_str :: "(json \<Rightarrow> string) \<Rightarrow> json \<Rightarrow> string" where
  "py_str rp v = (case v of JNull \<Rightarrow> ''None'' | JBool b \<Rightarrow> (if b then ''True'' else ''False'') | JInt i \<Rightarrow> show_int i
     | JText s \<Rightarrow> s | _ \<Rightarrow> rp v)"

definition parse_bool :: "(json \<Rightarrow> string) \<Rightarrow> json \<Rightarrow> bool \<Rightarrow> bool" where
  "parse_bool rp v dflt = (case v of JNull \<Rightarrow> dflt | JBool b \<Rightarrow> b
     | _ \<Rightarrow> py_lower (py_strip (py_str rp v)) \<in> {''1'', ''true'', ''yes'', ''on'', ''enabled''})"

definition parse_int :: "(json \<Rightarrow> string) \<Rightarrow> json \<Rightarrow> int \<Rightarrow> int option \<Rightarrow> int option \<Rightarrow> int" where
  "parse_int rp v dflt lo hi =
     (let r = (case int_of_text (py_str rp v) of None \<Rightarrow> dflt | Some i \<Rightarrow> i);
          r' = (case lo of None \<Rightarrow> r | Some l \<Rightarrow> max l r)
      in case hi of None \<Rightarrow> r' | Some h \<Rightarrow> min h r')"

text \<open>\<open>str.splitlines\<close>: the characters that end a line, a carriage return with a following line feed as one.\<close>

definition line_end :: "char \<Rightarrow> bool" where
  "line_end c \<longleftrightarrow> code c \<in> {10, 11, 12, 13, 28, 29, 30, 133}"

fun splitlines_from :: "string \<Rightarrow> string \<Rightarrow> string list" where
  "splitlines_from acc [] = (if acc = [] then [] else [rev acc])"
| "splitlines_from acc [c] = (if line_end c then [rev acc] else [rev (c # acc)])"
| "splitlines_from acc (c # d # s) =
     (if code c = 13 \<and> code d = 10 then rev acc # splitlines_from [] s
      else if line_end c then rev acc # splitlines_from [] (d # s)
      else splitlines_from (c # acc) (d # s))"

definition splitlines :: "string \<Rightarrow> string list" where
  "splitlines s = splitlines_from [] s"

definition before :: "char \<Rightarrow> string \<Rightarrow> string" where
  "before c s = takeWhile (\<lambda>x. x \<noteq> c) s"

definition after :: "char \<Rightarrow> string \<Rightarrow> string" where
  "after c s = drop 1 (dropWhile (\<lambda>x. x \<noteq> c) s)"

definition unquoted :: "string \<Rightarrow> string" where
  "unquoted v = (if 2 \<le> length v \<and> hd v = last v \<and> (hd v = CHR 0x27 \<or> hd v = quote) then butlast (tl v) else v)"

definition env_line :: "(string \<times> string) list \<Rightarrow> string \<Rightarrow> (string \<times> string) list" where
  "env_line m raw =
     (let line = py_strip raw
      in if line = '''' \<or> startswith line ''#'' \<or> CHR ''='' \<notin> set line then m
         else AList.update (py_strip (before (CHR ''='') line)) (unquoted (py_strip (after (CHR ''='') line))) m)"

text \<open>The argument is the file's content, if it exists.\<close>

definition parse_env_file :: "string option \<Rightarrow> (string \<times> string) list" where
  "parse_env_file content = (case content of None \<Rightarrow> [] | Some s \<Rightarrow> foldl env_line [] (splitlines s))"

section \<open>Configuration\<close>

definition environment_key :: "string \<Rightarrow> bool" where
  "environment_key k \<longleftrightarrow> startswith k ''RECON_''
     \<or> k \<in> {''I_HAVE_AUTHORIZATION'', ''TELEGRAM_ENABLED'', ''TELEGRAM_BOT_TOKEN'', ''TELEGRAM_CHAT_ID''}"

definition load_config :: "string option \<Rightarrow> (string \<times> string) list \<Rightarrow> (string \<times> string) list" where
  "load_config content env = foldl (\<lambda>m (k, v). if environment_key k then AList.update k v m else m) (parse_env_file content) env"

definition keychain_map :: "(string \<times> string) list" where
  "keychain_map = [(''TELEGRAM_BOT_TOKEN'', ''telegram-token''), (''GITHUB_TOKEN'', ''github-token''),
     (''NOTIFY_WEBHOOK'', ''notify-webhook''), (''DASHBOARD_SECRET'', ''dashboard-secret'')]"

definition text_or :: "string \<Rightarrow> string option \<Rightarrow> string" where
  "text_or d v = (case v of None \<Rightarrow> d | Some s \<Rightarrow> s)"

definition secret_name :: "(string \<times> string) list \<Rightarrow> string \<Rightarrow> string \<Rightarrow> string" where
  "secret_name cfg k reference =
     (if startswith reference ''keychain:'' then after (CHR '':'') reference
      else if parse_bool (\<lambda>_. '''') (case map_of cfg ''USE_MACOS_KEYCHAIN'' of None \<Rightarrow> JNull | Some s \<Rightarrow> JText s) False \<and> reference = ''''
      then text_or '''' (map_of keychain_map k) else '''')"

text \<open>\<open>keychain\<close> is what the operating system's key store answers for a name, if there is one.\<close>

definition config_get :: "(string \<Rightarrow> string option) \<Rightarrow> (string \<times> string) list \<Rightarrow> string \<Rightarrow> string \<Rightarrow> string" where
  "config_get keychain cfg k dflt =
     (let v = text_or dflt (map_of cfg k); name = secret_name cfg k (py_strip v)
      in if name = '''' then v
         else case keychain name of None \<Rightarrow> v | Some out \<Rightarrow> if py_strip out = '''' then v else py_strip out)"

definition says_yes :: "(string \<Rightarrow> string option) \<Rightarrow> (string \<times> string) list \<Rightarrow> string \<Rightarrow> bool" where
  "says_yes keychain cfg k \<longleftrightarrow> py_lower (py_strip (config_get keychain cfg k '''')) = ''yes''"

definition authorized :: "(string \<Rightarrow> string option) \<Rightarrow> (string \<times> string) list \<Rightarrow> bool" where
  "authorized keychain cfg = says_yes keychain cfg ''I_HAVE_AUTHORIZATION''"

definition active_globally_enabled :: "(string \<Rightarrow> string option) \<Rightarrow> (string \<times> string) list \<Rightarrow> bool" where
  "active_globally_enabled keychain cfg = says_yes keychain cfg ''ENABLE_ACTIVE_MODULES''"

section \<open>Hosts\<close>

definition endswith :: "string \<Rightarrow> string \<Rightarrow> bool" where
  "endswith s t \<longleftrightarrow> startswith (rev s) (rev t)"

definition rstrip_dots :: "string \<Rightarrow> string" where
  "rstrip_dots s = rev (dropWhile (\<lambda>c. c = CHR ''.'') (rev s))"

definition normalize_host :: "string \<Rightarrow> string" where
  "normalize_host v =
     (let host = rstrip_dots (py_lower (py_strip v))
      in if startswith host ''['' \<and> endswith host '']'' then butlast (tl host) else host)"

definition label_char :: "char \<Rightarrow> bool" where
  "label_char c \<longleftrightarrow> (97 \<le> code c \<and> code c \<le> 122) \<or> py_digit c"

definition label_re :: rx where
  "label_re = seqs [Cls label_char, opt (seqs [star (Cls (\<lambda>c. label_char c \<or> c = CHR ''-'')), Cls label_char])]"

definition valid_domain :: "string \<Rightarrow> bool" where
  "valid_domain v =
     (let host = normalize_host v
      in length host \<le> 253 \<and> CHR ''.'' \<in> set host
         \<and> list_all (\<lambda>l. 1 \<le> length l \<and> length l \<le> 63 \<and> rx_fullmatch label_re l \<noteq> None) (split_on (CHR ''.'') host))"

section \<open>Policies\<close>

record limits =
  request_rate :: int
  dns_rate :: int
  timeout_seconds :: int
  retries :: int
  crawl_depth :: int
  max_urls :: int
  max_js_files :: int
  max_js_bytes :: int
  http_threads :: int
  naabu_rate :: int
  nuclei_rate :: int
  max_runtime_minutes :: int
  max_http_requests :: int
  max_dns_queries :: int
  max_download_mb :: int
  max_new_assets :: int
  dns_workers :: int
  http_workers :: int
  js_workers :: int
  screenshot_workers :: int

record policy =
  p_name :: string
  p_roots :: "string list"
  p_include :: "string list"
  p_exclude :: "string list"
  p_modules :: "(string \<times> bool) list"
  p_limits :: limits
  p_headers :: "(string \<times> string) list"
  p_active :: "(string \<times> json) list"
  p_alert :: "(string \<times> json) list"
  p_analysis :: "(string \<times> json) list"
  p_tags :: "string list"
  p_raw :: "(string \<times> json) list"

datatype policy_error =
    Type_Error
  | No_Roots string
  | Bad_Root string string
  | Bad_Regex string string
  | Bad_Ports string string
  | Bad_Json
  | No_Targets
  | No_Policy
  | Unknown_Target string
  | Bad_Scope string

text \<open>Iterating over a value and \<open>dict\<close> of a value; \<open>None\<close> is the exception.\<close>

definition py_iter :: "json \<Rightarrow> json list option" where
  "py_iter v = (case v of JList vs \<Rightarrow> Some vs | JText s \<Rightarrow> Some (map (\<lambda>c. JText [c]) s) | JObj m \<Rightarrow> Some (map (JText \<circ> fst) m) | _ \<Rightarrow> None)"

fun pairs_of :: "json list \<Rightarrow> (string \<times> json) list option" where
  "pairs_of [] = Some []"
| "pairs_of (JList [JText k, v] # vs) = map_option ((#) (k, v)) (pairs_of vs)"
| "pairs_of (v # vs) = None"

definition py_dict :: "json \<Rightarrow> (string \<times> json) list option" where
  "py_dict v = (case v of JObj m \<Rightarrow> Some m
     | JList vs \<Rightarrow> map_option (foldl (\<lambda>m (k, x). AList.update k x m) []) (pairs_of vs)
     | JText s \<Rightarrow> if s = '''' then Some [] else None | _ \<Rightarrow> None)"

definition get_or :: "(string \<times> json) list \<Rightarrow> string \<Rightarrow> json \<Rightarrow> json" where
  "get_or m k d = (case map_of m k of None \<Rightarrow> d | Some v \<Rightarrow> v)"

definition overlay :: "(string \<times> json) list \<Rightarrow> (string \<times> json) list \<Rightarrow> (string \<times> json) list" where
  "overlay base fresh = foldl (\<lambda>m (k, v). AList.update k v m) base fresh"

text \<open>Mappings are merged one level deep.\<close>

definition merge_key :: "(string \<times> json) list \<Rightarrow> string \<times> json \<Rightarrow> (string \<times> json) list" where
  "merge_key m kv = (case kv of (k, v) \<Rightarrow> AList.update k
     (case (v, map_of m k) of (JObj new, Some (JObj old)) \<Rightarrow> JObj (overlay old new) | _ \<Rightarrow> v) m)"

definition merged_policy :: "(string \<times> json) list \<Rightarrow> (string \<times> json) list \<Rightarrow> (string \<times> json) list" where
  "merged_policy defaults item = foldl merge_key defaults item"

definition limit_of :: "(json \<Rightarrow> string) \<Rightarrow> (string \<times> json) list \<Rightarrow> string \<Rightarrow> int \<Rightarrow> int \<Rightarrow> int \<Rightarrow> int" where
  "limit_of rp raw k dflt lo hi = parse_int rp (get raw k) dflt (Some lo) (Some hi)"

definition limits_of :: "(json \<Rightarrow> string) \<Rightarrow> (string \<times> json) list \<Rightarrow> limits" where
  "limits_of rp raw = \<lparr>
     request_rate = limit_of rp raw ''request_rate'' 3 1 50,
     dns_rate = limit_of rp raw ''dns_rate'' 100 1 1000,
     timeout_seconds = limit_of rp raw ''timeout_seconds'' 600 30 7200,
     retries = limit_of rp raw ''retries'' 1 0 5,
     crawl_depth = limit_of rp raw ''crawl_depth'' 2 1 5,
     max_urls = limit_of rp raw ''max_urls'' 10000 100 200000,
     max_js_files = limit_of rp raw ''max_js_files'' 200 1 5000,
     max_js_bytes = limit_of rp raw ''max_js_bytes'' 5000000 10000 50000000,
     http_threads = limit_of rp raw ''http_threads'' 20 1 100,
     naabu_rate = limit_of rp raw ''naabu_rate'' 50 1 500,
     nuclei_rate = limit_of rp raw ''nuclei_rate'' 3 1 50,
     max_runtime_minutes = limit_of rp raw ''max_runtime_minutes'' 120 0 1440,
     max_http_requests = limit_of rp raw ''max_http_requests'' 10000 0 1000000,
     max_dns_queries = limit_of rp raw ''max_dns_queries'' 5000 100 1000000,
     max_download_mb = limit_of rp raw ''max_download_mb'' 500 10 100000,
     max_new_assets = limit_of rp raw ''max_new_assets'' 5000 10 1000000,
     dns_workers = limit_of rp raw ''dns_workers'' 10 1 100,
     http_workers = limit_of rp raw ''http_workers'' 20 1 100,
     js_workers = limit_of rp raw ''js_workers'' 5 1 50,
     screenshot_workers = limit_of rp raw ''screenshot_workers'' 2 1 10\<rparr>"

definition default_modules :: "(string \<times> bool) list" where
  "default_modules = [(''subdomains'', True), (''dns'', True), (''urls'', True), (''javascript'', True), (''endpoint_validation'', False),
     (''fingerprint'', True), (''screenshots'', False), (''ports'', False), (''nuclei'', False)]"

text \<open>\<open>re.escape\<close> and the pattern of a root with its subdomains.\<close>

definition re_special :: "char \<Rightarrow> bool" where
  "re_special c \<longleftrightarrow> c \<in> set ''()[]{}?*+-|^$.&~# '' \<or> c = backslash \<or> 9 \<le> code c \<and> code c \<le> 13"

definition re_escape :: "string \<Rightarrow> string" where
  "re_escape s = concat (map (\<lambda>c. if re_special c then [backslash, c] else [c]) s)"

definition root_pattern :: "string \<Rightarrow> string" where
  "root_pattern r = ''(^|'' @ [backslash] @ ''.)'' @ re_escape r @ ''$''"

definition roots_of :: "(json \<Rightarrow> string) \<Rightarrow> (string \<times> json) list \<Rightarrow> string list option" where
  "roots_of rp m = do {
     vs \<leftarrow> py_iter (get_or m ''roots'' (JList []));
     let roots = map (normalize_host \<circ> py_str rp) (filter (\<lambda>x. py_strip (py_str rp x) \<noteq> '''') vs);
     Some (if roots = [] \<and> truthy (get m ''domain'') then [normalize_host (py_str rp (get m ''domain''))] else roots)
   }"

definition texts_of :: "(json \<Rightarrow> string) \<Rightarrow> (string \<times> json) list \<Rightarrow> string \<Rightarrow> string list option" where
  "texts_of rp m k = map_option (map (py_str rp)) (py_iter (get_or m k (JList [])))"

definition mapping_of :: "(string \<times> json) list \<Rightarrow> string \<Rightarrow> (string \<times> json) list option" where
  "mapping_of m k = py_dict (get_or m k (JObj []))"

definition policy_of :: "(json \<Rightarrow> string) \<Rightarrow> (string \<times> json) list \<Rightarrow> policy option" where
  "policy_of rp m = do {
     roots \<leftarrow> roots_of rp m;
     let name = (if truthy (get m ''name'') then py_str rp (get m ''name'') else if roots = [] then ''unnamed'' else hd roots);
     include \<leftarrow> texts_of rp m ''include'';
     exclude \<leftarrow> texts_of rp m ''exclude'';
     modules \<leftarrow> mapping_of m ''modules'';
     raw_limits \<leftarrow> mapping_of m ''limits'';
     headers \<leftarrow> mapping_of m ''headers'';
     active \<leftarrow> mapping_of m ''active'';
     alert \<leftarrow> mapping_of m ''alert'';
     analysis \<leftarrow> mapping_of m ''analysis'';
     tags \<leftarrow> texts_of rp m ''tags'';
     Some \<lparr>p_name = name, p_roots = roots, p_include = (if include = [] then map root_pattern roots else include), p_exclude = exclude,
       p_modules = foldl (\<lambda>ms (k, v). AList.update k (parse_bool rp v False) ms) default_modules modules,
       p_limits = limits_of rp raw_limits, p_headers = map (map_prod id (py_str rp)) headers, p_active = active, p_alert = alert,
       p_analysis = analysis, p_tags = tags, p_raw = m\<rparr>
   }"

definition ports_re :: rx where
  "ports_re = plus (Cls (\<lambda>c. py_digit c \<or> c = CHR '','' \<or> c = CHR ''-''))"

definition validate :: "(json \<Rightarrow> string) \<Rightarrow> (string \<Rightarrow> (string \<Rightarrow> bool) option) \<Rightarrow> policy \<Rightarrow> policy_error option" where
  "validate rp rs p =
     (if p_roots p = [] then Some (No_Roots (p_name p))
      else case List.find (\<lambda>r. \<not> valid_domain r) (p_roots p) of
        Some r \<Rightarrow> Some (Bad_Root (p_name p) r)
      | None \<Rightarrow>
          (case List.find (\<lambda>q. rs q = None) (p_include p @ p_exclude p) of
             Some q \<Rightarrow> Some (Bad_Regex (p_name p) q)
           | None \<Rightarrow>
               (let ports = py_str rp (get_or (p_active p) ''naabu_ports'' (JText ''80,443,8080,8443''))
                in if rx_fullmatch ports_re ports = None then Some (Bad_Ports (p_name p) ports) else None)))"

definition from_dict ::
    "(json \<Rightarrow> string) \<Rightarrow> (string \<Rightarrow> (string \<Rightarrow> bool) option) \<Rightarrow> (string \<times> json) list \<Rightarrow> (string \<times> json) list \<Rightarrow> policy_error + policy" where
  "from_dict rp rs item defaults =
     (case policy_of rp (merged_policy defaults item) of
        None \<Rightarrow> Inl Type_Error
      | Some p \<Rightarrow> (case validate rp rs p of Some e \<Rightarrow> Inl e | None \<Rightarrow> Inr p))"

section \<open>Scope\<close>

text \<open>\<open>any(re.search(..))\<close>, where an invalid pattern raises (\<open>None\<close>).\<close>

fun any_search :: "(string \<Rightarrow> (string \<Rightarrow> bool) option) \<Rightarrow> string list \<Rightarrow> string \<Rightarrow> bool option" where
  "any_search rs [] host = Some False"
| "any_search rs (q # qs) host = (case rs q of None \<Rightarrow> None | Some f \<Rightarrow> if f host then Some True else any_search rs qs host)"

definition host_in_scope :: "(string \<Rightarrow> (string \<Rightarrow> bool) option) \<Rightarrow> policy \<Rightarrow> string \<Rightarrow> bool option" where
  "host_in_scope rs p h =
     (let host = normalize_host h
      in if host = '''' then Some False
         else case any_search rs (p_exclude p) host of
           None \<Rightarrow> None
         | Some True \<Rightarrow> Some False
         | Some False \<Rightarrow> any_search rs (p_include p) host)"

definition active_confirmed :: "policy \<Rightarrow> bool" where
  "active_confirmed p \<longleftrightarrow> get (p_active p) ''confirmation'' = JText ''I_AM_AUTHORIZED_FOR_ACTIVE_TESTING''"

definition active_allowed :: "(string \<Rightarrow> string option) \<Rightarrow> (string \<times> string) list \<Rightarrow> bool \<Rightarrow> policy \<Rightarrow> bool" where
  "active_allowed keychain cfg cli p \<longleftrightarrow> authorized keychain cfg \<and> active_globally_enabled keychain cfg \<and> cli \<and> active_confirmed p"

definition policy_hash :: "(string \<Rightarrow> string) \<Rightarrow> (rat \<Rightarrow> string) \<Rightarrow> policy \<Rightarrow> string" where
  "policy_hash sha fr p = sha (json_dumps fr (JObj (p_raw p)))"

section \<open>Sets of policies\<close>

text \<open>The constructors stop at the first error.\<close>

fun all_policies :: "(json \<Rightarrow> policy_error + policy) \<Rightarrow> json list \<Rightarrow> policy_error + policy list" where
  "all_policies f [] = Inr []"
| "all_policies f (v # vs) = (case f v of Inl e \<Rightarrow> Inl e | Inr p \<Rightarrow>
     (case all_policies f vs of Inl e \<Rightarrow> Inl e | Inr ps \<Rightarrow> Inr (p # ps)))"

definition item_policy ::
    "(json \<Rightarrow> string) \<Rightarrow> (string \<Rightarrow> (string \<Rightarrow> bool) option) \<Rightarrow> (string \<times> json) list \<Rightarrow> json \<Rightarrow> policy_error + policy" where
  "item_policy rp rs defaults v = (case v of JObj m \<Rightarrow> from_dict rp rs m defaults | _ \<Rightarrow> Inl Type_Error)"

definition legacy_root :: "string \<Rightarrow> string" where
  "legacy_root raw = py_strip (before (CHR ''#'') raw)"

text \<open>The contents of the policy file and of \<open>targets.txt\<close>, if they exist.\<close>

definition load_policies ::
    "(json \<Rightarrow> string) \<Rightarrow> (string \<Rightarrow> (string \<Rightarrow> bool) option) \<Rightarrow> string option \<Rightarrow> string option \<Rightarrow> policy_error + policy list" where
  "load_policies rp rs file legacy =
     (case file of
        Some content \<Rightarrow>
          (case json_loads content of
             None \<Rightarrow> Inl Bad_Json
           | Some (JObj data) \<Rightarrow>
               (case (py_dict (get_or data ''defaults'' (JObj [])), py_iter (get_or data ''targets'' (JList []))) of
                  (Some defaults, Some items) \<Rightarrow>
                    (case all_policies (item_policy rp rs defaults) items of
                       Inl e \<Rightarrow> Inl e
                     | Inr ps \<Rightarrow> if ps = [] then Inl No_Targets else Inr ps)
                | _ \<Rightarrow> Inl Type_Error)
           | Some _ \<Rightarrow> Inl Type_Error)
      | None \<Rightarrow>
          (case legacy of
             None \<Rightarrow> Inl No_Policy
           | Some content \<Rightarrow>
               (let roots = map normalize_host (filter (\<lambda>l. l \<noteq> '''') (map legacy_root (splitlines content)))
                in case all_policies (\<lambda>v. from_dict rp rs [(''name'', v), (''roots'', JList [v])] [])
                          (map JText (filter valid_domain roots)) of
                     Inl e \<Rightarrow> Inl e
                   | Inr ps \<Rightarrow> if ps = [] then Inl No_Policy else Inr ps)))"

definition select_policies :: "policy list \<Rightarrow> string option \<Rightarrow> policy_error + policy list" where
  "select_policies ps selector =
     (if text_or '''' selector = '''' then Inr ps
      else let s = py_lower (text_or '''' selector);
               found = filter (\<lambda>p. py_lower (p_name p) = s \<or> s \<in> set (map py_lower (p_roots p))) ps
           in if found = [] then Inl (Unknown_Target s) else Inr found)"

end
