(* ===== verification/Worker_Artifact.thy ===== *)
theory Worker_Artifact
  imports Target_Policy Content_Store
begin

text \<open>
  The envelope in which a remote worker returns a downloaded file, \<open>src/app/worker_artifacts.py\<close>: the
  base64 text of the bytes with their length and SHA-256, how it is built and how it is checked.

  Bytes are characters with code points below 256.  \<open>sha\<close> is \<open>sha256_bytes\<close>.  Base64 is Python's
  \<open>b64encode\<close> and \<open>b64decode(.., validate=True)\<close>; the decoder is only reached with a text of a multiple
  of four characters, and rejects every other text here.
\<close>

section \<open>Base64\<close>

definition b64_alphabet :: string where
  "b64_alphabet = ''ABCDEFGHIJKLMNOPQRSTUVWXYZabcdefghijklmnopqrstuvwxyz0123456789+/''"

definition b64_digit :: "nat \<Rightarrow> char" where
  "b64_digit n = b64_alphabet ! n"

definition b64_value :: "char \<Rightarrow> nat option" where
  "b64_value c = List.find (\<lambda>n. b64_alphabet ! n = c) [0..<64]"

fun b64encode :: "bytes \<Rightarrow> string" where
  "b64encode [] = []"
| "b64encode [a] = [b64_digit (code a div 4), b64_digit (code a mod 4 * 16), CHR ''='', CHR ''='']"
| "b64encode [a, b] = [b64_digit (code a div 4), b64_digit (code a mod 4 * 16 + code b div 16), b64_digit (code b mod 16 * 4), CHR ''='']"
| "b64encode (a # b # c # s) = b64_digit (code a div 4) # b64_digit (code a mod 4 * 16 + code b div 16)
     # b64_digit (code b mod 16 * 4 + code c div 64) # b64_digit (code c mod 64) # b64encode s"

definition first_byte :: "nat \<Rightarrow> nat \<Rightarrow> char" where
  "first_byte w x = char_of (w * 4 + x div 16)"

definition second_byte :: "nat \<Rightarrow> nat \<Rightarrow> char" where
  "second_byte x y = char_of (x mod 16 * 16 + y div 4)"

definition third_byte :: "nat \<Rightarrow> nat \<Rightarrow> char" where
  "third_byte y z = char_of (y mod 4 * 64 + z)"

text \<open>Padding may only end the text.\<close>

fun b64decode :: "string \<Rightarrow> bytes option" where
  "b64decode [] = Some []"
| "b64decode (a # b # c # d # s) =
     (case (b64_value a, b64_value b) of
        (Some w, Some x) \<Rightarrow>
          if c = CHR ''='' then (if d = CHR ''='' \<and> s = [] then Some [first_byte w x] else None)
          else (case b64_value c of
              None \<Rightarrow> None
            | Some y \<Rightarrow>
                if d = CHR ''='' then (if s = [] then Some [first_byte w x, second_byte x y] else None)
                else (case (b64_value d, b64decode s) of
                    (Some z, Some r) \<Rightarrow> Some (first_byte w x # second_byte x y # third_byte y z # r)
                  | _ \<Rightarrow> None))
      | _ \<Rightarrow> None)"
| "b64decode _ = None"

section \<open>The envelope\<close>

definition WORKER_ARTIFACT_VERSION :: int where
  "WORKER_ARTIFACT_VERSION = 1"

definition MAX_DOWNLOAD_BYTES :: int where
  "MAX_DOWNLOAD_BYTES = 1024 * 1024"

text \<open>The error's text and whether the worker may try again.\<close>

datatype artifact_error = Artifact_Error (error_text: string) (retryable: bool)

definition download_limit :: "(string \<times> json) list \<Rightarrow> artifact_error + int" where
  "download_limit payload =
     (case get_or payload ''max_bytes'' (JInt MAX_DOWNLOAD_BYTES) of
        JInt n \<Rightarrow> if n \<le> 0 then Inl (Artifact_Error ''Invalid remote download byte limit'' False) else Inr (min n MAX_DOWNLOAD_BYTES)
      | _ \<Rightarrow> Inl (Artifact_Error ''Invalid remote download byte limit'' False))"

definition worker_supports_artifacts :: "json \<Rightarrow> bool" where
  "worker_supports_artifacts metadata =
     (case metadata of JObj m \<Rightarrow>
        (case get m ''download_artifact_versions'' of JList vs \<Rightarrow> JInt WORKER_ARTIFACT_VERSION \<in> set vs | _ \<Rightarrow> False) | _ \<Rightarrow> False)"

definition encode_artifact :: "(bytes \<Rightarrow> string) \<Rightarrow> bytes \<Rightarrow> artifact_error + (string \<times> json) list" where
  "encode_artifact sha data =
     (if MAX_DOWNLOAD_BYTES < int (length data) then Inl (Artifact_Error ''Remote download exceeds artifact limit'' False)
      else Inr [(''version'', JInt WORKER_ARTIFACT_VERSION), (''encoding'', JText ''base64''), (''size'', JInt (int (length data))),
                (''sha256'', JText (sha data)), (''data'', JText (b64encode data))])"

definition hex_text :: "string \<Rightarrow> bool" where
  "hex_text s \<longleftrightarrow> length s = 64 \<and> list_all hex_char s"

definition artifact_metadata :: "json \<Rightarrow> int \<Rightarrow> artifact_error + string \<times> int" where
  "artifact_metadata artifact max_bytes =
     (case artifact of
        JObj a \<Rightarrow>
          if get a ''version'' \<noteq> JInt WORKER_ARTIFACT_VERSION then Inl (Artifact_Error ''Invalid remote artifact version'' False)
          else (case get a ''sha256'' of
              JText digest \<Rightarrow>
                if \<not> hex_text digest then Inl (Artifact_Error ''Invalid remote artifact SHA-256'' False)
                else (case get a ''size'' of
                    JInt n \<Rightarrow> if 0 \<le> n \<and> n \<le> max_bytes then Inr (digest, n) else Inl (Artifact_Error ''Invalid remote artifact size'' False)
                  | _ \<Rightarrow> Inl (Artifact_Error ''Invalid remote artifact size'' False))
            | _ \<Rightarrow> Inl (Artifact_Error ''Invalid remote artifact SHA-256'' False))
      | _ \<Rightarrow> Inl (Artifact_Error ''Invalid remote artifact version'' False))"

section \<open>Complete downloads\<close>

definition content_range_re :: rx where
  "content_range_re = seqs [word ''bytes 0-'', Grp 1 digits, ch CHR ''/'', Grp 2 digits]"

definition header :: "(string \<times> string) list \<Rightarrow> string \<Rightarrow> string" where
  "header hs k = (case map_of hs k of None \<Rightarrow> '''' | Some v \<Rightarrow> v)"

definition complete_download :: "int \<Rightarrow> (string \<times> string) list \<Rightarrow> bytes \<Rightarrow> bool" where
  "complete_download status headers data =
     (let declared = header headers ''content-length''
      in if declared \<noteq> '''' \<and> int_of_text declared \<noteq> Some (int (length data)) then False
         else if status = 206 then
           (case rx_fullmatch content_range_re (py_strip (header headers ''content-range'')) of
              None \<Rightarrow> False
            | Some m \<Rightarrow> dec_val (group_or m 1) + 1 = length data \<and> length data = dec_val (group_or m 2))
         else 200 \<le> status \<and> status < 300)"

section \<open>Checking a returned file\<close>

text \<open>\<open>v == n\<close> for a number.\<close>

definition num_eq :: "json \<Rightarrow> int \<Rightarrow> bool" where
  "num_eq v n = (case v of JInt i \<Rightarrow> i = n | JFloat r \<Rightarrow> r = of_int n | JBool b \<Rightarrow> n = (if b then 1 else 0) | _ \<Rightarrow> False)"

definition decode_checked :: "(bytes \<Rightarrow> string) \<Rightarrow> (string \<times> json) list \<Rightarrow> (string \<times> json) list \<Rightarrow> string \<Rightarrow> int \<Rightarrow> artifact_error + bytes" where
  "decode_checked sha result a digest n =
     (if get a ''encoding'' \<noteq> JText ''base64'' \<or> get result ''content_length'' \<noteq> JInt n
      then Inl (Artifact_Error ''Invalid remote artifact encoding or content length'' False)
      else case get a ''data'' of
        JText encoded \<Rightarrow>
          if int (length encoded) \<noteq> 4 * ((n + 2) div 3) then Inl (Artifact_Error ''Invalid remote artifact payload length'' False)
          else (case b64decode encoded of
              None \<Rightarrow> Inl (Artifact_Error ''Invalid remote artifact base64'' False)
            | Some data \<Rightarrow>
                if int (length data) \<noteq> n \<or> sha data \<noteq> digest then Inl (Artifact_Error ''Remote artifact size or SHA-256 mismatch'' False)
                else if num_eq (get result ''status_code'') 206
                  \<and> (case get result ''content_range'' of JText cr \<Rightarrow> \<not> complete_download 206 [(''content-range'', cr)] data | _ \<Rightarrow> True)
                then Inl (Artifact_Error ''Remote download is incomplete'' False)
                else Inr data)
      | _ \<Rightarrow> Inl (Artifact_Error ''Invalid remote artifact payload length'' False))"

definition decode_artifact :: "(bytes \<Rightarrow> string) \<Rightarrow> (string \<times> json) list \<Rightarrow> (string \<times> json) list \<Rightarrow> artifact_error + bytes" where
  "decode_artifact sha payload result =
     (if get result ''artifact'' = JNull then Inl (Artifact_Error ''Remote download artifact is missing'' True)
      else case download_limit payload of
        Inl e \<Rightarrow> Inl e
      | Inr cap \<Rightarrow>
          (case artifact_metadata (get result ''artifact'') cap of
             Inl e \<Rightarrow> Inl e
           | Inr (digest, n) \<Rightarrow>
               (case get result ''artifact'' of JObj a \<Rightarrow> decode_checked sha result a digest n
                | _ \<Rightarrow> Inl (Artifact_Error ''Invalid remote artifact version'' False))))"

definition without_artifact_body :: "(string \<times> json) list \<Rightarrow> (string \<times> json) list" where
  "without_artifact_body result =
     (case get result ''artifact'' of
        JObj a \<Rightarrow> obj_set ''artifact'' (JObj (filter (\<lambda>(k, v). k \<noteq> ''data'') a)) result
      | _ \<Rightarrow> result)"

section \<open>Base64 round trip\<close>

lemma b64_value_digit: "n < 64 \<Longrightarrow> b64_value (b64_digit n) = Some n"
proof -
  have "list_all (\<lambda>n. b64_value (b64_digit n) = Some n) [0..<64]" by code_simp
  then show "n < 64 \<Longrightarrow> b64_value (b64_digit n) = Some n" by (simp add: list_all_iff)
qed

lemma b64_digit_plain: "n < 64 \<Longrightarrow> b64_digit n \<noteq> CHR ''=''"
proof -
  have "list_all (\<lambda>n. b64_digit n \<noteq> CHR ''='') [0..<64]" by code_simp
  then show "n < 64 \<Longrightarrow> b64_digit n \<noteq> CHR ''=''" by (simp add: list_all_iff)
qed

lemma byte_parts:
  "first_byte (code a div 4) (code a mod 4 * 16 + code b div 16) = a" "first_byte (code a div 4) (code a mod 4 * 16) = a"
  "second_byte (code a mod 4 * 16 + code b div 16) (code b mod 16 * 4 + code c div 64) = b"
  "second_byte (code a mod 4 * 16 + code b div 16) (code b mod 16 * 4) = b"
  "third_byte (code b mod 16 * 4 + code c div 64) (code c mod 64) = c"
proof -
  have b: "code b div 16 < 16" using code_lt[of b] by (simp add: less_mult_imp_div_less)
  have c: "code c div 64 < 4" using code_lt[of c] by (simp add: less_mult_imp_div_less)
  have low: "(m * k + n) div k = m" "(m * k + n) mod k = n" if "n < k" for m k n :: nat
    using that by simp_all
  show "first_byte (code a div 4) (code a mod 4 * 16 + code b div 16) = a" "first_byte (code a div 4) (code a mod 4 * 16) = a"
    unfolding first_byte_def low(1)[OF b] by (simp_all only: low(1)[of 0 16, simplified] div_mult_mod_eq char_of_code) simp_all
  show "second_byte (code a mod 4 * 16 + code b div 16) (code b mod 16 * 4 + code c div 64) = b"
    unfolding second_byte_def low(2)[OF b] low(1)[OF c] by simp
  show "second_byte (code a mod 4 * 16 + code b div 16) (code b mod 16 * 4) = b"
    unfolding second_byte_def low(2)[OF b] by simp
  show "third_byte (code b mod 16 * 4 + code c div 64) (code c mod 64) = c"
    unfolding third_byte_def low(2)[OF c] by simp
qed

lemma sextets:
  "code a div 4 < 64" "code a mod 4 * 16 < 64" "code a mod 4 * 16 + code b div 16 < 64" "code b mod 16 * 4 < 64"
  "code b mod 16 * 4 + code c div 64 < 64" "code c mod 64 < 64"
proof -
  have "code a div 4 < 64" "code b div 16 < 16" "code c div 64 < 4" using code_lt[of a] code_lt[of b] code_lt[of c]
    by (simp_all add: less_mult_imp_div_less)
  moreover have "code a mod 4 < 4" "code b mod 16 < 16" by simp_all
  ultimately show "code a div 4 < 64" "code a mod 4 * 16 < 64" "code a mod 4 * 16 + code b div 16 < 64" "code b mod 16 * 4 < 64"
    "code b mod 16 * 4 + code c div 64 < 64" "code c mod 64 < 64" by (linarith | simp)+
qed

lemma b64_round_trip: "b64decode (b64encode data) = Some data"
  by (induction data rule: b64encode.induct) (simp_all add: b64_value_digit b64_digit_plain sextets byte_parts)

lemma length_b64: "length (b64encode data) = 4 * ((length data + 2) div 3)"
proof (induction data rule: b64encode.induct)
  case (4 a b c s)
  have "(5 + length s) div 3 = Suc ((length s + 2) div 3)" using div_add_self2[of 3 "length s + 2"] by simp
  with 4 show ?case by simp
qed simp_all

end
