(* ===== verification/Worker_Scope.thy ===== *)
theory Worker_Scope
  imports Target_Policy
begin

text \<open>
  The scope rules a remote worker gets with a task and applies itself, \<open>src/app/worker_scope.py\<close>, and what
  the scope decisions of \<open>Target_Policy\<close> guarantee, locally and remotely.  A URL counts through its host.
\<close>

section \<open>Transfer\<close>

definition WORKER_SCOPE_VERSION :: int where
  "WORKER_SCOPE_VERSION = 1"

definition texts :: "string list \<Rightarrow> json" where
  "texts ws = JList (map JText ws)"

definition worker_scope_snapshot :: "policy \<Rightarrow> (string \<times> json) list" where
  "worker_scope_snapshot p = [(''version'', JInt WORKER_SCOPE_VERSION), (''target'', JText (p_name p)), (''roots'', texts (p_roots p)),
     (''include'', texts (p_include p)), (''exclude'', texts (p_exclude p))]"

definition text_list :: "json \<Rightarrow> json list option" where
  "text_list v = (case v of JList vs \<Rightarrow> if list_all (\<lambda>x. is_kind Text_Kind x) vs then Some vs else None | _ \<Rightarrow> None)"

definition scope_error :: "(string \<times> json) list \<Rightarrow> policy_error option" where
  "scope_error scope =
     (if get scope ''version'' \<noteq> JInt WORKER_SCOPE_VERSION then Some (Bad_Scope ''version'')
      else if (case get scope ''target'' of JText s \<Rightarrow> py_strip s = '''' | _ \<Rightarrow> True) then Some (Bad_Scope ''target'')
      else map_option Bad_Scope (List.find (\<lambda>f. case text_list (get scope f) of None \<Rightarrow> True | Some vs \<Rightarrow> f \<noteq> ''exclude'' \<and> vs = [])
             [''roots'', ''include'', ''exclude'']))"

definition task_scope_policy ::
    "(json \<Rightarrow> string) \<Rightarrow> (string \<Rightarrow> (string \<Rightarrow> bool) option) \<Rightarrow> (string \<times> json) list \<Rightarrow> policy_error + policy" where
  "task_scope_policy rp rs payload =
     (case get payload ''scope_policy'' of
        JObj scope \<Rightarrow>
          (case scope_error scope of
             Some e \<Rightarrow> Inl e
           | None \<Rightarrow> from_dict rp rs [(''name'', get scope ''target''), (''roots'', get scope ''roots''),
               (''include'', get scope ''include''), (''exclude'', get scope ''exclude'')] [])
      | _ \<Rightarrow> Inl (Bad_Scope ''scope_policy''))"

definition in_domain :: "string \<Rightarrow> string \<Rightarrow> bool" where
  "in_domain r host \<longleftrightarrow> host = r \<or> endswith host (CHR ''.'' # r)"

text \<open>The worker keeps to the declared roots even when an include pattern is broader.\<close>

definition worker_in_scope :: "(string \<Rightarrow> (string \<Rightarrow> bool) option) \<Rightarrow> policy \<Rightarrow> string \<Rightarrow> bool option" where
  "worker_in_scope rs p h =
     (if list_ex (\<lambda>r. in_domain r (normalize_host h)) (p_roots p) then host_in_scope rs p h else Some False)"

definition worker_supports_scope :: "json \<Rightarrow> bool" where
  "worker_supports_scope metadata =
     (case metadata of JObj m \<Rightarrow>
        (case get m ''scope_policy_versions'' of JList vs \<Rightarrow> JInt WORKER_SCOPE_VERSION \<in> set vs | _ \<Rightarrow> False) | _ \<Rightarrow> False)"

section \<open>Valid domains\<close>

lemma split_on_chars: "c \<in> set s \<Longrightarrow> c = d \<or> (\<exists>w \<in> set (split_on d s). c \<in> set w)"
proof (induction s)
  case (Cons x s)
  obtain w ws where "split_on d s = w # ws" by (cases "split_on d s") auto
  with Cons show ?case by auto
qed simp

lemma split_on_last: "s \<noteq> [] \<Longrightarrow> last s = d \<Longrightarrow> length (split_on d s) \<noteq> 1 \<and> last (split_on d s) = []"
proof (induction s)
  case (Cons x s)
  obtain w ws where "split_on d s = w # ws" by (cases "split_on d s") auto
  with Cons show ?case by (cases "s = []") (auto split: if_splits)
qed simp

lemma split_on_ends: "s \<noteq> [] \<Longrightarrow> last s = d \<Longrightarrow> [] \<in> set (split_on d s)"
  using split_on_last[of s d] last_in_set[of "split_on d s"] by auto

definition host_char :: "char \<Rightarrow> bool" where
  "host_char c \<longleftrightarrow> label_char c \<or> c = CHR ''-'' \<or> c = CHR ''.''"

lemma host_char_code: "host_char c \<Longrightarrow> code c = 45 \<or> code c = 46 \<or> 48 \<le> code c \<and> code c \<le> 57 \<or> 97 \<le> code c \<and> code c \<le> 122"
  by (auto simp: host_char_def label_char_def py_digit_def code_def)

lemma host_char_plain: "host_char c \<Longrightarrow> \<not> py_space c \<and> lower_char c = c \<and> c \<noteq> CHR ''[''"
  using host_char_code[of c] by (auto simp: py_space_def lower_char_def Let_def code_def)

lemma label_chars: "rx_fullmatch label_re l = Some c \<Longrightarrow> list_all host_char l"
  by (drule rx_fullmatch_lang, drule lang_alphabet(1)[where q = host_char])
     (auto simp: label_re_def opt_def star_def host_char_def)

lemma valid_host:
  assumes "valid_domain r"
  shows "normalize_host r \<noteq> '''' \<and> list_all host_char (normalize_host r) \<and> last (normalize_host r) \<noteq> CHR ''.''"
proof -
  let ?n = "normalize_host r"
  have labels: "\<forall>l \<in> set (split_on (CHR ''.'') ?n). l \<noteq> [] \<and> list_all host_char l" and "CHR ''.'' \<in> set ?n"
    using assms label_chars by (fastforce simp: valid_domain_def Let_def list_all_iff[of _ "split_on (CHR ''.'') ?n"])+
  then have "?n \<noteq> ''''" by auto
  moreover have "list_all host_char ?n"
    using labels split_on_chars[of _ ?n "CHR ''.''"] by (fastforce simp: list_all_iff host_char_def)
  ultimately show ?thesis using labels split_on_ends[of ?n "CHR ''.''"] by auto
qed

lemma canonical_host:
  assumes "list_all host_char n" "n \<noteq> ''''" "last n \<noteq> CHR ''.''"
  shows "normalize_host n = n"
proof -
  have plain: "\<forall>c \<in> set n. \<not> py_space c \<and> lower_char c = c \<and> c \<noteq> CHR ''[''" using assms(1) host_char_plain by (auto simp: list_all_iff)
  then have "py_strip n = n" using assms(2) by (intro strip_id) simp
  moreover have "py_lower n = n" using plain by (simp add: py_lower_def map_idI)
  moreover have "rstrip_dots n = n" using assms(2,3) by (cases n rule: rev_cases) (simp_all add: rstrip_dots_def)
  moreover have "\<not> startswith n ''[''" using plain assms(2) by (cases n) (auto simp: startswith_def)
  ultimately show ?thesis by (simp add: normalize_host_def)
qed

lemma normalize_valid: "valid_domain r \<Longrightarrow> normalize_host (normalize_host r) = normalize_host r \<and> valid_domain (normalize_host r)"
  using valid_host[of r] canonical_host[of "normalize_host r"] by (auto simp: valid_domain_def)

section \<open>Policies that were accepted\<close>

definition between :: "int \<Rightarrow> int \<Rightarrow> int \<Rightarrow> bool" where
  "between lo hi x \<longleftrightarrow> lo \<le> x \<and> x \<le> hi"

definition limits_in_range :: "limits \<Rightarrow> bool" where
  "limits_in_range l \<longleftrightarrow> between 1 50 (request_rate l) \<and> between 1 1000 (dns_rate l) \<and> between 30 7200 (timeout_seconds l)
     \<and> between 0 5 (retries l) \<and> between 1 5 (crawl_depth l) \<and> between 100 200000 (max_urls l) \<and> between 1 5000 (max_js_files l)
     \<and> between 10000 50000000 (max_js_bytes l) \<and> between 1 100 (http_threads l) \<and> between 1 500 (naabu_rate l)
     \<and> between 1 50 (nuclei_rate l) \<and> between 0 1440 (max_runtime_minutes l) \<and> between 0 1000000 (max_http_requests l)
     \<and> between 100 1000000 (max_dns_queries l) \<and> between 10 100000 (max_download_mb l) \<and> between 10 1000000 (max_new_assets l)
     \<and> between 1 100 (dns_workers l) \<and> between 1 100 (http_workers l) \<and> between 1 50 (js_workers l) \<and> between 1 10 (screenshot_workers l)"

lemma limit_between: "lo \<le> hi \<Longrightarrow> between lo hi (limit_of rp raw k d lo hi)"
  by (auto simp: between_def limit_of_def parse_int_def Let_def)

lemma limits_of_in_range: "limits_in_range (limits_of rp raw)"
  by (simp add: limits_in_range_def limits_of_def limit_between)

definition usable :: "(string \<Rightarrow> (string \<Rightarrow> bool) option) \<Rightarrow> policy \<Rightarrow> bool" where
  "usable rs p \<longleftrightarrow> p_roots p \<noteq> [] \<and> list_all valid_domain (p_roots p) \<and> p_include p \<noteq> []
     \<and> list_all (\<lambda>q. rs q \<noteq> None) (p_include p @ p_exclude p)"

lemma from_dict_cases:
  assumes "from_dict rp rs item defaults = Inr p"
  shows "policy_of rp (merged_policy defaults item) = Some p" "validate rp rs p = None"
  using assms by (auto simp: from_dict_def split: option.splits)

lemma policy_of_fields:
  assumes "policy_of rp m = Some p"
  shows "limits_in_range (p_limits p)" "p_roots p \<noteq> [] \<longrightarrow> p_include p \<noteq> []"
  using assms by (auto simp: policy_of_def Let_def bind_eq_Some_conv limits_of_in_range split: if_splits)

lemma validate_usable:
  "validate rp rs p = None \<Longrightarrow> p_roots p \<noteq> [] \<and> list_all valid_domain (p_roots p) \<and> list_all (\<lambda>q. rs q \<noteq> None) (p_include p @ p_exclude p)"
  by (auto simp: validate_def Let_def list_all_iff find_None_iff split: option.splits if_splits)

lemma accepted_usable: "from_dict rp rs item defaults = Inr p \<Longrightarrow> usable rs p"
  using from_dict_cases[of rp rs item defaults p] policy_of_fields(2)[of rp _ p] validate_usable[of rp rs p] by (auto simp: usable_def)

lemma any_search_total: "list_all (\<lambda>q. rs q \<noteq> None) qs \<Longrightarrow> any_search rs qs h = Some (list_ex (\<lambda>q. \<exists>f. rs q = Some f \<and> f h) qs)"
  by (induction qs) auto

lemma scope_total:
  assumes "usable rs p"
  shows "host_in_scope rs p h = Some (normalize_host h \<noteq> '''' \<and> \<not> list_ex (\<lambda>q. \<exists>f. rs q = Some f \<and> f (normalize_host h)) (p_exclude p)
     \<and> list_ex (\<lambda>q. \<exists>f. rs q = Some f \<and> f (normalize_host h)) (p_include p))"
proof -
  have "list_all (\<lambda>q. rs q \<noteq> None) (p_include p)" "list_all (\<lambda>q. rs q \<noteq> None) (p_exclude p)" using assms by (simp_all add: usable_def)
  then show ?thesis by (auto simp: host_in_scope_def Let_def any_search_total split: bool.split)
qed

text \<open>C20: Every policy the constructor accepts is well formed, whatever the configuration says: it has roots, each a valid
  domain, and include rules, all its patterns compile so that a scope decision never raises, and each of its twenty limits
  lies in its declared range.\<close>

theorem accepted_policy_is_well_formed:
  assumes "from_dict rp rs item defaults = Inr p"
  shows "usable rs p \<and> limits_in_range (p_limits p) \<and> host_in_scope rs p h \<noteq> None"
  using accepted_usable[OF assms] policy_of_fields(1)[OF from_dict_cases(1)[OF assms]] scope_total[of rs p h] by simp

section \<open>The scope of the default rules\<close>

text \<open>What Python's \<open>re\<close> makes of the pattern of one root, on a normalised host without a line break (before
  which \<open>$\<close> would match too).\<close>

definition root_pattern_law :: "(string \<Rightarrow> (string \<Rightarrow> bool) option) \<Rightarrow> string \<Rightarrow> bool" where
  "root_pattern_law rs r \<longleftrightarrow> (\<exists>f. rs (root_pattern r) = Some f \<and> (\<forall>h. py_lower h = h \<and> CHR 0x0A \<notin> set h \<longrightarrow> f h = in_domain r h))"

lemma lower_idem: "lower_char (lower_char c) = lower_char c"
  using code_lt[of c] by (auto simp: lower_char_def Let_def)

lemma inner_mem: "x \<in> set (butlast (tl xs)) \<Longrightarrow> x \<in> set xs"
  by (cases xs) (auto dest: in_set_butlastD)

lemma normalize_lower: "py_lower (normalize_host h) = normalize_host h"
proof -
  let ?l = "py_lower (py_strip h)" and ?r = "rstrip_dots (py_lower (py_strip h))"
  have "set (normalize_host h) \<subseteq> set ?r"
    by (auto simp: normalize_host_def Let_def dest: inner_mem)
  also have "set ?r \<subseteq> set ?l" using set_dropWhileD by (fastforce simp: rstrip_dots_def)
  finally have "\<forall>c \<in> set (normalize_host h). lower_char c = c" by (auto simp: py_lower_def lower_idem)
  then show ?thesis by (simp add: py_lower_def map_idI)
qed

text \<open>The default scope is the roots and their subdomains, nothing else: for a policy with the default include rules a
  host is in scope exactly when it equals a root or ends with a dot and a root, and no exclude rule matches it - so a host
  that merely contains or ends with the name of a root is outside, and an exclusion always wins.\<close>

theorem default_scope_is_the_domain:
  assumes "from_dict rp rs item defaults = Inr p" "p_include p = map root_pattern (p_roots p)"
    and "list_all (root_pattern_law rs) (p_roots p)" "CHR 0x0A \<notin> set (normalize_host h)" "normalize_host h \<noteq> ''''"
  shows "host_in_scope rs p h = Some (\<not> list_ex (\<lambda>q. \<exists>f. rs q = Some f \<and> f (normalize_host h)) (p_exclude p)
    \<and> list_ex (\<lambda>r. in_domain r (normalize_host h)) (p_roots p))"
proof -
  have "list_ex (\<lambda>q. \<exists>f. rs q = Some f \<and> f (normalize_host h)) (map root_pattern rts) = list_ex (\<lambda>r. in_domain r (normalize_host h)) rts"
    if "list_all (root_pattern_law rs) rts" for rts
    using that assms(4) normalize_lower[of h] by (induction rts) (auto simp: root_pattern_law_def)
  with assms(2,3,5) show ?thesis by (simp add: scope_total[OF accepted_usable[OF assms(1)]])
qed

section \<open>Remote scope\<close>

lemma text_list_texts [simp]: "text_list (texts ws) = Some (map JText ws)"
  by (simp add: text_list_def texts_def list_all_iff)

lemma map_of_sorted: "distinct (map fst m) \<Longrightarrow> map_of (sort_key fst m) = map_of m" for m :: "(string \<times> 'v) list"
  by (intro map_of_inject_set[THEN iffD2]) (simp_all only: distinct_map_sort set_sort)

lemma get_sorted:
  assumes "distinct (map fst m)"
  shows "get (sort_key fst (map (map_prod id sorted_keys) m)) k = (case map_of m k of None \<Rightarrow> JNull | Some v \<Rightarrow> sorted_keys v)"
proof -
  have "map_of (map (map_prod id sorted_keys) m) k = map_option sorted_keys (map_of m k)" by (induction m) auto
  moreover have "distinct (map fst (map (map_prod id sorted_keys) m))" using assms by (simp add: comp_def)
  ultimately show ?thesis by (simp add: get_def map_of_sorted split: option.split)
qed

definition scope_payload :: "(string \<times> json) list \<Rightarrow> policy \<Rightarrow> json" where
  "scope_payload task p = JObj (task @ [(''scope_policy'', JObj (worker_scope_snapshot p))])"

text \<open>The payload as the worker reads it: stored as JSON and decoded.\<close>

definition received :: "(rat \<Rightarrow> string) \<Rightarrow> json \<Rightarrow> json" where
  "received fr payload = safe_json_loads (JText (json_dumps fr payload)) (JObj []) (Some Dict_Kind)"

lemma sorted_texts [simp]: "sorted_keys (texts ws) = texts ws"
  by (simp add: texts_def comp_def)

lemma received_scope:
  assumes "json_ok (scope_payload task p)"
  obtains m scope where "received fr (scope_payload task p) = JObj m" "get m ''scope_policy'' = JObj scope"
    "get scope ''version'' = JInt WORKER_SCOPE_VERSION" "get scope ''target'' = JText (p_name p)" "get scope ''roots'' = texts (p_roots p)"
    "get scope ''include'' = texts (p_include p)" "get scope ''exclude'' = texts (p_exclude p)"
proof -
  let ?all = "task @ [(''scope_policy'', JObj (worker_scope_snapshot p))]"
  let ?scope = "sort_key fst (map (map_prod id sorted_keys) (worker_scope_snapshot p))"
  have d: "distinct (map fst ?all)" "distinct (map fst (worker_scope_snapshot p))"
    using assms by (simp_all add: scope_payload_def worker_scope_snapshot_def)
  have "received fr (scope_payload task p) = sorted_keys (scope_payload task p)"
    using loads_dumps[OF assms, of fr "JObj []"] by (simp add: received_def scope_payload_def)
  moreover have "map_of ?all ''scope_policy'' = Some (JObj (worker_scope_snapshot p))"
    using d(1) by (auto simp: map_of_append map_add_def map_of_eq_None_iff[THEN iffD2] split: option.split)
  then have "get (sort_key fst (map (map_prod id sorted_keys) ?all)) ''scope_policy'' = JObj ?scope"
    using get_sorted[OF d(1), of "''scope_policy''"] by simp
  moreover have "get ?scope k = (case map_of (worker_scope_snapshot p) k of None \<Rightarrow> JNull | Some v \<Rightarrow> sorted_keys v)" for k
    by (rule get_sorted[OF d(2)])
  ultimately show thesis
    by (intro that[of "sort_key fst (map (map_prod id sorted_keys) ?all)" ?scope])
       (simp_all only: scope_payload_def sorted_keys.simps, simp_all add: worker_scope_snapshot_def)
qed

lemma py_iter_texts [simp]: "py_iter (texts ws) = Some (map JText ws)"
  by (simp add: py_iter_def texts_def)

lemma find_none: "(\<forall>x \<in> set xs. \<not> P x) \<Longrightarrow> List.find P xs = None"
  by (simp add: find_None_iff)

text \<open>The policy a worker builds from the transferred rules.\<close>

lemma rebuilt_policy:
  assumes "usable rs p" "p_name p \<noteq> ''''"
  defines "item \<equiv> [(''name'', JText (p_name p)), (''roots'', texts (p_roots p)), (''include'', texts (p_include p)), (''exclude'', texts (p_exclude p))]"
  obtains q where "from_dict rp rs item [] = Inr q" "p_name q = p_name p" "p_roots q = map normalize_host (p_roots p)"
    "p_include q = p_include p" "p_exclude q = p_exclude p"
proof -
  have "merge_key m (k, texts ws) = AList.update k (texts ws) m" "merge_key m (k, JText s) = AList.update k (JText s) m" for m k ws s
    by (simp_all add: merge_key_def texts_def)
  then have m: "merged_policy [] item = item" by (simp add: merged_policy_def item_def)
  have valid: "list_all valid_domain (p_roots p)" using assms(1) by (simp add: usable_def)
  have "py_strip r \<noteq> ''''" if "r \<in> set (p_roots p)" for r
    using valid_host[of r] that valid by (auto simp: list_all_iff normalize_host_def py_lower_def rstrip_dots_def startswith_def)
  then have "filter (\<lambda>x. py_strip (py_str rp x) \<noteq> '''') (map JText (p_roots p)) = map JText (p_roots p)"
    by (auto simp: filter_id_conv py_str_def)
  moreover have strs: "map (py_str rp) (map JText ws) = ws" for ws by (simp add: py_str_def comp_def)
  ultimately have "roots_of rp item = Some (map normalize_host (p_roots p))"
    using assms(1) by (simp add: roots_of_def item_def get_or_def get_def Let_def usable_def py_str_def comp_def)
  moreover have "texts_of rp item ''include'' = Some (p_include p)" "texts_of rp item ''exclude'' = Some (p_exclude p)" "texts_of rp item ''tags'' = Some []"
    by (simp_all add: texts_of_def item_def get_or_def py_str_def comp_def) (simp add: py_iter_def)
  moreover have "mapping_of item k = Some []" if "k \<in> {''modules'', ''limits'', ''headers'', ''active'', ''alert'', ''analysis''}" for k
    using that by (auto simp: mapping_of_def item_def get_or_def py_dict_def)
  moreover have "py_str rp (get item ''name'') = p_name p" "truthy (get item ''name'')" using assms(2) by (simp_all add: item_def get_def py_str_def)
  ultimately obtain q where q: "policy_of rp item = Some q" "p_name q = p_name p" "p_roots q = map normalize_host (p_roots p)"
    "p_include q = p_include p" "p_exclude q = p_exclude p" "p_active q = []"
    using assms(1) by (simp add: policy_of_def Let_def usable_def)
  have "validate rp rs q = None"
  proof -
    have "rx_fullmatch ports_re ''80,443,8080,8443'' \<noteq> None" by code_simp
    moreover have "List.find (\<lambda>r. \<not> valid_domain r) (p_roots q) = None"
      using valid normalize_valid by (auto simp: q find_None_iff list_all_iff)
    moreover have "List.find (\<lambda>x. rs x = None) (p_include q @ p_exclude q) = None"
      using assms(1) by (auto simp: q find_None_iff usable_def list_all_iff)
    ultimately show ?thesis using assms(1) by (simp add: validate_def Let_def q usable_def get_or_def py_str_def)
  qed
  with q m show thesis by (intro that[of q]) (simp_all add: from_dict_def)
qed

text \<open>C21: A remote worker's scope refines the local one.  The rules of a policy that is accepted locally travel in a task
  whose other fields have distinct names and hold no floats, through JSON and back.  If the name of the policy is blank the worker refuses the task
  for its target; otherwise it accepts the rules, and lets a host through exactly when the local policy does and the host
  lies under one of the declared roots.\<close>

theorem remote_scope_refines_local:
  assumes "from_dict rp rs data defaults = Inr p" "json_ok (scope_payload task p)"
    and "received fr (scope_payload task p) = JObj payload"
  shows "case task_scope_policy rp rs payload of Inl e \<Rightarrow> py_strip (p_name p) = '''' \<and> e = Bad_Scope ''target''
    | Inr q \<Rightarrow> py_strip (p_name p) \<noteq> '''' \<and> p_name q = p_name p
        \<and> worker_in_scope rs q h = Some (host_in_scope rs p h = Some True \<and> list_ex (\<lambda>r. in_domain (normalize_host r) (normalize_host h)) (p_roots p))"
proof (cases "py_strip (p_name p) = ''''")
  case True
  obtain scope where scope: "get payload ''scope_policy'' = JObj scope"
    "get scope ''version'' = JInt WORKER_SCOPE_VERSION" "get scope ''target'' = JText (p_name p)"
    by (rule received_scope[OF assms(2), of fr]) (use assms(3) in auto)
  with True have "scope_error scope = Some (Bad_Scope ''target'')" by (simp add: scope_error_def)
  with scope True show ?thesis by (simp add: task_scope_policy_def)
next
  case False
  have u: "usable rs p" by (rule accepted_usable[OF assms(1)])
  obtain scope where scope: "get payload ''scope_policy'' = JObj scope"
    "get scope ''version'' = JInt WORKER_SCOPE_VERSION" "get scope ''target'' = JText (p_name p)" "get scope ''roots'' = texts (p_roots p)"
    "get scope ''include'' = texts (p_include p)" "get scope ''exclude'' = texts (p_exclude p)"
    by (rule received_scope[OF assms(2), of fr]) (use assms(3) in auto)
  have "p_name p \<noteq> ''''" using False by auto
  then obtain q where q: "from_dict rp rs [(''name'', JText (p_name p)), (''roots'', texts (p_roots p)), (''include'', texts (p_include p)),
      (''exclude'', texts (p_exclude p))] [] = Inr q" "p_name q = p_name p" "p_roots q = map normalize_host (p_roots p)"
    "p_include q = p_include p" "p_exclude q = p_exclude p" by (rule rebuilt_policy[OF u])
  have "scope_error scope = None" using False u by (simp add: scope_error_def scope usable_def)
  then have built: "task_scope_policy rp rs payload = Inr q" by (simp add: task_scope_policy_def scope q(1))
  have "host_in_scope rs q h = host_in_scope rs p h" by (simp only: host_in_scope_def q(4,5))
  then have "worker_in_scope rs q h = Some (host_in_scope rs p h = Some True \<and> list_ex (\<lambda>r. in_domain (normalize_host r) (normalize_host h)) (p_roots p))"
    using scope_total[OF u, of h] by (auto simp: worker_in_scope_def q(3) list.pred_map list_ex_iff)
  with False show ?thesis by (simp add: built q(2))
qed

section \<open>Examples\<close>

definition demo_rs :: "string \<Rightarrow> (string \<Rightarrow> bool) option" where
  "demo_rs q = (if q = root_pattern ''ab.cd'' then Some (in_domain ''ab.cd'') else if q = ''x'' then Some (\<lambda>h. CHR ''x'' \<in> set h) else None)"

definition demo_item :: "(string \<times> json) list" where
  "demo_item = [(''roots'', texts ['' AB.cd.'']), (''exclude'', texts [''x'']), (''limits'', JObj [(''retries'', JInt 99), (''dns_rate'', JText ''7'')])]"

definition demo_policy :: policy where
  "demo_policy = (case from_dict (\<lambda>_. '''') demo_rs demo_item [] of Inr p \<Rightarrow> p | Inl e \<Rightarrow> undefined)"

lemma demo_accepted: "from_dict (\<lambda>_. '''') demo_rs demo_item [] = Inr demo_policy"
proof -
  have "case from_dict (\<lambda>_. '''') demo_rs demo_item [] of Inr p \<Rightarrow> True | Inl e \<Rightarrow> False" by code_simp
  then show ?thesis by (auto simp: demo_policy_def split: sum.splits)
qed

lemma demo_fields:
  "p_roots demo_policy = [''ab.cd'']" "p_include demo_policy = [root_pattern ''ab.cd'']" "p_exclude demo_policy = [''x'']"
  "retries (p_limits demo_policy) = 5" "dns_rate (p_limits demo_policy) = 7" "p_name demo_policy = ''ab.cd''"
  by code_simp+

theorem accepted_policy_is_well_formed_witness:
  "usable demo_rs demo_policy \<and> limits_in_range (p_limits demo_policy) \<and> host_in_scope demo_rs demo_policy ''anything'' \<noteq> None"
  by (rule accepted_policy_is_well_formed[OF demo_accepted])

lemma demo_law: "root_pattern_law demo_rs ''ab.cd''"
  by (simp add: root_pattern_law_def demo_rs_def)

theorem default_scope_is_the_domain_witness:
  "host_in_scope demo_rs demo_policy ''www.AB.cd'' = Some True \<and> host_in_scope demo_rs demo_policy ''evilab.cd'' = Some False
   \<and> host_in_scope demo_rs demo_policy ''x.ab.cd'' = Some False"
proof -
  have norm: "normalize_host ''www.AB.cd'' = ''www.ab.cd''" "normalize_host ''evilab.cd'' = ''evilab.cd''" "normalize_host ''x.ab.cd'' = ''x.ab.cd''"
    by code_simp+
  have dom: "in_domain ''ab.cd'' ''www.ab.cd''" "\<not> in_domain ''ab.cd'' ''evilab.cd''" "in_domain ''ab.cd'' ''x.ab.cd''" by code_simp+
  have "''x'' \<noteq> root_pattern ''ab.cd''" by code_simp
  then have x: "demo_rs ''x'' = Some (\<lambda>h. CHR ''x'' \<in> set h)" by (simp add: demo_rs_def)
  have rule: "host_in_scope demo_rs demo_policy h = Some (\<not> CHR ''x'' \<in> set (normalize_host h) \<and> in_domain ''ab.cd'' (normalize_host h))"
    if "CHR 0x0A \<notin> set (normalize_host h)" "normalize_host h \<noteq> ''''" for h
    using default_scope_is_the_domain[OF demo_accepted, of h] that by (simp add: demo_fields demo_law x)
  show ?thesis by (simp add: rule norm dom)
qed

theorem remote_scope_refines_local_witness:
  "case received (\<lambda>_. '''') (scope_payload [(''kind'', JText ''http_head'')] demo_policy) of
     JObj payload \<Rightarrow>
       (case task_scope_policy (\<lambda>_. '''') demo_rs payload of Inl e \<Rightarrow> False | Inr q \<Rightarrow> worker_in_scope demo_rs q ''www.ab.cd'' = Some True)
   | _ \<Rightarrow> False"
proof -
  have ok: "json_ok (scope_payload [(''kind'', JText ''http_head'')] demo_policy)"
    by (simp add: scope_payload_def worker_scope_snapshot_def texts_def)
  obtain m where m: "received (\<lambda>_. '''') (scope_payload [(''kind'', JText ''http_head'')] demo_policy) = JObj m"
    by (rule received_scope[OF ok])
  have "py_strip (p_name demo_policy) \<noteq> ''''" by (simp add: demo_fields) code_simp
  moreover have "host_in_scope demo_rs demo_policy ''www.ab.cd'' = Some True" by code_simp
  moreover have "in_domain (normalize_host ''ab.cd'') (normalize_host ''www.ab.cd'')" by code_simp
  ultimately show ?thesis
    using remote_scope_refines_local[OF demo_accepted ok m, of "''www.ab.cd''"] by (auto simp: m demo_fields split: sum.splits)
qed

text \<open>Normalising is not idempotent: a bracketed root keeps a trailing dot, passes validation, and its default rule admits no
  host in the usual notation, not even the root.\<close>

lemma bracketed_root_admits_nothing:
  "normalize_host ''[ab.cd.]'' = ''ab.cd.'' \<and> valid_domain ''ab.cd.'' \<and> \<not> in_domain ''ab.cd.'' (normalize_host ''ab.cd'')
   \<and> \<not> in_domain ''ab.cd.'' (normalize_host ''ab.cd.'')"
  by code_simp

end
