(* ===== verification/Worker_Results.thy ===== *)
theory Worker_Results
  imports Worker_Artifact Worker_Scope Work_Queue
begin

text \<open>
  How the controller judges what a remote worker reports, \<open>src/app/worker_results.py\<close>: the outcome of a
  leased task, its retry delay, and when a failed item may be claimed again.

  \<open>rp\<close> and \<open>rs\<close> are as in \<open>Target_Policy\<close>, \<open>say\<close> the text of an exception of the policy loader,
  \<open>url_host\<close> the host of a URL after \<open>normalize_url\<close> (\<open>None\<close> when it is no web address), and
  \<open>http_date\<close> the seconds from now to the date in a header (\<open>None\<close> when it is no date).
\<close>

section \<open>Outcomes\<close>

definition RETRY_DELAY_SECONDS :: int where
  "RETRY_DELAY_SECONDS = 5"

definition RATE_LIMIT_DELAY_SECONDS :: int where
  "RATE_LIMIT_DELAY_SECONDS = 60"

definition SAFETY_ERRORS :: "string list" where
  "SAFETY_ERRORS = [''outside_scope_or_invalid_url'', ''non_public_resolution_blocked'', ''redirect_outside_scope'',
     ''redirect_scheme_downgrade_blocked'', ''redirect_limit_exceeded'', ''response_budget_exceeded'']"

definition WORKER_CAPABILITIES :: "string list" where
  "WORKER_CAPABILITIES = [''http_head'', ''download_url'']"

record worker_outcome =
  wo_ok :: bool
  wo_retry :: bool
  wo_reason :: string
  wo_error :: string
  wo_delay :: int

definition worker_success :: worker_outcome where
  "worker_success = \<lparr>wo_ok = True, wo_retry = False, wo_reason = ''completed'', wo_error = '''', wo_delay = 0\<rparr>"

definition outcome_metadata :: "worker_outcome \<Rightarrow> (string \<times> json) list" where
  "outcome_metadata o' = [(''ok'', JBool (wo_ok o')), (''retry'', JBool (wo_retry o')), (''reason'', JText (wo_reason o')),
     (''error'', JText (wo_error o')), (''retry_delay_seconds'', JInt (wo_delay o'))]"

definition worker_failure :: "string \<Rightarrow> bool \<Rightarrow> string \<Rightarrow> worker_outcome" where
  "worker_failure err retry reason =
     \<lparr>wo_ok = False, wo_retry = retry, wo_reason = reason, wo_error = take 500 err, wo_delay = (if retry then RETRY_DELAY_SECONDS else 0)\<rparr>"

definition retry_delay :: "(string \<Rightarrow> int option) \<Rightarrow> json \<Rightarrow> int \<Rightarrow> int" where
  "retry_delay http_date v minimum =
     (case v of
        JText s \<Rightarrow>
          (let t = py_strip s
           in if t = '''' then minimum
              else if py_isdigit t then max minimum (int (dec_val t))
              else case http_date t of None \<Rightarrow> minimum | Some n \<Rightarrow> max minimum n)
      | _ \<Rightarrow> minimum)"

section \<open>Judging a result\<close>

definition worker_url_in_scope :: "(string \<Rightarrow> string option) \<Rightarrow> (string \<Rightarrow> (string \<Rightarrow> bool) option) \<Rightarrow> policy \<Rightarrow> string \<Rightarrow> bool" where
  "worker_url_in_scope url_host rs p url =
     (case url_host url of None \<Rightarrow> False | Some h \<Rightarrow> worker_in_scope rs p h = Some True)"

text \<open>\<open>str(v or '''')\<close>.\<close>

definition text_or_empty :: "(json \<Rightarrow> string) \<Rightarrow> json \<Rightarrow> string" where
  "text_or_empty rp v = (if truthy v then py_str rp v else '''')"

definition not_a_bool :: "(string \<times> json) list \<Rightarrow> string \<Rightarrow> bool" where
  "not_a_bool r k = (case map_of r k of None \<Rightarrow> False | Some v \<Rightarrow> \<not> is_kind Bool_Kind v)"

text \<open>The part after the shape of the result was checked: status, transport and error are known.\<close>

definition judge_status ::
    "(bytes \<Rightarrow> string) \<Rightarrow> (string \<Rightarrow> int option) \<Rightarrow> string \<Rightarrow> (string \<times> json) list \<Rightarrow> (string \<times> json) list
     \<Rightarrow> int \<Rightarrow> string \<Rightarrow> string \<Rightarrow> worker_outcome" where
  "judge_status sha http_date kind payload r st transport err =
     (if truthy (get r ''truncated'') \<or> truthy (get r ''redirect_outside_scope'') \<or> err \<in> set SAFETY_ERRORS
      then worker_failure (if err = '''' then ''Unsafe or incomplete remote response'' else err) False ''stopped_for_safety''
      else if st = 429 \<and> transport \<in> {''ok'', ''stopped_for_safety''} \<and> err \<in> {'''', ''http_error''}
      then \<lparr>wo_ok = False, wo_retry = True, wo_reason = ''rate_limited'', wo_error = ''HTTP 429'',
             wo_delay = retry_delay http_date (get r ''retry_after'') RATE_LIMIT_DELAY_SECONDS\<rparr>
      else if transport = ''stopped_for_safety''
      then worker_failure (if err = '''' then ''Transport stopped for safety'' else err) False ''stopped_for_safety''
      else if transport = ''error''
      then worker_failure (if err = '''' then ''Transport failed'' else err) True ''transport_error''
      else if st < 200 \<or> err \<notin> {'''', ''http_error''}
      then worker_failure ''Invalid remote worker result'' False ''invalid_worker_result''
      else if kind = ''http_head'' then worker_success
      else if 200 \<le> st \<and> st < 300
      then (case decode_artifact sha payload r of
              Inl e \<Rightarrow> worker_failure (error_text e) (retryable e) (if retryable e then ''artifact_missing'' else ''invalid_artifact'')
            | Inr data \<Rightarrow> worker_success)
      else (let retry = (st \<in> {408, 425} \<or> 500 \<le> st)
            in \<lparr>wo_ok = False, wo_retry = retry, wo_reason = ''http_error'', wo_error = ''HTTP '' @ show_int st,
                 wo_delay = (if retry then retry_delay http_date (get r ''retry_after'') RETRY_DELAY_SECONDS else 0)\<rparr>))"

definition invalid_result :: worker_outcome where
  "invalid_result = worker_failure ''Invalid remote worker result'' False ''invalid_worker_result''"

text \<open>The checks of the task, and those of the answer's shape; \<open>Inl\<close> is the outcome they end with.\<close>

definition check_task ::
    "(json \<Rightarrow> string) \<Rightarrow> (string \<Rightarrow> (string \<Rightarrow> bool) option) \<Rightarrow> (policy_error \<Rightarrow> string) \<Rightarrow> (string \<times> json) list \<Rightarrow> json
     \<Rightarrow> worker_outcome + string \<times> policy \<times> (string \<times> json) list" where
  "check_task rp rs say payload result =
     (case get payload ''kind'' of
        JText kind \<Rightarrow>
          (case result of
             JObj r \<Rightarrow>
               if kind \<notin> set WORKER_CAPABILITIES then Inl invalid_result
               else (case task_scope_policy rp rs payload of
                   Inl e \<Rightarrow> Inl (worker_failure (say e) False ''invalid_task'')
                 | Inr p \<Rightarrow> Inr (kind, p, r))
           | _ \<Rightarrow> Inl invalid_result)
      | _ \<Rightarrow> Inl invalid_result)"

definition check_answer ::
    "(string \<Rightarrow> (string \<Rightarrow> bool) option) \<Rightarrow> (string \<Rightarrow> string option) \<Rightarrow> policy \<Rightarrow> (string \<times> json) list \<Rightarrow> worker_outcome + int \<times> string" where
  "check_answer rs url_host p r =
     (if \<not> (case get r ''url'' of JText u \<Rightarrow> worker_url_in_scope url_host rs p u | _ \<Rightarrow> False)
      then Inl (worker_failure ''outside_scope_or_invalid_url'' False ''stopped_for_safety'')
      else case get r ''status_code'' of
        JInt st \<Rightarrow>
          (case get r ''transport_status'' of
             JText transport \<Rightarrow>
               if \<not> (0 \<le> st \<and> st < 600) \<or> transport \<notin> {''ok'', ''error'', ''stopped_for_safety''}
                  \<or> list_ex (not_a_bool r) [''truncated'', ''redirect_outside_scope''] then Inl invalid_result
               else Inr (st, transport)
           | _ \<Rightarrow> Inl invalid_result)
      | _ \<Rightarrow> Inl invalid_result)"

definition classify_worker_result ::
    "(bytes \<Rightarrow> string) \<Rightarrow> (json \<Rightarrow> string) \<Rightarrow> (string \<Rightarrow> (string \<Rightarrow> bool) option) \<Rightarrow> (policy_error \<Rightarrow> string) \<Rightarrow> (string \<Rightarrow> string option)
     \<Rightarrow> (string \<Rightarrow> int option) \<Rightarrow> (string \<times> json) list \<Rightarrow> json \<Rightarrow> worker_outcome" where
  "classify_worker_result sha rp rs say url_host http_date payload result =
     (case check_task rp rs say payload result of
        Inl out \<Rightarrow> out
      | Inr (kind, p, r) \<Rightarrow>
          (case check_answer rs url_host p r of
             Inl out \<Rightarrow> out
           | Inr (st, transport) \<Rightarrow>
               judge_status sha http_date kind payload r st transport (take 500 (text_or_empty rp (get r ''transport_error'')))))"

definition with_outcome :: "worker_outcome \<Rightarrow> (string \<times> json) list \<Rightarrow> (string \<times> json) list" where
  "with_outcome o' m = obj_set ''_worker_outcome'' (JObj (outcome_metadata o')) m"

section \<open>When a failed item may run again\<close>

definition dict_of :: "json \<Rightarrow> (string \<times> json) list" where
  "dict_of v = (case v of JObj m \<Rightarrow> m | _ \<Rightarrow> [])"

definition stored_delay :: "work_item \<Rightarrow> int" where
  "stored_delay r =
     (case get (dict_of (get (dict_of (wk_result r)) ''_worker_outcome'')) ''retry_delay_seconds'' of
        JInt n \<Rightarrow> if n < RETRY_DELAY_SECONDS then RETRY_DELAY_SECONDS else n
      | _ \<Rightarrow> RETRY_DELAY_SECONDS)"

definition worker_retry_ready :: "stamp \<Rightarrow> work_item \<Rightarrow> bool" where
  "worker_retry_ready now r =
     (case wk_finished r of
        None \<Rightarrow> True
      | Some ended \<Rightarrow> wk_status r \<noteq> W_Retry \<or> stored_delay r \<le> int now - int ended)"

end
