(* ===== verification/Host_Cooldown.thy ===== *)
theory Host_Cooldown
  imports Target_Policy Sql_Table
begin

text \<open>
  The cooldown of a host that answered 429: \<open>katana_host\<close>, \<open>register_throttling\<close>,
  \<open>load_shared_throttle_state\<close> and \<open>persist_shared_throttle_state\<close> of \<open>src/app/katana_reliability.py\<close> with the
  table \<open>http_host_cooldowns\<close>.

  A throttle state maps hosts to the time before which they are left alone; times are seconds.
  \<open>hostname\<close> is the host \<open>urlsplit\<close> finds in a URL (\<open>None\<close> when there is none or the URL is malformed),
  and \<open>http_time\<close> the time a date in a header names.
\<close>

section \<open>Hosts and throttles\<close>

definition THROTTLE_COOLDOWN_SECONDS :: int where
  "THROTTLE_COOLDOWN_SECONDS = 3600"

definition katana_host :: "(string \<Rightarrow> string option) \<Rightarrow> string \<Rightarrow> string" where
  "katana_host hostname origin = py_lower (text_or '''' (hostname origin))"

type_synonym throttle = "(string \<times> int) list"

definition throttle_until :: "(string \<Rightarrow> int option) \<Rightarrow> int \<Rightarrow> string \<Rightarrow> int" where
  "throttle_until http_time now retry_after =
     (let v = take 200 (py_strip retry_after);
          advised = (if py_isdigit v then Some (now + int (dec_val v)) else http_time v);
          floor = now + THROTTLE_COOLDOWN_SECONDS
      in case advised of None \<Rightarrow> floor | Some t \<Rightarrow> max floor t)"

definition raise_host :: "int \<Rightarrow> throttle \<Rightarrow> string \<Rightarrow> throttle" where
  "raise_host until state host =
     (if host = '''' then state
      else AList.update host (max (case map_of state host of None \<Rightarrow> 0 | Some t \<Rightarrow> t) until) state)"

definition register_throttling :: "(string \<Rightarrow> int option) \<Rightarrow> throttle \<Rightarrow> string list \<Rightarrow> int \<Rightarrow> string \<Rightarrow> throttle" where
  "register_throttling http_time state hosts now retry_after =
     foldl (raise_host (throttle_until http_time now retry_after)) state hosts"

section \<open>The shared table\<close>

record cooldown_row =
  cd_host :: string
  cd_until :: int
  cd_run :: string

text \<open>With an empty host every active cooldown counts.\<close>

definition load_shared_throttle_state :: "int \<Rightarrow> string \<Rightarrow> cooldown_row list \<Rightarrow> throttle" where
  "load_shared_throttle_state now host t =
     map (\<lambda>c. (cd_host c, cd_until c)) (filter (\<lambda>c. now < cd_until c \<and> (host = '''' \<or> cd_host c = host)) t)"

definition longer :: "int \<Rightarrow> string \<Rightarrow> cooldown_row \<Rightarrow> cooldown_row" where
  "longer until run c = c\<lparr>cd_until := max (cd_until c) until, cd_run := (if cd_until c < until then run else cd_run c)\<rparr>"

definition persist_host :: "(string \<Rightarrow> string option) \<Rightarrow> string \<Rightarrow> cooldown_row list \<Rightarrow> string \<times> int \<Rightarrow> cooldown_row list" where
  "persist_host hostname run t hu = (case hu of (host, until) \<Rightarrow>
     if katana_host hostname (''https://'' @ host) \<noteq> host then t
     else upsert (\<lambda>c. cd_host c = host) \<lparr>cd_host = host, cd_until = until, cd_run = run\<rparr> (longer until run) t)"

definition persist_shared_throttle_state :: "(string \<Rightarrow> string option) \<Rightarrow> throttle \<Rightarrow> string \<Rightarrow> cooldown_row list \<Rightarrow> cooldown_row list" where
  "persist_shared_throttle_state hostname state run t = foldl (persist_host hostname run) t state"

definition cooling :: "int \<Rightarrow> string \<Rightarrow> cooldown_row list \<Rightarrow> bool" where
  "cooling now host t \<longleftrightarrow> load_shared_throttle_state now host t \<noteq> []"

section \<open>Cooldowns only grow\<close>

lemma cooling_iff: "cooling now host t \<longleftrightarrow> (\<exists>c \<in> set t. now < cd_until c \<and> (host = '''' \<or> cd_host c = host))"
  by (auto simp: cooling_def load_shared_throttle_state_def filter_empty_conv)

lemma longer_fields [simp]: "cd_host (longer until run c) = cd_host c" "cd_until (longer until run c) = max (cd_until c) until"
  by (simp_all add: longer_def)

lemma set_upsert_old: "c \<in> set t \<Longrightarrow> (if p c then f c else c) \<in> set (upsert p new f t)"
  by (auto simp: upsert_def set_update_where list_ex_iff)

lemma persist_host_keeps:
  assumes "c \<in> set t"
  shows "\<exists>d \<in> set (persist_host hostname run t hu). cd_host d = cd_host c \<and> cd_until c \<le> cd_until d"
proof (cases hu)
  case (Pair host until)
  show ?thesis
  proof (cases "katana_host hostname (''https://'' @ host) = host")
    case True
    let ?d = "if cd_host c = host then longer until run c else c"
    have "?d \<in> set (persist_host hostname run t hu)"
      using set_upsert_old[OF assms, of "\<lambda>c. cd_host c = host" "longer until run" "\<lparr>cd_host = host, cd_until = until, cd_run = run\<rparr>"] True
      by (simp add: persist_host_def Pair)
    then show ?thesis by (rule rev_bexI) simp
  qed (use assms Pair in \<open>auto simp: persist_host_def\<close>)
qed

lemma persist_keeps:
  "c \<in> set t \<Longrightarrow> \<exists>d \<in> set (persist_shared_throttle_state hostname state run t). cd_host d = cd_host c \<and> cd_until c \<le> cd_until d"
proof (induction state arbitrary: c t)
  case (Cons hu state)
  obtain d where d: "d \<in> set (persist_host hostname run t hu)" "cd_host d = cd_host c" "cd_until c \<le> cd_until d"
    using persist_host_keeps[OF Cons.prems, of hostname run hu] by blast
  from Cons.IH[OF d(1)] d(2,3) show ?case by (force simp: persist_shared_throttle_state_def)
qed (auto simp: persist_shared_throttle_state_def)

lemma persist_host_covers:
  assumes "katana_host hostname (''https://'' @ host) = host"
  shows "\<exists>d \<in> set (persist_host hostname run t (host, until)). cd_host d = host \<and> until \<le> cd_until d"
proof (cases "\<exists>c \<in> set t. cd_host c = host")
  case True
  then obtain c where c: "c \<in> set t" "cd_host c = host" by blast
  have "longer until run c \<in> set (persist_host hostname run t (host, until))"
    using set_upsert_old[OF c(1), of "\<lambda>c. cd_host c = host" "longer until run" "\<lparr>cd_host = host, cd_until = until, cd_run = run\<rparr>"] assms c(2)
    by (simp add: persist_host_def)
  then show ?thesis by (rule rev_bexI) (simp add: c(2))
next
  case False
  with assms show ?thesis by (auto simp: persist_host_def upsert_def list_ex_iff)
qed

lemma persist_covers:
  "(host, until) \<in> set state \<Longrightarrow> katana_host hostname (''https://'' @ host) = host \<Longrightarrow>
     \<exists>d \<in> set (persist_shared_throttle_state hostname state run t). cd_host d = host \<and> until \<le> cd_until d"
proof (induction state arbitrary: t)
  case (Cons hu state)
  let ?t = "persist_host hostname run t hu"
  have rest: "persist_shared_throttle_state hostname (hu # state) run t = persist_shared_throttle_state hostname state run ?t"
    by (simp add: persist_shared_throttle_state_def)
  show ?case
  proof (cases "hu = (host, until)")
    case True
    then obtain d where "d \<in> set ?t" "cd_host d = host" "until \<le> cd_until d" using persist_host_covers[OF Cons.prems(2)] by blast
    then show ?thesis unfolding rest using persist_keeps[of d ?t hostname state run] by force
  next
    case False
    with Cons show ?thesis unfolding rest by simp
  qed
qed simp

lemma throttle_floor: "now + THROTTLE_COOLDOWN_SECONDS \<le> throttle_until http_time now retry_after"
  by (simp add: throttle_until_def Let_def split: option.split)

lemma raise_host_map:
  "map_of (raise_host until state host) k = (if k = host \<and> host \<noteq> '''' then Some (max (case map_of state host of None \<Rightarrow> 0 | Some t \<Rightarrow> t) until) else map_of state k)"
  by (auto simp: raise_host_def update_conv')

lemma register_covers:
  assumes "h \<in> set hosts" "h \<noteq> ''''"
  shows "\<exists>t. map_of (register_throttling http_time state hosts now retry_after) h = Some t \<and> throttle_until http_time now retry_after \<le> t"
proof -
  let ?u = "throttle_until http_time now retry_after"
  have step: "\<exists>t. map_of (raise_host ?u s x) h = Some t \<and> ?u \<le> t" if "map_of s h = Some t0" "?u \<le> t0" for s x t0
    using that by (auto simp: raise_host_map)
  have keep: "\<exists>t. map_of (foldl (raise_host ?u) s hs) h = Some t \<and> ?u \<le> t" if "map_of s h = Some t0" "?u \<le> t0" for s hs t0
    using that
  proof (induction hs arbitrary: s t0)
    case (Cons x hs)
    obtain t1 where "map_of (raise_host ?u s x) h = Some t1" "?u \<le> t1" using step[OF Cons.prems] by blast
    from Cons.IH[OF this] show ?case by simp
  qed simp
  show ?thesis
    using assms(1) unfolding register_throttling_def
  proof (induction hosts arbitrary: state)
    case (Cons x hosts)
    then show ?case
      using keep[of "raise_host ?u state h" "max (case map_of state h of None \<Rightarrow> 0 | Some t \<Rightarrow> t) ?u" hosts] assms(2)
      by (cases "x = h") (auto simp: raise_host_map)
  qed simp
qed

text \<open>A cooldown only grows: registering a 429 for a host leaves it alone for an hour or as long as the server asked, if that
  is longer; no later answer of any run shortens a cooldown that is stored, and a host is refused as long as one lasts.\<close>

theorem cooldowns_only_grow:
  assumes "h \<in> set hosts" "h \<noteq> ''''" "katana_host hostname (''https://'' @ h) = h"
    and "state = register_throttling http_time [] hosts now retry_after" "later < now + THROTTLE_COOLDOWN_SECONDS"
  shows "cooling later h (persist_shared_throttle_state hostname others run' (persist_shared_throttle_state hostname state run t))
    \<and> (\<not> cooling later k t \<or> cooling later k (persist_shared_throttle_state hostname state run t))"
proof -
  let ?t = "persist_shared_throttle_state hostname state run t"
  obtain until where u: "map_of state h = Some until" "throttle_until http_time now retry_after \<le> until"
    using register_covers[OF assms(1,2)] assms(4) by blast
  obtain c where c: "c \<in> set ?t" "cd_host c = h" "until \<le> cd_until c" using persist_covers[OF map_of_SomeD[OF u(1)] assms(3)] by blast
  obtain d where d: "d \<in> set (persist_shared_throttle_state hostname others run' ?t)" "cd_host d = h" "cd_until c \<le> cd_until d"
    using persist_keeps[OF c(1)] c(2) by metis
  have "later < cd_until d" using throttle_floor[of now http_time retry_after] u(2) c(3) d(3) assms(5) by simp
  then have "cooling later h (persist_shared_throttle_state hostname others run' ?t)" using d by (auto simp: cooling_iff)
  moreover have "cooling later k ?t" if "cooling later k t"
    using that persist_keeps[of _ t hostname state run] unfolding cooling_iff by (metis order_less_le_trans)
  ultimately show ?thesis by blast
qed

theorem cooldowns_only_grow_witness:
  "cooling 3000 ''h'' (persist_shared_throttle_state (\<lambda>u. Some (drop 8 u)) [(''h'', 5)] ''r2''
     (persist_shared_throttle_state (\<lambda>u. Some (drop 8 u)) (register_throttling (\<lambda>_. None) [] [''h''] 0 ''60'') ''r1'' []))"
proof -
  have "katana_host (\<lambda>u. Some (drop 8 u)) (''https://'' @ ''h'') = ''h''" by code_simp
  then show ?thesis
    using cooldowns_only_grow[of "''h''" "[''h'']" "\<lambda>u. Some (drop 8 u)" _ "\<lambda>_. None" 0 "''60''" 3000] by (simp add: THROTTLE_COOLDOWN_SECONDS_def)
qed

end
