(* ===== verification/Worker_Gateway.thy ===== *)
theory Worker_Gateway
  imports Worker_Results Host_Cooldown
begin

text \<open>
  The controller's side of the remote worker protocol: the four worker requests of \<open>APIHandler.do_POST\<close>
  (\<open>src/app/api_server_core.py\<close>), and the handoff of a downloaded file to the object store,
  \<open>receive_work_artifact\<close> and \<open>load_work_artifact\<close> of \<open>src/app/worker_artifacts.py\<close>.

  \<open>auth\<close> is the token hash under which the caller was authenticated, \<open>sha\<close> is SHA-256 of bytes and of
  texts, \<open>clock_text\<close> the printing of a time.  A transaction is one step; what it wrote to the file system
  stays when it is rolled back.  Work numbers begin at one.
\<close>

section \<open>State\<close>

record worker_row =
  wr_id :: string
  wr_name :: string
  wr_capabilities :: json
  wr_status :: string
  wr_registered :: stamp
  wr_heartbeat :: "stamp option"
  wr_metadata :: json
  wr_auth :: string

record gateway =
  gw_workers :: "worker_row list"
  gw_work :: work_db
  gw_cas :: cas_db
  gw_cool :: "cooldown_row list"

datatype reply =
    Refused nat string
  | Registered string
  | Beat
  | No_Work
  | Work work_item string
  | Artifact_Ready
  | Accepted
  | Crashed

section \<open>Registration\<close>

text \<open>\<open>random\<close> is the name drawn when the caller gives none; \<open>set(map(str, ..))\<close> fails on a value that is not iterable.\<close>

definition requested :: "(json \<Rightarrow> string) \<Rightarrow> (string \<times> json) list \<Rightarrow> string list option" where
  "requested rp data = map_option (map (py_str rp)) (py_iter (get_or data ''capabilities'' (JList [])))"

definition find_worker :: "string \<Rightarrow> gateway \<Rightarrow> worker_row option" where
  "find_worker w g = select_one (\<lambda>r. wr_id r = w) (gw_workers g)"

definition register_worker :: "(json \<Rightarrow> string) \<Rightarrow> string \<Rightarrow> string \<Rightarrow> stamp \<Rightarrow> (string \<times> json) list \<Rightarrow> gateway \<Rightarrow> gateway \<times> reply" where
  "register_worker rp auth random now data g =
     (let w = (if truthy (get data ''worker_id'') then py_str rp (get data ''worker_id'') else random)
      in case requested rp data of
           None \<Rightarrow> (g, Crashed)
         | Some caps \<Rightarrow>
             if caps = [] \<or> \<not> set caps \<subseteq> set WORKER_CAPABILITIES then (g, Refused 400 ''invalid worker capabilities'')
             else if (case find_worker w g of None \<Rightarrow> False | Some r \<Rightarrow> wr_auth r \<noteq> '''' \<and> wr_auth r \<noteq> auth)
             then (g, Refused 403 ''worker id is bound to another token'')
             else
               let name = py_str rp (get_or data ''name'' (JText w)); sorted_caps = JList (map JText (sort (dedup caps)));
                   meta = sorted_keys (get_or data ''metadata'' (JObj []));
                   new = \<lparr>wr_id = w, wr_name = name, wr_capabilities = sorted_caps, wr_status = ''online'', wr_registered = now,
                          wr_heartbeat = Some now, wr_metadata = meta, wr_auth = auth\<rparr>
               in (g\<lparr>gw_workers := upsert (\<lambda>r. wr_id r = w) new
                     (\<lambda>r. r\<lparr>wr_name := name, wr_capabilities := sorted_caps, wr_status := ''online'', wr_heartbeat := Some now,
                           wr_metadata := meta, wr_auth := (if wr_auth r = '''' then auth else wr_auth r)\<rparr>) (gw_workers g)\<rparr>, Registered w))"

definition identified :: "string \<Rightarrow> string \<Rightarrow> gateway \<Rightarrow> worker_row option" where
  "identified auth w g = (case find_worker w g of None \<Rightarrow> None | Some r \<Rightarrow> if wr_auth r = auth then Some r else None)"

definition heartbeat :: "(json \<Rightarrow> string) \<Rightarrow> string \<Rightarrow> stamp \<Rightarrow> (string \<times> json) list \<Rightarrow> gateway \<Rightarrow> gateway \<times> reply" where
  "heartbeat rp auth now data g =
     (let w = py_str rp (get data ''worker_id'')
      in case identified auth w g of
           None \<Rightarrow> (g, Refused 403 ''worker identity mismatch'')
         | Some r \<Rightarrow> (g\<lparr>gw_workers := update_where (\<lambda>r. wr_id r = w) (\<lambda>r. r\<lparr>wr_status := ''online'', wr_heartbeat := Some now\<rparr>) (gw_workers g)\<rparr>, Beat))"

section \<open>Claiming\<close>

definition WORK_LEASE_SECONDS :: nat where
  "WORK_LEASE_SECONDS = 120"

definition capabilities_of :: "(json \<Rightarrow> string) \<Rightarrow> worker_row \<Rightarrow> string list" where
  "capabilities_of rp w = map (py_str rp) (case wr_capabilities w of JList vs \<Rightarrow> vs | _ \<Rightarrow> [])"

definition url_of :: "(json \<Rightarrow> string) \<Rightarrow> (string \<times> json) list \<Rightarrow> string" where
  "url_of rp payload = py_str rp (get_or payload ''url'' (JText ''''))"

text \<open>The conditions the loop checks for a waiting item, in their order.\<close>

definition may_claim ::
    "(json \<Rightarrow> string) \<Rightarrow> (string \<Rightarrow> (string \<Rightarrow> bool) option) \<Rightarrow> (string \<Rightarrow> string option) \<Rightarrow> (string \<Rightarrow> string option) \<Rightarrow> stamp
     \<Rightarrow> worker_row \<Rightarrow> cooldown_row list \<Rightarrow> work_item \<Rightarrow> bool" where
  "may_claim rp rs url_host hostname now w cool r =
     (let payload = dict_of (wk_payload r); kind = py_str rp (get_or payload ''kind'' (JText ''''))
      in worker_retry_ready now r
         \<and> kind \<in> set WORKER_CAPABILITIES \<and> kind \<in> set (capabilities_of rp w)
         \<and> (kind \<noteq> ''download_url'' \<or> worker_supports_artifacts (JObj (dict_of (wr_metadata w))))
         \<and> (case task_scope_policy rp rs payload of
              Inl e \<Rightarrow> False
            | Inr p \<Rightarrow> p_name p = wk_target r \<and> worker_url_in_scope url_host rs p (url_of rp payload))
         \<and> \<not> cooling (int now) (katana_host hostname (url_of rp payload)) cool)"

definition claimable :: "work_item \<Rightarrow> bool" where
  "claimable r \<longleftrightarrow> wk_status r = W_Queued \<or> wk_status r = W_Retry"

text \<open>One page of rows: the first that may be claimed and can be started.\<close>

fun try_page ::
    "(work_item \<Rightarrow> bool) \<Rightarrow> (work_item \<Rightarrow> work_item list \<Rightarrow> work_item list \<times> bool) \<Rightarrow> work_item list \<Rightarrow> work_item list
     \<Rightarrow> work_item list \<times> work_item option" where
  "try_page may start [] t = (t, None)"
| "try_page may start (r # rs) t =
     (if may r then (case start r t of (t', True) \<Rightarrow> (t', Some r) | (t', False) \<Rightarrow> try_page may start rs t')
      else try_page may start rs t)"

definition next_page :: "nat \<Rightarrow> work_item list \<Rightarrow> work_item list" where
  "next_page low t = take 50 (sort_key wk_id (filter (\<lambda>r. claimable r \<and> low < wk_id r) t))"

definition lease_item :: "stamp \<Rightarrow> string \<Rightarrow> string \<Rightarrow> work_item \<Rightarrow> work_item list \<Rightarrow> work_item list \<times> bool" where
  "lease_item now worker token r = work_start now (wk_id r) worker token (Some (now + WORK_LEASE_SECONDS))"

text \<open>The loop over the pages; its fuel is the number of pages, at most one for each row.\<close>

fun claim_pages ::
    "nat \<Rightarrow> (work_item \<Rightarrow> bool) \<Rightarrow> (work_item \<Rightarrow> work_item list \<Rightarrow> work_item list \<times> bool) \<Rightarrow> nat \<Rightarrow> work_item list
     \<Rightarrow> (work_item list \<times> work_item option) option" where
  "claim_pages 0 may start low t = None"
| "claim_pages (Suc n) may start low t =
     (case next_page low t of
        [] \<Rightarrow> Some (t, None)
      | r # rs \<Rightarrow>
          (case try_page may start (r # rs) t of
             (t', Some chosen) \<Rightarrow> Some (t', Some chosen)
           | (t', None) \<Rightarrow> claim_pages n may start (wk_id (List.last (r # rs))) t'))"

definition claim_work ::
    "(string \<Rightarrow> string) \<Rightarrow> (json \<Rightarrow> string) \<Rightarrow> (string \<Rightarrow> (string \<Rightarrow> bool) option) \<Rightarrow> (string \<Rightarrow> string option) \<Rightarrow> (string \<Rightarrow> string option)
     \<Rightarrow> string \<Rightarrow> string \<Rightarrow> stamp \<Rightarrow> (string \<times> json) list \<Rightarrow> gateway \<Rightarrow> (gateway \<times> reply) option" where
  "claim_work sha rp rs url_host hostname auth token now data g =
     (let w = py_str rp (get data ''worker_id'')
      in case identified auth w g of
           None \<Rightarrow> Some (g, Refused 403 ''worker identity mismatch'')
         | Some worker \<Rightarrow>
             if \<not> worker_supports_scope (JObj (dict_of (wr_metadata worker))) then Some (g, No_Work)
             else
               let t0 = fst (reclaim_expired_work_leases now (items (gw_work g)))
               in map_option (\<lambda>(t, chosen). (g\<lparr>gw_work := (gw_work g)\<lparr>items := t\<rparr>\<rparr>,
                      case chosen of None \<Rightarrow> No_Work | Some r \<Rightarrow> Work r token))
                    (claim_pages (Suc (length t0)) (may_claim rp rs url_host hostname now worker (gw_cool g)) (lease_item now w (sha token)) 0 t0))"

section \<open>Receiving a file\<close>

datatype receive_error = Artifact_Refused artifact_error | Store_Failed cas_error

definition undo :: "cas_db \<Rightarrow> cas_db \<Rightarrow> cas_db" where
  "undo c c' = c\<lparr>files := files c'\<rparr>"

definition download_budget :: "work_item \<Rightarrow> budget_row \<Rightarrow> bool" where
  "download_budget r = budget_key (wk_run r) (wk_target r) ''download_bytes''"

definition stored_artifact :: "(stamp \<Rightarrow> string) \<Rightarrow> stamp \<Rightarrow> string \<Rightarrow> bytes \<Rightarrow> (string \<times> json) list \<Rightarrow> (string \<times> json) list" where
  "stored_artifact clock_text now digest data result =
     obj_set ''_worker_outcome'' (JObj [(''ok'', JBool True), (''retry'', JBool False), (''reason'', JText ''artifact_ready''), (''received_at'', JText (clock_text now))])
       (obj_set ''artifact'' (JObj [(''version'', JInt WORKER_ARTIFACT_VERSION), (''sha256'', JText digest), (''size'', JInt (int (length data))),
          (''stored'', JBool True)]) (without_artifact_body result))"

text \<open>The transaction once the envelope is decoded; \<open>t1\<close> is its clock, \<open>t2\<close> that of the final statement.\<close>

definition hand_over ::
    "(bytes \<Rightarrow> string) \<Rightarrow> (json \<Rightarrow> string) \<Rightarrow> (stamp \<Rightarrow> string) \<Rightarrow> stamp \<Rightarrow> stamp \<Rightarrow> work_item \<Rightarrow> bytes \<Rightarrow> (string \<times> json) list \<Rightarrow> string \<Rightarrow> string
     \<Rightarrow> work_db \<times> cas_db \<Rightarrow> (work_db \<times> cas_db) \<times> (receive_error + bool)" where
  "hand_over sha rp clock_text t1 t2 r data result worker token st = (case st of (w, c) \<Rightarrow>
     (let ctype = (if truthy (get result ''content_type'') then py_str rp (get result ''content_type'') else ''application/octet-stream'')
      in case put_object sha t1 data ctype c of
           (c1, digest, created) \<Rightarrow>
             (case get_object t1 digest c1 of
                (c2, Inl e) \<Rightarrow> ((w, undo c c1), Inl (Store_Failed e))
              | (c2, Inr got) \<Rightarrow>
                  if sha got \<noteq> digest
                  then ((w, undo c c1), Inl (Artifact_Refused (Artifact_Error ''Stored remote artifact failed verification'' True)))
                  else (case set_reference t1 ''work_item'' (show_nat (wk_id r)) digest c2 of
                      (c3, Some e) \<Rightarrow> ((w, undo c c1), Inl (Store_Failed e))
                    | (c3, None) \<Rightarrow>
                        (case work_receive_artifact t2 (wk_id r) (stored_artifact clock_text t1 digest data result) worker token (items w) of
                           (t, False) \<Rightarrow> ((w, undo c c1), Inr False)
                         | (t, True) \<Rightarrow>
                             ((w\<lparr>items := t, budgets := update_where (download_budget r)
                                  (\<lambda>b. b\<lparr>bg_used := bg_used b + int (length data), bg_updated := t2\<rparr>) (budgets w)\<rparr>, c3), Inr True))))))"

definition receive_work_artifact ::
    "(bytes \<Rightarrow> string) \<Rightarrow> (json \<Rightarrow> string) \<Rightarrow> (stamp \<Rightarrow> string) \<Rightarrow> stamp \<Rightarrow> stamp \<Rightarrow> nat \<Rightarrow> (string \<times> json) list \<Rightarrow> string \<Rightarrow> string
     \<Rightarrow> work_db \<times> cas_db \<Rightarrow> (work_db \<times> cas_db) \<times> (receive_error + bool)" where
  "receive_work_artifact sha rp clock_text t1 t2 i result worker token st = (case st of (w, c) \<Rightarrow>
     (case select_one (leased_to t1 i worker token) (items w) of
        None \<Rightarrow> (st, Inr False)
      | Some r \<Rightarrow>
          (case decode_artifact sha (dict_of (wk_payload r)) result of
             Inl e \<Rightarrow> (st, Inl (Artifact_Refused e))
           | Inr data \<Rightarrow>
               if (case select_one (download_budget r) (budgets w) of
                     None \<Rightarrow> False | Some b \<Rightarrow> bg_limit b \<noteq> 0 \<and> bg_limit b < bg_used b + int (length data))
               then (st, Inl (Artifact_Refused (Artifact_Error ''Remote artifact exceeds run download budget'' False)))
               else hand_over sha rp clock_text t1 t2 r data result worker token st)))"

definition load_work_artifact ::
    "(bytes \<Rightarrow> string) \<Rightarrow> stamp \<Rightarrow> nat \<Rightarrow> (string \<times> json) list \<Rightarrow> int \<Rightarrow> cas_db \<Rightarrow> cas_db \<times> (receive_error + bytes)" where
  "load_work_artifact sha now i result max_bytes c =
     (case artifact_metadata (get result ''artifact'') max_bytes of
        Inl e \<Rightarrow> (c, Inl (Artifact_Refused e))
      | Inr (digest, n) \<Rightarrow>
          if get (dict_of (get result ''artifact'')) ''stored'' \<noteq> JBool True
          then (c, Inl (Artifact_Refused (Artifact_Error ''Remote artifact was not stored by the controller'' False)))
          else if map_option rf_sha (select_one (ref_key ''work_item'' (show_nat i)) (refs c)) \<noteq> Some digest
          then (c, Inl (Artifact_Refused (Artifact_Error ''Remote work artifact reference is missing'' False)))
          else (case get_object now digest c of
              (c', Inl e) \<Rightarrow> (c', Inl (Store_Failed e))
            | (c', Inr data) \<Rightarrow>
                if int (length data) \<noteq> n \<or> sha data \<noteq> digest
                then (c', Inl (Artifact_Refused (Artifact_Error ''Stored remote artifact size or SHA-256 mismatch'' False)))
                else (c', Inr data)))"

section \<open>Accepting a result\<close>

definition reported_failure :: "(json \<Rightarrow> string) \<Rightarrow> (string \<times> json) list \<Rightarrow> worker_outcome" where
  "reported_failure rp data = worker_failure (if truthy (get data ''error'') then py_str rp (get data ''error'') else ''worker failure'')
     (get data ''retry'' = JBool True) ''worker_exception''"

definition judged ::
    "(bytes \<Rightarrow> string) \<Rightarrow> (json \<Rightarrow> string) \<Rightarrow> (string \<Rightarrow> (string \<Rightarrow> bool) option) \<Rightarrow> (policy_error \<Rightarrow> string) \<Rightarrow> (string \<Rightarrow> string option)
     \<Rightarrow> (string \<Rightarrow> int option) \<Rightarrow> (string \<times> json) list \<Rightarrow> (string \<times> json) list \<Rightarrow> worker_outcome" where
  "judged sha rp rs say url_host http_date payload data =
     (let result = get data ''result''; claimed = (get data ''ok'' = JBool True)
      in if claimed \<or> dict_of result \<noteq> [] then
           (let out = classify_worker_result sha rp rs say url_host http_date payload result
            in if wo_ok out \<and> \<not> claimed then reported_failure rp data else out)
         else reported_failure rp data)"

definition base_result :: "json \<Rightarrow> (string \<times> json) list" where
  "base_result result = (case result of JObj m \<Rightarrow> without_artifact_body m | _ \<Rightarrow> [])"

text \<open>The hosts that cool down: those of the task's address and of the reported one.\<close>

definition throttled_hosts :: "(json \<Rightarrow> string) \<Rightarrow> (string \<Rightarrow> string option) \<Rightarrow> (string \<times> json) list \<Rightarrow> json \<Rightarrow> string list" where
  "throttled_hosts rp hostname payload result =
     sort (dedup (filter (\<lambda>h. h \<noteq> '''') [katana_host hostname (url_of rp payload), katana_host hostname (py_str rp (get (dict_of result) ''url''))]))"

definition lost_lease :: reply where
  "lost_lease = Refused 409 ''work lease is invalid, expired, or not owned by this worker''"

definition record_failure ::
    "(json \<Rightarrow> string) \<Rightarrow> (string \<Rightarrow> string option) \<Rightarrow> (string \<Rightarrow> int option) \<Rightarrow> stamp \<Rightarrow> nat \<Rightarrow> string \<times> string \<Rightarrow> (string \<times> json) list \<Rightarrow> json
     \<Rightarrow> worker_outcome \<Rightarrow> string \<Rightarrow> gateway \<Rightarrow> gateway \<times> reply" where
  "record_failure rp hostname http_time now i who payload result out run g =
     (case work_fail now i (wo_error out) (wo_retry out) (Some (with_outcome out (base_result result))) (Some who) (items (gw_work g)) of
        (t, False) \<Rightarrow> (g\<lparr>gw_work := (gw_work g)\<lparr>items := t\<rparr>\<rparr>, lost_lease)
      | (t, True) \<Rightarrow>
          (g\<lparr>gw_work := (gw_work g)\<lparr>items := t\<rparr>,
             gw_cool := (if wo_reason out = ''rate_limited''
               then persist_shared_throttle_state hostname
                 (register_throttling http_time [] (throttled_hosts rp hostname payload result) (int now)
                   (text_or_empty rp (get (dict_of result) ''retry_after''))) run (gw_cool g)
               else gw_cool g)\<rparr>, Accepted))"

definition storage_failure :: "(cas_error \<Rightarrow> string) \<Rightarrow> receive_error \<Rightarrow> worker_outcome" where
  "storage_failure say_store e = (case e of
     Artifact_Refused a \<Rightarrow> worker_failure (error_text a) (retryable a) ''artifact_storage_error''
   | Store_Failed c \<Rightarrow> worker_failure (say_store c) True ''artifact_storage_error'')"

text \<open>An operating system error is caught like a refused artifact; other errors of the store are not.\<close>

definition caught :: "receive_error \<Rightarrow> bool" where
  "caught e = (case e of Artifact_Refused a \<Rightarrow> True | Store_Failed c \<Rightarrow> c = File_Not_Found)"

definition settle_result ::
    "(bytes \<Rightarrow> string) \<Rightarrow> (json \<Rightarrow> string) \<Rightarrow> (cas_error \<Rightarrow> string) \<Rightarrow> (stamp \<Rightarrow> string) \<Rightarrow> (string \<Rightarrow> string option) \<Rightarrow> (string \<Rightarrow> int option)
     \<Rightarrow> stamp \<Rightarrow> stamp \<Rightarrow> stamp \<Rightarrow> nat \<Rightarrow> string \<times> string \<Rightarrow> (string \<times> json) list \<Rightarrow> json \<Rightarrow> worker_outcome \<Rightarrow> string \<Rightarrow> gateway \<Rightarrow> gateway \<times> reply" where
  "settle_result sha rp say_store clock_text hostname http_time t1 t2 t3 i who payload result out run g =
     (if wo_ok out \<and> get payload ''kind'' = JText ''download_url'' then
        (case receive_work_artifact sha rp clock_text t1 t2 i (dict_of result) (fst who) (snd who) (gw_work g, gw_cas g) of
           ((w, c), Inr accepted) \<Rightarrow> (g\<lparr>gw_work := w, gw_cas := c\<rparr>, if accepted then Artifact_Ready else lost_lease)
         | ((w, c), Inl e) \<Rightarrow>
             if caught e then record_failure rp hostname http_time t3 i who payload result (storage_failure say_store e) run (g\<lparr>gw_work := w, gw_cas := c\<rparr>)
             else (g\<lparr>gw_work := w, gw_cas := c\<rparr>, Crashed))
      else if wo_ok out then
        (case work_finish t3 i (with_outcome out (base_result result)) (Some who) (items (gw_work g)) of
           (t, True) \<Rightarrow> (g\<lparr>gw_work := (gw_work g)\<lparr>items := t\<rparr>\<rparr>, Accepted)
         | (t, False) \<Rightarrow> (g\<lparr>gw_work := (gw_work g)\<lparr>items := t\<rparr>\<rparr>, lost_lease))
      else record_failure rp hostname http_time t3 i who payload result out run g)"

definition work_result ::
    "(bytes \<Rightarrow> string) \<Rightarrow> (json \<Rightarrow> string) \<Rightarrow> (string \<Rightarrow> (string \<Rightarrow> bool) option) \<Rightarrow> (policy_error \<Rightarrow> string) \<Rightarrow> (cas_error \<Rightarrow> string) \<Rightarrow> (stamp \<Rightarrow> string)
     \<Rightarrow> (string \<Rightarrow> string option) \<Rightarrow> (string \<Rightarrow> string option) \<Rightarrow> (string \<Rightarrow> int option) \<Rightarrow> (string \<Rightarrow> int option) \<Rightarrow> string \<Rightarrow> stamp \<Rightarrow> stamp \<Rightarrow> stamp
     \<Rightarrow> (string \<times> json) list \<Rightarrow> gateway \<Rightarrow> gateway \<times> reply" where
  "work_result sha rp rs say say_store clock_text url_host hostname http_date http_time auth t1 t2 t3 data g =
     (let i = nat (parse_int rp (get data ''id'') 0 None None); worker = text_or_empty rp (get data ''worker_id'');
          token = text_or_empty rp (get data ''lease_token'')
      in case identified auth worker g of
           None \<Rightarrow> (g, Refused 403 ''worker identity mismatch'')
         | Some w \<Rightarrow>
             if token = '''' then (g, Refused 400 ''lease token required'')
             else
               let work = select_one (\<lambda>r. wk_id r = i) (items (gw_work g));
                   payload = (case work of None \<Rightarrow> [] | Some r \<Rightarrow> dict_of (wk_payload r));
                   run = (case work of None \<Rightarrow> '''' | Some r \<Rightarrow> wk_run r)
               in settle_result sha rp say_store clock_text hostname http_time t1 t2 t3 i (worker, sha token) payload (get data ''result'')
                    (judged sha rp rs say url_host http_date payload data) run g)"

end
