(* ===== verification/Py_Url.thy ===== *)
theory Py_Url
  imports Recon_Prelude
begin

text \<open>
  The URL functions of Python's \<open>urllib.parse\<close> that the sources call: \<open>urlsplit\<close> with the host and the port of
  its result, \<open>urlunsplit\<close>, \<open>urljoin\<close>, \<open>unquote\<close>, \<open>quote\<close>, \<open>parse_qsl\<close> and \<open>urlencode\<close>.

  A URL is text of code points below 256.  Unquoting may leave that range, so unquoted text is a list of code points.
  \<open>ip6\<close> says which texts the module \<open>ipaddress\<close> reads as IPv6 addresses.  \<open>None\<close> is a \<open>ValueError\<close>.
\<close>

section \<open>Splitting\<close>

record split_url =
  u_scheme :: string
  u_netloc :: string
  u_path :: string
  u_query :: string
  u_fragment :: string

text \<open>The two ends of \<open>s.partition(d)\<close>, and the last part of \<open>s.rpartition(d)\<close>.\<close>

definition before_char :: "char \<Rightarrow> string \<Rightarrow> string" where
  "before_char d s = takeWhile (\<lambda>c. c \<noteq> d) s"

definition after_char :: "char \<Rightarrow> string \<Rightarrow> string" where
  "after_char d s = tl (dropWhile (\<lambda>c. c \<noteq> d) s)"

definition after_last :: "char \<Rightarrow> string \<Rightarrow> string" where
  "after_last d s = rev (takeWhile (\<lambda>c. c \<noteq> d) (rev s))"

definition scheme_char :: "char \<Rightarrow> bool" where
  "scheme_char c \<longleftrightarrow> py_alpha c \<or> py_digit c \<or> c \<in> set ''+-.''"

definition unsafe_url_char :: "char \<Rightarrow> bool" where
  "unsafe_url_char c \<longleftrightarrow> code c = 9 \<or> code c = 10 \<or> code c = 13"

definition netloc_end :: "char \<Rightarrow> bool" where
  "netloc_end c \<longleftrightarrow> c \<in> set ''/?#''"

definition hex_value :: "char \<Rightarrow> nat option" where
  "hex_value c =
     (if py_digit c then Some (code c - 48) else if 97 \<le> code c \<and> code c \<le> 102 then Some (code c - 87)
      else if 65 \<le> code c \<and> code c \<le> 70 then Some (code c - 55) else None)"

definition bracketed_host_ok :: "(string \<Rightarrow> bool) \<Rightarrow> string \<Rightarrow> bool" where
  "bracketed_host_ok ip6 h =
     (case h of
        [] \<Rightarrow> ip6 h
      | c # cs \<Rightarrow>
          if c = CHR ''v'' then
            (let digits = takeWhile (\<lambda>c. hex_value c \<noteq> None) cs; rest = dropWhile (\<lambda>c. hex_value c \<noteq> None) cs
             in digits \<noteq> [] \<and> length rest > 1 \<and> hd rest = CHR ''.'')
          else ip6 h)"

definition bracketed_netloc_ok :: "(string \<Rightarrow> bool) \<Rightarrow> string \<Rightarrow> bool" where
  "bracketed_netloc_ok ip6 netloc =
     (let hp = after_last (CHR ''@'') netloc
      in if CHR ''['' \<in> set hp then
           (let bracketed = after_char (CHR ''['') hp; port = after_char (CHR '']'') bracketed
            in before_char (CHR ''['') hp = [] \<and> (port = [] \<or> hd port = CHR '':'')
               \<and> bracketed_host_ok ip6 (before_char (CHR '']'') bracketed))
         else bracketed_host_ok ip6 (before_char (CHR '':'') hp))"

definition split_scheme :: "string \<Rightarrow> string \<times> string" where
  "split_scheme url =
     (let s = before_char (CHR '':'') url
      in if CHR '':'' \<in> set url \<and> s \<noteq> [] \<and> py_alpha (hd s) \<and> list_all scheme_char s
         then (py_lower s, after_char (CHR '':'') url) else ([], url))"

definition split_netloc :: "string \<Rightarrow> string \<times> string" where
  "split_netloc url =
     (if startswith url ''//'' then (takeWhile (\<lambda>c. \<not> netloc_end c) (drop 2 url), dropWhile (\<lambda>c. \<not> netloc_end c) (drop 2 url))
      else ([], url))"

definition urlsplit :: "(string \<Rightarrow> bool) \<Rightarrow> string \<Rightarrow> split_url option" where
  "urlsplit ip6 value =
     (let url = filter (\<lambda>c. \<not> unsafe_url_char c) (dropWhile (\<lambda>c. code c \<le> 32) value)
      in case split_scheme url of (scheme, rest) \<Rightarrow>
        (case split_netloc rest of (netloc, rest) \<Rightarrow>
           if (CHR ''['' \<in> set netloc) \<noteq> (CHR '']'' \<in> set netloc) then None
           else if CHR ''['' \<in> set netloc \<and> \<not> bracketed_netloc_ok ip6 netloc then None
           else let front = before_char (CHR ''#'') rest
             in Some \<lparr>u_scheme = scheme, u_netloc = netloc, u_path = before_char (CHR ''?'') front, u_query = after_char (CHR ''?'') front,
                  u_fragment = after_char (CHR ''#'') rest\<rparr>))"

section \<open>Host and port\<close>

definition host_info :: "string \<Rightarrow> string \<times> string" where
  "host_info netloc =
     (let hp = after_last (CHR ''@'') netloc
      in if CHR ''['' \<in> set hp then
           (let bracketed = after_char (CHR ''['') hp
            in (before_char (CHR '']'') bracketed, after_char (CHR '':'') (after_char (CHR '']'') bracketed)))
         else (before_char (CHR '':'') hp, after_char (CHR '':'') hp))"

text \<open>The zone of a scoped address keeps its case.  \<open>\<open>None\<close>\<close> of the host is the empty text here: callers write \<open>hostname or ''''\<close>.\<close>

definition hostname_of :: "split_url \<Rightarrow> string" where
  "hostname_of u =
     (let h = fst (host_info (u_netloc u))
      in py_lower (before_char (CHR ''%'') h) @ dropWhile (\<lambda>c. c \<noteq> CHR ''%'') h)"

definition port_of :: "split_url \<Rightarrow> nat option option" where
  "port_of u =
     (let p = snd (host_info (u_netloc u))
      in if p = [] then Some None
         else if py_isdigit p \<and> int (dec_val p) \<le> 65535 then Some (Some (dec_val p)) else None)"

section \<open>Joining the parts\<close>

definition uses_netloc :: "string list" where
  "uses_netloc = ['''', ''ftp'', ''http'', ''gopher'', ''nntp'', ''telnet'', ''imap'', ''wais'', ''file'', ''mms'', ''https'', ''shttp'',
     ''snews'', ''prospero'', ''rtsp'', ''rtsps'', ''rtspu'', ''rsync'', ''svn'', ''svn+ssh'', ''sftp'', ''nfs'', ''git'', ''git+ssh'',
     ''ws'', ''wss'', ''itms-services'']"

definition urlunsplit :: "split_url \<Rightarrow> string" where
  "urlunsplit u =
     (let s = u_scheme u; p = u_path u;
          url = (if u_netloc u \<noteq> [] \<or> (s \<noteq> [] \<and> s \<in> set uses_netloc \<and> \<not> startswith p ''//'')
                 then ''//'' @ u_netloc u @ (if p \<noteq> [] \<and> hd p \<noteq> CHR ''/'' then CHR ''/'' # p else p) else p);
          url = (if s \<noteq> [] then s @ '':'' @ url else url);
          url = (if u_query u \<noteq> [] then url @ ''?'' @ u_query u else url)
      in if u_fragment u \<noteq> [] then url @ ''#'' @ u_fragment u else url)"

section \<open>Resolving a relative reference\<close>

definition uses_relative :: "string list" where
  "uses_relative = ['''', ''ftp'', ''http'', ''gopher'', ''nntp'', ''imap'', ''wais'', ''file'', ''https'', ''shttp'', ''mms'',
     ''prospero'', ''rtsp'', ''rtsps'', ''rtspu'', ''sftp'', ''svn'', ''svn+ssh'', ''ws'', ''wss'']"

definition uses_params :: "string list" where
  "uses_params = ['''', ''ftp'', ''hdl'', ''prospero'', ''http'', ''imap'', ''https'', ''shttp'', ''rtsp'', ''rtsps'', ''rtspu'', ''sip'',
     ''sips'', ''mms'', ''sftp'', ''tel'']"

text \<open>\<open>urlparse\<close>: the parameters are what follows the first semicolon of the last segment.\<close>

definition split_params :: "string \<Rightarrow> string \<Rightarrow> string \<times> string" where
  "split_params scheme path =
     (let segment = after_last (CHR ''/'') path; front = take (length path - length segment) path
      in if scheme \<in> set uses_params \<and> CHR '';'' \<in> set segment
         then (front @ before_char (CHR '';'') segment, after_char (CHR '';'') segment) else (path, []))"

definition urlunparse :: "split_url \<Rightarrow> string \<Rightarrow> string" where
  "urlunparse u params = urlunsplit (if params = [] then u else u\<lparr>u_path := u_path u @ '';'' @ params\<rparr>)"

definition walk_segment :: "string list \<Rightarrow> string \<Rightarrow> string list" where
  "walk_segment acc seg = (if seg = ''..'' then butlast acc else if seg = ''.'' then acc else acc @ [seg])"

definition drop_inner_empty :: "string list \<Rightarrow> string list" where
  "drop_inner_empty segs =
     (case segs of
        [] \<Rightarrow> []
      | [a] \<Rightarrow> [a]
      | a # rest \<Rightarrow> a # filter (\<lambda>s. s \<noteq> []) (butlast rest) @ [List.last rest])"

definition resolve_path :: "string \<Rightarrow> string \<Rightarrow> string" where
  "resolve_path base path =
     (let parts = split_on (CHR ''/'') base;
          parts = (if List.last parts \<noteq> [] then butlast parts else parts);
          segs = (if startswith path ''/'' then split_on (CHR ''/'') path
                  else drop_inner_empty (parts @ split_on (CHR ''/'') path));
          walked = foldl walk_segment [] segs @ (if List.last segs = ''.'' \<or> List.last segs = ''..'' then [[]] else []);
          joined = py_join ''/'' walked
      in if joined = [] then ''/'' else joined)"

definition urljoin :: "(string \<Rightarrow> bool) \<Rightarrow> string \<Rightarrow> string \<Rightarrow> string option" where
  "urljoin ip6 base url =
     (if base = [] then Some url else if url = [] then Some base
      else case (urlsplit ip6 base, urlsplit ip6 url) of
        (Some b, Some u) \<Rightarrow>
          (let scheme = (if u_scheme u = [] then u_scheme b else u_scheme u);
               (bpath, bparams) = split_params (u_scheme b) (u_path b);
               (path, params) = split_params scheme (u_path u)
           in if scheme \<noteq> u_scheme b \<or> scheme \<notin> set uses_relative then Some url
              else if scheme \<in> set uses_netloc \<and> u_netloc u \<noteq> []
              then Some (urlunparse (u\<lparr>u_scheme := scheme, u_path := path\<rparr>) params)
              else let netloc = (if scheme \<in> set uses_netloc then u_netloc b else u_netloc u)
                in if path = [] \<and> params = []
                   then Some (urlunparse (u\<lparr>u_scheme := scheme, u_netloc := netloc, u_path := bpath,
                     u_query := (if u_query u = [] then u_query b else u_query u)\<rparr>) bparams)
                   else Some (urlunparse (u\<lparr>u_scheme := scheme, u_netloc := netloc, u_path := resolve_path bpath path\<rparr>) params))
      | _ \<Rightarrow> None)"

section \<open>UTF-8\<close>

definition utf8_char :: "nat \<Rightarrow> nat list" where
  "utf8_char n =
     (if n < 128 then [n]
      else if n < 2048 then [192 + n div 64, 128 + n mod 64]
      else if n < 65536 then [224 + n div 4096, 128 + n div 64 mod 64, 128 + n mod 64]
      else [240 + n div 262144, 128 + n div 4096 mod 64, 128 + n div 64 mod 64, 128 + n mod 64])"

definition utf8_encode :: "nat list \<Rightarrow> nat list" where
  "utf8_encode s = concat (map utf8_char s)"

definition continues :: "nat \<Rightarrow> bool" where
  "continues b \<longleftrightarrow> 128 \<le> b \<and> b < 192"

text \<open>Which second bytes a leading byte admits.\<close>

definition second_ok :: "nat \<Rightarrow> nat \<Rightarrow> bool" where
  "second_ok b c \<longleftrightarrow> continues c \<and> (b = 224 \<longrightarrow> 160 \<le> c) \<and> (b = 237 \<longrightarrow> c < 160) \<and> (b = 240 \<longrightarrow> 144 \<le> c) \<and> (b = 244 \<longrightarrow> c < 144)"

definition width :: "nat \<Rightarrow> nat" where
  "width b = (if 194 \<le> b \<and> b < 224 then 1 else if 224 \<le> b \<and> b < 240 then 2 else if 240 \<le> b \<and> b < 245 then 3 else 0)"

text \<open>Decoding with \<open>errors="replace"\<close>: a longest valid beginning of a sequence that breaks off is one U+FFFD.\<close>

fun utf8_decode :: "nat list \<Rightarrow> nat list" where
  "utf8_decode [] = []"
| "utf8_decode (b # bs) =
     (if b < 128 then b # utf8_decode bs
      else if width b = 0 then 65533 # utf8_decode bs
      else case bs of
        [] \<Rightarrow> [65533]
      | c # cs \<Rightarrow>
          if \<not> second_ok b c then 65533 # utf8_decode (c # cs)
          else if width b = 1 then ((b - 192) * 64 + (c - 128)) # utf8_decode cs
          else (case cs of
              [] \<Rightarrow> [65533]
            | d # ds \<Rightarrow>
                if \<not> continues d then 65533 # utf8_decode (d # ds)
                else if width b = 2 then ((b - 224) * 4096 + (c - 128) * 64 + (d - 128)) # utf8_decode ds
                else (case ds of
                    [] \<Rightarrow> [65533]
                  | e # es \<Rightarrow>
                      if \<not> continues e then 65533 # utf8_decode (e # es)
                      else ((b - 240) * 262144 + (c - 128) * 4096 + (d - 128) * 64 + (e - 128)) # utf8_decode es)))"

section \<open>Percent encoding\<close>

definition escaped :: "string \<Rightarrow> nat option" where
  "escaped s = (case s of a # b # _ \<Rightarrow>
     (case (hex_value a, hex_value b) of (Some x, Some y) \<Rightarrow> Some (16 * x + y) | _ \<Rightarrow> None) | _ \<Rightarrow> None)"

fun url_unescape :: "string \<Rightarrow> nat list" where
  "url_unescape [] = []"
| "url_unescape (c # s) =
     (case if c = CHR ''%'' then escaped s else None of
        Some n \<Rightarrow> n # url_unescape (drop 2 s)
      | None \<Rightarrow> code c # url_unescape s)"

definition ascii :: "char \<Rightarrow> bool" where
  "ascii c \<longleftrightarrow> code c < 128"

function unquote :: "string \<Rightarrow> nat list" where
  "unquote [] = []"
| "unquote (c # s) =
     (if ascii c then utf8_decode (url_unescape (takeWhile ascii (c # s))) @ unquote (dropWhile ascii (c # s))
      else code c # unquote s)"
  by pat_completeness auto
termination by (relation "measure length") (auto simp: le_imp_less_Suc length_dropWhile_le)

declare unquote.simps(2) [simp del]

definition always_safe :: "char \<Rightarrow> bool" where
  "always_safe c \<longleftrightarrow> py_alpha c \<or> py_digit c \<or> c \<in> set ''_.-~''"

definition hex_digit :: "nat \<Rightarrow> char" where
  "hex_digit n = ''0123456789ABCDEF'' ! n"

definition quote_byte :: "string \<Rightarrow> nat \<Rightarrow> string" where
  "quote_byte safe b =
     (if b < 128 \<and> (always_safe (char_of b) \<or> char_of b \<in> set safe) then [char_of b]
      else [CHR ''%'', hex_digit (b div 16), hex_digit (b mod 16)])"

definition url_quote :: "string \<Rightarrow> nat list \<Rightarrow> string" where
  "url_quote safe s = concat (map (quote_byte safe) (utf8_encode s))"

definition quote_plus :: "nat list \<Rightarrow> string" where
  "quote_plus s = (if 32 \<in> set s then map (\<lambda>c. if c = CHR '' '' then CHR ''+'' else c) (url_quote '' '' s) else url_quote [] s)"

section \<open>Queries\<close>

definition unquote_plus :: "string \<Rightarrow> nat list" where
  "unquote_plus s = unquote (map (\<lambda>c. if c = CHR ''+'' then CHR '' '' else c) s)"

definition parse_qsl :: "string \<Rightarrow> (nat list \<times> nat list) list" where
  "parse_qsl qs = map (\<lambda>nv. (unquote_plus (before_char (CHR ''='') nv), unquote_plus (after_char (CHR ''='') nv)))
     (filter (\<lambda>nv. nv \<noteq> []) (split_on (CHR ''&'') qs))"

definition urlencode :: "(nat list \<times> nat list) list \<Rightarrow> string" where
  "urlencode pairs = py_join ''&'' (map (\<lambda>(k, v). quote_plus k @ ''='' @ quote_plus v) pairs)"


section \<open>Splitting what was joined\<close>

lemma before_append: "d \<notin> set s \<Longrightarrow> before_char d (s @ d # t) = s"
  by (induction s) (auto simp: before_char_def)

lemma after_append: "d \<notin> set s \<Longrightarrow> after_char d (s @ d # t) = t"
  by (induction s) (auto simp: after_char_def)

lemma before_none: "d \<notin> set s \<Longrightarrow> before_char d s = s"
  by (induction s) (auto simp: before_char_def)

lemma after_none: "d \<notin> set s \<Longrightarrow> after_char d s = []"
  by (induction s) (auto simp: after_char_def)

lemma after_last_none: "d \<notin> set s \<Longrightarrow> after_last d s = s"
  using before_none[of d "rev s"] by (simp only: after_last_def before_char_def set_rev rev_rev_ident simp_thms)

lemma set_after_last: "d \<notin> set (after_last d s)" "set (after_last d s) \<subseteq> set s"
  by (auto simp: after_last_def dest: set_takeWhileD)

lemma set_before: "d \<notin> set (before_char d s)" "set (before_char d s) \<subseteq> set s"
  by (auto simp: before_char_def dest: set_takeWhileD)

lemma set_after: "set (after_char d s) \<subseteq> set s"
  by (metis after_char_def list.set_sel(2) set_dropWhileD subsetI tl_Nil)

text \<open>Parts that \<open>urlunsplit\<close> writes as they are and \<open>urlsplit\<close> reads back.\<close>

definition clean_text :: "string \<Rightarrow> string \<Rightarrow> bool" where
  "clean_text bad s \<longleftrightarrow> list_all (\<lambda>c. \<not> unsafe_url_char c \<and> c \<notin> set bad) s"

definition plain_parts :: "split_url \<Rightarrow> bool" where
  "plain_parts u \<longleftrightarrow> u_scheme u \<in> {''http'', ''https''} \<and> clean_text ''/?#[]'' (u_netloc u) \<and> clean_text ''?#'' (u_path u)
     \<and> startswith (u_path u) ''/'' \<and> (u_netloc u \<noteq> [] \<or> \<not> startswith (u_path u) ''//'') \<and> clean_text ''#'' (u_query u) \<and> clean_text [] (u_fragment u)"

lemma clean_notin: "clean_text bad s \<Longrightarrow> d \<in> set bad \<Longrightarrow> d \<notin> set s"
  by (auto simp: clean_text_def list_all_iff)

lemma clean_filter: "clean_text bad s \<Longrightarrow> filter (\<lambda>c. \<not> unsafe_url_char c) s = s"
  by (auto simp: clean_text_def list_all_iff filter_id_conv)

lemma split_scheme_http:
  "split_scheme (''http:'' @ s) = (''http'', s)" "split_scheme (''https:'' @ s) = (''https'', s)"
  by (simp_all add: split_scheme_def before_char_def after_char_def scheme_char_def py_alpha_def py_lower_def lower_char_def code_def Let_def)

definition opt_tail :: "char \<Rightarrow> string \<Rightarrow> string" where
  "opt_tail d t = (if t = [] then [] else d # t)"

lemma opt_tail_parts: "d \<notin> set s \<Longrightarrow> before_char d (s @ opt_tail d t) = s" "d \<notin> set s \<Longrightarrow> after_char d (s @ opt_tail d t) = t"
  by (simp_all add: opt_tail_def before_append after_append before_none after_none)

lemma opt_tail_set: "c \<in> set (opt_tail d t) \<Longrightarrow> c = d \<or> c \<in> set t"
  by (auto simp: opt_tail_def split: if_splits)

lemma unsplit_plain:
  assumes "plain_parts u"
  shows "urlunsplit u = u_scheme u @ '':'' @ ''//'' @ u_netloc u @ u_path u @ opt_tail (CHR ''?'') (u_query u) @ opt_tail (CHR ''#'') (u_fragment u)"
proof -
  have "u_path u \<noteq> [] \<and> hd (u_path u) = CHR ''/''" using assms by (cases "u_path u") (auto simp: plain_parts_def startswith_def)
  moreover have "u_scheme u \<noteq> [] \<and> u_scheme u \<in> set uses_netloc" using assms by (auto simp: plain_parts_def uses_netloc_def)
  moreover have "u_netloc u \<noteq> [] \<or> \<not> startswith (u_path u) ''//''" using assms by (simp add: plain_parts_def)
  ultimately show ?thesis by (auto simp: urlunsplit_def opt_tail_def Let_def)
qed

lemma clean_append: "clean_text bad (s @ t) \<longleftrightarrow> clean_text bad s \<and> clean_text bad t"
  by (simp add: clean_text_def)

lemma clean_mono: "clean_text bad s \<Longrightarrow> clean_text [] s"
  by (simp add: clean_text_def list_all_iff)

lemma clean_tail: "clean_text bad t \<Longrightarrow> \<not> unsafe_url_char d \<Longrightarrow> clean_text [] (opt_tail d t)"
  by (simp add: opt_tail_def clean_text_def list_all_iff)

lemma plain_netloc:
  assumes "plain_parts u"
  shows "split_netloc (''//'' @ u_netloc u @ u_path u @ rest) = (u_netloc u, u_path u @ rest)"
proof -
  have all: "\<forall>c \<in> set (u_netloc u). \<not> netloc_end c" using assms by (auto simp: plain_parts_def clean_text_def list_all_iff netloc_end_def)
  obtain t where "u_path u = CHR ''/'' # t" using assms by (cases "u_path u") (auto simp: plain_parts_def startswith_def)
  with all show ?thesis by (simp add: split_netloc_def startswith_def takeWhile_append2 dropWhile_append2 netloc_end_def)
qed

theorem split_after_join:
  assumes "plain_parts u"
  shows "urlsplit ip6 (urlunsplit u) = Some u"
proof -
  let ?front = "u_path u @ opt_tail (CHR ''?'') (u_query u)"
  let ?rest = "?front @ opt_tail (CHR ''#'') (u_fragment u)"
  let ?url = "u_scheme u @ '':'' @ ''//'' @ u_netloc u @ ?rest"
  have url: "urlunsplit u = ?url" using unsplit_plain[OF assms] by (simp only: append_assoc)
  have s: "u_scheme u = ''http'' \<or> u_scheme u = ''https''" using assms by (simp add: plain_parts_def)
  have n: "clean_text ''/?#[]'' (u_netloc u)" and p: "clean_text ''?#'' (u_path u)" and q: "clean_text ''#'' (u_query u)" and f: "clean_text [] (u_fragment u)"
    using assms by (simp_all add: plain_parts_def)
  have unsafe: "\<not> unsafe_url_char (CHR ''?'')" "\<not> unsafe_url_char (CHR ''#'')" "clean_text [] '':''" "clean_text [] ''//''"
    by (simp_all add: clean_text_def unsafe_url_char_def code_def)
  have "clean_text [] (u_scheme u)" using s by (auto simp: clean_text_def unsafe_url_char_def code_def)
  then have "clean_text [] ?url"
    unfolding clean_append using unsafe clean_mono[OF n] clean_mono[OF p] clean_tail[OF q unsafe(1)] clean_tail[OF f unsafe(2)] by simp
  then have 1: "filter (\<lambda>c. \<not> unsafe_url_char c) ?url = ?url" by (rule clean_filter)
  have 2: "dropWhile (\<lambda>c. code c \<le> 32) ?url = ?url" using s by (auto simp: code_def)
  have 3: "split_scheme ?url = (u_scheme u, ''//'' @ u_netloc u @ ?rest)"
    using s split_scheme_http[of "''//'' @ u_netloc u @ ?rest"] by auto
  have 4: "split_netloc (''//'' @ u_netloc u @ ?rest) = (u_netloc u, ?rest)" using plain_netloc[OF assms] by simp
  have 5: "(CHR ''['' \<in> set (u_netloc u)) = False" "(CHR '']'' \<in> set (u_netloc u)) = False" using clean_notin[OF n] by auto
  have front: "CHR ''#'' \<notin> set ?front" using clean_notin[OF p] clean_notin[OF q] by (auto dest: opt_tail_set)
  have 6: "before_char (CHR ''#'') ?rest = ?front" "after_char (CHR ''#'') ?rest = u_fragment u" by (rule opt_tail_parts[OF front])+
  have 7: "before_char (CHR ''?'') ?front = u_path u" "after_char (CHR ''?'') ?front = u_query u"
    by (rule opt_tail_parts; use clean_notin[OF p] in simp)+
  show ?thesis unfolding url urlsplit_def Let_def 2 1 3 prod.case 4 5 6 7 by simp
qed


section \<open>Decoding what was encoded\<close>

definition scalar :: "nat \<Rightarrow> bool" where
  "scalar n \<longleftrightarrow> n < 55296 \<or> 57344 \<le> n \<and> n < 1114112"

lemma url_sextets: "n div 64 * 64 + n mod 64 = (n::nat)" "n div 4096 * 4096 + n div 64 mod 64 * 64 + n mod 64 = n"
  "n div 262144 * 262144 + n div 4096 mod 64 * 4096 + n div 64 mod 64 * 64 + n mod 64 = n"
proof -
  have a: "n div 4096 = n div 64 div 64" "n div 262144 = n div 64 div 64 div 64" by (simp_all add: div_mult2_eq[symmetric])
  have b: "m div 64 * 64 + m mod 64 = m" for m :: nat by (rule div_mult_mod_eq)
  show "n div 64 * 64 + n mod 64 = n" by (rule b)
  show "n div 4096 * 4096 + n div 64 mod 64 * 64 + n mod 64 = n" using b[of n] b[of "n div 64"] unfolding a by linarith
  show "n div 262144 * 262144 + n div 4096 mod 64 * 4096 + n div 64 mod 64 * 64 + n mod 64 = n"
    using b[of n] b[of "n div 64"] b[of "n div 64 div 64"] unfolding a by linarith
qed

lemma two_bytes: "2 \<le> a \<Longrightarrow> a < 32 \<Longrightarrow> b < 64 \<Longrightarrow> utf8_decode ((192 + a) # (128 + b) # bs) = (a * 64 + b) # utf8_decode bs"
  by (simp add: width_def second_ok_def continues_def)

lemma three_bytes:
  "a < 16 \<Longrightarrow> b < 64 \<Longrightarrow> c < 64 \<Longrightarrow> (a = 0 \<Longrightarrow> 32 \<le> b) \<Longrightarrow> (a = 13 \<Longrightarrow> b < 32) \<Longrightarrow>
   utf8_decode ((224 + a) # (128 + b) # (128 + c) # bs) = (a * 4096 + b * 64 + c) # utf8_decode bs"
  by (simp add: width_def second_ok_def continues_def)

lemma four_bytes:
  "a < 5 \<Longrightarrow> b < 64 \<Longrightarrow> c < 64 \<Longrightarrow> d < 64 \<Longrightarrow> (a = 0 \<Longrightarrow> 16 \<le> b) \<Longrightarrow> (a = 4 \<Longrightarrow> b < 16) \<Longrightarrow>
   utf8_decode ((240 + a) # (128 + b) # (128 + c) # (128 + d) # bs) = (a * 262144 + b * 4096 + c * 64 + d) # utf8_decode bs"
  by (simp add: width_def second_ok_def continues_def)

lemma utf8_two: "128 \<le> n \<Longrightarrow> n < 2048 \<Longrightarrow> utf8_decode (utf8_char n @ bs) = n # utf8_decode bs"
proof -
  assume n: "128 \<le> n" "n < 2048"
  then have "2 \<le> n div 64" "n div 64 < 32" by (simp_all add: less_eq_div_iff_mult_less_eq less_mult_imp_div_less)
  from two_bytes[OF this, of "n mod 64" bs] n show ?thesis by (simp add: utf8_char_def url_sextets)
qed

lemma utf8_three:
  assumes "2048 \<le> n" "n < 65536" "scalar n"
  shows "utf8_decode (utf8_char n @ bs) = n # utf8_decode bs"
proof -
  let ?a = "n div 4096" and ?b = "n div 64 mod 64" and ?c = "n mod 64"
  have r: "?a < 16" "?b < 64" "?c < 64" using assms(2) by (simp_all add: less_mult_imp_div_less)
  note eq = url_sextets(2)[of n]
  have "?a = 0 \<Longrightarrow> 32 \<le> ?b" "?a = 13 \<Longrightarrow> ?b < 32" using eq r assms(1,3) unfolding scalar_def by linarith+
  from three_bytes[OF r this] eq assms(1,2) show ?thesis by (simp add: utf8_char_def)
qed

lemma utf8_four:
  assumes "65536 \<le> n" "scalar n"
  shows "utf8_decode (utf8_char n @ bs) = n # utf8_decode bs"
proof -
  let ?a = "n div 262144" and ?b = "n div 4096 mod 64" and ?c = "n div 64 mod 64" and ?d = "n mod 64"
  have lim: "n < 1114112" using assms by (simp add: scalar_def)
  then have r: "?a < 5" "?b < 64" "?c < 64" "?d < 64" by (simp_all add: less_mult_imp_div_less)
  note eq = url_sextets(3)[of n]
  have "?a = 0 \<Longrightarrow> 16 \<le> ?b" "?a = 4 \<Longrightarrow> ?b < 16" using eq r assms(1) lim by linarith+
  from four_bytes[OF r this] eq assms(1) show ?thesis by (simp add: utf8_char_def)
qed

lemma utf8_char_decode: "scalar n \<Longrightarrow> utf8_decode (utf8_char n @ bs) = n # utf8_decode bs"
  using utf8_two[of n bs] utf8_three[of n bs] utf8_four[of n bs] by (cases "n < 128") (auto simp: utf8_char_def not_less)

theorem utf8_round_trip: "list_all scalar s \<Longrightarrow> utf8_decode (utf8_encode s) = s"
  by (induction s) (simp_all add: utf8_encode_def utf8_char_decode)

lemma utf8_char_bytes: "scalar n \<Longrightarrow> b \<in> set (utf8_char n) \<Longrightarrow> b < 256"
proof -
  assume n: "scalar n" and b: "b \<in> set (utf8_char n)"
  have "m mod 64 < 64" for m :: nat by simp
  then have m: "m mod 64 < 128" for m :: nat by (rule less_trans) simp
  have "n < 2048 \<Longrightarrow> n div 64 < 32" "n < 65536 \<Longrightarrow> n div 4096 < 16" "n < 1114112 \<Longrightarrow> n div 262144 < 5" by (simp_all add: less_mult_imp_div_less)
  with n b m[of n] m[of "n div 64"] m[of "n div 4096"] show ?thesis
    unfolding utf8_char_def scalar_def by (auto split: if_splits)
qed

lemma utf8_bytes: "list_all scalar s \<Longrightarrow> b \<in> set (utf8_encode s) \<Longrightarrow> b < 256"
  by (auto simp: utf8_encode_def list_all_iff intro: utf8_char_bytes)

lemma hex_digit_value:
  assumes "n < 16"
  shows "hex_value (hex_digit n) = Some n" "always_safe (hex_digit n)"
proof -
  have "list_all (\<lambda>n. hex_value (hex_digit n) = Some n \<and> always_safe (hex_digit n)) [0..<16]" by code_simp
  with assms show "hex_value (hex_digit n) = Some n" "always_safe (hex_digit n)" by (auto simp: list_all_iff)
qed

lemma safe_not_percent: "always_safe c \<Longrightarrow> c \<noteq> CHR ''%'' \<and> c \<noteq> CHR ''+'' \<and> c \<noteq> CHR ''&'' \<and> c \<noteq> CHR ''='' \<and> ascii c \<and> c \<noteq> CHR ''?'' \<and> c \<noteq> CHR ''#'' \<and> \<not> unsafe_url_char c"
  by (auto simp: always_safe_def py_alpha_def py_digit_def ascii_def unsafe_url_char_def code_def)

text \<open>The characters of quoted text.\<close>

lemma nibbles: "b < 256 \<Longrightarrow> b div 16 < 16 \<and> b mod 16 < (16::nat)"
  by (simp add: less_mult_imp_div_less)

lemma quote_byte_chars:
  assumes "c \<in> set (quote_byte safe b)" "b < 256"
  shows "always_safe c \<or> c \<in> set safe \<or> c = CHR ''%''"
  using assms(1) hex_digit_value(2)[OF conjunct1[OF nibbles[OF assms(2)]]] hex_digit_value(2)[OF conjunct2[OF nibbles[OF assms(2)]]]
  unfolding quote_byte_def by (auto split: if_splits)

lemma quote_chars: "list_all scalar s \<Longrightarrow> c \<in> set (url_quote safe s) \<Longrightarrow> always_safe c \<or> c \<in> set safe \<or> c = CHR ''%''"
  using quote_byte_chars utf8_bytes by (fastforce simp: url_quote_def)

definition safe_list :: "string \<Rightarrow> bool" where
  "safe_list safe \<longleftrightarrow> list_all (\<lambda>c. ascii c \<and> c \<noteq> CHR ''%'') safe"

lemma unescape_quote:
  assumes "safe_list safe" "\<forall>b \<in> set bs. b < 256"
  shows "url_unescape (concat (map (quote_byte safe) bs)) = bs"
  using assms(2)
proof (induction bs)
  case (Cons b bs)
  have plain: "char_of b \<noteq> CHR ''%''" if "always_safe (char_of b) \<or> char_of b \<in> set safe"
    using that safe_not_percent[of "char_of b"] assms(1) by (auto simp: safe_list_def list_all_iff)
  have b: "b < 256" using Cons.prems by simp
  have IH: "url_unescape (concat (map (quote_byte safe) bs)) = bs" using Cons by simp
  show ?case
  proof (cases "b < 128 \<and> (always_safe (char_of b) \<or> char_of b \<in> set safe)")
    case True
    then have "quote_byte safe b = [char_of b]" by (simp add: quote_byte_def)
    with plain True IH b show ?thesis by simp
  next
    case False
    then have q: "quote_byte safe b = [CHR ''%'', hex_digit (b div 16), hex_digit (b mod 16)]" unfolding quote_byte_def by (rule if_not_P)
    have "16 * (b div 16) + b mod 16 = b" by simp
    then have "escaped (hex_digit (b div 16) # hex_digit (b mod 16) # s) = Some b" for s
      using hex_digit_value(1)[OF conjunct1[OF nibbles[OF b]]] hex_digit_value(1)[OF conjunct2[OF nibbles[OF b]]] by (simp add: escaped_def)
    with q IH show ?thesis by simp
  qed
qed simp

lemma unquote_ascii: "list_all ascii s \<Longrightarrow> unquote s = utf8_decode (url_unescape s)"
proof (cases s)
  case (Cons c cs)
  assume a: "list_all ascii s"
  have t: "takeWhile ascii (c # cs) = c # cs" and d: "dropWhile ascii (c # cs) = []" and c: "ascii c"
    using a by (simp_all only: Cons list_all_iff takeWhile_eq_all_conv dropWhile_eq_Nil_conv list.set_intros simp_thms)
  show ?thesis unfolding Cons unquote.simps(2) t d if_P[OF c] by simp
qed simp

lemma quote_ascii: "list_all scalar s \<Longrightarrow> safe_list safe \<Longrightarrow> list_all ascii (url_quote safe s)"
proof -
  assume s: "list_all scalar s" and safe: "safe_list safe"
  have "ascii c" if "c \<in> set (url_quote safe s)" for c
    using quote_chars[OF s that]
  proof (elim disjE)
    assume "always_safe c"
    then show ?thesis by (blast dest: safe_not_percent)
  next
    assume "c \<in> set safe"
    with safe show ?thesis by (simp add: safe_list_def list_all_iff)
  qed (simp add: ascii_def code_def)
  then show ?thesis by (simp only: list_all_iff) blast
qed

theorem unquote_quote: "list_all scalar s \<Longrightarrow> safe_list safe \<Longrightarrow> unquote (url_quote safe s) = s"
proof -
  assume s: "list_all scalar s" and safe: "safe_list safe"
  have "url_unescape (url_quote safe s) = utf8_encode s" unfolding url_quote_def by (rule unescape_quote[OF safe]) (use utf8_bytes[OF s] in blast)
  then show ?thesis by (simp only: unquote_ascii[OF quote_ascii[OF s safe]] utf8_round_trip[OF s])
qed


lemma quote_plus_chars:
  assumes "list_all scalar s" "c \<in> set (quote_plus s)"
  shows "always_safe c \<or> c = CHR ''+'' \<or> c = CHR ''%''"
proof (cases "32 \<in> set s")
  case True
  then obtain d where "d \<in> set (url_quote '' '' s)" "c = (if d = CHR '' '' then CHR ''+'' else d)"
    using assms(2) by (auto simp: quote_plus_def)
  with quote_chars[OF assms(1), of d "'' ''"] show ?thesis by (auto split: if_splits)
next
  case False
  with assms quote_chars[OF assms(1), of c "[]"] show ?thesis by (auto simp: quote_plus_def)
qed

lemma plus_back: "CHR ''+'' \<notin> set t \<Longrightarrow> map (\<lambda>c. if c = CHR ''+'' then CHR '' '' else c) (map (\<lambda>c. if c = CHR '' '' then CHR ''+'' else c) t) = t"
  by (induction t) auto

theorem unquote_quote_plus: "list_all scalar s \<Longrightarrow> unquote_plus (quote_plus s) = s"
proof -
  assume s: "list_all scalar s"
  have safe: "safe_list '' ''" "safe_list []" by (simp_all add: safe_list_def ascii_def code_def)
  have plus: "CHR ''+'' \<notin> set (url_quote safe s)" if "CHR ''+'' \<notin> set safe" for safe
    using quote_chars[OF s, of "CHR ''+''" safe] that safe_not_percent by blast
  show ?thesis
  proof (cases "32 \<in> set s")
    case True
    have "unquote_plus (quote_plus s) = unquote (url_quote '' '' s)"
      unfolding unquote_plus_def quote_plus_def if_P[OF True] by (subst plus_back) (use plus[of "'' ''"] in simp_all)
    with unquote_quote[OF s safe(1)] show ?thesis by simp
  next
    case False
    have "map (\<lambda>c. if c = CHR ''+'' then CHR '' '' else c) (url_quote [] s) = url_quote [] s"
      using plus[of "[]"] by (intro map_idI) auto
    with False unquote_quote[OF s safe(2)] show ?thesis by (simp add: unquote_plus_def quote_plus_def)
  qed
qed

definition query_field :: "nat list \<times> nat list \<Rightarrow> string" where
  "query_field kv = quote_plus (fst kv) @ ''='' @ quote_plus (snd kv)"

lemma field_back:
  assumes "list_all scalar (fst kv)" "list_all scalar (snd kv)"
  shows "before_char (CHR ''='') (query_field kv) = quote_plus (fst kv)" "after_char (CHR ''='') (query_field kv) = quote_plus (snd kv)"
    "CHR ''&'' \<notin> set (query_field kv)"
proof -
  have no: "c \<notin> set (quote_plus s)" if "list_all scalar s" "c = CHR ''='' \<or> c = CHR ''&''" for c s
    using quote_plus_chars[OF that(1), of c] that(2) safe_not_percent by blast
  show "before_char (CHR ''='') (query_field kv) = quote_plus (fst kv)" "after_char (CHR ''='') (query_field kv) = quote_plus (snd kv)"
    using no[OF assms(1)] by (simp_all add: query_field_def before_append after_append)
  show "CHR ''&'' \<notin> set (query_field kv)" using no[OF assms(1)] no[OF assms(2)] by (simp add: query_field_def)
qed

theorem parse_urlencode:
  assumes "list_all (\<lambda>(k, v). list_all scalar k \<and> list_all scalar v) pairs"
  shows "parse_qsl (urlencode pairs) = pairs"
proof (cases "pairs = []")
  case True
  then show ?thesis by (simp add: parse_qsl_def urlencode_def)
next
  case False
  have s: "list_all scalar (fst kv)" "list_all scalar (snd kv)" if "kv \<in> set pairs" for kv
    using assms that by (cases kv; auto simp: list_all_iff)+
  have enc: "urlencode pairs = py_join ''&'' (map query_field pairs)" by (simp add: urlencode_def query_field_def[abs_def] split_def)
  have "split_on (CHR ''&'') (py_join ''&'' (map query_field pairs)) = map query_field pairs"
    by (rule split_on_join) (use False field_back(3) s in auto)
  moreover have "filter (\<lambda>nv. nv \<noteq> []) (map query_field pairs) = map query_field pairs" by (simp add: filter_id_conv query_field_def)
  moreover have "map (\<lambda>nv. (unquote_plus (before_char (CHR ''='') nv), unquote_plus (after_char (CHR ''='') nv))) (map query_field pairs) = pairs"
    unfolding map_map by (rule map_idI) (simp add: field_back s unquote_quote_plus)
  ultimately show ?thesis unfolding parse_qsl_def enc by simp
qed


text \<open>Unquoting only makes Unicode scalar values.\<close>

lemma two_scalar: "width b = 1 \<Longrightarrow> second_ok b c \<Longrightarrow> scalar ((b - 192) * 64 + (c - 128))"
proof -
  assume b: "width b = 1" and c: "second_ok b c"
  have "b - 192 < 32" "c - 128 < 64" using b c by (auto simp: width_def second_ok_def continues_def split: if_splits)
  then have "(b - 192) * 64 + (c - 128) < 55296" by linarith
  then show ?thesis by (simp add: scalar_def)
qed

lemma three_range: "x < 16 \<Longrightarrow> y < 64 \<Longrightarrow> z < 64 \<Longrightarrow> (x = 13 \<Longrightarrow> y < 32) \<Longrightarrow> scalar (x * 4096 + y * 64 + z)"
  unfolding scalar_def by (cases "x \<le> 12"; cases "x = 13") linarith+

lemma width_range: "width b = 2 \<Longrightarrow> 224 \<le> b \<and> b < 240" "width b = 3 \<Longrightarrow> 240 \<le> b \<and> b < 245"
  by (simp_all add: width_def split: if_splits)

lemma continues_split: "continues d \<Longrightarrow> \<exists>z < 64. d = 128 + z"
  unfolding continues_def by presburger

lemma second_continues: "second_ok b c \<Longrightarrow> continues c"
  by (simp add: second_ok_def)

lemma three_scalar: "width b = 2 \<Longrightarrow> second_ok b c \<Longrightarrow> continues d \<Longrightarrow> scalar ((b - 224) * 4096 + (c - 128) * 64 + (d - 128))"
proof -
  assume w: "width b = 2" and s: "second_ok b c" and d: "continues d"
  obtain x where x: "b = 224 + x" "x < 16" using width_range(1)[OF w] by (intro that[of "b - 224"]) linarith+
  obtain y where y: "c = 128 + y" "y < 64" using continues_split[OF second_continues[OF s]] by blast
  obtain z where z: "d = 128 + z" "z < 64" using continues_split[OF d] by blast
  have "x = 13 \<Longrightarrow> y < 32" using s unfolding x y second_ok_def by simp
  from three_range[OF x(2) y(2) z(2) this] show ?thesis by (simp add: x y z)
qed

lemma four_range:
  assumes "x < 5" "y < 64" "z < 64" "w < 64" "x = 4 \<Longrightarrow> y < 16" "x = 0 \<Longrightarrow> 16 \<le> y"
  shows "scalar (x * 262144 + y * 4096 + z * 64 + w)"
proof -
  have "57344 \<le> x * 262144 + y * 4096 + z * 64 + w" using assms(6) by (cases "x = 0") linarith+
  moreover have "x * 262144 + y * 4096 + z * 64 + w < 1114112" using assms(1-5) by (cases "x = 4") linarith+
  ultimately show ?thesis by (simp add: scalar_def)
qed

lemma four_scalar:
  "width b = 3 \<Longrightarrow> second_ok b c \<Longrightarrow> continues d \<Longrightarrow> continues e \<Longrightarrow>
   scalar ((b - 240) * 262144 + (c - 128) * 4096 + (d - 128) * 64 + (e - 128))"
proof -
  assume w: "width b = 3" and s: "second_ok b c" and d: "continues d" and e: "continues e"
  obtain x where x: "b = 240 + x" "x < 5" using width_range(2)[OF w] by (intro that[of "b - 240"]) linarith+
  obtain y where y: "c = 128 + y" "y < 64" using continues_split[OF second_continues[OF s]] by blast
  obtain z where z: "d = 128 + z" "z < 64" using continues_split[OF d] by blast
  obtain v where v: "e = 128 + v" "v < 64" using continues_split[OF e] by blast
  have "x = 4 \<Longrightarrow> y < 16" "x = 0 \<Longrightarrow> 16 \<le> y" using s unfolding x y second_ok_def by simp_all
  from four_range[OF x(2) y(2) z(2) v(2) this] show ?thesis by (simp add: x y z v)
qed

lemma width_cases: "width b = 0 \<or> width b = 1 \<or> width b = 2 \<or> width b = 3"
  by (simp add: width_def)

lemma replacement_scalar [simp]: "scalar 65533"
  by (simp add: scalar_def)

lemma decode_scalar: "list_all scalar (utf8_decode bs)"
proof (induction bs rule: utf8_decode.induct)
  case (2 b bs)
  then show ?case
    using width_cases[of b] two_scalar[of b] three_scalar[of b] four_scalar[of b]
    by (auto simp: scalar_def[of b] split: list.split)
qed simp

lemma unquote_scalar: "list_all scalar (unquote s)"
proof (induction s rule: unquote.induct)
  case (2 c s)
  have "code c < 256" by (simp add: code_def)
  then have "scalar (code c)" unfolding scalar_def by linarith
  with 2 show ?case by (subst unquote.simps(2)) (simp add: decode_scalar)
qed simp

lemma parse_scalar: "list_all (\<lambda>(k, v). list_all scalar k \<and> list_all scalar v) (parse_qsl q)"
  by (simp add: parse_qsl_def list_all_iff unquote_plus_def unquote_scalar[unfolded list_all_iff])

end
