(* ===== verification/Url_Scope.thy ===== *)
theory Url_Scope
  imports Py_Url Worker_Scope
begin

text \<open>
  Which URLs are in scope: \<open>normalize_url\<close>, \<open>normalize_url_preserving_semantics\<close> and \<open>TargetPolicy.url_in_scope\<close>
  of \<open>src/app/core.py\<close>, and \<open>WorkerScopePolicy.url_in_scope\<close> of \<open>src/app/worker_scope.py\<close>.  The check is
  shown to be about the host that the URL names, and joining and splitting URLs are shown to be inverse to each other.
\<close>

section \<open>Normal forms\<close>

definition authority :: "string \<Rightarrow> string \<Rightarrow> nat option \<Rightarrow> string" where
  "authority scheme host port =
     (let netloc = (if CHR '':'' \<in> set host \<and> \<not> startswith host ''['' then ''['' @ host @ '']'' else host)
      in case port of
           None \<Rightarrow> netloc
         | Some n \<Rightarrow> if scheme = ''http'' \<and> n = 80 \<or> scheme = ''https'' \<and> n = 443 then netloc else netloc @ '':'' @ show_nat n)"

text \<open>The common frame of the two normal forms: \<open>path\<close> and \<open>query\<close> rewrite the two parts.\<close>

definition normal_form :: "(string \<Rightarrow> bool) \<Rightarrow> (string \<Rightarrow> string) \<Rightarrow> (string \<Rightarrow> string) \<Rightarrow> string \<Rightarrow> split_url option" where
  "normal_form ip6 path query value =
     (let v = py_strip value
      in if v = '''' then None
         else case urlsplit ip6 v of
           None \<Rightarrow> None
         | Some u \<Rightarrow>
             (let scheme = py_lower (u_scheme u)
              in if scheme \<notin> {''http'', ''https''} \<or> hostname_of u = '''' then None
                 else case port_of u of
                   None \<Rightarrow> None
                 | Some port \<Rightarrow>
                     Some \<lparr>u_scheme = scheme, u_netloc = authority scheme (normalize_host (hostname_of u)) port,
                       u_path = path (if u_path u = '''' then ''/'' else u_path u), u_query = query (u_query u), u_fragment = ''''\<rparr>))"

definition normalize_url_preserving_semantics :: "(string \<Rightarrow> bool) \<Rightarrow> string \<Rightarrow> string option" where
  "normalize_url_preserving_semantics ip6 value = map_option urlunsplit (normal_form ip6 id id value)"

fun collapse_slashes :: "nat list \<Rightarrow> nat list" where
  "collapse_slashes (a # b # s) = (if a = 47 \<and> b = 47 then collapse_slashes (b # s) else a # collapse_slashes (b # s))"
| "collapse_slashes s = s"

definition canonical_path :: "string \<Rightarrow> string" where
  "canonical_path p = url_quote ''/%:@-._~!$&'()*+,;='' (collapse_slashes (unquote p))"

definition TRACKING :: "string list" where
  "TRACKING = [''utm_source'', ''utm_medium'', ''utm_campaign'', ''utm_term'', ''utm_content'',
     ''gclid'', ''fbclid'', ''msclkid'', ''dclid'', ''yclid'', ''mc_cid'', ''mc_eid'',
     ''_ga'', ''_gl'', ''ref'', ''source'', ''spm'', ''cachebust'', ''cache_bust'', ''cb'']"

text \<open>\<open>k.lower()\<close> as far as it is compared with ASCII text: outside Latin-1 only the Kelvin sign and the dotted
  capital I have lower cases with ASCII letters.\<close>

definition lower_point :: "nat \<Rightarrow> nat list" where
  "lower_point n = (if n < 256 then [code (lower_char (char_of n))] else if n = 8490 then [107] else if n = 304 then [105, 775] else [n])"

definition tracking_key :: "nat list \<Rightarrow> bool" where
  "tracking_key k = (let l = concat (map lower_point k) in l \<in> set (map (map code) TRACKING) \<or> take 4 l = map code ''utm_'')"

definition canonical_query :: "bool \<Rightarrow> string \<Rightarrow> string" where
  "canonical_query drop_tracking q =
     (let pairs = parse_qsl q
      in urlencode (sort (if drop_tracking then filter (\<lambda>kv. \<not> tracking_key (fst kv)) pairs else pairs)))"

definition normalize_url :: "(string \<Rightarrow> bool) \<Rightarrow> bool \<Rightarrow> string \<Rightarrow> string option" where
  "normalize_url ip6 drop_tracking value = map_option urlunsplit (normal_form ip6 canonical_path (canonical_query drop_tracking) value)"

section \<open>Scope\<close>

text \<open>The host of a normalized URL; \<open>None\<close> is the \<open>ValueError\<close> of \<open>urlsplit\<close>.\<close>

definition host_of_normal :: "(string \<Rightarrow> bool) \<Rightarrow> string \<Rightarrow> string option" where
  "host_of_normal ip6 n = map_option hostname_of (urlsplit ip6 n)"

definition url_in_scope :: "(string \<Rightarrow> (string \<Rightarrow> bool) option) \<Rightarrow> (string \<Rightarrow> bool) \<Rightarrow> policy \<Rightarrow> string \<Rightarrow> bool option" where
  "url_in_scope rs ip6 p url =
     (case normalize_url ip6 True url of
        None \<Rightarrow> Some False
      | Some n \<Rightarrow> (case host_of_normal ip6 n of None \<Rightarrow> None | Some h \<Rightarrow> host_in_scope rs p h))"

definition remote_url_in_scope :: "(string \<Rightarrow> (string \<Rightarrow> bool) option) \<Rightarrow> (string \<Rightarrow> bool) \<Rightarrow> policy \<Rightarrow> string \<Rightarrow> bool option" where
  "remote_url_in_scope rs ip6 p url =
     (case normalize_url ip6 True url of
        None \<Rightarrow> Some False
      | Some n \<Rightarrow>
          (case host_of_normal ip6 n of
             None \<Rightarrow> None
           | Some h \<Rightarrow> if list_ex (\<lambda>r. in_domain r (normalize_host h)) (p_roots p) then url_in_scope rs ip6 p n else Some False))"


section \<open>The parts of a URL\<close>

lemma urlsplit_parts:
  assumes "urlsplit ip6 v = Some u"
  obtains url rest where "(u_netloc u, rest) = split_netloc (snd (split_scheme url))" "u_scheme u = fst (split_scheme url)"
    "\<forall>c \<in> set url. \<not> unsafe_url_char c" "u_path u = before_char (CHR ''?'') (before_char (CHR ''#'') rest)"
    "(CHR ''['' \<in> set (u_netloc u)) = (CHR '']'' \<in> set (u_netloc u))"
proof -
  let ?url = "filter (\<lambda>c. \<not> unsafe_url_char c) (dropWhile (\<lambda>c. code c \<le> 32) v)"
  obtain scheme rest where s: "split_scheme ?url = (scheme, rest)" by fastforce
  obtain netloc rest' where n: "split_netloc rest = (netloc, rest')" by fastforce
  from assms have u: "u_scheme u = scheme" "u_netloc u = netloc" "u_path u = before_char (CHR ''?'') (before_char (CHR ''#'') rest')"
    and br: "(CHR ''['' \<in> set netloc) = (CHR '']'' \<in> set netloc)"
    by (auto simp: urlsplit_def s n Let_def split: if_splits)
  show thesis by (rule that[of rest' ?url]) (use s n u br in auto)
qed

lemma split_scheme_subset: "set (snd (split_scheme url)) \<subseteq> set url"
  using set_after by (auto simp: split_scheme_def Let_def)

lemma split_netloc_parts:
  assumes "(netloc, rest) = split_netloc url"
  shows "\<forall>c \<in> set netloc. \<not> netloc_end c" "set netloc \<subseteq> set url" "netloc \<noteq> [] \<Longrightarrow> rest = [] \<or> netloc_end (hd rest)"
proof -
  show "\<forall>c \<in> set netloc. \<not> netloc_end c" using assms by (auto simp: split_netloc_def split: if_splits dest: set_takeWhileD)
  show "set netloc \<subseteq> set url" using assms by (auto simp: split_netloc_def split: if_splits dest!: set_takeWhileD dest: in_set_dropD)
  show "rest = [] \<or> netloc_end (hd rest)" if "netloc \<noteq> []"
  proof -
    have "rest = dropWhile (\<lambda>c. \<not> netloc_end c) (drop 2 url)" using assms that by (auto simp: split_netloc_def split: if_splits)
    then show ?thesis using hd_dropWhile[of "\<lambda>c. \<not> netloc_end c" "drop 2 url"] by (cases "rest = []") auto
  qed
qed

lemma netloc_clean:
  assumes "urlsplit ip6 v = Some u"
  shows "\<forall>c \<in> set (u_netloc u). \<not> netloc_end c \<and> \<not> unsafe_url_char c"
  using assms
proof (rule urlsplit_parts)
  fix url rest assume n: "(u_netloc u, rest) = split_netloc (snd (split_scheme url))" and c: "\<forall>c \<in> set url. \<not> unsafe_url_char c"
  show ?thesis using split_netloc_parts(1,2)[OF n] split_scheme_subset[of url] c by blast
qed

lemma path_slash:
  assumes "urlsplit ip6 v = Some u" "u_netloc u \<noteq> []"
  shows "u_path u = [] \<or> startswith (u_path u) ''/''"
  using assms(1)
proof (rule urlsplit_parts)
  fix url rest assume n: "(u_netloc u, rest) = split_netloc (snd (split_scheme url))"
    and p: "u_path u = before_char (CHR ''?'') (before_char (CHR ''#'') rest)"
  from split_netloc_parts(3)[OF n assms(2)] show ?thesis
    unfolding p by (cases rest) (auto simp: before_char_def startswith_def netloc_end_def)
qed

lemma no_bracket:
  assumes "urlsplit ip6 v = Some u" "CHR ''['' \<notin> set (u_netloc u)"
  shows "CHR '']'' \<notin> set (u_netloc u)"
  using assms(1) by (rule urlsplit_parts) (use assms(2) in simp)

lemma lower_fixed: "lower_char c = x \<Longrightarrow> code x < 97 \<Longrightarrow> c = x"
proof -
  assume x: "lower_char c = x" "code x < 97"
  show "c = x"
  proof (rule ccontr)
    assume "c \<noteq> x"
    with x(1) have r: "65 \<le> code c \<and> code c \<le> 90 \<or> 192 \<le> code c \<and> code c \<le> 222" and x': "x = char_of (code c + 32)"
      by (auto simp: lower_char_def Let_def split: if_splits)
    then have "code x = code c + 32" by (simp add: x' del: char_of_code) (auto simp: code_char_of)
    with r x(2) show False by linarith
  qed
qed


section \<open>The normal form has plain parts\<close>

lemma normalize_subset: "set (normalize_host h) \<subseteq> lower_char ` set h"
proof -
  have "set (normalize_host h) \<subseteq> set (rstrip_dots (py_lower (py_strip h)))"
    by (auto simp: normalize_host_def Let_def dest: inner_mem)
  also have "\<dots> \<subseteq> set (py_lower (py_strip h))" using set_dropWhileD by (fastforce simp: rstrip_dots_def)
  also have "\<dots> \<subseteq> lower_char ` set h"
  proof -
    have "c \<in> set h" if "c \<in> set (py_strip h)" for c
      using that by (auto simp: py_strip_def py_lstrip_def dest!: set_dropWhileD)
    then show ?thesis by (auto simp: py_lower_def)
  qed
  finally show ?thesis .
qed

definition mark :: "char \<Rightarrow> bool" where
  "mark c \<longleftrightarrow> netloc_end c \<or> unsafe_url_char c \<or> c \<in> set ''[]@:''"

lemma mark_low: "mark c \<Longrightarrow> code c < 97"
  by (auto simp: mark_def netloc_end_def unsafe_url_char_def code_def)

lemma mark_digit: "py_digit c \<Longrightarrow> \<not> mark c"
  by (auto simp: mark_def netloc_end_def unsafe_url_char_def py_digit_def code_def)

lemma host_marks:
  assumes "\<forall>c \<in> set (u_netloc u). \<not> netloc_end c \<and> \<not> unsafe_url_char c" "CHR ''['' \<notin> set (u_netloc u)" "CHR '']'' \<notin> set (u_netloc u)"
    "c \<in> set (normalize_host (hostname_of u))"
  shows "\<not> mark c"
proof
  assume m: "mark c"
  let ?h = "fst (host_info (u_netloc u))"
  have h: "?h = before_char (CHR '':'') (after_last (CHR ''@'') (u_netloc u))"
  proof -
    have "CHR ''['' \<notin> set (after_last (CHR ''@'') (u_netloc u))" using set_after_last(2)[of "CHR ''@''" "u_netloc u"] assms(2) by blast
    then show ?thesis by (simp add: host_info_def Let_def)
  qed
  have sub: "set ?h \<subseteq> set (u_netloc u)" "CHR '':'' \<notin> set ?h" "CHR ''@'' \<notin> set ?h"
    unfolding h using set_before(1,2)[where d = "CHR '':''" and s = "after_last (CHR ''@'') (u_netloc u)"] set_after_last[of "CHR ''@''" "u_netloc u"] by blast+
  from assms(4) normalize_subset obtain d where d: "d \<in> set (hostname_of u)" "c = lower_char d" by blast
  then have "c = d" using lower_fixed[of d c] mark_low[OF m] by simp
  with d have "c \<in> set (hostname_of u)" by simp
  then have "c \<in> lower_char ` set ?h \<or> c \<in> set ?h"
    unfolding hostname_of_def Let_def py_lower_def by (auto dest: set_takeWhileD set_dropWhileD simp: before_char_def)
  then have "c \<in> set ?h" using lower_fixed[OF sym] mark_low[OF m] by (metis imageE)
  with m sub assms(1-3) show False by (auto simp: mark_def)
qed

lemma authority_plain:
  assumes "\<forall>c \<in> set host. \<not> mark c"
  shows "authority scheme host port = host \<or> (\<exists>n. authority scheme host port = host @ CHR '':'' # show_nat n)"
    "clean_text ''/?#[]'' (authority scheme host port)" "fst (host_info (authority scheme host port)) = host"
proof -
  have "CHR '':'' \<notin> set host" using assms by (auto simp: mark_def)
  then show a: "authority scheme host port = host \<or> (\<exists>n. authority scheme host port = host @ CHR '':'' # show_nat n)"
    by (auto simp: authority_def split: option.split)
  have dig: "\<not> mark c" if "c \<in> set (show_nat n)" for c n
    using that show_nat_digits[of n] mark_digit by (auto simp: py_isdigit_def list_all_iff)
  have h: "clean_text ''/?#[]'' host" using assms by (auto simp: clean_text_def list_all_iff mark_def netloc_end_def)
  have t: "clean_text ''/?#[]'' (CHR '':'' # show_nat n)" for n
    using dig[of _ n] by (auto simp: clean_text_def list_all_iff mark_def netloc_end_def unsafe_url_char_def code_def)
  show "clean_text ''/?#[]'' (authority scheme host port)" using a h t clean_append by metis
  have "c \<notin> set host \<and> c \<notin> set (CHR '':'' # show_nat n)" if "c = CHR ''@'' \<or> c = CHR ''[''" for c n
    using that assms dig[of c n] by (auto simp: mark_def)
  then have at: "CHR ''@'' \<notin> set (authority scheme host port)" and br: "CHR ''['' \<notin> set (authority scheme host port)"
    using a by (metis set_append Un_iff)+
  have "before_char (CHR '':'') (authority scheme host port) = host"
    using a before_append[OF \<open>CHR '':'' \<notin> set host\<close>] before_none[OF \<open>CHR '':'' \<notin> set host\<close>] by auto
  with br show "fst (host_info (authority scheme host port)) = host" by (simp add: host_info_def after_last_none[OF at])
qed

lemma authority_host:
  assumes "\<forall>c \<in> set (normalize_host h). \<not> mark c" "u_netloc u = authority scheme (normalize_host h) port"
  shows "hostname_of u = normalize_host h"
proof -
  let ?n = "normalize_host h"
  have "py_lower (before_char (CHR ''%'') ?n) = before_char (CHR ''%'') ?n"
  proof -
    have "lower_char c = c" if "c \<in> set ?n" for c
      using that normalize_lower[of h] by (metis map_eq_conv list.map_ident py_lower_def)
    then show ?thesis unfolding py_lower_def before_char_def by (auto intro: map_idI dest: set_takeWhileD)
  qed
  then show ?thesis by (simp add: hostname_of_def assms(2) authority_plain(3)[OF assms(1)] before_char_def)
qed


lemma unquote_slash: "\<exists>t. unquote (CHR ''/'' # s) = 47 # t"
proof -
  have a: "ascii (CHR ''/'')" by (simp add: ascii_def code_def)
  have "url_unescape (CHR ''/'' # takeWhile ascii s) = 47 # url_unescape (takeWhile ascii s)" by (simp add: code_def)
  then show ?thesis by (subst unquote.simps(2)) (simp add: a)
qed

lemma collapse_head: "\<exists>t. collapse_slashes (n # s) = n # t"
  by (induction s arbitrary: n) auto

lemma collapse_once: "collapse_slashes s = 47 # t \<Longrightarrow> t = [] \<or> hd t \<noteq> 47"
proof (induction s arbitrary: t rule: collapse_slashes.induct)
  case (1 a b s)
  obtain t' where t': "collapse_slashes (b # s) = b # t'" using collapse_head by blast
  show ?case
  proof (cases "a = 47 \<and> b = 47")
    case True
    with 1 show ?thesis by simp
  next
    case False
    have "hd (collapse_slashes (b # s)) = b" using t' by simp
    with False 1(3) show ?thesis by auto
  qed
qed auto

lemma collapse_scalar: "list_all scalar s \<Longrightarrow> list_all scalar (collapse_slashes s)"
  by (induction s rule: collapse_slashes.induct) auto

lemma quote_cons: "url_quote safe (n # s) = concat (map (quote_byte safe) (utf8_char n)) @ url_quote safe s"
  by (simp add: url_quote_def utf8_encode_def)

lemma quote_head:
  assumes "CHR ''/'' \<in> set safe" "url_quote safe (n # s) = CHR ''/'' # r"
  shows "n = 47"
proof (cases "n < 128")
  case True
  then have q: "url_quote safe (n # s) = quote_byte safe n @ url_quote safe s" by (simp add: quote_cons utf8_char_def)
  with assms(2) have "char_of n = CHR ''/''" by (auto simp: quote_byte_def split: if_splits)
  then have "code (char_of n) = 47" by (simp add: code_def)
  then show ?thesis using True by simp
next
  case False
  then have "\<exists>b bs. utf8_char n = b # bs \<and> 128 \<le> b" by (simp add: utf8_char_def)
  then obtain b bs where "utf8_char n = b # bs" "128 \<le> b" by blast
  then have "hd (url_quote safe (n # s)) = CHR ''%''" by (simp add: quote_cons quote_byte_def)
  with assms(2) show ?thesis by simp
qed

lemma canonical_path_plain:
  assumes "startswith p ''/''"
  shows "clean_text ''?#'' (canonical_path p)" "startswith (canonical_path p) ''/''" "\<not> startswith (canonical_path p) ''//''"
proof -
  let ?safe = "''/%:@-._~!$&'()*+,;=''"
  have slash_char: "char_of (47 :: nat) = CHR ''/''" by code_simp
  obtain s where p: "p = CHR ''/'' # s" using assms by (cases p) (auto simp: startswith_def)
  obtain t where "unquote p = 47 # t" using unquote_slash unfolding p by blast
  then obtain r where r: "collapse_slashes (unquote p) = 47 # r" using collapse_head by metis
  have c: "canonical_path p = CHR ''/'' # url_quote ?safe r"
    using slash_char unfolding canonical_path_def r quote_cons by (simp add: utf8_char_def quote_byte_def)
  then show "startswith (canonical_path p) ''/''" by (simp add: startswith_def)
  show "\<not> startswith (canonical_path p) ''//''"
  proof
    assume "startswith (canonical_path p) ''//''"
    then obtain q where q: "url_quote ?safe r = CHR ''/'' # q" unfolding c startswith_def by (cases "url_quote ?safe r") auto
    then obtain n r' where n: "r = n # r'" by (cases r) (auto simp: url_quote_def utf8_encode_def)
    have "n = 47" by (rule quote_head[OF _ q[unfolded n]]) simp
    with collapse_once[OF r] n show False by simp
  qed
  have sc: "list_all scalar (collapse_slashes (unquote p))" by (rule collapse_scalar[OF unquote_scalar])
  have bad: "list_all (\<lambda>c. c \<noteq> CHR ''?'' \<and> c \<noteq> CHR ''#'' \<and> \<not> unsafe_url_char c) (CHR ''%'' # ?safe)" by code_simp
  have "\<not> unsafe_url_char c \<and> c \<notin> set ''?#''" if "c \<in> set (canonical_path p)" for c
    using quote_chars[OF sc that[unfolded canonical_path_def]] bad[unfolded list_all_iff] safe_not_percent[of c] by (elim disjE) auto
  then show "clean_text ''?#'' (canonical_path p)" by (simp add: clean_text_def list_all_iff)
qed

lemma set_join: "set (py_join sep ws) \<subseteq> set sep \<union> \<Union> (set ` set ws)"
  by (induction sep ws rule: py_join.induct) auto

lemma urlencode_clean:
  assumes "list_all (\<lambda>(k, v). list_all scalar k \<and> list_all scalar v) pairs"
  shows "clean_text ''#'' (urlencode pairs)"
proof -
  have enc: "urlencode pairs = py_join ''&'' (map query_field pairs)" by (simp add: urlencode_def query_field_def[abs_def] split_def)
  have ok: "\<not> unsafe_url_char c \<and> c \<noteq> CHR ''#''" if "list_all scalar s" "c \<in> set (quote_plus s)" for s c
  proof -
    have "list_all (\<lambda>c. \<not> unsafe_url_char c \<and> c \<noteq> CHR ''#'') ''+%''" by code_simp
    with quote_plus_chars[OF that] safe_not_percent[of c] show ?thesis by auto
  qed
  have sep: "list_all (\<lambda>c. \<not> unsafe_url_char c \<and> c \<noteq> CHR ''#'') ''&=''" by code_simp
  have "\<not> unsafe_url_char c \<and> c \<noteq> CHR ''#''" if "kv \<in> set pairs" "c \<in> set (query_field kv)" for kv c
  proof -
    have "list_all scalar (fst kv)" "list_all scalar (snd kv)" using assms that(1) by (cases kv; auto simp: list_all_iff)+
    with ok[of "fst kv" c] ok[of "snd kv" c] that(2) sep show ?thesis by (auto simp: query_field_def)
  qed
  then show ?thesis using set_join[of "''&''" "map query_field pairs"] sep unfolding enc clean_text_def list_all_iff by fastforce
qed

lemma canonical_query_clean: "clean_text ''#'' (canonical_query d q)"
  unfolding canonical_query_def Let_def by (rule urlencode_clean) (use parse_scalar[of q] in \<open>auto simp: list_all_iff\<close>)


lemma plain_normal:
  assumes u: "urlsplit ip6 v = Some u" and nb: "CHR ''['' \<notin> set (u_netloc u)" and s: "py_lower (u_scheme u) \<in> {''http'', ''https''}"
    and h: "hostname_of u \<noteq> []"
    and path: "\<And>p. startswith p ''/'' \<Longrightarrow> clean_text ''?#'' (path p) \<and> startswith (path p) ''/'' \<and> \<not> startswith (path p) ''//''"
    and query: "\<And>q. clean_text ''#'' (query q)"
    and n_def: "n = \<lparr>u_scheme = py_lower (u_scheme u), u_netloc = authority (py_lower (u_scheme u)) (normalize_host (hostname_of u)) port,
      u_path = path (if u_path u = '''' then ''/'' else u_path u), u_query = query (u_query u), u_fragment = ''''\<rparr>"
  shows "urlsplit ip6 (urlunsplit n) = Some n" "hostname_of n = normalize_host (hostname_of u)" "plain_parts n"
proof -
  have ne: "u_netloc u \<noteq> []"
  proof
    assume "u_netloc u = []"
    then have "hostname_of u = []" by (simp add: hostname_of_def host_info_def after_last_def before_char_def py_lower_def)
    with h show False by contradiction
  qed
  have marks: "\<forall>c \<in> set (normalize_host (hostname_of u)). \<not> mark c"
    using host_marks[OF netloc_clean[OF u] nb no_bracket[OF u nb]] by blast
  have p: "startswith (if u_path u = '''' then ''/'' else u_path u) ''/''" using path_slash[OF u ne] by (auto simp: startswith_def)
  have "plain_parts n"
    unfolding plain_parts_def n_def split_url.simps using s authority_plain(2)[OF marks] path[OF p] query by (auto simp: clean_text_def)
  then show "plain_parts n" "urlsplit ip6 (urlunsplit n) = Some n" by (simp_all add: split_after_join)
  show "hostname_of n = normalize_host (hostname_of u)" by (rule authority_host[OF marks]) (simp add: n_def)
qed

lemma strip_subset: "set (py_strip s) \<subseteq> set s"
  by (auto simp: py_strip_def py_lstrip_def dest!: set_dropWhileD)

lemma netloc_subset: "urlsplit ip6 v = Some u \<Longrightarrow> set (u_netloc u) \<subseteq> set v"
proof -
  assume "urlsplit ip6 v = Some u"
  then obtain rest where "(u_netloc u, rest) = split_netloc (snd (split_scheme (filter (\<lambda>c. \<not> unsafe_url_char c) (dropWhile (\<lambda>c. code c \<le> 32) v))))"
    by (auto simp: urlsplit_def Let_def split: prod.splits if_splits)
  from split_netloc_parts(2)[OF this] split_scheme_subset show ?thesis by (fastforce dest: set_dropWhileD)
qed

text \<open>The URL names a host that the policy can be asked about.\<close>

definition names_host :: "split_url \<Rightarrow> bool" where
  "names_host u \<longleftrightarrow> py_lower (u_scheme u) \<in> {''http'', ''https''} \<and> hostname_of u \<noteq> [] \<and> port_of u \<noteq> None"

lemma normal_form_none:
  "urlsplit ip6 (py_strip v) = None \<or> (\<exists>u. urlsplit ip6 (py_strip v) = Some u \<and> \<not> names_host u) \<Longrightarrow> normal_form ip6 path query v = None"
  by (auto simp: normal_form_def names_host_def Let_def split: option.splits)

lemma empty_no_host: "urlsplit ip6 [] = Some u \<Longrightarrow> \<not> names_host u"
  by (auto simp: urlsplit_def split_scheme_def split_netloc_def startswith_def before_char_def names_host_def py_lower_def Let_def)

lemma normal_form_some:
  assumes "urlsplit ip6 (py_strip v) = Some u" "names_host u"
  shows "\<exists>port. port_of u = Some port \<and> normal_form ip6 path query v = Some \<lparr>u_scheme = py_lower (u_scheme u),
      u_netloc = authority (py_lower (u_scheme u)) (normalize_host (hostname_of u)) port,
      u_path = path (if u_path u = '''' then ''/'' else u_path u), u_query = query (u_query u), u_fragment = ''''\<rparr>"
  using assms empty_no_host[of ip6 u] by (auto simp: normal_form_def names_host_def Let_def)

lemma canonical_shape:
  "startswith p ''/'' \<Longrightarrow> clean_text ''?#'' (canonical_path p) \<and> startswith (canonical_path p) ''/'' \<and> \<not> startswith (canonical_path p) ''//''"
  by (simp add: canonical_path_plain)

lemma normalize_parts:
  assumes nb: "CHR ''['' \<notin> set (u_netloc u)" and "urlsplit ip6 (py_strip v) = Some u" "names_host u"
  shows "\<exists>n. normalize_url ip6 d v = Some (urlunsplit n) \<and> urlsplit ip6 (urlunsplit n) = Some n \<and> hostname_of n = normalize_host (hostname_of u) \<and> plain_parts n"
proof -
  obtain port where n: "normal_form ip6 canonical_path (canonical_query d) v = Some \<lparr>u_scheme = py_lower (u_scheme u),
      u_netloc = authority (py_lower (u_scheme u)) (normalize_host (hostname_of u)) port,
      u_path = canonical_path (if u_path u = '''' then ''/'' else u_path u), u_query = canonical_query d (u_query u), u_fragment = ''''\<rparr>"
    using normal_form_some[OF assms(2,3)] by blast
  have "py_lower (u_scheme u) \<in> {''http'', ''https''}" "hostname_of u \<noteq> []" using assms(3) by (simp_all add: names_host_def)
  note plain = plain_normal[where path = canonical_path and query = "canonical_query d" and port = port, OF assms(2) nb this canonical_shape canonical_query_clean refl]
  from plain n show ?thesis by (auto simp: normalize_url_def)
qed

text \<open>The authority of the URL has no bracket: its host is a name or an IPv4 address, not the literal of an IPv6 address.\<close>

definition plain_host :: "(string \<Rightarrow> bool) \<Rightarrow> string \<Rightarrow> bool" where
  "plain_host ip6 url \<longleftrightarrow> (case urlsplit ip6 (py_strip url) of None \<Rightarrow> True | Some u \<Rightarrow> CHR ''['' \<notin> set (u_netloc u))"

lemma plain_hostI: "CHR ''['' \<notin> set url \<Longrightarrow> plain_host ip6 url"
  using netloc_subset strip_subset[of url] by (fastforce simp: plain_host_def split: option.split)

lemma url_scope_host:
  assumes "plain_host ip6 url"
  shows "url_in_scope rs ip6 p url =
    (case urlsplit ip6 (py_strip url) of
       None \<Rightarrow> Some False
     | Some u \<Rightarrow> if names_host u then host_in_scope rs p (normalize_host (hostname_of u)) else Some False)"
proof (cases "\<exists>u. urlsplit ip6 (py_strip url) = Some u \<and> names_host u")
  case True
  then obtain u where u: "urlsplit ip6 (py_strip url) = Some u" "names_host u" by blast
  with assms have "CHR ''['' \<notin> set (u_netloc u)" by (simp add: plain_host_def)
  from normalize_parts[OF this u, of True] u show ?thesis
    by (auto simp: url_in_scope_def host_of_normal_def)
next
  case False
  then have "normal_form ip6 canonical_path (canonical_query True) url = None"
    by (intro normal_form_none) (cases "urlsplit ip6 (py_strip url)"; auto)
  with False show ?thesis by (auto simp: url_in_scope_def normalize_url_def split: option.split)
qed

text \<open>C30: for a URL whose host is not written in brackets, that is for every URL except those of IPv6 literals, the scope check,
  which works on the canonical form, is a check of the host that the original URL names: a URL that is no HTTP URL, has no host or
  a port that is none is refused, and any other is in scope exactly when its host is.  So rewriting the path and the query, whatever
  they hold, brackets included, has no influence on the answer.\<close>

theorem url_scope_is_host_scope:
  assumes "plain_host ip6 url"
  shows "url_in_scope rs ip6 p url =
    (case urlsplit ip6 (py_strip url) of
       None \<Rightarrow> Some False
     | Some u \<Rightarrow> if names_host u then host_in_scope rs p (normalize_host (hostname_of u)) else Some False)"
  by (rule url_scope_host[OF assms])

text \<open>The canonical form of a URL is a URL again: splitting it gives back the parts it was joined from, its host is
  the normalized host of the original, its path begins with one slash, and it has no fragment.\<close>

theorem canonical_url_round_trip:
  assumes "CHR ''['' \<notin> set (u_netloc u)" "urlsplit ip6 (py_strip v) = Some u" "names_host u"
  shows "\<exists>n. normalize_url ip6 d v = Some (urlunsplit n) \<and> urlsplit ip6 (urlunsplit n) = Some n
    \<and> hostname_of n = normalize_host (hostname_of u) \<and> plain_parts n"
  by (rule normalize_parts[OF assms])



section \<open>Examples\<close>

theorem url_scope_is_host_scope_witness:
  "url_in_scope demo_rs (\<lambda>_. False) demo_policy ''http://evil.ef@WWW.ab.cd.:81/x[1]?u=http://evil.ef'' = Some True"
proof -
  have s: "case urlsplit (\<lambda>_. False) (py_strip ''http://evil.ef@WWW.ab.cd.:81/x[1]?u=http://evil.ef'') of None \<Rightarrow> False
      | Some u \<Rightarrow> names_host u \<and> host_in_scope demo_rs demo_policy (normalize_host (hostname_of u)) = Some True" by code_simp
  have "plain_host (\<lambda>_. False) ''http://evil.ef@WWW.ab.cd.:81/x[1]?u=http://evil.ef''" by code_simp
  from url_scope_is_host_scope[OF this, of demo_rs demo_policy] s show ?thesis by (auto split: option.splits)
qed

theorem canonical_url_round_trip_witness:
  "\<exists>n. normalize_url (\<lambda>_. False) True ''HTTPS://ab.cd:443//a//b?x=1&utm_id=2'' = Some (urlunsplit n) \<and> hostname_of n = ''ab.cd''"
proof -
  have s: "case urlsplit (\<lambda>_. False) (py_strip ''HTTPS://ab.cd:443//a//b?x=1&utm_id=2'') of None \<Rightarrow> False
      | Some u \<Rightarrow> names_host u \<and> normalize_host (hostname_of u) = ''ab.cd''" by code_simp
  then obtain u where u: "urlsplit (\<lambda>_. False) (py_strip ''HTTPS://ab.cd:443//a//b?x=1&utm_id=2'') = Some u" "names_host u"
    "normalize_host (hostname_of u) = ''ab.cd''" by (auto split: option.splits)
  have "plain_host (\<lambda>_. False) ''HTTPS://ab.cd:443//a//b?x=1&utm_id=2''" by code_simp
  then have nb: "CHR ''['' \<notin> set (u_netloc u)" using u(1) by (simp add: plain_host_def)
  from canonical_url_round_trip[OF nb u(1,2), of True] u(3) show ?thesis by auto
qed

lemma canonical_form_not_stable:
  "normalize_url (\<lambda>_. False) True ''http://ab.cd/%2525'' = Some ''http://ab.cd/%25''
   \<and> normalize_url (\<lambda>_. False) True ''http://ab.cd/%25'' = Some ''http://ab.cd/%''"
  by code_simp

end
