(* ===== verification/Pinned_Transport.thy ===== *)
theory Pinned_Transport
  imports Url_Scope Sql_Table "HOL-Library.AList"
begin

text \<open>
  Requests over pinned addresses, \<open>src/app/safe_transport.py\<close>: the resolution that accepts a host only when all its
  addresses are public, the single request, the bounded download with its redirects, and the TLS peer.

  The network is an argument: \<open>lookup\<close> is \<open>getaddrinfo\<close> (its failure is \<open>None\<close>), \<open>send\<close> the pinned opener,
  \<open>peer\<close> the TLS handshake; each may answer differently every time it is asked, which is what rebinding a name does, and
  may change the state \<open>'w\<close> of the world.  \<open>public\<close> is \<open>is_global\<close> of the module \<open>ipaddress\<close> (\<open>None\<close> for a text that
  is no address), \<open>scope\<close> is \<open>policy.url_in_scope\<close> (\<open>None\<close> when it raises).  \<open>Inl\<close> is an exception.  Every function
  also returns the requests it sent, in order.
\<close>

section \<open>Resolution\<close>

definition resolve_public_addresses :: "(string \<Rightarrow> bool option) \<Rightarrow> string list option \<Rightarrow> bool \<times> string list" where
  "resolve_public_addresses public rows =
     (case rows of
        None \<Rightarrow> (False, [])
      | Some found \<Rightarrow> (let addresses = dedup found in (addresses \<noteq> [] \<and> list_all (\<lambda>a. public a = Some True) addresses, addresses)))"

section \<open>Requests and answers\<close>

type_synonym fields = "(string \<times> string) list"

record request =
  rq_method :: string
  rq_url :: string
  rq_ip :: string
  rq_fields :: fields

text \<open>The body is read from the answer, which may fail; an answer that is no success carries what \<open>HTTPError\<close> has.  \<open>No_Answer\<close> is
  an \<open>OSError\<close>, \<open>Unhandled\<close> any other exception of the opener (an \<open>HTTPException\<close>, say).\<close>

datatype answer =
    Success int fields "string + string"
  | Http_Failure int fields "string option"
  | No_Answer string
  | Unhandled string

datatype transport = Transport_Ok | Transport_Error | Stopped_For_Safety

record hop =
  hp_url :: string
  hp_addresses :: "string list"
  hp_pinned :: string
  hp_status :: int
  hp_next :: "(string \<times> string) option"
  hp_result :: string

record transport_result =
  tr_url :: string
  tr_final :: string
  tr_status :: int
  tr_fields :: fields
  tr_data :: string
  tr_error :: string
  tr_transport :: transport
  tr_addresses :: "string list"
  tr_pinned :: string
  tr_hops :: "hop list"
  tr_outside :: bool

text \<open>A header of an answer is looked up without regard to case.\<close>

definition field :: "fields \<Rightarrow> string \<Rightarrow> string" where
  "field fs name = (case List.find (\<lambda>kv. py_lower (fst kv) = py_lower name) fs of None \<Rightarrow> '''' | Some kv \<Rightarrow> snd kv)"

definition updated_fields :: "fields \<Rightarrow> fields \<Rightarrow> fields" where
  "updated_fields base more_fields = foldl (\<lambda>acc (k, v). AList.update k v acc) base more_fields"

definition header_dict :: "fields \<Rightarrow> fields" where
  "header_dict fs = updated_fields [] fs"

definition http_scheme :: "split_url \<Rightarrow> bool" where
  "http_scheme u \<longleftrightarrow> py_lower (u_scheme u) \<in> {''http'', ''https''}"

text \<open>\<open>parsed.port or default\<close>.\<close>

definition effective_port :: "split_url \<Rightarrow> nat option" where
  "effective_port u =
     (case port_of u of
        None \<Rightarrow> None
      | Some p \<Rightarrow> Some (case p of Some n \<Rightarrow> if n = 0 then (if py_lower (u_scheme u) = ''https'' then 443 else 80) else n
                       | None \<Rightarrow> if py_lower (u_scheme u) = ''https'' then 443 else 80))"

definition origin_of :: "(string \<Rightarrow> bool) \<Rightarrow> string \<Rightarrow> (string \<times> string \<times> nat) option" where
  "origin_of ip6 url =
     (case urlsplit ip6 url of
        None \<Rightarrow> None
      | Some u \<Rightarrow> map_option (\<lambda>p. (py_lower (u_scheme u), py_lower (hostname_of u), p)) (effective_port u))"

definition same_origin :: "(string \<Rightarrow> bool) \<Rightarrow> string \<Rightarrow> string \<Rightarrow> bool" where
  "same_origin ip6 left right \<longleftrightarrow> origin_of ip6 left \<noteq> None \<and> origin_of ip6 left = origin_of ip6 right"

definition FORWARD_HEADERS :: "string list" where
  "FORWARD_HEADERS = [''accept'', ''accept-encoding'', ''accept-language'', ''cache-control'', ''if-modified-since'', ''if-none-match'', ''range'']"

definition forwardable :: "string \<Rightarrow> bool" where
  "forwardable k \<longleftrightarrow> py_lower (py_strip k) \<in> set FORWARD_HEADERS"

definition redirect_headers :: "(string \<Rightarrow> bool) \<Rightarrow> fields \<Rightarrow> string \<Rightarrow> string \<Rightarrow> fields" where
  "redirect_headers ip6 hs previous_url next_url = (if same_origin ip6 previous_url next_url then hs else filter (\<lambda>kv. forwardable (fst kv)) hs)"

definition REDIRECT_STATUSES :: "int list" where
  "REDIRECT_STATUSES = [301, 302, 303, 307, 308]"

section \<open>The download\<close>

definition stopped :: "string \<Rightarrow> string \<Rightarrow> string \<Rightarrow> string list \<Rightarrow> hop list \<Rightarrow> transport_result" where
  "stopped original current err addresses hops =
     \<lparr>tr_url = original, tr_final = current, tr_status = 0, tr_fields = [], tr_data = '''', tr_error = err, tr_transport = Stopped_For_Safety,
      tr_addresses = addresses, tr_pinned = '''', tr_hops = hops, tr_outside = False\<rparr>"

text \<open>One answer at one address: the result, or the URL of the redirect to follow.  \<open>last\<close> says that no redirect may follow.\<close>

definition over_budget :: "fields \<Rightarrow> nat \<Rightarrow> bool" where
  "over_budget fs max_bytes =
     (let declared = py_strip (field fs ''Content-Length'')
      in declared \<noteq> '''' \<and> (case int_of_text declared of None \<Rightarrow> False | Some n \<Rightarrow> int max_bytes < n))"

definition redirect_label :: "bool \<Rightarrow> bool \<Rightarrow> string" where
  "redirect_label downgrade in_scope =
     (if downgrade then ''redirect_scheme_downgrade'' else if in_scope then ''redirect_in_scope'' else ''redirect_outside_scope'')"

definition judge_redirect ::
    "(string \<Rightarrow> bool) \<Rightarrow> (string \<Rightarrow> bool option) \<Rightarrow> bool \<Rightarrow> string \<Rightarrow> string \<Rightarrow> int \<Rightarrow> fields \<Rightarrow> string list \<Rightarrow> string \<Rightarrow> hop list \<Rightarrow> string
     \<Rightarrow> string + transport_result + string \<times> hop list" where
  "judge_redirect ip6 scope final original current st fs addresses ip hops location =
     (case urljoin ip6 current location of
        None \<Rightarrow> Inl ''ValueError''
      | Some url \<Rightarrow>
          (case scope url of
             None \<Rightarrow> Inl ''ValueError''
           | Some in_scope \<Rightarrow>
               (case (urlsplit ip6 current, urlsplit ip6 url) of
                  (Some c, Some u) \<Rightarrow>
                    (let downgrade = (py_lower (u_scheme c) = ''https'' \<and> py_lower (u_scheme u) = ''http'');
                         hops' = hops @ [\<lparr>hp_url = current, hp_addresses = addresses, hp_pinned = ip, hp_status = st,
                           hp_next = Some (location, url), hp_result = redirect_label downgrade in_scope\<rparr>];
                         stop = (\<lambda>err out. Inr (Inl \<lparr>tr_url = original, tr_final = current, tr_status = st, tr_fields = header_dict fs, tr_data = '''', tr_error = err,
                           tr_transport = Stopped_For_Safety, tr_addresses = addresses, tr_pinned = ip, tr_hops = hops', tr_outside = out\<rparr>))
                     in if \<not> in_scope then stop ''redirect_outside_scope'' True
                        else if downgrade then stop ''redirect_scheme_downgrade_blocked'' False
                        else if final then stop ''redirect_limit_exceeded'' False
                        else Inr (Inr (url, hops')))
                | _ \<Rightarrow> Inl ''ValueError'')))"

definition judge_answer ::
    "(string \<Rightarrow> bool) \<Rightarrow> (string \<Rightarrow> bool option) \<Rightarrow> nat \<Rightarrow> bool \<Rightarrow> string \<Rightarrow> string \<Rightarrow> string list \<Rightarrow> string \<Rightarrow> hop list \<Rightarrow> answer
     \<Rightarrow> string + transport_result + string \<times> hop list" where
  "judge_answer ip6 scope max_bytes final original current addresses ip hops a =
     (let done = (\<lambda>st fs data err ts label. Inr (Inl \<lparr>tr_url = original, tr_final = current, tr_status = st, tr_fields = header_dict fs, tr_data = data,
            tr_error = err, tr_transport = ts, tr_addresses = addresses, tr_pinned = ip,
            tr_hops = hops @ [\<lparr>hp_url = current, hp_addresses = addresses, hp_pinned = ip, hp_status = st, hp_next = None, hp_result = label\<rparr>],
            tr_outside = False\<rparr>))
      in case a of
           Success st fs body \<Rightarrow>
             if over_budget fs max_bytes then done st fs '''' ''response_budget_exceeded'' Stopped_For_Safety ''response_budget_exceeded''
             else (case body of
                 Inl e \<Rightarrow> done 0 [] '''' (take 500 e) Transport_Error ''transport_error''
               | Inr data \<Rightarrow>
                   if max_bytes < length data
                   then done st fs (take max_bytes data) ''response_budget_exceeded'' Stopped_For_Safety ''response_budget_exceeded''
                   else done st fs data '''' Transport_Ok ''response'')
         | Http_Failure st fs body \<Rightarrow>
             (let location = py_strip (field fs ''Location'')
              in if st \<in> set REDIRECT_STATUSES \<and> location \<noteq> ''''
                 then judge_redirect ip6 scope final original current st fs addresses ip hops location
                 else let got = (if max_bytes = 0 then Some '''' else body);
                        data = (case got of None \<Rightarrow> '''' | Some d \<Rightarrow> take max_bytes d);
                        err = (case got of None \<Rightarrow> ''response_read_failed'' | Some d \<Rightarrow> if max_bytes < length d then ''response_budget_exceeded'' else '''')
                   in done st fs data (if err = '''' then ''http_error'' else err)
                        (if st = 429 \<or> err = ''response_budget_exceeded'' then Stopped_For_Safety
                         else if err \<noteq> '''' then Transport_Error else Transport_Ok) ''http_error'')
         | No_Answer e \<Rightarrow> done 0 [] '''' (take 500 e) Transport_Error ''transport_error''
         | Unhandled e \<Rightarrow> Inl e)"

text \<open>The loop; its first argument counts the redirects still allowed.\<close>

record 'w network =
  nw_lookup :: "string \<Rightarrow> nat \<Rightarrow> 'w \<Rightarrow> string list option \<times> 'w"
  nw_gate :: "string \<Rightarrow> 'w \<Rightarrow> string option \<times> 'w"
  nw_send :: "request \<Rightarrow> 'w \<Rightarrow> answer \<times> 'w"

fun download_loop ::
    "(string \<Rightarrow> bool) \<Rightarrow> (string \<Rightarrow> bool option) \<Rightarrow> (string \<Rightarrow> bool option) \<Rightarrow> 'w network \<Rightarrow> nat \<Rightarrow> string \<Rightarrow> string
     \<Rightarrow> nat \<Rightarrow> string \<Rightarrow> fields \<Rightarrow> hop list \<Rightarrow> 'w \<Rightarrow> (string + transport_result) \<times> 'w \<times> request list" where
  "download_loop ip6 public scope net max_bytes agent original n current active hops w =
     (case urlsplit ip6 current of
        None \<Rightarrow> (Inl ''ValueError'', w, [])
      | Some u \<Rightarrow>
          (case (if http_scheme u \<and> hostname_of u \<noteq> '''' then scope current else Some False) of
             None \<Rightarrow> (Inl ''ValueError'', w, [])
           | Some False \<Rightarrow> (Inr (stopped original current ''outside_scope_or_invalid_url'' [] hops), w, [])
           | Some True \<Rightarrow>
               (case effective_port u of
                  None \<Rightarrow> (Inl ''ValueError'', w, [])
                | Some port \<Rightarrow>
                    (case nw_lookup net (hostname_of u) port w of (rows, w1) \<Rightarrow>
                      (case resolve_public_addresses public rows of
                         (False, addresses) \<Rightarrow> (Inr (stopped original current ''non_public_resolution_blocked'' addresses
                           (hops @ [\<lparr>hp_url = current, hp_addresses = addresses, hp_pinned = '''', hp_status = 0, hp_next = None,
                              hp_result = ''non_public_resolution_blocked''\<rparr>])), w1, [])
                       | (True, addresses) \<Rightarrow>
                           (case nw_gate net current w1 of
                              (Some e, w2) \<Rightarrow> (Inl e, w2, [])
                            | (None, w2) \<Rightarrow>
                                (let rq = \<lparr>rq_method = ''GET'', rq_url = current, rq_ip = hd addresses,
                                            rq_fields = updated_fields [(''User-Agent'', agent), (''Accept'', ''*/*'')] active\<rparr>
                                 in case nw_send net rq w2 of (a, w3) \<Rightarrow>
                                   (case judge_answer ip6 scope max_bytes (n = 0) original current addresses (hd addresses) hops a of
                                      Inl e \<Rightarrow> (Inl e, w3, [rq])
                                    | Inr (Inl r) \<Rightarrow> (Inr r, w3, [rq])
                                    | Inr (Inr (url, hops')) \<Rightarrow>
                                        (case n of
                                           0 \<Rightarrow> (Inr (stopped original current ''redirect_limit_exceeded'' [] hops'), w3, [rq])
                                         | Suc m \<Rightarrow>
                                             (case download_loop ip6 public scope net max_bytes agent original m url (redirect_headers ip6 active current url) hops' w3 of
                                                (r, w4, sent) \<Rightarrow> (r, w4, rq # sent)))))))))))"

declare download_loop.simps [simp del]

definition perform_pinned_download ::
    "(string \<Rightarrow> bool) \<Rightarrow> (string \<Rightarrow> bool option) \<Rightarrow> (string \<Rightarrow> bool option) \<Rightarrow> 'w network \<Rightarrow> int \<Rightarrow> int \<Rightarrow> string \<Rightarrow> fields \<Rightarrow> string \<Rightarrow> 'w
     \<Rightarrow> (string + transport_result) \<times> 'w \<times> request list" where
  "perform_pinned_download ip6 public scope net max_bytes max_redirects agent hs url w =
     (let original = py_strip url
      in download_loop ip6 public scope net (nat (max 0 max_bytes)) agent original (nat (max 0 (min max_redirects 10))) original hs [] w)"

section \<open>The single request\<close>

text \<open>\<open>obs\<close> is the observation the caller makes of an answer, \<open>seen\<close> the \<open>Location\<close> it kept; the annotation of an
  observation is the list of addresses, the pinned one and whether the redirect leaves the scope.\<close>

record 'o pinned_result =
  pr_seen :: 'o
  pr_addresses :: "string list option"
  pr_pinned :: "string option"
  pr_outside :: "bool option"

definition plain_result :: "'o \<Rightarrow> 'o pinned_result" where
  "plain_result ob = \<lparr>pr_seen = ob, pr_addresses = None, pr_pinned = None, pr_outside = None\<rparr>"

definition outside_mark :: "(string \<Rightarrow> bool) \<Rightarrow> (string \<Rightarrow> bool option) \<Rightarrow> bool \<Rightarrow> string \<Rightarrow> string \<Rightarrow> string + bool option" where
  "outside_mark ip6 scope success url location =
     (if location = '''' then Inr None
      else case urljoin ip6 url location of
        None \<Rightarrow> Inl ''ValueError''
      | Some next_url \<Rightarrow>
          (case scope next_url of
             None \<Rightarrow> Inl ''ValueError''
           | Some b \<Rightarrow> Inr (if success \<and> b then None else Some (\<not> b))))"

definition judge_single ::
    "(string \<Rightarrow> bool) \<Rightarrow> (string \<Rightarrow> bool option) \<Rightarrow> (string \<Rightarrow> string \<Rightarrow> int \<Rightarrow> fields \<Rightarrow> string \<Rightarrow> string \<Rightarrow> 'o) \<Rightarrow> ('o \<Rightarrow> string) \<Rightarrow> nat \<Rightarrow> bool
     \<Rightarrow> string \<Rightarrow> string \<Rightarrow> string list \<Rightarrow> string \<Rightarrow> answer \<Rightarrow> string + 'o pinned_result \<times> transport" where
  "judge_single ip6 scope obs seen max_bytes headers_only m url addresses ip a =
     (let mark = (\<lambda>ob out. \<lparr>pr_seen = ob, pr_addresses = Some addresses, pr_pinned = Some ip, pr_outside = out\<rparr>); no_body = (m = ''HEAD'' \<or> headers_only)
      in case a of
           Success st fs body \<Rightarrow>
             (case (if no_body then Inr '''' else body) of
                Inl e \<Rightarrow> Inr (mark (obs m url 0 [] '''' (take 500 e)) None, Transport_Error)
              | Inr data \<Rightarrow>
                  if max_bytes < length data
                  then Inr (mark (obs m url st fs (take max_bytes data) ''response_budget_exceeded'') None, Stopped_For_Safety)
                  else let ob = obs m url st fs data ''''
                    in (case outside_mark ip6 scope True url (seen ob) of Inl e \<Rightarrow> Inl e | Inr out \<Rightarrow> Inr (mark ob out, Transport_Ok)))
         | Http_Failure st fs body \<Rightarrow>
             (case (if no_body then Some '''' else body) of
                None \<Rightarrow> Inl ''response_read_failed''
              | Some data \<Rightarrow>
                  (let ob = obs m url st fs (take max_bytes data) ''http_error''
                   in case outside_mark ip6 scope False url (seen ob) of
                        Inl e \<Rightarrow> Inl e
                      | Inr out \<Rightarrow> Inr (mark ob out, if st = 429 then Stopped_For_Safety else Transport_Ok)))
         | No_Answer e \<Rightarrow> Inr (mark (obs m url 0 [] '''' (take 500 e)) None, Transport_Error)
         | Unhandled e \<Rightarrow> Inl e)"

definition perform_pinned_request ::
    "(string \<Rightarrow> bool) \<Rightarrow> (string \<Rightarrow> bool option) \<Rightarrow> (string \<Rightarrow> bool option) \<Rightarrow> 'w network \<Rightarrow> string set \<Rightarrow> (string \<Rightarrow> (bool \<times> string) option)
     \<Rightarrow> (string \<Rightarrow> string \<Rightarrow> int \<Rightarrow> fields \<Rightarrow> string \<Rightarrow> string \<Rightarrow> 'o) \<Rightarrow> ('o \<Rightarrow> string) \<Rightarrow> nat \<Rightarrow> string \<Rightarrow> bool \<Rightarrow> string \<Rightarrow> string \<Rightarrow> fields \<Rightarrow> 'w
     \<Rightarrow> (string + 'o pinned_result \<times> transport) \<times> 'w \<times> request list" where
  "perform_pinned_request ip6 public scope net safe_methods url_safety obs seen max_bytes version headers_only item_method url item_fields w =
     (let m = py_upper (if item_method = '''' then ''GET'' else item_method); none = (\<lambda>err. obs m url 0 [] '''' err)
      in if m \<notin> safe_methods then (Inr (plain_result (none ''unsafe_method_blocked''), Stopped_For_Safety), w, [])
         else case url_safety url of
           None \<Rightarrow> (Inl ''ValueError'', w, [])
         | Some (False, reason) \<Rightarrow> (Inr (plain_result (none reason), Stopped_For_Safety), w, [])
         | Some (True, _) \<Rightarrow>
             (case urlsplit ip6 url of
                None \<Rightarrow> (Inl ''ValueError'', w, [])
              | Some u \<Rightarrow>
                  (case effective_port u of
                     None \<Rightarrow> (Inl ''ValueError'', w, [])
                   | Some port \<Rightarrow>
                       (case nw_lookup net (hostname_of u) port w of (rows, w1) \<Rightarrow>
                         (case resolve_public_addresses public rows of
                            (False, addresses) \<Rightarrow>
                              (Inr ((plain_result (none ''non_public_resolution_blocked''))\<lparr>pr_addresses := Some addresses\<rparr>, Stopped_For_Safety), w1, [])
                          | (True, addresses) \<Rightarrow>
                              (let rq = \<lparr>rq_method = m, rq_url = url, rq_ip = hd addresses,
                                          rq_fields = updated_fields [(''User-Agent'', ''Recon-Monitor-Safe-Validation/'' @ version),
                                            (''Accept'', ''application/json,text/plain,*/*'')] item_fields\<rparr>
                               in case nw_send net rq w1 of (a, w2) \<Rightarrow>
                                 (judge_single ip6 scope obs seen max_bytes headers_only m url addresses (hd addresses) a, w2, [rq])))))))"

section \<open>The TLS peer\<close>

record 'c tls_result =
  tl_certificate :: "'c option"
  tl_error :: string
  tl_addresses :: "string list"
  tl_pinned :: string

definition fetch_pinned_tls_peer ::
    "(string \<Rightarrow> bool) \<Rightarrow> (string \<Rightarrow> bool option) \<Rightarrow> (string \<Rightarrow> bool option) \<Rightarrow> (string \<Rightarrow> nat \<Rightarrow> 'w \<Rightarrow> string list option \<times> 'w)
     \<Rightarrow> (string \<Rightarrow> nat \<Rightarrow> string \<Rightarrow> 'w \<Rightarrow> (string + 'c) \<times> 'w) \<Rightarrow> string \<Rightarrow> 'w \<Rightarrow> (string + 'c tls_result) \<times> 'w \<times> (string \<times> nat \<times> string) list" where
  "fetch_pinned_tls_peer ip6 public scope lookup peer url w =
     (let candidate = py_strip url; refused = (\<lambda>err addresses. Inr \<lparr>tl_certificate = None, tl_error = err, tl_addresses = addresses, tl_pinned = ''''\<rparr>)
      in case urlsplit ip6 candidate of
           None \<Rightarrow> (Inl ''ValueError'', w, [])
         | Some u \<Rightarrow>
             (case (if py_lower (u_scheme u) = ''https'' \<and> hostname_of u \<noteq> '''' then scope candidate else Some False) of
                None \<Rightarrow> (Inl ''ValueError'', w, [])
              | Some False \<Rightarrow> (refused ''outside_scope_or_not_https'' [], w, [])
              | Some True \<Rightarrow>
                  (case effective_port u of
                     None \<Rightarrow> (Inl ''ValueError'', w, [])
                   | Some port \<Rightarrow>
                       (case lookup (hostname_of u) port w of (rows, w1) \<Rightarrow>
                         (case resolve_public_addresses public rows of
                            (False, addresses) \<Rightarrow> (refused ''non_public_resolution_blocked'' addresses, w1, [])
                          | (True, addresses) \<Rightarrow>
                              (case peer (hd addresses) port (hostname_of u) w1 of
                                 (Inl e, w2) \<Rightarrow> (Inr \<lparr>tl_certificate = None, tl_error = take 500 e, tl_addresses = addresses, tl_pinned = hd addresses\<rparr>, w2,
                                    [(hd addresses, port, hostname_of u)])
                               | (Inr c, w2) \<Rightarrow> (Inr \<lparr>tl_certificate = Some c, tl_error = '''', tl_addresses = addresses, tl_pinned = hd addresses\<rparr>, w2,
                                    [(hd addresses, port, hostname_of u)])))))))"

end
