(* ===== verification/Remote_Worker.thy ===== *)
theory Remote_Worker
  imports Worker_Results Pinned_Transport
begin

text \<open>
  What a remote worker does with a leased task, \<open>src/app/remote_worker.py\<close>: the scope checks, the redirect loop of a
  \<open>HEAD\<close> observation over \<open>perform_pinned_request\<close>, the download over \<open>perform_pinned_download\<close> and its report, and the
  report that is sent back.

  Both transports are those of \<open>Pinned_Transport\<close>, called with the scope policy of the task; \<open>ip6\<close>, \<open>public\<close> and \<open>net\<close> are
  the arguments of that theory, and a function that sends requests also returns the new world and the requests it sent, in
  order.  What the transports hand over are mappings; a body is passed beside them.
\<close>

definition MAX_REDIRECTS :: nat where
  "MAX_REDIRECTS = 3"

definition headers_dict :: "(json \<Rightarrow> string) \<Rightarrow> json \<Rightarrow> (string \<times> string) list" where
  "headers_dict rp hs = (case hs of
     JObj m \<Rightarrow> foldl (\<lambda>acc (k, v). AList.update (py_lower k) (py_str rp v) acc) [] m | _ \<Rightarrow> [])"

text \<open>\<open>int(v or 0)\<close>: the transport's status is an integer or missing.\<close>

definition status_of :: "json \<Rightarrow> int" where
  "status_of v = (case v of JInt i \<Rightarrow> i | _ \<Rightarrow> 0)"

definition list_or_empty :: "json \<Rightarrow> json" where
  "list_or_empty v = (case v of JList vs \<Rightarrow> JList vs | _ \<Rightarrow> JList [])"

definition text_dict :: "fields \<Rightarrow> json" where
  "text_dict fs = JObj (map (\<lambda>(k, v). (k, JText v)) fs)"

fun transport_text :: "transport \<Rightarrow> string" where
  "transport_text Transport_Ok = ''ok''"
| "transport_text Transport_Error = ''error''"
| "transport_text Stopped_For_Safety = ''stopped_for_safety''"

definition SAFE_TRANSPORT_VERSION :: string where
  "SAFE_TRANSPORT_VERSION = ''1.3.0''"

definition WORKER_AGENT :: string where
  "WORKER_AGENT = ''ReconMonitor-Worker/3.0''"

section \<open>Observing headers\<close>

definition lower_dict :: "fields \<Rightarrow> fields" where
  "lower_dict fs = foldl (\<lambda>acc (k, v). AList.update (py_lower k) v acc) [] fs"

definition head_observation :: "string \<Rightarrow> string \<Rightarrow> int \<Rightarrow> fields \<Rightarrow> string \<Rightarrow> string \<Rightarrow> (string \<times> json) list" where
  "head_observation m url st fs body err =
     [(''method'', JText m), (''url'', JText url), (''status_code'', JInt st), (''headers'', text_dict (lower_dict fs)), (''error'', JText err)]"

definition observed_location :: "(string \<times> json) list \<Rightarrow> string" where
  "observed_location ob = (case get (dict_of (get ob ''headers'')) ''location'' of JText l \<Rightarrow> l | _ \<Rightarrow> '''')"

text \<open>The observation with the marks that \<open>perform_pinned_request\<close> sets on it.\<close>

definition observed :: "(string \<times> json) list pinned_result \<Rightarrow> (string \<times> json) list" where
  "observed r = pr_seen r
     @ (case pr_outside r of None \<Rightarrow> [] | Some b \<Rightarrow> [(''redirect_outside_scope'', JBool b)])
     @ (case pr_addresses r of
          None \<Rightarrow> []
        | Some addresses \<Rightarrow> [(''resolved_addresses'', JList (map JText addresses))]
            @ (case pr_pinned r of
                 None \<Rightarrow> [(''dns_rebinding_protection'', JText ''blocked_before_connect'')]
               | Some ip \<Rightarrow> [(''pinned_address'', JText ip), (''dns_rebinding_protection'', JText ''resolution_pinned'')])
            @ [(''environment_proxy_used'', JBool False), (''safe_transport_version'', JText SAFE_TRANSPORT_VERSION)])"

definition head_request ::
    "(string \<Rightarrow> bool) \<Rightarrow> (string \<Rightarrow> bool option) \<Rightarrow> (string \<Rightarrow> bool option) \<Rightarrow> 'w network \<Rightarrow> string \<Rightarrow> 'w
     \<Rightarrow> (string + (string \<times> json) list pinned_result \<times> transport) \<times> 'w \<times> request list" where
  "head_request ip6 public scope net url w =
     perform_pinned_request ip6 public scope net {''HEAD''} (\<lambda>u. map_option (\<lambda>b. (b, ''outside_scope_or_invalid_url'')) (scope u))
       head_observation observed_location 0 ''worker-3.0'' False ''HEAD'' url [(''User-Agent'', WORKER_AGENT)] w"

text \<open>The loop carries the current URL and the chain so far; \<open>n\<close> counts the redirects still allowed.  The result is the last
  answer, the chain and the last URL.\<close>

fun head_loop ::
    "(json \<Rightarrow> string) \<Rightarrow> (string \<Rightarrow> bool) \<Rightarrow> (string \<Rightarrow> bool option) \<Rightarrow> (string \<Rightarrow> bool option) \<Rightarrow> 'w network
     \<Rightarrow> nat \<Rightarrow> string \<Rightarrow> string list \<Rightarrow> 'w \<Rightarrow> (string + (string \<times> json) list \<times> string list \<times> string) \<times> 'w \<times> request list" where
  "head_loop rp ip6 public scope net n current chain w =
     (case head_request ip6 public scope net current w of
        (Inl e, w1, sent) \<Rightarrow> (Inl e, w1, sent)
      | (Inr (res, ts), w1, sent) \<Rightarrow>
          (let answer = obj_set ''transport_status'' (JText (transport_text ts)) (observed res);
               location = py_strip (header (headers_dict rp (get answer ''headers'')) ''location'');
               stop = (\<lambda>err. obj_set ''transport_status'' (JText ''stopped_for_safety'') (obj_set ''error'' (JText err) answer))
           in if status_of (get answer ''status_code'') \<notin> {301, 302, 303, 307, 308} \<or> location = ''''
              then (Inr (answer, chain, current), w1, sent)
              else case urljoin ip6 current location of
                None \<Rightarrow> (Inl ''ValueError'', w1, sent)
              | Some url \<Rightarrow>
                  (case scope url of
                     None \<Rightarrow> (Inl ''ValueError'', w1, sent)
                   | Some False \<Rightarrow> (Inr (obj_set ''redirect_outside_scope'' (JBool True) (stop ''redirect_outside_scope''), chain, current), w1, sent)
                   | Some True \<Rightarrow>
                       (case n of
                          0 \<Rightarrow> (Inr (stop ''redirect_limit_exceeded'', chain, current), w1, sent)
                        | Suc m \<Rightarrow>
                            (case head_loop rp ip6 public scope net m url (chain @ [url]) w1 of
                               (r, w2, sent') \<Rightarrow> (r, w2, sent @ sent'))))))"

declare head_loop.simps [simp del]

definition text_or_else :: "(json \<Rightarrow> string) \<Rightarrow> string \<Rightarrow> json \<Rightarrow> json" where
  "text_or_else rp d v = JText (if truthy v then py_str rp v else d)"

definition url_or :: "(string \<Rightarrow> string option) \<Rightarrow> string \<Rightarrow> json" where
  "url_or nu u = JText (case nu u of None \<Rightarrow> u | Some v \<Rightarrow> if v = '''' then u else v)"

definition head_report :: "(json \<Rightarrow> string) \<Rightarrow> (string \<Rightarrow> string option) \<Rightarrow> (string \<times> json) list \<Rightarrow> string list \<Rightarrow> string \<Rightarrow> (string \<times> json) list" where
  "head_report rp nu answer chain current =
     (let hs = headers_dict rp (get answer ''headers'')
      in [(''url'', url_or nu current), (''status_code'', JInt (status_of (get answer ''status_code''))),
        (''content_type'', JText (header hs ''content-type'')), (''content_length'', JInt 0), (''truncated'', JBool False),
        (''transport_status'', text_or_else rp ''error'' (get answer ''transport_status'')),
        (''transport_error'', text_or_else rp '''' (get answer ''error'')),
        (''retry_after'', JText (header hs ''retry-after'')),
        (''redirect_outside_scope'', JBool (truthy (get answer ''redirect_outside_scope''))),
        (''redirect_chain'', JList (map JText chain)),
        (''resolved_addresses'', list_or_empty (get answer ''resolved_addresses'')),
        (''pinned_address'', text_or_else rp '''' (get answer ''pinned_address'')),
        (''dns_rebinding_protection'', text_or_else rp '''' (get answer ''dns_rebinding_protection'')),
        (''environment_proxy_used'', JBool (truthy (get answer ''environment_proxy_used'')))])"

definition execute_head ::
    "(json \<Rightarrow> string) \<Rightarrow> (string \<Rightarrow> bool) \<Rightarrow> (string \<Rightarrow> bool option) \<Rightarrow> (string \<Rightarrow> bool option) \<Rightarrow> 'w network \<Rightarrow> string \<Rightarrow> 'w
     \<Rightarrow> (string + (string \<times> json) list) \<times> 'w \<times> request list" where
  "execute_head rp ip6 public scope net url w =
     (case head_loop rp ip6 public scope net MAX_REDIRECTS url [] w of
        (r, w', sent) \<Rightarrow> (map_sum id (\<lambda>(answer, chain, current). head_report rp (normalize_url ip6 True) answer chain current) r, w', sent))"

section \<open>Reporting a download\<close>

definition hop_url :: "(json \<Rightarrow> string) \<Rightarrow> json \<Rightarrow> json list" where
  "hop_url rp hop = (case hop of
     JObj h \<Rightarrow> [if truthy (get h ''next_url'') then JText (py_str rp (get h ''next_url'')) else text_or_else rp '''' (get h ''url'')] | _ \<Rightarrow> [])"

definition hops_of :: "json \<Rightarrow> json list" where
  "hops_of v = (case v of JList vs \<Rightarrow> vs | _ \<Rightarrow> [])"

definition report_fields ::
    "(json \<Rightarrow> string) \<Rightarrow> (string \<Rightarrow> string option) \<Rightarrow> string \<Rightarrow> (string \<times> json) list \<Rightarrow> (string \<times> string) list \<Rightarrow> bytes
     \<Rightarrow> int \<Rightarrow> string \<Rightarrow> string \<Rightarrow> (string \<times> json) list" where
  "report_fields rp nu url res hs data st transport err =
     [(''url'', url_or nu (if truthy (get res ''final_url'') then py_str rp (get res ''final_url'') else url)),
      (''status_code'', JInt st),
      (''content_type'', JText (header hs ''content-type'')), (''content_length'', JInt (int (length data))),
      (''content_range'', JText (header hs ''content-range'')), (''etag'', JText (header hs ''etag'')),
      (''last_modified'', JText (header hs ''last-modified'')), (''truncated'', JBool (err = ''response_budget_exceeded'')),
      (''transport_status'', JText transport), (''transport_error'', JText err),
      (''retry_after'', JText (header hs ''retry-after'')),
      (''redirect_outside_scope'', JBool (truthy (get res ''redirect_outside_scope''))),
      (''redirect_chain'', JList (concat (map (hop_url rp) (hops_of (get res ''transport_hops''))))),
      (''resolved_addresses'', list_or_empty (get res ''resolved_addresses'')),
      (''pinned_address'', text_or_else rp '''' (get res ''pinned_address'')),
      (''dns_rebinding_protection'', text_or_else rp '''' (get res ''dns_rebinding_protection'')),
      (''environment_proxy_used'', JBool (truthy (get res ''environment_proxy_used'')))]"

definition download_report ::
    "(bytes \<Rightarrow> string) \<Rightarrow> (json \<Rightarrow> string) \<Rightarrow> (string \<Rightarrow> string option) \<Rightarrow> string \<Rightarrow> (string \<times> json) list \<Rightarrow> bytes option
     \<Rightarrow> artifact_error + (string \<times> json) list" where
  "download_report sha rp nu url res body =
     (let hs = headers_dict rp (get res ''headers'');
          data = (case body of None \<Rightarrow> [] | Some d \<Rightarrow> d);
          err = text_or_empty rp (get res ''error'');
          status = status_of (get res ''status_code'');
          transport = (if truthy (get res ''transport_status'') then py_str rp (get res ''transport_status'') else ''error'');
          report = report_fields rp nu url res hs data status transport err
      in if transport = ''ok'' \<and> 200 \<le> status \<and> status < 300 \<and> err = '''' then
           (if body = None
            then Inr (obj_set ''transport_error'' (JText ''Remote download body is missing'') (obj_set ''transport_status'' (JText ''error'') report))
            else if complete_download status hs data
            then map_sum id (\<lambda>a. report @ [(''artifact'', JObj a)]) (encode_artifact sha data)
            else Inr (obj_set ''truncated'' (JBool True) (obj_set ''transport_error'' (JText ''incomplete_download'')
                   (obj_set ''transport_status'' (JText ''stopped_for_safety'') report))))
         else Inr report)"

text \<open>The mapping of \<open>_transport_result\<close>, and the entries of its hop log.\<close>

definition hop_fields :: "hop \<Rightarrow> json" where
  "hop_fields h = JObj ([(''url'', JText (hp_url h)), (''resolved_addresses'', JList (map JText (hp_addresses h))),
       (''pinned_address'', JText (hp_pinned h)), (''status_code'', JInt (hp_status h))]
     @ (case hp_next h of None \<Rightarrow> [] | Some (location, url) \<Rightarrow> [(''location'', JText location), (''next_url'', JText url)])
     @ [(''result'', JText (hp_result h))])"

definition transport_fields :: "transport_result \<Rightarrow> (string \<times> json) list" where
  "transport_fields t =
     [(''url'', JText (tr_url t)), (''final_url'', JText (tr_final t)), (''status_code'', JInt (tr_status t)), (''headers'', text_dict (tr_fields t)),
      (''error'', JText (tr_error t)), (''transport_status'', JText (transport_text (tr_transport t))),
      (''resolved_addresses'', JList (map JText (tr_addresses t))), (''pinned_address'', JText (tr_pinned t)),
      (''transport_hops'', JList (map hop_fields (tr_hops t))), (''redirect_outside_scope'', JBool (tr_outside t)),
      (''dns_rebinding_protection'', JText (if tr_transport t \<noteq> Stopped_For_Safety then ''resolution_pinned_each_hop'' else ''blocked_before_unsafe_connect'')),
      (''environment_proxy_used'', JBool False), (''safe_transport_version'', JText SAFE_TRANSPORT_VERSION)]"

section \<open>Executing a task\<close>

text \<open>An error is a \<open>ReconError\<close> (\<open>Invalid_Task\<close>) or another exception.\<close>

datatype task_error = Invalid_Task string | Other_Exception string

text \<open>The download has no hook before its requests, so the gate of the network is open.\<close>

definition execute_download ::
    "(bytes \<Rightarrow> string) \<Rightarrow> (json \<Rightarrow> string) \<Rightarrow> (string \<Rightarrow> bool) \<Rightarrow> (string \<Rightarrow> bool option) \<Rightarrow> (string \<Rightarrow> bool option) \<Rightarrow> 'w network \<Rightarrow> string \<Rightarrow> int \<Rightarrow> 'w
     \<Rightarrow> (task_error + (string \<times> json) list) \<times> 'w \<times> request list" where
  "execute_download sha rp ip6 public scope net url max_bytes w =
     (case perform_pinned_download ip6 public scope (net\<lparr>nw_gate := \<lambda>_ w. (None, w)\<rparr>) max_bytes (int MAX_REDIRECTS) WORKER_AGENT [] url w of
        (r, w', sent) \<Rightarrow>
          (case r of
             Inl e \<Rightarrow> Inl (Other_Exception e)
           | Inr t \<Rightarrow> map_sum (Invalid_Task \<circ> error_text) id
               (download_report sha rp (normalize_url ip6 True) url (transport_fields t) (Some (tr_data t))), w', sent))"

text \<open>The policy of the task guards its own URL and goes to the transports, which ask it about every redirect.\<close>

definition execute_task ::
    "(bytes \<Rightarrow> string) \<Rightarrow> (json \<Rightarrow> string) \<Rightarrow> (string \<Rightarrow> (string \<Rightarrow> bool) option) \<Rightarrow> (policy_error \<Rightarrow> string) \<Rightarrow> (string \<Rightarrow> bool) \<Rightarrow> (string \<Rightarrow> bool option)
     \<Rightarrow> 'w network \<Rightarrow> (string \<times> json) list \<Rightarrow> 'w \<Rightarrow> (task_error + (string \<times> json) list) \<times> 'w \<times> request list" where
  "execute_task sha rp rs say ip6 public net payload w =
     (let kind = py_str rp (get_or payload ''kind'' (JText '''')); url = py_str rp (get_or payload ''url'' (JText ''''))
      in if kind \<notin> set WORKER_CAPABILITIES then (Inl (Invalid_Task (''Unsupported remote task kind: '' @ kind)), w, [])
         else case task_scope_policy rp rs payload of
           Inl e \<Rightarrow> (Inl (Invalid_Task (say e)), w, [])
         | Inr p \<Rightarrow>
             (case remote_url_in_scope rs ip6 p url of
                None \<Rightarrow> (Inl (Other_Exception ''ValueError''), w, [])
              | Some False \<Rightarrow> (Inl (Invalid_Task ''Remote task URL is outside its declared scope policy''), w, [])
              | Some True \<Rightarrow>
                  if kind = ''http_head''
                  then (case execute_head rp ip6 public (remote_url_in_scope rs ip6 p) net url w of
                          (r, w', sent) \<Rightarrow> (map_sum Other_Exception id r, w', sent))
                  else (case download_limit payload of
                      Inl e \<Rightarrow> (Inl (Invalid_Task (error_text e)), w, [])
                    | Inr cap \<Rightarrow> execute_download sha rp ip6 public (remote_url_in_scope rs ip6 p) net url cap w)))"

text \<open>The report posted to the controller for one claimed item.\<close>

definition worker_report :: "json \<Rightarrow> string \<Rightarrow> string \<Rightarrow> worker_outcome \<Rightarrow> json \<Rightarrow> (string \<times> json) list" where
  "worker_report work_id worker token outcome result =
     [(''id'', work_id), (''worker_id'', JText worker), (''lease_token'', JText token), (''ok'', JBool (wo_ok outcome)),
      (''retry'', JBool (wo_retry outcome)), (''error'', JText (wo_error outcome)), (''result'', result)]"

text \<open>The controller's judgement is asked for the host of a URL after \<open>normalize_url\<close>.\<close>

definition normal_host :: "(string \<Rightarrow> bool) \<Rightarrow> string \<Rightarrow> string option" where
  "normal_host ip6 url = (case normalize_url ip6 True url of None \<Rightarrow> None | Some n \<Rightarrow> host_of_normal ip6 n)"

definition run_claimed ::
    "(bytes \<Rightarrow> string) \<Rightarrow> (json \<Rightarrow> string) \<Rightarrow> (string \<Rightarrow> (string \<Rightarrow> bool) option) \<Rightarrow> (policy_error \<Rightarrow> string) \<Rightarrow> (string \<Rightarrow> int option) \<Rightarrow> (string \<Rightarrow> bool)
     \<Rightarrow> (string \<Rightarrow> bool option) \<Rightarrow> 'w network \<Rightarrow> string \<Rightarrow> (string \<times> json) list \<Rightarrow> 'w \<Rightarrow> (string + (string \<times> json) list) \<times> 'w \<times> request list" where
  "run_claimed sha rp rs say http_date ip6 public net worker work w =
     (let token = text_or_empty rp (get work ''lease_token'');
          payload = dict_of (safe_json_loads (get work ''payload_json'') (JObj []) (Some Dict_Kind))
      in if token = '''' then (Inl ''Remote work claim did not include a lease token'', w, [])
         else case execute_task sha rp rs say ip6 public net payload w of
           (r, w', sent) \<Rightarrow> (Inr (case r of
               Inl (Invalid_Task e) \<Rightarrow> worker_report (get work ''id'') worker token (worker_failure e False ''invalid_task'') JNull
             | Inl (Other_Exception e) \<Rightarrow> worker_report (get work ''id'') worker token (worker_failure e True ''worker_exception'') JNull
             | Inr res \<Rightarrow> worker_report (get work ''id'') worker token
                 (classify_worker_result sha rp rs say (normal_host ip6) http_date payload (JObj res)) (JObj res)), w', sent))"

end
