(* ===== verification/Pinned_Transport_Facts.thy ===== *)
theory Pinned_Transport_Facts
  imports Pinned_Transport
begin

text \<open>
  What the pinned transport guarantees, whatever the network answers: each request goes to a public address found for the
  host of a URL in scope, their number and the data kept are bounded, credentials stay with the origin they were meant
  for, and a chain that began with HTTPS stays there.
\<close>

section \<open>One step of the loop\<close>

lemma dedup_set: "set (dedup xs) = set xs"
  by (induction xs) auto

lemma resolved:
  "resolve_public_addresses public rows = (True, addresses) \<Longrightarrow>
   \<exists>found. rows = Some found \<and> addresses \<noteq> [] \<and> set addresses = set found \<and> (\<forall>a \<in> set found. public a = Some True)"
  by (auto simp: resolve_public_addresses_def Let_def list_all_iff dedup_set split: option.splits)

text \<open>A request that the policy allows: \<open>w\<close> is the world in which the name was looked up.\<close>

definition permitted :: "(string \<Rightarrow> bool) \<Rightarrow> (string \<Rightarrow> bool option) \<Rightarrow> (string \<Rightarrow> bool option) \<Rightarrow> (string \<Rightarrow> nat \<Rightarrow> 'w \<Rightarrow> string list option \<times> 'w) \<Rightarrow> request \<Rightarrow> bool" where
  "permitted ip6 public scope lookup rq \<longleftrightarrow>
     (\<exists>u port w found. urlsplit ip6 (rq_url rq) = Some u \<and> scope (rq_url rq) = Some True \<and> effective_port u = Some port
        \<and> fst (lookup (hostname_of u) port w) = Some found \<and> rq_ip rq \<in> set found \<and> (\<forall>a \<in> set found. public a = Some True))"

definition get_request :: "string \<Rightarrow> fields \<Rightarrow> string \<Rightarrow> string \<Rightarrow> request" where
  "get_request agent active url ip = \<lparr>rq_method = ''GET'', rq_url = url, rq_ip = ip,
     rq_fields = updated_fields [(''User-Agent'', agent), (''Accept'', ''*/*'')] active\<rparr>"

lemma download_cases:
  assumes "download_loop ip6 public scope net max_bytes agent original n current active hops w = (r, w', sent)"
  obtains (quiet) "sent = []" "\<forall>t. r = Inr t \<longrightarrow> tr_data t = ''''"
  | (one) addresses a where "permitted ip6 public scope (nw_lookup net) (get_request agent active current (hd addresses))" "\<exists>u. urlsplit ip6 current = Some u \<and> http_scheme u"
      "sent = [get_request agent active current (hd addresses)]"
      "\<forall>t. r = Inr t \<longrightarrow> judge_answer ip6 scope max_bytes (n = 0) original current addresses (hd addresses) hops a = Inr (Inl t) \<or> tr_data t = ''''"
  | (redirect) addresses a m url hops' w1 sent' where
      "permitted ip6 public scope (nw_lookup net) (get_request agent active current (hd addresses))" "\<exists>u. urlsplit ip6 current = Some u \<and> http_scheme u"
      "sent = get_request agent active current (hd addresses) # sent'" "n = Suc m"
      "judge_answer ip6 scope max_bytes False original current addresses (hd addresses) hops a = Inr (Inr (url, hops'))"
      "download_loop ip6 public scope net max_bytes agent original m url (redirect_headers ip6 active current url) hops' w1 = (r, w', sent')"
proof (cases "urlsplit ip6 current")
  case None
  with assms show thesis by (intro quiet) (auto simp: download_loop.simps)
next
  case (Some u)
  note u = this
  define ok where "ok = (if http_scheme u \<and> hostname_of u \<noteq> '''' then scope current else Some False)"
  note h = assms[unfolded download_loop.simps[of ip6 public scope net max_bytes agent original n] u option.case, folded ok_def]
  show thesis
  proof (cases ok)
    case None
    with h show thesis by (intro quiet) auto
  next
    case (Some b)
    note ok = this
    show thesis
    proof (cases b)
      case False
      with h ok show thesis by (intro quiet) (auto simp: stopped_def)
    next
      case True
      have scope: "http_scheme u" "scope current = Some True" using ok True unfolding ok_def by (auto split: if_splits)
      have b: "b = True" using True by simp
      note h = h[unfolded ok b option.case bool.case]
      show thesis
      proof (cases "effective_port u")
        case None
        with h show thesis by (intro quiet) auto
      next
        case (Some port)
        note port = this
        obtain rows w1 where l: "nw_lookup net (hostname_of u) port w = (rows, w1)" by fastforce
        obtain ok2 addresses where res: "resolve_public_addresses public rows = (ok2, addresses)" by fastforce
        note h = h[unfolded port option.case l prod.case res]
        show thesis
        proof (cases ok2)
          case False
          with h show thesis by (intro quiet) (auto simp: stopped_def)
        next
          case True
          have ok2: "ok2 = True" using True by simp
          note h = h[unfolded ok2 bool.case]
          obtain g w2 where g: "nw_gate net current w1 = (g, w2)" by fastforce
          note h = h[unfolded g prod.case]
          show thesis
          proof (cases g)
            case (Some e)
            with h show thesis by (intro quiet) auto
          next
            case None
            let ?rq = "get_request agent active current (hd addresses)"
            note h = h[unfolded None option.case Let_def, folded get_request_def]
            obtain a w3 where a: "nw_send net ?rq w2 = (a, w3)" by fastforce
            note h = h[unfolded a prod.case]
            obtain found where found: "rows = Some found" "addresses \<noteq> []" "set addresses = set found" "\<forall>x \<in> set found. public x = Some True"
              using resolved[OF res[unfolded ok2]] by blast
            have "hd addresses \<in> set found" using found(2,3) hd_in_set by blast
            then have p: "permitted ip6 public scope (nw_lookup net) ?rq"
              unfolding permitted_def get_request_def request.simps using u scope(2) port l found(1,4) by (metis fst_conv)
            have http: "\<exists>u. urlsplit ip6 current = Some u \<and> http_scheme u" using u scope(1) by blast
            obtain j where j: "judge_answer ip6 scope max_bytes (n = 0) original current addresses (hd addresses) hops a = j" by blast
            note h = h[unfolded j]
            show thesis
            proof (cases j)
              case (Inl e)
              with h show thesis by (intro one[OF p http]) auto
            next
              case (Inr x)
              note x = this
              show thesis
              proof (cases x)
                case (Inl t)
                with h j x show thesis by (intro one[OF p http, of a]) auto
              next
                case (Inr y)
                obtain url hops' where y: "y = (url, hops')" by fastforce
                note h = h[unfolded x Inr y sum.case prod.case]
                show thesis
                proof (cases n)
                  case 0
                  with h show thesis by (intro one[OF p http, of a]) (auto simp: stopped_def)
                next
                  case (Suc m)
                  obtain r2 w4 sent' where rec: "download_loop ip6 public scope net max_bytes agent original m url (redirect_headers ip6 active current url) hops' w3 = (r2, w4, sent')"
                    by (metis prod.exhaust)
                  from h Suc rec have "r = r2" "w' = w4" "sent = ?rq # sent'" by simp_all
                  with rec j x Inr y Suc show thesis by (intro redirect[OF p http, of sent' m a url hops' w3]) simp_all
                qed
              qed
            qed
          qed
        qed
      qed
    qed
  qed
qed

lemma judge_redirect_facts:
  assumes "judge_answer ip6 scope max_bytes final original current addresses ip hops a = Inr (Inr (url, hops'))"
  shows "scope url = Some True \<and> (\<exists>c u. urlsplit ip6 current = Some c \<and> urlsplit ip6 url = Some u
    \<and> \<not> (py_lower (u_scheme c) = ''https'' \<and> py_lower (u_scheme u) = ''http''))"
  using assms by (auto simp: judge_answer_def judge_redirect_def Let_def split: answer.splits sum.splits if_splits option.splits bool.splits)

lemma judge_data: "judge_answer ip6 scope max_bytes final original current addresses ip hops a = Inr (Inl t) \<Longrightarrow> length (tr_data t) \<le> max_bytes"
  by (auto simp: judge_answer_def judge_redirect_def Let_def split: answer.splits sum.splits if_splits option.splits bool.splits)


section \<open>Whole downloads\<close>

text \<open>An induction over the loop: what holds of the first request and is kept by a redirect holds of all.\<close>

lemma download_all:
  assumes "download_loop ip6 public scope net max_bytes agent original n current active hops w = (r, w', sent)" "J current active"
    and one: "\<And>current active ip. J current active \<Longrightarrow> permitted ip6 public scope (nw_lookup net) (get_request agent active current ip) \<Longrightarrow>
      \<exists>u. urlsplit ip6 current = Some u \<and> http_scheme u \<Longrightarrow> Q (get_request agent active current ip)"
    and again: "\<And>current active url c u. J current active \<Longrightarrow> urlsplit ip6 current = Some c \<Longrightarrow> http_scheme c \<Longrightarrow> urlsplit ip6 url = Some u \<Longrightarrow>
      \<not> (py_lower (u_scheme c) = ''https'' \<and> py_lower (u_scheme u) = ''http'') \<Longrightarrow> scope url = Some True \<Longrightarrow> J url (redirect_headers ip6 active current url)"
  shows "\<forall>rq \<in> set sent. Q rq"
  using assms(1,2)
proof (induction n arbitrary: current active hops w r w' sent rule: less_induct)
  case (less n)
  from less.prems(1) show ?case
  proof (cases rule: download_cases)
    case quiet
    then show ?thesis by simp
  next
    case (one addresses a)
    with assms(3)[OF less.prems(2)] show ?thesis by simp
  next
    case (redirect addresses a m url hops' w1 sent')
    obtain c u where cu: "urlsplit ip6 current = Some c" "urlsplit ip6 url = Some u" "scope url = Some True"
      "\<not> (py_lower (u_scheme c) = ''https'' \<and> py_lower (u_scheme u) = ''http'')" using judge_redirect_facts[OF redirect(5)] by blast
    have "http_scheme c" using redirect(2) cu(1) by simp
    from less.IH[OF _ redirect(6) again[OF less.prems(2) cu(1) this cu(2,4,3)]] redirect(4) assms(3)[OF less.prems(2) redirect(1,2)] redirect(3)
    show ?thesis by simp
  qed
qed

lemma download_bounds:
  assumes "download_loop ip6 public scope net max_bytes agent original n current active hops w = (r, w', sent)"
  shows "length sent \<le> Suc n \<and> (\<forall>t. r = Inr t \<longrightarrow> length (tr_data t) \<le> max_bytes)"
  using assms
proof (induction n arbitrary: current active hops w r w' sent rule: less_induct)
  case (less n)
  from less.prems show ?case
  proof (cases rule: download_cases)
    case quiet
    then show ?thesis by auto
  next
    case (one addresses a)
    have "length (tr_data t) \<le> max_bytes" if "r = Inr t" for t
      using one(4) that judge_data[of ip6 scope max_bytes "n = 0" original current addresses "hd addresses" hops a t] by auto
    with one(3) show ?thesis by simp
  next
    case (redirect addresses a m url hops' w1 sent')
    from less.IH[OF _ redirect(6)] redirect(3,4) show ?thesis by simp
  qed
qed

lemma updated_keys: "(k, v) \<in> set (updated_fields base hs) \<Longrightarrow> k \<in> fst ` set base \<or> k \<in> fst ` set hs"
proof -
  have "fst ` set (updated_fields base hs) \<subseteq> fst ` set base \<union> fst ` set hs"
  proof (induction hs arbitrary: base)
    case (Cons x hs)
    obtain k v where x: "x = (k, v)" by fastforce
    have "updated_fields base (x # hs) = updated_fields (AList.update k v base) hs" by (simp add: updated_fields_def x)
    moreover have "fst ` set (AList.update k v base) = insert k (fst ` set base)" using dom_update[of k v base] by simp
    ultimately show ?case using Cons.IH[of "AList.update k v base"] x by auto
  qed (simp add: updated_fields_def)
  then show "(k, v) \<in> set (updated_fields base hs) \<Longrightarrow> k \<in> fst ` set base \<or> k \<in> fst ` set hs" by force
qed

lemma every_request_permitted:
  assumes "perform_pinned_download ip6 public scope net max_bytes max_redirects agent hs url w = (r, w', sent)" "rq \<in> set sent"
  shows "rq_method rq = ''GET'' \<and> permitted ip6 public scope (nw_lookup net) rq \<and> (\<exists>u. urlsplit ip6 (rq_url rq) = Some u \<and> http_scheme u)"
proof -
  have "\<forall>rq \<in> set sent. rq_method rq = ''GET'' \<and> permitted ip6 public scope (nw_lookup net) rq \<and> (\<exists>u. urlsplit ip6 (rq_url rq) = Some u \<and> http_scheme u)"
    by (rule download_all[OF assms(1)[unfolded perform_pinned_download_def Let_def], where J = "\<lambda>_ _. True"]) (auto simp: get_request_def)
  with assms(2) show ?thesis by blast
qed

text \<open>C28: whatever the network answers, and however the answers of the name service change between two questions, every
  request of a download is a GET for an HTTP URL in scope, sent to an address that was found for the host of this very URL by
  a lookup all of whose addresses are public.\<close>

theorem every_request_is_permitted:
  assumes "perform_pinned_download ip6 public scope net max_bytes max_redirects agent hs url w = (r, w', sent)" "rq \<in> set sent"
  shows "rq_method rq = ''GET'' \<and> permitted ip6 public scope (nw_lookup net) rq \<and> (\<exists>u. urlsplit ip6 (rq_url rq) = Some u \<and> http_scheme u)"
  by (rule every_request_permitted[OF assms])

text \<open>A download sends at most one request more than the redirects it was allowed, never more than eleven, and never
  keeps more data than its budget.\<close>

theorem downloads_are_bounded:
  assumes "perform_pinned_download ip6 public scope net max_bytes max_redirects agent hs url w = (r, w', sent)"
  shows "int (length sent) \<le> max 0 max_redirects + 1 \<and> length sent \<le> 11 \<and> (\<forall>t. r = Inr t \<longrightarrow> int (length (tr_data t)) \<le> max 0 max_bytes)"
  using download_bounds[OF assms[unfolded perform_pinned_download_def Let_def]] by fastforce

text \<open>C29: a header that carries a credential, that is any header but the two of the transport and the ones that may be
  forwarded, is only sent to the origin (scheme, host and port) of the URL the download was asked for, however the redirects go.\<close>

theorem credentials_stay_with_their_origin:
  assumes "perform_pinned_download ip6 public scope net max_bytes max_redirects agent hs url w = (r, w', sent)"
    "rq \<in> set sent" "(k, v) \<in> set (rq_fields rq)" "k \<noteq> ''User-Agent''" "k \<noteq> ''Accept''" "\<not> forwardable k"
  shows "origin_of ip6 (rq_url rq) = origin_of ip6 (py_strip url)"
proof -
  let ?o = "origin_of ip6 (py_strip url)"
  let ?J = "\<lambda>(current :: string) (active :: fields). origin_of ip6 current = ?o \<or> (\<forall>kv \<in> set active. forwardable (fst kv))"
  have "\<forall>rq \<in> set sent. origin_of ip6 (rq_url rq) = ?o \<or> (\<forall>k v. (k, v) \<in> set (rq_fields rq) \<longrightarrow> k = ''User-Agent'' \<or> k = ''Accept'' \<or> forwardable k)"
  proof (rule download_all[OF assms(1)[unfolded perform_pinned_download_def Let_def], where J = ?J])
    show "?J (py_strip url) hs" by simp
  next
    fix current ip :: string and active :: fields assume "?J current active"
    then show "origin_of ip6 (rq_url (get_request agent active current ip)) = ?o
        \<or> (\<forall>k v. (k, v) \<in> set (rq_fields (get_request agent active current ip)) \<longrightarrow> k = ''User-Agent'' \<or> k = ''Accept'' \<or> forwardable k)"
      by (auto simp: get_request_def dest!: updated_keys)
  next
    fix current url' :: string and active :: fields assume "?J current active"
    then show "?J url' (redirect_headers ip6 active current url')" by (auto simp: redirect_headers_def same_origin_def)
  qed
  with assms(2-6) show ?thesis by blast
qed

text \<open>A download that was asked for over HTTPS sends every request over HTTPS.\<close>

theorem https_is_never_left:
  assumes "perform_pinned_download ip6 public scope net max_bytes max_redirects agent hs url w = (r, w', sent)"
    "urlsplit ip6 (py_strip url) = Some u0" "py_lower (u_scheme u0) = ''https''" "rq \<in> set sent"
  shows "\<exists>u. urlsplit ip6 (rq_url rq) = Some u \<and> py_lower (u_scheme u) = ''https''"
proof -
  have "\<forall>rq \<in> set sent. \<exists>u. urlsplit ip6 (rq_url rq) = Some u \<and> py_lower (u_scheme u) = ''https''"
  proof (rule download_all[OF assms(1)[unfolded perform_pinned_download_def Let_def],
        where J = "\<lambda>current _. \<exists>u. urlsplit ip6 current = Some u \<and> (http_scheme u \<longrightarrow> py_lower (u_scheme u) = ''https'')"])
    show "\<exists>u. urlsplit ip6 (py_strip url) = Some u \<and> (http_scheme u \<longrightarrow> py_lower (u_scheme u) = ''https'')" using assms(2,3) by simp
  qed (auto simp: get_request_def http_scheme_def)
  with assms(4) show ?thesis by blast
qed

text \<open>C31: with the scope rules of a policy, the host that a download contacts is itself in scope: for a request whose URL has no
  bracket and no blank at its ends, the name that was looked up is one the host rules admit.\<close>

theorem contacted_hosts_are_in_scope:
  assumes "perform_pinned_download ip6 public (url_in_scope rs ip6 p) net max_bytes max_redirects agent hs url w = (r, w', sent)" "rq \<in> set sent"
    "CHR ''['' \<notin> set (rq_url rq)" "py_strip (rq_url rq) = rq_url rq"
  shows "\<exists>u. urlsplit ip6 (rq_url rq) = Some u \<and> host_in_scope rs p (normalize_host (hostname_of u)) = Some True"
proof -
  from every_request_permitted[OF assms(1,2)] obtain u where u: "urlsplit ip6 (rq_url rq) = Some u" "url_in_scope rs ip6 p (rq_url rq) = Some True"
    by (auto simp: permitted_def)
  with url_scope_host[OF plain_hostI[OF assms(3), of ip6], of rs p] assms(4) show ?thesis by (auto split: if_splits)
qed


section \<open>Examples\<close>

text \<open>A name service that gives one public address, and a server that redirects its first visitor.\<close>

definition demo_net :: "string \<Rightarrow> nat network" where
  "demo_net target = \<lparr>nw_lookup = (\<lambda>_ _ w. (Some [''93.1.1.1''], w)), nw_gate = (\<lambda>_ w. (None, w)),
     nw_send = (\<lambda>_ w. (if w = 0 then Http_Failure 302 [(''location'', target)] None else Success 200 [] (Inr ''hi''), Suc w))\<rparr>"

definition demo_download :: "string \<Rightarrow> string \<Rightarrow> (string + transport_result) \<times> nat \<times> request list" where
  "demo_download target url = perform_pinned_download (\<lambda>_. False) (\<lambda>a. Some (a = ''93.1.1.1'')) (\<lambda>u. Some (startswith u ''http'')) (demo_net target)
     10 3 ''ua'' [(''Cookie'', ''s''), (''Range'', ''r'')] url 0"

lemma demo_run:
  "\<exists>r w q p. demo_download ''https://b.cd/x'' ''https://a.cd/'' = (r, w, [q, p]) \<and> rq_url p = ''https://b.cd/x'' \<and> rq_url q = ''https://a.cd/''
     \<and> (''Cookie'', ''s'') \<in> set (rq_fields q)"
proof -
  have "case demo_download ''https://b.cd/x'' ''https://a.cd/'' of (r, w, sent) \<Rightarrow>
    (case sent of [q, p] \<Rightarrow> rq_url p = ''https://b.cd/x'' \<and> rq_url q = ''https://a.cd/'' \<and> list_ex (\<lambda>x. x = (''Cookie'', ''s'')) (rq_fields q) | _ \<Rightarrow> False)"
    by code_simp
  then show ?thesis by (auto split: prod.splits list.splits simp: list_ex_iff list_all_iff)
qed

theorem every_request_is_permitted_witness:
  "\<exists>r w q p. demo_download ''https://b.cd/x'' ''https://a.cd/'' = (r, w, [q, p]) \<and> rq_method p = ''GET'' \<and> rq_url p = ''https://b.cd/x''"
proof -
  from demo_run obtain r w q p where d: "demo_download ''https://b.cd/x'' ''https://a.cd/'' = (r, w, [q, p])" "rq_url p = ''https://b.cd/x''" by blast
  from every_request_is_permitted[OF d(1)[unfolded demo_download_def], of p] d show ?thesis by auto
qed

theorem downloads_are_bounded_witness:
  "\<exists>r w sent. demo_download ''https://b.cd/x'' ''https://a.cd/'' = (r, w, sent) \<and> length sent = 2 \<and> int (length sent) \<le> 4"
proof -
  from demo_run obtain r w q p where d: "demo_download ''https://b.cd/x'' ''https://a.cd/'' = (r, w, [q, p])" by blast
  from downloads_are_bounded[OF d[unfolded demo_download_def]] d show ?thesis by auto
qed

theorem credentials_stay_with_their_origin_witness:
  "\<exists>r w q p. demo_download ''https://b.cd/x'' ''https://a.cd/'' = (r, w, [q, p]) \<and> origin_of (\<lambda>_. False) (rq_url q) = origin_of (\<lambda>_. False) (py_strip ''https://a.cd/'')"
proof -
  from demo_run obtain r w q p where d: "demo_download ''https://b.cd/x'' ''https://a.cd/'' = (r, w, [q, p])" "(''Cookie'', ''s'') \<in> set (rq_fields q)" by blast
  have "\<not> forwardable ''Cookie''" by code_simp
  from credentials_stay_with_their_origin[OF d(1)[unfolded demo_download_def] _ d(2) _ _ this] d(1) show ?thesis by auto
qed

theorem https_is_never_left_witness:
  "\<exists>r w q p. demo_download ''https://b.cd/x'' ''https://a.cd/'' = (r, w, [q, p]) \<and> (\<exists>u. urlsplit (\<lambda>_. False) (rq_url p) = Some u \<and> py_lower (u_scheme u) = ''https'')"
proof -
  from demo_run obtain r w q p where d: "demo_download ''https://b.cd/x'' ''https://a.cd/'' = (r, w, [q, p])" by blast
  have "case urlsplit (\<lambda>_. False) (py_strip ''https://a.cd/'') of None \<Rightarrow> False | Some u \<Rightarrow> py_lower (u_scheme u) = ''https''" by code_simp
  then obtain u where "urlsplit (\<lambda>_. False) (py_strip ''https://a.cd/'') = Some u" "py_lower (u_scheme u) = ''https''" by (auto split: option.splits)
  from https_is_never_left[OF d[unfolded demo_download_def] this, of p] d show ?thesis by auto
qed

theorem contacted_hosts_are_in_scope_witness:
  "\<exists>r w q. perform_pinned_download (\<lambda>_. False) (\<lambda>_. Some True) (url_in_scope demo_rs (\<lambda>_. False) demo_policy) (demo_net ''/y'') 10 0 ''ua'' [] ''http://www.ab.cd/'' 0
     = (r, w, [q]) \<and> (\<exists>u. urlsplit (\<lambda>_. False) (rq_url q) = Some u \<and> host_in_scope demo_rs demo_policy (normalize_host (hostname_of u)) = Some True)"
proof -
  let ?run = "perform_pinned_download (\<lambda>_. False) (\<lambda>_. Some True) (url_in_scope demo_rs (\<lambda>_. False) demo_policy) (demo_net ''/y'') 10 0 ''ua'' [] ''http://www.ab.cd/'' 0"
  have "case ?run of (r, w, sent) \<Rightarrow> (case sent of [q] \<Rightarrow> list_all (\<lambda>c. c \<noteq> CHR ''['') (rq_url q) \<and> py_strip (rq_url q) = rq_url q | _ \<Rightarrow> False)" by code_simp
  then obtain r w q where q: "?run = (r, w, [q])" "CHR ''['' \<notin> set (rq_url q)" "py_strip (rq_url q) = rq_url q"
    by (auto split: prod.splits list.splits simp: list_ex_iff list_all_iff)
  from contacted_hosts_are_in_scope[OF q(1) _ q(2,3)] q(1) show ?thesis by auto
qed

text \<open>A redirect to something that is no URL is not one of the safe stops: the exception of the parser ends the download.\<close>

lemma malformed_redirect_raises:
  "fst (demo_download ''http://[x'' ''https://a.cd/'') = Inl ''ValueError''"
  by code_simp

end
