(* ===== verification/Remote_Worker_Facts.thy ===== *)
theory Remote_Worker_Facts
  imports Remote_Worker Content_Store_Facts Pinned_Transport_Facts
begin

text \<open>
  What the exchange between controller and remote worker guarantees: an honest download passes the controller's
  checks and is decoded to the same bytes, an accepted result is what it claims, a refusal that may be retried is
  delayed, and every request that a worker sends for a task is one that the task's scope policy allows.
\<close>

section \<open>The envelope\<close>

lemma download_limit_range: "download_limit payload = Inr cap \<Longrightarrow> 0 < cap \<and> cap \<le> MAX_DOWNLOAD_BYTES"
  by (auto simp: download_limit_def MAX_DOWNLOAD_BYTES_def split: json.splits if_splits)

lemma hex_digest_text: "hex_digest sha \<Longrightarrow> hex_text (sha d)"
  by (simp add: hex_digest_def hex_text_def)

lemma decode_checked_sound:
  "decode_checked sha result a digest n = Inr data \<Longrightarrow> sha data = digest \<and> int (length data) = n"
  by (auto simp: decode_checked_def split: json.splits option.splits if_splits)

lemma metadata_sound:
  "artifact_metadata v cap = Inr (digest, n) \<Longrightarrow> \<exists>a. v = JObj a \<and> get a ''sha256'' = JText digest \<and> get a ''size'' = JInt n \<and> hex_text digest \<and> 0 \<le> n \<and> n \<le> cap"
  by (auto simp: artifact_metadata_def split: json.splits if_splits)

text \<open>What the decoder accepts has the digest and the length the envelope names, and respects the task's limit.\<close>

lemma decode_artifact_sound:
  assumes "decode_artifact sha payload result = Inr data"
  shows "\<exists>cap a. download_limit payload = Inr cap \<and> int (length data) \<le> cap \<and> get result ''artifact'' = JObj a
    \<and> get a ''sha256'' = JText (sha data) \<and> get a ''size'' = JInt (int (length data))"
proof -
  from assms obtain cap digest n a where s: "download_limit payload = Inr cap" "artifact_metadata (get result ''artifact'') cap = Inr (digest, n)"
    "get result ''artifact'' = JObj a" "decode_checked sha result a digest n = Inr data"
    by (auto simp: decode_artifact_def split: if_splits sum.splits json.splits)
  from decode_checked_sound[OF s(4)] metadata_sound[OF s(2)] s(1,3) show ?thesis by auto
qed

lemma complete_range: "complete_download 206 hs data \<Longrightarrow> complete_download 206 [(''content-range'', header hs ''content-range'')] data"
  by (simp add: complete_download_def Let_def header_def split: if_splits)

lemma encode_fields:
  assumes "encode_artifact sha data = Inr a"
  shows "get a ''version'' = JInt WORKER_ARTIFACT_VERSION" "get a ''encoding'' = JText ''base64''" "get a ''size'' = JInt (int (length data))"
    "get a ''sha256'' = JText (sha data)" "get a ''data'' = JText (b64encode data)"
  using assms by (auto simp: encode_artifact_def get_def split: if_splits)

lemma decode_encoded:
  assumes hex: "hex_digest sha" and enc: "encode_artifact sha data = Inr a"
    and cap: "download_limit payload = Inr cap" "int (length data) \<le> cap"
    and res: "get result ''artifact'' = JObj a" "get result ''content_length'' = JInt (int (length data))"
    and range: "num_eq (get result ''status_code'') 206 \<Longrightarrow> \<exists>cr. get result ''content_range'' = JText cr \<and> complete_download 206 [(''content-range'', cr)] data"
  shows "decode_artifact sha payload result = Inr data"
proof -
  note f = encode_fields[OF enc]
  have "artifact_metadata (JObj a) cap = Inr (sha data, int (length data))"
    using cap(2) hex_digest_text[OF hex] by (simp add: artifact_metadata_def f)
  moreover have "int (length (b64encode data)) = 4 * ((int (length data) + 2) div 3)" by (simp add: length_b64 zdiv_int)
  ultimately show ?thesis using range
    by (auto simp: decode_artifact_def res cap(1) decode_checked_def f b64_round_trip)
qed

section \<open>An honest download\<close>

definition final_url :: "(json \<Rightarrow> string) \<Rightarrow> (string \<Rightarrow> string option) \<Rightarrow> string \<Rightarrow> (string \<times> json) list \<Rightarrow> json" where
  "final_url rp nu url res = url_or nu (if truthy (get res ''final_url'') then py_str rp (get res ''final_url'') else url)"

text \<open>The transport succeeded and its body is complete.\<close>

definition complete_answer :: "(json \<Rightarrow> string) \<Rightarrow> (string \<times> json) list \<Rightarrow> bytes \<Rightarrow> bool" where
  "complete_answer rp res data \<longleftrightarrow> get res ''transport_status'' = JText ''ok'' \<and> \<not> truthy (get res ''error'')
     \<and> \<not> truthy (get res ''redirect_outside_scope'') \<and> 200 \<le> status_of (get res ''status_code'') \<and> status_of (get res ''status_code'') < 300
     \<and> complete_download (status_of (get res ''status_code'')) (headers_dict rp (get res ''headers'')) data"

lemma get_Cons: "get ((k, v) # m) k' = (if k = k' then v else get m k')"
  by (simp add: get_def)

text \<open>The report of a complete download: the fields and the envelope.\<close>

definition full_report :: "(json \<Rightarrow> string) \<Rightarrow> (string \<Rightarrow> string option) \<Rightarrow> string \<Rightarrow> (string \<times> json) list \<Rightarrow> bytes \<Rightarrow> (string \<times> json) list \<Rightarrow> (string \<times> json) list" where
  "full_report rp nu url res data a = report_fields rp nu url res (headers_dict rp (get res ''headers'')) data
     (status_of (get res ''status_code'')) ''ok'' '''' @ [(''artifact'', JObj a)]"

lemma full_report_eq:
  assumes "complete_answer rp res data" "encode_artifact sha data = Inr a"
  shows "download_report sha rp nu url res (Some data) = Inr (full_report rp nu url res data a)"
  using assms by (simp add: complete_answer_def download_report_def full_report_def text_or_empty_def py_str_def)

lemma full_report_fields:
  "get (full_report rp nu url res data a) ''url'' = final_url rp nu url res"
  "get (full_report rp nu url res data a) ''status_code'' = JInt (status_of (get res ''status_code''))"
  "get (full_report rp nu url res data a) ''transport_status'' = JText ''ok''"
  "get (full_report rp nu url res data a) ''transport_error'' = JText ''''"
  "map_of (full_report rp nu url res data a) ''truncated'' = Some (JBool False)"
  "map_of (full_report rp nu url res data a) ''redirect_outside_scope'' = Some (JBool (truthy (get res ''redirect_outside_scope'')))"
  "get (full_report rp nu url res data a) ''content_length'' = JInt (int (length data))"
  "get (full_report rp nu url res data a) ''content_range'' = JText (header (headers_dict rp (get res ''headers'')) ''content-range'')"
  "get (full_report rp nu url res data a) ''artifact'' = JObj a"
  by (simp_all add: full_report_def report_fields_def get_Cons final_url_def)

lemma honest_download:
  assumes "hex_digest sha" "get payload ''kind'' = JText ''download_url''" "task_scope_policy rp rs payload = Inr p"
    and "download_limit payload = Inr cap" "int (length data) \<le> cap" "complete_answer rp res data"
    and "final_url rp nu url res = JText u" "worker_url_in_scope url_host rs p u"
  shows "case download_report sha rp nu url res (Some data) of Inl e \<Rightarrow> False
    | Inr report \<Rightarrow> decode_artifact sha payload report = Inr data
        \<and> classify_worker_result sha rp rs say url_host http_date payload (JObj report) = worker_success"
proof -
  have "int (length data) \<le> MAX_DOWNLOAD_BYTES" using assms(5) download_limit_range[OF assms(4)] by simp
  then obtain a where enc: "encode_artifact sha data = Inr a" by (simp add: encode_artifact_def)
  let ?report = "full_report rp nu url res data a"
  have eq: "download_report sha rp nu url res (Some data) = Inr ?report" by (rule full_report_eq[OF assms(6) enc])
  note f = full_report_fields[where rp = rp and nu = nu and url = url and res = res and data = data and a = a]
  have st: "200 \<le> status_of (get res ''status_code'')" "status_of (get res ''status_code'') < 300" "\<not> truthy (get res ''redirect_outside_scope'')"
    and complete: "complete_download (status_of (get res ''status_code'')) (headers_dict rp (get res ''headers'')) data"
    using assms(6) unfolding complete_answer_def by blast+
  have decoded: "decode_artifact sha payload ?report = Inr data"
    by (rule decode_encoded[OF assms(1) enc assms(4,5) f(9,7)]) (use complete_range complete in \<open>auto simp: f num_eq_def\<close>)
  have "judge_status sha http_date ''download_url'' payload ?report (status_of (get res ''status_code'')) ''ok'' [] = worker_success"
    using st f(5,6) by (simp add: judge_status_def get_def decoded SAFETY_ERRORS_def)
  then have "classify_worker_result sha rp rs say url_host http_date payload (JObj ?report) = worker_success"
    using st by (simp add: classify_worker_result_def check_task_def check_answer_def assms(2,3,7,8) f not_a_bool_def text_or_empty_def WORKER_CAPABILITIES_def)
  with decoded eq show ?thesis by simp
qed

section \<open>What acceptance means\<close>

lemma judge_ok:
  "wo_ok (judge_status sha http_date kind payload r st transport err) \<longleftrightarrow>
     \<not> truthy (get r ''truncated'') \<and> \<not> truthy (get r ''redirect_outside_scope'') \<and> transport \<noteq> ''stopped_for_safety'' \<and> transport \<noteq> ''error''
     \<and> 200 \<le> st \<and> err \<in> {'''', ''http_error''} \<and> (st = 429 \<longrightarrow> transport \<noteq> ''ok'')
     \<and> (kind = ''http_head'' \<or> st < 300 \<and> (\<exists>data. decode_artifact sha payload r = Inr data))"
  by (auto simp: judge_status_def Let_def worker_failure_def worker_success_def SAFETY_ERRORS_def split: sum.splits)

definition refused :: "worker_outcome \<Rightarrow> bool" where
  "refused o' \<longleftrightarrow> (\<exists>e reason. o' = worker_failure e False reason \<and> reason \<noteq> ''rate_limited'')"

lemma refused_failure: "reason \<noteq> ''rate_limited'' \<Longrightarrow> refused (worker_failure e False reason)"
  by (auto simp: refused_def)

lemma refused_invalid: "refused invalid_result"
  unfolding invalid_result_def by (rule refused_failure) simp

lemma check_task_Inl: "check_task rp rs say payload result = Inl out \<Longrightarrow> refused out"
  by (auto simp: check_task_def refused_invalid refused_failure split: json.splits if_splits sum.splits)

lemma check_answer_Inl: "check_answer rs url_host p r = Inl out \<Longrightarrow> refused out"
  by (simp add: check_answer_def refused_invalid refused_failure split: json.splits if_splits)
    (auto simp: refused_invalid refused_failure)

lemma check_task_Inr:
  "check_task rp rs say payload result = Inr (kind, p, r) \<longleftrightarrow> get payload ''kind'' = JText kind \<and> result = JObj r
     \<and> kind \<in> set WORKER_CAPABILITIES \<and> task_scope_policy rp rs payload = Inr p"
  by (auto simp: check_task_def split: json.splits if_splits sum.splits)

lemma check_answer_Inr:
  "check_answer rs url_host p r = Inr (st, transport) \<longleftrightarrow> (\<exists>u. get r ''url'' = JText u \<and> worker_url_in_scope url_host rs p u)
     \<and> get r ''status_code'' = JInt st \<and> get r ''transport_status'' = JText transport \<and> 0 \<le> st \<and> st < 600
     \<and> transport \<in> {''ok'', ''error'', ''stopped_for_safety''} \<and> \<not> list_ex (not_a_bool r) [''truncated'', ''redirect_outside_scope'']"
proof -
  have url: "(case v of JText u \<Rightarrow> P u | _ \<Rightarrow> False) \<longleftrightarrow> (\<exists>u. v = JText u \<and> P u)" for v and P :: "string \<Rightarrow> bool" by (cases v) auto
  show ?thesis
  proof (cases "get r ''status_code''"; cases "get r ''transport_status''")
    fix n t assume "get r ''status_code'' = JInt n" "get r ''transport_status'' = JText t"
    then show ?thesis unfolding check_answer_def url by auto
  qed (auto simp: check_answer_def url)
qed

text \<open>The conditions under which a result is accepted, spelled out.\<close>

definition sound_result ::
    "(bytes \<Rightarrow> string) \<Rightarrow> (json \<Rightarrow> string) \<Rightarrow> (string \<Rightarrow> (string \<Rightarrow> bool) option) \<Rightarrow> (string \<Rightarrow> string option) \<Rightarrow> (string \<times> json) list \<Rightarrow> json \<Rightarrow> bool" where
  "sound_result sha rp rs url_host payload result \<longleftrightarrow>
     (\<exists>kind r p u st. get payload ''kind'' = JText kind \<and> kind \<in> set WORKER_CAPABILITIES \<and> result = JObj r
      \<and> task_scope_policy rp rs payload = Inr p \<and> get r ''url'' = JText u \<and> worker_url_in_scope url_host rs p u
      \<and> get r ''status_code'' = JInt st \<and> 200 \<le> st \<and> st < 600 \<and> st \<noteq> 429 \<and> get r ''transport_status'' = JText ''ok''
      \<and> take 500 (text_or_empty rp (get r ''transport_error'')) \<in> {'''', ''http_error''}
      \<and> \<not> list_ex (not_a_bool r) [''truncated'', ''redirect_outside_scope'']
      \<and> \<not> truthy (get r ''truncated'') \<and> \<not> truthy (get r ''redirect_outside_scope'')
      \<and> (kind = ''http_head'' \<or> st < 300 \<and> (\<exists>data. decode_artifact sha payload r = Inr data)))"

lemma sound_checkedI:
  assumes "check_task rp rs say payload result = Inr (kind, p, r)" "check_answer rs url_host p r = Inr (st, transport)"
    and "wo_ok (judge_status sha http_date kind payload r st transport (take 500 (text_or_empty rp (get r ''transport_error''))))"
  shows "sound_result sha rp rs url_host payload result"
proof -
  note task = assms(1)[unfolded check_task_Inr] and ans = assms(2)[unfolded check_answer_Inr] and ok = assms(3)[unfolded judge_ok]
  obtain u where u: "get r ''url'' = JText u" "worker_url_in_scope url_host rs p u" using ans by blast
  have "transport = ''ok''" "st \<noteq> 429" using ans ok by blast+
  with task ans ok u show ?thesis
    unfolding sound_result_def by (intro exI[of _ kind] exI[of _ r] exI[of _ p] exI[of _ u] exI[of _ st]) blast
qed

lemma sound_checkedE:
  assumes "sound_result sha rp rs url_host payload result"
  obtains kind p r st where "check_task rp rs say payload result = Inr (kind, p, r)" "check_answer rs url_host p r = Inr (st, ''ok'')"
    "wo_ok (judge_status sha http_date kind payload r st ''ok'' (take 500 (text_or_empty rp (get r ''transport_error''))))"
proof -
  from assms obtain kind r p u st where s: "get payload ''kind'' = JText kind" "kind \<in> set WORKER_CAPABILITIES" "result = JObj r"
    "task_scope_policy rp rs payload = Inr p" "get r ''url'' = JText u" "worker_url_in_scope url_host rs p u" "get r ''status_code'' = JInt st"
    "200 \<le> st" "st < 600" "st \<noteq> 429" "get r ''transport_status'' = JText ''ok''"
    "take 500 (text_or_empty rp (get r ''transport_error'')) \<in> {'''', ''http_error''}"
    "\<not> list_ex (not_a_bool r) [''truncated'', ''redirect_outside_scope'']"
    "\<not> truthy (get r ''truncated'')" "\<not> truthy (get r ''redirect_outside_scope'')"
    "kind = ''http_head'' \<or> st < 300 \<and> (\<exists>data. decode_artifact sha payload r = Inr data)"
    unfolding sound_result_def by blast
  show thesis
  proof (rule that)
    show "check_task rp rs say payload result = Inr (kind, p, r)" using s by (simp add: check_task_Inr)
    show "check_answer rs url_host p r = Inr (st, ''ok'')" unfolding check_answer_Inr using s by simp
    show "wo_ok (judge_status sha http_date kind payload r st ''ok'' (take 500 (text_or_empty rp (get r ''transport_error''))))"
      unfolding judge_ok using s by simp
  qed
qed

lemma accepted_iff_sound:
  "wo_ok (classify_worker_result sha rp rs say url_host http_date payload result) = sound_result sha rp rs url_host payload result"
proof
  assume ok: "wo_ok (classify_worker_result sha rp rs say url_host http_date payload result)"
  have no: "\<not> wo_ok out" if "refused out" for out using that by (auto simp: refused_def worker_failure_def)
  show "sound_result sha rp rs url_host payload result"
  proof (cases "check_task rp rs say payload result")
    case (Inl out)
    with ok no[OF check_task_Inl[OF Inl]] show ?thesis by (simp add: classify_worker_result_def)
  next
    case (Inr kpr)
    obtain kind p r where kpr: "check_task rp rs say payload result = Inr (kind, p, r)" using Inr by (cases kpr) auto
    show ?thesis
    proof (cases "check_answer rs url_host p r")
      case (Inl out)
      with ok no[OF check_answer_Inl[OF Inl]] kpr show ?thesis by (simp add: classify_worker_result_def)
    next
      case (Inr st)
      then obtain n transport where "check_answer rs url_host p r = Inr (n, transport)" by (cases st) auto
      with ok kpr show ?thesis by (auto simp: classify_worker_result_def intro: sound_checkedI)
    qed
  qed
next
  assume "sound_result sha rp rs url_host payload result"
  then show "wo_ok (classify_worker_result sha rp rs say url_host http_date payload result)"
    by (rule sound_checkedE[where say = say and http_date = http_date]) (simp add: classify_worker_result_def)
qed

section \<open>Retries\<close>

lemma retry_delay_min: "minimum \<le> retry_delay http_date v minimum"
  by (simp add: retry_delay_def Let_def split: json.split option.split)

definition paced :: "worker_outcome \<Rightarrow> bool" where
  "paced o' \<longleftrightarrow> (if wo_retry o' then \<not> wo_ok o' \<and> RETRY_DELAY_SECONDS \<le> wo_delay o' else wo_delay o' = 0)
     \<and> (wo_reason o' \<noteq> ''rate_limited'' \<or> RATE_LIMIT_DELAY_SECONDS \<le> wo_delay o')"

lemma failure_paced: "reason \<noteq> ''rate_limited'' \<Longrightarrow> paced (worker_failure e retry reason)"
  by (simp add: paced_def worker_failure_def RETRY_DELAY_SECONDS_def)

lemma success_paced: "paced worker_success"
  by (simp add: paced_def worker_success_def)

lemma refused_paced: "refused o' \<Longrightarrow> paced o'"
  by (auto simp: refused_def failure_paced)

lemma judge_paced: "paced (judge_status sha http_date kind payload r st transport err)"
proof -
  have "paced \<lparr>wo_ok = False, wo_retry = True, wo_reason = ''rate_limited'', wo_error = ''HTTP 429'',
      wo_delay = retry_delay http_date (get r ''retry_after'') RATE_LIMIT_DELAY_SECONDS\<rparr>"
    using retry_delay_min[of RATE_LIMIT_DELAY_SECONDS http_date "get r ''retry_after''"]
    by (simp add: paced_def RATE_LIMIT_DELAY_SECONDS_def RETRY_DELAY_SECONDS_def)
  moreover have "paced \<lparr>wo_ok = False, wo_retry = retry, wo_reason = ''http_error'', wo_error = ''HTTP '' @ show_int st,
      wo_delay = (if retry then retry_delay http_date (get r ''retry_after'') RETRY_DELAY_SECONDS else 0)\<rparr>" for retry
    using retry_delay_min[of RETRY_DELAY_SECONDS http_date "get r ''retry_after''"] by (simp add: paced_def)
  ultimately show ?thesis
    unfolding judge_status_def Let_def by (simp add: failure_paced success_paced split: sum.split)
qed

lemma classify_paced: "paced (classify_worker_result sha rp rs say url_host http_date payload result)"
  unfolding classify_worker_result_def
  by (auto simp: judge_paced intro: refused_paced check_task_Inl check_answer_Inl split: sum.split)

text \<open>A failed item's delay is the one its outcome states.\<close>

lemma sorted_get: "distinct (map fst m) \<Longrightarrow> get (dict_of (sorted_keys (JObj m))) k = (case map_of m k of None \<Rightarrow> JNull | Some v \<Rightarrow> sorted_keys v)"
  by (simp add: dict_of_def get_sorted)

lemma obj_set_keys: "fst ` set (obj_set k v m) = insert k (fst ` set m)"
  by (induction k v m rule: obj_set.induct) auto

lemma obj_set_distinct: "distinct (map fst m) \<Longrightarrow> distinct (map fst (obj_set k v m))"
  by (induction k v m rule: obj_set.induct) (auto simp: obj_set_keys)

lemma map_of_obj_set: "map_of (obj_set k v m) = (map_of m)(k \<mapsto> v)"
  by (induction k v m rule: obj_set.induct) auto

lemma stored_delay_outcome:
  assumes "distinct (map fst m)" "wk_result r = sorted_keys (JObj (with_outcome o' m))" "RETRY_DELAY_SECONDS \<le> wo_delay o'"
  shows "stored_delay r = wo_delay o'"
proof -
  have "distinct (map fst (with_outcome o' m))" by (simp add: with_outcome_def obj_set_distinct assms(1))
  then have "get (dict_of (wk_result r)) ''_worker_outcome'' = sorted_keys (JObj (outcome_metadata o'))"
    by (simp only: assms(2) sorted_get) (simp add: with_outcome_def map_of_obj_set)
  moreover have "get (dict_of (sorted_keys (JObj (outcome_metadata o')))) ''retry_delay_seconds'' = JInt (wo_delay o')"
    by (subst sorted_get) (simp_all add: outcome_metadata_def)
  ultimately show ?thesis using assms(3) by (simp only: stored_delay_def) simp
qed

lemma failed_ready:
  assumes "distinct (map fst m)" "wo_retry o'" "paced o'"
  shows "worker_retry_ready later (failed now err True (Some (with_outcome o' m)) r) \<longleftrightarrow> int now + wo_delay o' \<le> int later"
proof -
  have d: "RETRY_DELAY_SECONDS \<le> wo_delay o'" using assms(2,3) by (simp add: paced_def)
  have "stored_delay (failed now err True (Some (with_outcome o' m)) r) = wo_delay o'"
    by (rule stored_delay_outcome[OF assms(1) _ d]) (simp add: failed_def)
  then show ?thesis by (auto simp: worker_retry_ready_def failed_def)
qed

section \<open>Requests of the worker\<close>

text \<open>The single request asks its \<open>url_safety\<close> before it looks anything up, and connects to a checked address only.\<close>

lemma pinned_request_permitted:
  assumes "perform_pinned_request ip6 public scope net ms (\<lambda>u. map_option (\<lambda>b. (b, reason)) (scope u)) obs seen k v ho item_method url hs w = (r, w', sent)"
  shows "length sent \<le> 1 \<and> (\<forall>rq \<in> set sent. rq_method rq \<in> ms \<and> permitted ip6 public scope (nw_lookup net) rq)"
proof -
  note h = assms[unfolded perform_pinned_request_def Let_def]
  show ?thesis
  proof (cases "sent = []")
    case False
    from h False obtain u port where c: "py_upper (if item_method = '''' then ''GET'' else item_method) \<in> ms" "scope url = Some True"
      "urlsplit ip6 url = Some u" "effective_port u = Some port"
      by (auto split: if_splits option.splits bool.splits)
    obtain rows w1 where l: "nw_lookup net (hostname_of u) port w = (rows, w1)" by fastforce
    obtain ok addresses where res: "resolve_public_addresses public rows = (ok, addresses)" by fastforce
    let ?m = "py_upper (if item_method = '''' then ''GET'' else item_method)"
    have m: "(?m \<notin> ms) = False" using c(1) by simp
    note h = h[unfolded m if_False c(2-4) option.map option.case prod.case bool.case l res]
    from h False have ok: "ok" by (cases ok) auto
    then obtain found where found: "rows = Some found" "addresses \<noteq> []" "set addresses = set found" "\<forall>a \<in> set found. public a = Some True"
      using resolved[of public rows addresses] res by auto
    have "hd addresses \<in> set found" using found(2,3) hd_in_set by blast
    moreover from h ok have "\<exists>rq. sent = [rq] \<and> rq_method rq = ?m \<and> rq_url rq = url \<and> rq_ip rq = hd addresses"
      by (auto split: prod.splits)
    ultimately show ?thesis using c l found(1,4) unfolding permitted_def by (auto intro!: exI[of _ w])
  qed simp
qed

definition bounded_requests :: "string \<Rightarrow> nat \<Rightarrow> (request \<Rightarrow> bool) \<Rightarrow> request list \<Rightarrow> bool" where
  "bounded_requests m n ok sent \<longleftrightarrow> length sent \<le> n \<and> (\<forall>rq \<in> set sent. rq_method rq = m \<and> ok rq)"

lemma head_loop_requests:
  assumes "head_loop rp ip6 public scope net n current chain w = (r, w', sent)"
  shows "bounded_requests ''HEAD'' (Suc n) (permitted ip6 public scope (nw_lookup net)) sent"
  using assms
proof (induction n arbitrary: current chain w r w' sent rule: less_induct)
  case (less n)
  obtain x w1 first where hr: "head_request ip6 public scope net current w = (x, w1, first)" by (metis prod.exhaust)
  have first: "bounded_requests ''HEAD'' 1 (permitted ip6 public scope (nw_lookup net)) first"
    using pinned_request_permitted[OF hr[unfolded head_request_def]] by (simp add: bounded_requests_def)
  have "sent = first \<or> (\<exists>m url r' w2 rest. n = Suc m \<and> sent = first @ rest
      \<and> head_loop rp ip6 public scope net m url (chain @ [url]) w1 = (r', w2, rest))"
    using less.prems unfolding head_loop.simps[of rp ip6 public scope net n] hr
    by (auto simp: Let_def split: sum.splits prod.splits if_splits option.splits bool.splits nat.splits)
  then show ?case
  proof (elim disjE exE conjE)
    fix m url r' w2 rest assume n: "n = Suc m" "sent = first @ rest" "head_loop rp ip6 public scope net m url (chain @ [url]) w1 = (r', w2, rest)"
    from less.IH[OF _ n(3)] n(1,2) first show ?case by (auto simp: bounded_requests_def)
  qed (use first in \<open>auto simp: bounded_requests_def\<close>)
qed

lemma execute_download_requests:
  assumes "execute_download sha rp ip6 public scope net url cap w = (r, w', sent)"
  shows "bounded_requests ''GET'' 4 (permitted ip6 public scope (nw_lookup net)) sent"
proof -
  obtain x where d: "perform_pinned_download ip6 public scope (net\<lparr>nw_gate := \<lambda>_ w. (None, w)\<rparr>) cap (int MAX_REDIRECTS) WORKER_AGENT [] url w = (x, w', sent)"
    using assms by (auto simp: execute_download_def split: prod.splits)
  have "length sent \<le> 4" using download_bounds[OF d[unfolded perform_pinned_download_def Let_def]] by (simp add: MAX_REDIRECTS_def)
  with every_request_permitted[OF d] show ?thesis by (simp add: bounded_requests_def)
qed

definition task_kind :: "(json \<Rightarrow> string) \<Rightarrow> (string \<times> json) list \<Rightarrow> string" where
  "task_kind rp payload = py_str rp (get_or payload ''kind'' (JText ''''))"

definition method_of :: "string \<Rightarrow> string" where
  "method_of kind = (if kind = ''http_head'' then ''HEAD'' else ''GET'')"

lemma task_requests:
  assumes "execute_task sha rp rs say ip6 public net payload w = (r, w', sent)" "rq \<in> set sent"
  shows "\<exists>p. task_scope_policy rp rs payload = Inr p \<and> task_kind rp payload \<in> set WORKER_CAPABILITIES
    \<and> bounded_requests (method_of (task_kind rp payload)) 4 (permitted ip6 public (remote_url_in_scope rs ip6 p) (nw_lookup net)) sent"
proof -
  note h = assms(1)[unfolded execute_task_def Let_def, folded task_kind_def]
  from h assms(2) obtain p where p: "task_scope_policy rp rs payload = Inr p" "task_kind rp payload \<in> set WORKER_CAPABILITIES"
    and u: "remote_url_in_scope rs ip6 p (py_str rp (get_or payload ''url'' (JText ''''))) = Some True"
    by (auto split: if_splits sum.splits option.splits bool.splits)
  have k: "(task_kind rp payload \<notin> set WORKER_CAPABILITIES) = False" using p(2) by simp
  note h = h[unfolded k if_False p(1) sum.case u option.case bool.case]
  show ?thesis
  proof (cases "task_kind rp payload = ''http_head''")
    case True
    with h obtain x where "head_loop rp ip6 public (remote_url_in_scope rs ip6 p) net MAX_REDIRECTS (py_str rp (get_or payload ''url'' (JText ''''))) [] w = (x, w', sent)"
      by (auto simp: execute_head_def split: prod.splits)
    from head_loop_requests[OF this] p True show ?thesis by (simp add: method_of_def MAX_REDIRECTS_def)
  next
    case False
    with h assms(2) obtain cap where "execute_download sha rp ip6 public (remote_url_in_scope rs ip6 p) net (py_str rp (get_or payload ''url'' (JText ''''))) cap w = (r, w', sent)"
      by (auto split: sum.splits)
    from execute_download_requests[OF this] p False show ?thesis by (simp add: method_of_def)
  qed
qed

section \<open>Guarantees\<close>

text \<open>C34: An honest download arrives: when a remote worker's transport fetched a complete body within the task's limit from
  an address in the task's scope, the report it builds is accepted by the controller, and the bytes the controller decodes are
  exactly those that were fetched.\<close>

theorem honest_download_is_accepted:
  assumes "hex_digest sha" "get payload ''kind'' = JText ''download_url''" "task_scope_policy rp rs payload = Inr p"
    and "download_limit payload = Inr cap" "int (length data) \<le> cap" "complete_answer rp res data"
    and "final_url rp nu url res = JText u" "worker_url_in_scope url_host rs p u"
  shows "case download_report sha rp nu url res (Some data) of Inl e \<Rightarrow> False
    | Inr report \<Rightarrow> decode_artifact sha payload report = Inr data
        \<and> classify_worker_result sha rp rs say url_host http_date payload (JObj report) = worker_success"
  by (rule honest_download[OF assms])

text \<open>The controller accepts exactly the sound results, whatever the worker claims: the task's scope holds the reported
  address, the transport succeeded with a status of at least 200 other than 429, nothing was cut or redirected out of scope,
  and a download has a 2xx status and an envelope whose text decodes to bytes of the stated length and digest.\<close>

theorem accepted_results_are_sound:
  "wo_ok (classify_worker_result sha rp rs say url_host http_date payload result) = sound_result sha rp rs url_host payload result"
  by (rule accepted_iff_sound)

text \<open>A failed attempt is paced: every judgement that asks for a retry states a delay of at least five seconds, of at least a
  minute after a rate limit, a final one states none, and the item that is failed with it becomes ready exactly when that delay
  has passed.\<close>

theorem retries_are_paced:
  assumes "distinct (map fst m)" "o' = classify_worker_result sha rp rs say url_host http_date payload result"
  shows "paced o' \<and> (\<not> wo_retry o' \<or>
    worker_retry_ready later (failed now err True (Some (with_outcome o' m)) r) = (int now + wo_delay o' \<le> int later))"
  using failed_ready[OF assms(1), of o'] classify_paced unfolding assms(2) by blast

text \<open>C35: Whatever the network answers, every request that a remote worker sends for a claimed item - the first one and those of all
  redirects, for a \<open>HEAD\<close> observation as for a download - is allowed by the scope policy that the item's own payload declares: the
  payload has a well-formed policy, the requested URL is in the scope of this policy, and the request goes to an address found for the
  host of this very URL by a lookup all of whose addresses are public.  A task sends at most four requests, all of them HEAD for
  \<open>http_head\<close> and GET for \<open>download_url\<close>; an item of any other kind, without such a policy or without a lease token sends none.\<close>

theorem worker_stays_in_scope:
  assumes "run_claimed sha rp rs say http_date ip6 public net worker work w = (r, w', sent)" "rq \<in> set sent"
    and "payload = dict_of (safe_json_loads (get work ''payload_json'') (JObj []) (Some Dict_Kind))"
  shows "\<exists>p. task_scope_policy rp rs payload = Inr p \<and> permitted ip6 public (remote_url_in_scope rs ip6 p) (nw_lookup net) rq
    \<and> text_or_empty rp (get work ''lease_token'') \<noteq> '''' \<and> length sent \<le> 4
    \<and> (task_kind rp payload = ''http_head'' \<and> rq_method rq = ''HEAD'' \<or> task_kind rp payload = ''download_url'' \<and> rq_method rq = ''GET'')"
proof -
  have token: "text_or_empty rp (get work ''lease_token'') \<noteq> ''''" using assms(1,2) by (auto simp: run_claimed_def Let_def)
  with assms(1) obtain x where "execute_task sha rp rs say ip6 public net payload w = (x, w', sent)"
    unfolding assms(3) by (auto simp: run_claimed_def Let_def split: prod.splits)
  from task_requests[OF this assms(2)] token assms(2) show ?thesis
    by (auto simp: bounded_requests_def method_of_def WORKER_CAPABILITIES_def)
qed

section \<open>Examples\<close>

definition demo_task :: "string \<Rightarrow> (string \<times> json) list" where
  "demo_task kind = [(''kind'', JText kind), (''url'', JText ''https://ab.cd/a.js''), (''scope_policy'', JObj (worker_scope_snapshot demo_policy))]"

definition demo_host :: "string \<Rightarrow> string option" where
  "demo_host u = (if startswith u ''https://ab.cd/'' then Some ''ab.cd'' else None)"

definition demo_answer :: "(string \<times> json) list" where
  "demo_answer = [(''status_code'', JInt 206), (''transport_status'', JText ''ok''), (''final_url'', JText ''https://ab.cd/a.js''),
     (''headers'', JObj [(''Content-Range'', JText ''bytes 0-1/2''), (''Content-Length'', JText ''2'')])]"

lemma demo_scope: "\<exists>p. task_scope_policy (\<lambda>_. '''') demo_rs (demo_task kind) = Inr p \<and> worker_url_in_scope demo_host demo_rs p ''https://ab.cd/a.js''"
proof -
  have "case task_scope_policy (\<lambda>_. '''') demo_rs (demo_task ''http_head'') of Inl e \<Rightarrow> False
    | Inr p \<Rightarrow> worker_url_in_scope demo_host demo_rs p ''https://ab.cd/a.js''" by code_simp
  moreover have "task_scope_policy (\<lambda>_. '''') demo_rs (demo_task kind) = task_scope_policy (\<lambda>_. '''') demo_rs (demo_task ''http_head'')"
    by (simp add: task_scope_policy_def demo_task_def get_Cons)
  ultimately show ?thesis by (auto split: sum.splits)
qed

theorem honest_download_is_accepted_witness:
  "case download_report flat_sha (\<lambda>_. '''') Some ''u'' demo_answer (Some ''ab'') of Inl e \<Rightarrow> False
   | Inr report \<Rightarrow> decode_artifact flat_sha (demo_task ''download_url'') report = Inr ''ab''"
proof -
  obtain p where p: "task_scope_policy (\<lambda>_. '''') demo_rs (demo_task ''download_url'') = Inr p"
    "worker_url_in_scope demo_host demo_rs p ''https://ab.cd/a.js''" using demo_scope by blast
  have kind: "get (demo_task ''download_url'') ''kind'' = JText ''download_url''" by code_simp
  have cap: "download_limit (demo_task ''download_url'') = Inr MAX_DOWNLOAD_BYTES" by code_simp
  have len: "int (length ''ab'') \<le> MAX_DOWNLOAD_BYTES" by code_simp
  have complete: "complete_answer (\<lambda>_. '''') demo_answer ''ab''" by code_simp
  have url: "final_url (\<lambda>_. '''') Some ''u'' demo_answer = JText ''https://ab.cd/a.js''" by code_simp
  show ?thesis
    using honest_download_is_accepted[OF flat_hex kind p(1) cap len complete url p(2), of "\<lambda>_. ''''" "\<lambda>_. None"] by (auto split: sum.splits)
qed

definition limited_answer :: "(string \<times> json) list" where
  "limited_answer = [(''url'', JText ''https://ab.cd/a.js''), (''status_code'', JInt 429), (''transport_status'', JText ''ok''), (''retry_after'', JText ''90'')]"

definition limited_outcome :: worker_outcome where
  "limited_outcome = classify_worker_result flat_sha (\<lambda>_. '''') demo_rs (\<lambda>_. '''') demo_host (\<lambda>_. None) (demo_task ''http_head'') (JObj limited_answer)"

definition demo_work :: work_item where
  "demo_work = fresh_item 1 0 ''r'' ''t'' ''s'' ''k'' []"

theorem retries_are_paced_witness:
  "wo_delay limited_outcome = 90 \<and> \<not> worker_retry_ready 189 (failed 100 ''HTTP 429'' True (Some (with_outcome limited_outcome [])) demo_work)
   \<and> worker_retry_ready 190 (failed 100 ''HTTP 429'' True (Some (with_outcome limited_outcome [])) demo_work)"
proof -
  have "wo_delay limited_outcome = 90" "wo_retry limited_outcome" by code_simp+
  then show ?thesis
    using retries_are_paced[of "[]" limited_outcome flat_sha "\<lambda>_. ''''" demo_rs "\<lambda>_. ''''" demo_host "\<lambda>_. None" "demo_task ''http_head''"
        "JObj limited_answer" 189 100 "''HTTP 429''" demo_work]
      retries_are_paced[of "[]" limited_outcome flat_sha "\<lambda>_. ''''" demo_rs "\<lambda>_. ''''" demo_host "\<lambda>_. None" "demo_task ''http_head''"
        "JObj limited_answer" 190 100 "''HTTP 429''" demo_work]
    by (simp add: limited_outcome_def[symmetric])
qed

text \<open>A claimed item with a task in scope whose server redirects once: two requests are sent.\<close>

definition demo_claim :: "string \<Rightarrow> (string \<times> json) list" where
  "demo_claim kind = [(''id'', JInt 1), (''lease_token'', JText ''t''), (''payload_json'', JText (json_dumps (\<lambda>_. '''') (JObj (demo_task kind))))]"

definition demo_worker_run :: "string \<Rightarrow> string \<Rightarrow> (string + (string \<times> json) list) \<times> nat \<times> request list" where
  "demo_worker_run kind loc = run_claimed flat_sha (\<lambda>_. '''') demo_rs (\<lambda>_. '''') (\<lambda>_. None) (\<lambda>_. False) (\<lambda>a. Some (a = ''93.1.1.1'')) (demo_net loc)
     ''w'' (demo_claim kind) 0"
definition demo_payload :: "(string \<times> json) list" where
  "demo_payload = dict_of (sorted_keys (JObj (demo_task ''http_head'')))"

lemma demo_payload_read: "dict_of (safe_json_loads (get (demo_claim ''http_head'') ''payload_json'') (JObj []) (Some Dict_Kind)) = demo_payload"
proof -
  have "json_ok (JObj (demo_task ''http_head''))" by code_simp
  then show ?thesis by (simp add: demo_claim_def get_Cons demo_payload_def loads_dumps_any)
qed

lemma demo_head:
  "case task_scope_policy (\<lambda>_. '''') demo_rs demo_payload of
     Inl e \<Rightarrow> False
   | Inr p \<Rightarrow> remote_url_in_scope demo_rs (\<lambda>_. False) p ''https://ab.cd/a.js'' = Some True
       \<and> (case snd (snd (execute_head (\<lambda>_. '''') (\<lambda>_. False) (\<lambda>a. Some (a = ''93.1.1.1'')) (remote_url_in_scope demo_rs (\<lambda>_. False) p)
              (demo_net ''/b.js'') ''https://ab.cd/a.js'' 0)) of
            [x, y] \<Rightarrow> rq_url x = ''https://ab.cd/a.js'' \<and> rq_url y = ''https://ab.cd/b.js'' | _ \<Rightarrow> False)"
  by code_simp

lemma demo_worker_sends:
  "\<exists>r w q p. demo_worker_run ''http_head'' ''/b.js'' = (r, w, [q, p]) \<and> rq_url q = ''https://ab.cd/a.js'' \<and> rq_url p = ''https://ab.cd/b.js''"
proof -
  have fields: "py_str (\<lambda>_. '''') (get_or demo_payload ''kind'' (JText '''')) = ''http_head''"
    "py_str (\<lambda>_. '''') (get_or demo_payload ''url'' (JText '''')) = ''https://ab.cd/a.js''" by code_simp+
  have token: "text_or_empty (\<lambda>_. '''') (get (demo_claim ''http_head'') ''lease_token'') = ''t''" by code_simp
  obtain p r w q q' where p: "task_scope_policy (\<lambda>_. '''') demo_rs demo_payload = Inr p"
    "remote_url_in_scope demo_rs (\<lambda>_. False) p ''https://ab.cd/a.js'' = Some True"
    "execute_head (\<lambda>_. '''') (\<lambda>_. False) (\<lambda>a. Some (a = ''93.1.1.1'')) (remote_url_in_scope demo_rs (\<lambda>_. False) p)
       (demo_net ''/b.js'') ''https://ab.cd/a.js'' 0 = (r, w, [q, q'])" "rq_url q = ''https://ab.cd/a.js''" "rq_url q' = ''https://ab.cd/b.js''"
    using demo_head by (auto split: sum.splits list.splits) (metis prod.collapse)
  then show ?thesis
    by (simp add: demo_worker_run_def run_claimed_def Let_def token demo_payload_read execute_task_def fields WORKER_CAPABILITIES_def)
qed

theorem worker_stays_in_scope_witness:
  "\<exists>r w q p. demo_worker_run ''http_head'' ''/b.js'' = (r, w, [q, p]) \<and> rq_method p = ''HEAD'' \<and> rq_url p = ''https://ab.cd/b.js''"
proof -
  obtain r w q p where d: "demo_worker_run ''http_head'' ''/b.js'' = (r, w, [q, p])" "rq_url p = ''https://ab.cd/b.js''"
    using demo_worker_sends by blast
  have "task_kind (\<lambda>_. '''') demo_payload = ''http_head''" by code_simp
  with worker_stays_in_scope[OF d(1)[unfolded demo_worker_run_def] _ demo_payload_read[symmetric], of p] d show ?thesis by auto
qed

end
