(* ===== verification/Worker_Gateway_Facts.thy ===== *)
theory Worker_Gateway_Facts
  imports Worker_Gateway Work_Queue_System Remote_Worker_Facts
begin

text \<open>
  What the controller's worker interface guarantees: a claim hands out the first item that is ready for the
  worker, the protocol simulates the work queue so that a lease has one accepted answer, a worker name stays
  bound to its token, and an accepted file is the one the store serves later.
\<close>

section \<open>Claiming\<close>

text \<open>The reference: the ready items in the order of their numbers.\<close>

definition waiting_items :: "nat \<Rightarrow> work_item list \<Rightarrow> work_item list" where
  "waiting_items low t = sort_key wk_id (filter (\<lambda>r. claimable r \<and> low < wk_id r) t)"

definition first_ready :: "(work_item \<Rightarrow> bool) \<Rightarrow> work_item list \<Rightarrow> work_item option" where
  "first_ready may t = List.find may (waiting_items 0 t)"

lemma startable_one:
  assumes "keyed wk_id t" "r \<in> set t" "claimable r"
  shows "rowcount (startable (wk_id r) token) t = 1"
proof -
  have "rowcount (\<lambda>q. wk_id q = wk_id r \<and> (wk_status q = W_Queued \<or> wk_status q = W_Retry \<or> wk_status q = W_Artifact \<and> token = '''')) t = 1"
    using assms(2,3) by (subst rowcount_key[OF assms(1)]) (auto simp: claimable_def)
  then show ?thesis by (simp add: startable_def[abs_def])
qed

lemma lease_claimable: "keyed wk_id t \<Longrightarrow> r \<in> set t \<Longrightarrow> claimable r \<Longrightarrow>
    lease_item now w token r t = (fst (lease_item now w token r t), True)"
  by (simp add: lease_item_def work_start_def startable_one)

lemma try_page_find:
  assumes "keyed wk_id t" "\<And>r. r \<in> set page \<Longrightarrow> r \<in> set t \<and> claimable r"
  shows "try_page may (lease_item now w token) page t =
    (case List.find may page of None \<Rightarrow> (t, None) | Some r \<Rightarrow> (fst (lease_item now w token r t), Some r))"
  using assms(2)
proof (induction page)
  case (Cons r page)
  then show ?case using lease_claimable[OF assms(1), of r now w token] by (auto split: prod.split)
qed simp

lemma waiting_members: "r \<in> set (waiting_items low t) \<longleftrightarrow> r \<in> set t \<and> claimable r \<and> low < wk_id r"
  by (auto simp: waiting_items_def)

lemma waiting_sorted: "keyed wk_id t \<Longrightarrow> sorted_wrt (\<lambda>a b. wk_id a < wk_id b) (waiting_items low t)"
proof -
  assume "keyed wk_id t"
  then have "distinct (map wk_id (waiting_items low t))" by (simp add: waiting_items_def distinct_map_sort keyed_def distinct_map_filter)
  moreover have "sorted (map wk_id (waiting_items low t))" by (simp add: waiting_items_def)
  ultimately have "sorted_wrt (<) (map wk_id (waiting_items low t))" by (simp add: strict_sorted_iff)
  then show ?thesis by (simp add: sorted_wrt_map)
qed

lemma waiting_later: "low \<le> high \<Longrightarrow> waiting_items high t = filter (\<lambda>r. high < wk_id r) (waiting_items low t)"
  by (simp add: waiting_items_def filter_sort conj_commute conj_left_commute cong: conj_cong)

lemma rest_after:
  assumes "sorted_wrt (\<lambda>a b. wk_id a < wk_id b) xs" "take k xs \<noteq> []"
  shows "filter (\<lambda>r. wk_id (last (take k xs)) < wk_id r) xs = drop k xs"
proof -
  have s: "sorted_wrt (\<lambda>a b. wk_id a < wk_id b) (take k xs @ drop k xs)" using assms(1) by simp
  have "filter (\<lambda>r. wk_id (last (take k xs)) < wk_id r) (take k xs) = []"
  proof -
    have "sorted_wrt (\<lambda>a b. wk_id a < wk_id b) (butlast (take k xs) @ [last (take k xs)])" using s assms(2) by (simp add: sorted_wrt_append)
    then have "wk_id r \<le> wk_id (last (take k xs))" if "r \<in> set (butlast (take k xs) @ [last (take k xs)])" for r
      using that by (auto simp: sorted_wrt_append intro: less_imp_le)
    then have "wk_id r \<le> wk_id (last (take k xs))" if "r \<in> set (take k xs)" for r using that assms(2) by (metis append_butlast_last_id)
    then show ?thesis by (auto simp: filter_empty_conv leD)
  qed
  moreover have "filter (\<lambda>r. wk_id (last (take k xs)) < wk_id r) (drop k xs) = drop k xs"
    using s[unfolded sorted_wrt_append] last_in_set[OF assms(2)] by (intro filter_True) blast
  ultimately show ?thesis by (metis append_take_drop_id filter_append append_Nil)
qed

lemma find_append: "List.find p (xs @ ys) = (case List.find p xs of None \<Rightarrow> List.find p ys | Some r \<Rightarrow> Some r)"
  by (induction xs) auto

lemma find_mem: "List.find p xs = Some r \<Longrightarrow> r \<in> set xs \<and> p r"
  by (induction xs) (auto split: if_splits)

text \<open>The paged loop ends within its fuel and finds what one pass over all rows would.\<close>

lemma claim_pages_find:
  assumes "keyed wk_id t" "length (waiting_items low t) < n"
  shows "claim_pages n may (lease_item now w token) low t =
    Some (case List.find may (waiting_items low t) of None \<Rightarrow> (t, None) | Some r \<Rightarrow> (fst (lease_item now w token r t), Some r))"
  using assms(2)
proof (induction n arbitrary: low)
  case (Suc n)
  let ?ws = "waiting_items low t"
  have page: "next_page low t = take 50 ?ws" by (simp add: next_page_def waiting_items_def)
  show ?case
  proof (cases "take 50 ?ws")
    case Nil
    then have "?ws = []" by simp
    then show ?thesis by (simp add: page)
  next
    case (Cons r rs)
    have mem: "q \<in> set t \<and> claimable q" if "q \<in> set (r # rs)" for q
      using that unfolding Cons[symmetric] by (auto dest: in_set_takeD simp: waiting_members)
    let ?high = "wk_id (last (r # rs))"
    have "last (r # rs) \<in> set ?ws" using last_in_set[of "r # rs"] unfolding Cons[symmetric] by (metis in_set_takeD Cons list.distinct(1))
    then have low: "low < ?high" by (simp add: waiting_members)
    have rest: "waiting_items ?high t = drop 50 ?ws"
      using waiting_later[of low ?high t] rest_after[OF waiting_sorted[OF assms(1)], of 50 low] low unfolding Cons by simp
    have split: "List.find may ?ws = (case List.find may (r # rs) of None \<Rightarrow> List.find may (drop 50 ?ws) | Some q \<Rightarrow> Some q)"
      using find_append[of may "r # rs" "drop 50 ?ws"] unfolding append_take_drop_id[of 50 ?ws, unfolded Cons] .
    have t: "try_page may (lease_item now w token) (r # rs) t =
        (case List.find may (r # rs) of None \<Rightarrow> (t, None) | Some q \<Rightarrow> (fst (lease_item now w token q t), Some q))"
      by (rule try_page_find[OF assms(1) mem])
    show ?thesis
    proof (cases "List.find may (r # rs)")
      case None
      have "length (waiting_items ?high t) < n" using Suc.prems Cons unfolding rest by (cases ?ws) auto
      from Suc.IH[OF this] show ?thesis
        unfolding claim_pages.simps page Cons list.case t split None rest by (simp del: last.simps)
    next
      case (Some q)
      then show ?thesis unfolding claim_pages.simps page Cons list.case t split Some by simp
    qed
  qed
qed simp

lemma reclaim_keyed: "keyed wk_id t \<Longrightarrow> keyed wk_id (fst (reclaim_expired_work_leases now t))"
  unfolding reclaim_expired_work_leases_def fst_conv by (rule keyed_update_where) simp_all

lemma waiting_length: "length (waiting_items low t) \<le> length t"
  by (simp add: waiting_items_def)

text \<open>What a claim hands out, and to whom.\<close>

definition claimed_item ::
    "(json \<Rightarrow> string) \<Rightarrow> (string \<Rightarrow> (string \<Rightarrow> bool) option) \<Rightarrow> (string \<Rightarrow> string option) \<Rightarrow> (string \<Rightarrow> string option)
     \<Rightarrow> stamp \<Rightarrow> worker_row \<Rightarrow> gateway \<Rightarrow> work_item option" where
  "claimed_item rp rs url_host hostname now worker g =
     first_ready (may_claim rp rs url_host hostname now worker (gw_cool g)) (fst (reclaim_expired_work_leases now (items (gw_work g))))"

lemma claim_work_eq:
  assumes "keyed wk_id (items (gw_work g))" "identified auth (py_str rp (get data ''worker_id'')) g = Some worker"
    "worker_supports_scope (JObj (dict_of (wr_metadata worker)))"
  shows "claim_work sha rp rs url_host hostname auth token now data g = Some
    (let t = fst (reclaim_expired_work_leases now (items (gw_work g)))
     in case claimed_item rp rs url_host hostname now worker g of
          None \<Rightarrow> (g\<lparr>gw_work := (gw_work g)\<lparr>items := t\<rparr>\<rparr>, No_Work)
        | Some r \<Rightarrow> (g\<lparr>gw_work := (gw_work g)\<lparr>items := fst (lease_item now (py_str rp (get data ''worker_id'')) (sha token) r t)\<rparr>\<rparr>, Work r token))"
proof -
  let ?t = "fst (reclaim_expired_work_leases now (items (gw_work g)))"
  have "claim_pages (Suc (length ?t)) may (lease_item now w tok) 0 ?t =
      Some (case List.find may (waiting_items 0 ?t) of None \<Rightarrow> (?t, None) | Some r \<Rightarrow> (fst (lease_item now w tok r ?t), Some r))" for may w tok
    by (rule claim_pages_find[OF reclaim_keyed[OF assms(1)]]) (use waiting_length[of 0 ?t] in simp)
  then show ?thesis
    by (simp add: claim_work_def assms(2,3) claimed_item_def first_ready_def Let_def split: option.split)
qed

lemma first_ready_some:
  "first_ready may t = Some r \<Longrightarrow> r \<in> set t \<and> claimable r \<and> may r"
  using find_mem[of may "waiting_items 0 t" r] by (simp add: first_ready_def waiting_members)

lemma find_first: "List.find p xs = Some r \<Longrightarrow> sorted_wrt R xs \<Longrightarrow> q \<in> set xs \<Longrightarrow> p q \<Longrightarrow> q = r \<or> R r q"
  by (induction xs) (auto split: if_splits)

lemma find_no_match: "List.find p xs = None \<longleftrightarrow> (\<forall>x \<in> set xs. \<not> p x)"
  by (induction xs) auto

lemma first_ready_least:
  assumes "keyed wk_id t" "first_ready may t = Some r" "q \<in> set t" "claimable q" "0 < wk_id q" "may q"
  shows "wk_id r \<le> wk_id q"
  using find_first[OF assms(2)[unfolded first_ready_def] waiting_sorted[OF assms(1)], of q] assms(3-6)
  by (auto simp: waiting_members intro: less_imp_le)

section \<open>Receiving a file\<close>

lemma select_keyed: "keyed k t \<Longrightarrow> r \<in> set t \<Longrightarrow> p r \<Longrightarrow> (\<And>q. p q \<Longrightarrow> k q = k r) \<Longrightarrow> select_one p t = Some r"
  by (cases "select_one p t") (auto simp: select_one_None dest!: select_one_Some intro: keyed_unique)

lemma get_file:
  assumes "cas_ok sha c" "d \<in> os_sha ` set (objects c)"
  shows "\<exists>data. files c (cas_path d) = Some data \<and> snd (get_object now d c) = Inr data"
proof -
  from assms(2) obtain r where r: "r \<in> set (objects c)" "os_sha r = d" by auto
  have "object_of c d = Some r" unfolding object_of_def
    by (rule select_keyed[where k = os_sha, OF shape_parts(3)[OF assms(1)] r(1)]) (simp_all add: r(2))
  moreover have "os_path r = cas_path d" "\<exists>data. files c (cas_path d) = Some data"
    using intact_file[OF shape_parts(4)[OF assms(1) r(1)]] r(2) by auto
  ultimately show ?thesis by (auto simp: get_object_def)
qed

lemma hex_lower: "hex_text d \<Longrightarrow> py_lower (py_strip d) = d"
proof -
  assume h: "hex_text d"
  have c: "lower_char x = x \<and> \<not> py_space x" if "hex_char x" for x
  proof -
    have "list_all (\<lambda>x. lower_char x = x \<and> \<not> py_space x) ''0123456789abcdef''" by code_simp
    with that show ?thesis by (auto simp: hex_char_def list_all_iff)
  qed
  have ne: "d \<noteq> []" using h by (auto simp: hex_text_def)
  then have "py_strip d = d" using h c by (intro strip_id) (auto simp: hex_text_def list_all_iff)
  moreover have "py_lower d = d" using h c by (simp add: py_lower_def hex_text_def list_all_iff map_idI)
  ultimately show "py_lower (py_strip d) = d" by simp
qed

lemma digit_plain: "py_digit x \<Longrightarrow> \<not> py_space x"
  by (auto simp: py_digit_def py_space_def Let_def)

lemma work_owner: "owner ''work_item'' (show_nat i) = Some (''work_item'', show_nat i)"
proof -
  have d: "py_isdigit (show_nat i)" by (rule show_nat_digits)
  then have "py_strip (show_nat i) = show_nat i"
    using digit_plain hd_in_set[of "show_nat i"] last_in_set[of "show_nat i"] by (intro strip_id) (auto simp: py_isdigit_def list_all_iff)
  moreover have "py_strip ''work_item'' = ''work_item''" "take 80 ''work_item'' = ''work_item''" by code_simp+
  ultimately show ?thesis using d by (simp add: owner_def py_isdigit_def)
qed

lemma shas_update: "(\<And>r. os_sha (f r) = os_sha r) \<Longrightarrow> os_sha ` set (update_where p f os) = os_sha ` set os"
  using map_update_where[of p os_sha f os] by (metis set_map)

lemma upsert_has: "p new \<Longrightarrow> (\<And>r. p r \<Longrightarrow> p (f r)) \<Longrightarrow> \<exists>q \<in> set (upsert p new f t). p q"
proof (cases "list_ex p t")
  case True
  assume "\<And>r. p r \<Longrightarrow> p (f r)"
  with True set_upsert_old[of _ t p f new] show ?thesis by (metis (full_types) list_ex_iff)
qed (auto simp: upsert_def)

lemma upsert_sha: "(\<And>r. os_sha (f r) = os_sha r) \<Longrightarrow> os_sha new = d \<Longrightarrow> d \<in> os_sha ` set (upsert (\<lambda>r. os_sha r = d) new f os)"
  using upsert_has[of "\<lambda>r. os_sha r = d" new f os] by (metis (mono_tags, lifting) imageI)

lemma put_facts:
  assumes "put_object sha now data ctype c = (c1, digest, created)"
  shows "digest = sha data" "files c1 (cas_path (sha data)) = Some data" "sha data \<in> os_sha ` set (objects c1)"
    "p \<noteq> cas_path (sha data) \<Longrightarrow> files c1 p = files c p" "refs c1 = refs c"
proof -
  have c1: "c1 = fst (put_object sha now data ctype c)" "digest = fst (snd (put_object sha now data ctype c))" using assms by simp_all
  show "digest = sha data" "files c1 (cas_path (sha data)) = Some data" "refs c1 = refs c" "sha data \<in> os_sha ` set (objects c1)"
    unfolding c1 put_object_def Let_def fst_conv snd_conv by (simp_all add: upsert_sha)
  show "files c1 p = files c p" if "p \<noteq> cas_path (sha data)" using that by (simp add: c1 put_object_def Let_def)
qed

lemma get_keeps: "refs (fst (get_object now d c)) = refs c \<and> files (fst (get_object now d c)) = files c
    \<and> os_sha ` set (objects (fst (get_object now d c))) = os_sha ` set (objects c)"
  by (simp add: get_object_def shas_update split: option.split)

lemma reference_set:
  assumes "cas_ok sha c" "hex_text d" "set_reference now ''work_item'' (show_nat i) d c = (c', None)"
  shows "map_option rf_sha (select_one (ref_key ''work_item'' (show_nat i)) (refs c')) = Some d \<and> files c' = files c
    \<and> os_sha ` set (objects c') = os_sha ` set (objects c)"
proof -
  let ?k = "ref_key ''work_item'' (show_nat i)"
  define old where "old = (case select_one ?k (refs c) of None \<Rightarrow> [] | Some r \<Rightarrow> [rf_sha r])"
  have "c' = refresh_counts (d # old) (c\<lparr>refs := put_ref now ''work_item'' (show_nat i) d (refs c)\<rparr>)"
    using assms(3) by (simp add: set_reference_def work_owner hex_lower[OF assms(2)] old_def Let_def split: option.splits)
  then have c': "refs c' = put_ref now ''work_item'' (show_nat i) d (refs c)" "files c' = files c" "os_sha ` set (objects c') = os_sha ` set (objects c)"
    by simp_all
  have "select_one ?k (put_ref now ''work_item'' (show_nat i) d (refs c)) \<noteq> None"
    using upsert_has[of ?k] by (auto simp: put_ref_def select_one_None ref_key_def)
  then obtain q where q: "select_one ?k (put_ref now ''work_item'' (show_nat i) d (refs c)) = Some q" by blast
  from select_one_Some[OF q] set_put_ref[of q now "''work_item''" "show_nat i" d "refs c"] have "rf_sha q = d" by auto
  with q c' show ?thesis by simp
qed

lemma leased_one:
  assumes "keyed wk_id t" "select_one (leased_to now i worker token) t = Some r"
  shows "r \<in> set t \<and> leased_to now i worker token r \<and> wk_id r = i"
  using select_one_Some[OF assms(2)] by (auto simp: leased_to_def)

text \<open>The steps of a handoff that succeeds.\<close>

lemma hand_over_parts:
  assumes "hand_over sha rp ct t1 t2 r data result worker token (w, c) = ((w', c'), Inr True)"
  obtains ctype c1 created got where "put_object sha t1 data ctype c = (c1, sha data, created)"
    "snd (get_object t1 (sha data) c1) = Inr got" "sha got = sha data"
    "set_reference t1 ''work_item'' (show_nat (wk_id r)) (sha data) (fst (get_object t1 (sha data) c1)) = (c', None)"
    "work_receive_artifact t2 (wk_id r) (stored_artifact ct t1 (sha data) data result) worker token (items w) = (items w', True)"
    "budgets w' = update_where (download_budget r) (\<lambda>b. b\<lparr>bg_used := bg_used b + int (length data), bg_updated := t2\<rparr>) (budgets w)"
    "next_work w' = next_work w"
proof -
  define ctype where "ctype = (if truthy (get result ''content_type'') then py_str rp (get result ''content_type'') else ''application/octet-stream'')"
  obtain c1 created where put: "put_object sha t1 data ctype c = (c1, sha data, created)"
    using put_facts(1)[of sha t1 data ctype c] by (cases "put_object sha t1 data ctype c") auto
  obtain c2 x where get: "get_object t1 (sha data) c1 = (c2, x)" by fastforce
  note h = assms[unfolded hand_over_def prod.case Let_def, folded ctype_def, unfolded put prod.case get]
  from h obtain got where x: "x = Inr got" by (cases x) auto
  note h2 = h[unfolded x prod.case sum.case]
  from h2 have sha: "sha got = sha data" by (auto split: if_splits)
  obtain c3 e where ref: "set_reference t1 ''work_item'' (show_nat (wk_id r)) (sha data) c2 = (c3, e)" by fastforce
  note h3 = h2[unfolded ref prod.case]
  from h3 sha have e: "e = None" by (cases e) auto
  obtain t ok where rec: "work_receive_artifact t2 (wk_id r) (stored_artifact ct t1 (sha data) data result) worker token (items w) = (t, ok)" by fastforce
  note h4 = h3[unfolded e option.case rec prod.case]
  from h4 sha have "ok" by (cases ok) auto
  with h4 sha have "w' = w\<lparr>items := t, budgets := update_where (download_budget r)
      (\<lambda>b. b\<lparr>bg_used := bg_used b + int (length data), bg_updated := t2\<rparr>) (budgets w)\<rparr>" "c' = c3" by auto
  with get x ref e rec \<open>ok\<close> show thesis by (intro that[OF put _ sha]) simp_all
qed

lemma receive_parts:
  assumes "receive_work_artifact sha rp ct t1 t2 i result worker token (w, c) = ((w', c'), Inr True)"
  obtains r data where "select_one (leased_to t1 i worker token) (items w) = Some r"
    "decode_artifact sha (dict_of (wk_payload r)) result = Inr data"
    "\<And>b. select_one (download_budget r) (budgets w) = Some b \<Longrightarrow> bg_limit b = 0 \<or> bg_used b + int (length data) \<le> bg_limit b"
    "hand_over sha rp ct t1 t2 r data result worker token (w, c) = ((w', c'), Inr True)"
proof -
  note h = assms[unfolded receive_work_artifact_def prod.case]
  from h obtain r where r: "select_one (leased_to t1 i worker token) (items w) = Some r" by (auto split: option.splits)
  note h2 = h[unfolded r option.case]
  from h2 obtain data where d: "decode_artifact sha (dict_of (wk_payload r)) result = Inr data" by (auto split: sum.splits)
  note h3 = h2[unfolded d sum.case]
  from h3 show thesis by (intro that[OF r d]) (auto split: if_splits option.splits)
qed

text \<open>The stored result, as it is read from the row later.\<close>

lemma stored_fields:
  assumes "distinct (map fst result)" "a = dict_of (get (dict_of (sorted_keys (JObj (stored_artifact ct t1 digest data result)))) ''artifact'')"
  shows "get (dict_of (sorted_keys (JObj (stored_artifact ct t1 digest data result)))) ''artifact'' = JObj a"
    "get a ''version'' = JInt WORKER_ARTIFACT_VERSION" "get a ''sha256'' = JText digest" "get a ''size'' = JInt (int (length data))" "get a ''stored'' = JBool True"
proof -
  let ?f = "[(''version'', JInt WORKER_ARTIFACT_VERSION), (''sha256'', JText digest), (''size'', JInt (int (length data))), (''stored'', JBool True)]"
  have "distinct (map fst (without_artifact_body result))"
    using assms(1) by (simp add: without_artifact_body_def obj_set_distinct split: json.split)
  then have "distinct (map fst (stored_artifact ct t1 digest data result))" by (simp add: stored_artifact_def obj_set_distinct)
  then have eq: "get (dict_of (sorted_keys (JObj (stored_artifact ct t1 digest data result)))) ''artifact'' = sorted_keys (JObj ?f)"
    by (simp only: sorted_get) (simp add: stored_artifact_def map_of_obj_set)
  have d: "distinct (map fst ?f)" by simp
  from eq have a: "a = dict_of (sorted_keys (JObj ?f))" by (simp only: assms(2))
  show "get (dict_of (sorted_keys (JObj (stored_artifact ct t1 digest data result)))) ''artifact'' = JObj a"
    unfolding eq a by (simp add: dict_of_def)
  show "get a ''version'' = JInt WORKER_ARTIFACT_VERSION" "get a ''sha256'' = JText digest" "get a ''size'' = JInt (int (length data))" "get a ''stored'' = JBool True"
    unfolding a sorted_get[OF d] by simp_all
qed

lemma accepted_file:
  assumes hex: "hex_digest sha" and ok: "cas_ok sha c" and keys: "keyed wk_id (items w)" and d: "distinct (map fst result)"
    and rec: "receive_work_artifact sha rp ct t1 t2 i result worker token (w, c) = ((w', c'), Inr True)"
  shows "\<exists>r data q. select_one (leased_to t1 i worker token) (items w) = Some r \<and> decode_artifact sha (dict_of (wk_payload r)) result = Inr data
    \<and> q \<in> set (items w') \<and> wk_id q = i \<and> wk_status q = W_Artifact \<and> cas_ok sha c'
    \<and> (\<forall>now cap. int (length data) \<le> cap \<longrightarrow> snd (load_work_artifact sha now i (dict_of (wk_result q)) cap c') = Inr data)"
proof -
  obtain r data where r: "select_one (leased_to t1 i worker token) (items w) = Some r"
    "decode_artifact sha (dict_of (wk_payload r)) result = Inr data" and h: "hand_over sha rp ct t1 t2 r data result worker token (w, c) = ((w', c'), Inr True)"
    by (rule receive_parts[OF rec])
  have ri: "r \<in> set (items w)" "leased_to t1 i worker token r" "wk_id r = i" using leased_one[OF keys r(1)] by simp_all
  obtain ctype c1 created got where p: "put_object sha t1 data ctype c = (c1, sha data, created)"
    and got: "snd (get_object t1 (sha data) c1) = Inr got" "sha got = sha data"
    and ref: "set_reference t1 ''work_item'' (show_nat (wk_id r)) (sha data) (fst (get_object t1 (sha data) c1)) = (c', None)"
    and fin: "work_receive_artifact t2 (wk_id r) (stored_artifact ct t1 (sha data) data result) worker token (items w) = (items w', True)"
    by (rule hand_over_parts[OF h])
  have c1: "cas_ok sha c1" using put_ok[OF ok hex, of t1 data ctype] by (simp add: p)
  then have c2: "cas_ok sha (fst (get_object t1 (sha data) c1))" by (rule get_ok)
  then have c3: "cas_ok sha c'" using set_reference_ok[of sha _ t1 "''work_item''" "show_nat (wk_id r)" "sha data"] ref by (metis fst_conv)
  note s = reference_set[OF c2 hex_digest_text[OF hex] ref]
  have file': "files c' (cas_path (sha data)) = Some data" using s put_facts(2)[OF p] get_keeps[of t1 "sha data" c1] by simp
  have "sha data \<in> os_sha ` set (objects c')" using s put_facts(3)[OF p] get_keeps[of t1 "sha data" c1] by simp
  from get_file[OF c3 this] file' have serve: "snd (get_object now (sha data) c') = Inr data" for now by fastforce
  let ?q = "artifact_received t2 (stored_artifact ct t1 (sha data) data result) r"
  have "items w' = update_where (leased_to t2 i worker token) (artifact_received t2 (stored_artifact ct t1 (sha data) data result)) (items w)"
    and "rowcount (leased_to t2 i worker token) (items w) = 1" using fin by (simp_all add: work_receive_artifact_def ri(3))
  moreover have "leased_to t2 i worker token r"
  proof -
    from \<open>rowcount (leased_to t2 i worker token) (items w) = 1\<close> have "filter (leased_to t2 i worker token) (items w) \<noteq> []"
      by (auto simp: rowcount_def)
    then obtain q where "q \<in> set (items w)" "leased_to t2 i worker token q" by (auto simp: filter_empty_conv)
    with keyed_unique[OF keys, of q r] ri show ?thesis by (auto simp: leased_to_def)
  qed
  ultimately have q: "?q \<in> set (items w')" using ri(1) by (auto simp: set_update_where)
  have load: "snd (load_work_artifact sha now i (dict_of (wk_result ?q)) cap c') = Inr data" if cap: "int (length data) \<le> cap" for now cap
  proof -
    let ?res = "dict_of (sorted_keys (JObj (stored_artifact ct t1 (sha data) data result)))"
    define a where "a = dict_of (get ?res ''artifact'')"
    note f = stored_fields[OF d a_def]
    have res: "dict_of (wk_result ?q) = ?res" by (simp add: artifact_received_def)
    have "artifact_metadata (JObj a) cap = Inr (sha data, int (length data))"
      using cap hex_digest_text[OF hex] by (simp only: artifact_metadata_def json.case f(2-5)) simp
    moreover obtain c4 where "get_object now (sha data) c' = (c4, Inr data)" using serve[of now] by (metis prod.collapse)
    moreover have "get (dict_of (JObj a)) ''stored'' = JBool True" by (simp add: dict_of_def f(5))
    moreover have "map_option rf_sha (select_one (ref_key ''work_item'' (show_nat i)) (refs c')) = Some (sha data)" using s ri(3) by simp
    ultimately have "snd (load_work_artifact sha now i ?res cap c') = Inr data" unfolding load_work_artifact_def f(1) by simp
    then show ?thesis by (simp only: res)
  qed
  from r q ri(3) c3 load show ?thesis by (intro exI[of _ r] exI[of _ data] exI[of _ ?q]) simp
qed

text \<open>A handoff that fails leaves the tables as they were; a file it wrote lies under its own digest.\<close>

lemma undo_put:
  assumes "put_object sha now data ctype c = (c1, digest, created)"
  shows "undo c c1 = c\<lparr>files := files (undo c c1)\<rparr> \<and> (files (undo c c1) p = files c p \<or> (\<exists>d. p = cas_path (sha d) \<and> files (undo c c1) p = Some d))"
  using put_facts(2,4)[OF assms] by (cases "p = cas_path (sha data)") (auto simp: undo_def)

definition rolled_back :: "(bytes \<Rightarrow> string) \<Rightarrow> cas_db \<Rightarrow> cas_db \<Rightarrow> bool" where
  "rolled_back sha c c' \<longleftrightarrow> c' = c\<lparr>files := files c'\<rparr> \<and> (\<forall>p. files c' p = files c p \<or> (\<exists>d. p = cas_path (sha d) \<and> files c' p = Some d))"

lemma rolled_back_refl: "rolled_back sha c c"
  by (simp add: rolled_back_def)

lemma rolled_back_undo: "put_object sha now data ctype c = (c1, digest, created) \<Longrightarrow> rolled_back sha c (undo c c1)"
  using undo_put[of sha now data ctype c c1 digest created] unfolding rolled_back_def by blast

lemma hand_over_failed:
  assumes "hand_over sha rp ct t1 t2 r data result worker token (w, c) = ((w', c'), out)" "out \<noteq> Inr True"
  shows "w' = w \<and> rolled_back sha c c'"
proof -
  define ctype where "ctype = (if truthy (get result ''content_type'') then py_str rp (get result ''content_type'') else ''application/octet-stream'')"
  obtain c1 digest created where put: "put_object sha t1 data ctype c = (c1, digest, created)" by (metis prod.exhaust)
  note h = assms(1)[unfolded hand_over_def prod.case Let_def, folded ctype_def, unfolded put prod.case]
  obtain c2 x where get: "get_object t1 digest c1 = (c2, x)" by fastforce
  note h = h[unfolded get prod.case]
  have "w' = w \<and> c' = undo c c1"
  proof (cases x)
    case (Inl e)
    with h show ?thesis by simp
  next
    case (Inr got)
    note h = h[unfolded Inr sum.case]
    obtain c3 e where ref: "set_reference t1 ''work_item'' (show_nat (wk_id r)) digest c2 = (c3, e)" by fastforce
    obtain t ok where rec: "work_receive_artifact t2 (wk_id r) (stored_artifact ct t1 digest data result) worker token (items w) = (t, ok)" by fastforce
    note h = h[unfolded ref rec prod.case]
    show ?thesis
    proof (cases "sha got \<noteq> digest")
      case False
      with h assms(2) show ?thesis by (cases e; cases ok) simp_all
    qed (use h in simp)
  qed
  with rolled_back_undo[OF put] show ?thesis by simp
qed

lemma receive_failed:
  assumes "receive_work_artifact sha rp ct t1 t2 i result worker token (w, c) = ((w', c'), out)" "out \<noteq> Inr True"
  shows "w' = w \<and> rolled_back sha c c'"
  using assms hand_over_failed unfolding receive_work_artifact_def prod.case
  by (auto simp: rolled_back_refl split: option.splits sum.splits if_splits)

lemma receive_settles:
  assumes "receive_work_artifact sha rp ct t1 t2 i result worker token (w, c) = ((w', c'), Inr True)"
  shows "\<exists>res. remote_settle t2 token i (worker, R_Artifact res) (items w) = (items w', True) \<and> next_work w' = next_work w"
proof -
  obtain r data where r: "select_one (leased_to t1 i worker token) (items w) = Some r"
    and h: "hand_over sha rp ct t1 t2 r data result worker token (w, c) = ((w', c'), Inr True)"
    by (rule receive_parts[OF assms])
  have "wk_id r = i" using select_one_Some[OF r] by (simp add: leased_to_def)
  with h show ?thesis by (elim hand_over_parts) (auto simp: remote_settle_def)
qed

section \<open>The protocol as a system\<close>

definition answered :: "reply \<Rightarrow> bool" where
  "answered rep \<longleftrightarrow> rep = Accepted \<or> rep = Artifact_Ready"

text \<open>On the items, a result is a settlement under the caller's token, accepted when the reply says so.\<close>

definition settles :: "string \<Rightarrow> work_item list \<Rightarrow> work_item list \<Rightarrow> bool \<Rightarrow> bool" where
  "settles token t t' acc \<longleftrightarrow> (\<exists>now i o'. remote_settle now token i o' t = (t', acc))"

lemma settlesI: "remote_settle now token i o' t = (t', acc) \<Longrightarrow> settles token t t' acc"
  unfolding settles_def by blast

lemma settles_void [simp]: "settles token t t False"
proof -
  obtain i where i: "i \<notin> wk_id ` set t" using ex_new_if_finite[of "wk_id ` set t"] by auto
  have "remote_settle 0 token i ('''', R_Finish []) t = (t, False)"
    by (rule settle_without_lease) (use i in \<open>auto simp: leased_to_def image_iff\<close>)
  then show ?thesis by (rule settlesI)
qed

definition answers :: "string \<Rightarrow> gateway \<Rightarrow> gateway \<Rightarrow> reply \<Rightarrow> bool" where
  "answers token g g' rep \<longleftrightarrow> settles token (items (gw_work g)) (items (gw_work g')) (answered rep) \<and> next_work (gw_work g') = next_work (gw_work g)"

lemma unanswered [simp]: "\<not> answered (Refused n s)" "\<not> answered lost_lease" "\<not> answered Crashed" "answered Accepted" "answered Artifact_Ready"
  by (simp_all add: answered_def lost_lease_def)

lemma record_failure_answers:
  assumes "record_failure rp hostname http_time now i (worker, token) payload result out run g = (g', rep)"
  shows "answers token g g' rep"
proof -
  obtain t ok where f: "work_fail now i (wo_error out) (wo_retry out) (Some (with_outcome out (base_result result))) (Some (worker, token)) (items (gw_work g)) = (t, ok)"
    by fastforce
  then have "remote_settle now token i (worker, R_Fail (wo_error out) (wo_retry out) (Some (with_outcome out (base_result result)))) (items (gw_work g)) = (t, ok)"
    by (simp add: remote_settle_def)
  then have "settles token (items (gw_work g)) t ok" by (rule settlesI)
  with assms f show ?thesis by (cases ok) (auto simp: record_failure_def answers_def)
qed

lemma receive_answers:
  assumes "receive_work_artifact sha rp ct t1 t2 i result worker token (w, c) = ((w', c'), x)"
  shows "settles token (items w) (items w') (x = Inr True) \<and> next_work w' = next_work w"
proof (cases "x = Inr True")
  case True
  with receive_settles[of sha rp ct t1 t2 i result worker token w c w' c'] assms show ?thesis by (auto intro: settlesI)
next
  case False
  with receive_failed[OF assms] show ?thesis by simp
qed

lemma settle_result_answers:
  assumes "settle_result sha rp say_store ct hostname http_time t1 t2 t3 i (worker, token) payload result out run g = (g', rep)"
  shows "answers token g g' rep"
proof (cases "wo_ok out \<and> get payload ''kind'' = JText ''download_url''")
  case True
  obtain w c x where rec: "receive_work_artifact sha rp ct t1 t2 i (dict_of result) worker token (gw_work g, gw_cas g) = ((w, c), x)" by (metis prod.exhaust)
  note h = assms[unfolded settle_result_def fst_conv snd_conv rec prod.case if_P[OF True]]
  note s = receive_answers[OF rec]
  show ?thesis
  proof (cases x)
    case (Inl e)
    then have w: "w = gw_work g" using receive_failed[OF rec] by simp
    show ?thesis
    proof (cases "caught e")
      case True
      with h Inl have "record_failure rp hostname http_time t3 i (worker, token) payload result (storage_failure say_store e) run (g\<lparr>gw_work := w, gw_cas := c\<rparr>) = (g', rep)" by simp
      from record_failure_answers[OF this] w show ?thesis by (simp add: answers_def)
    next
      case False
      with h Inl w show ?thesis by (auto simp: answers_def)
    qed
  next
    case (Inr acc)
    with h s show ?thesis by (cases acc) (auto simp: answers_def)
  qed
next
  case no: False
  show ?thesis
  proof (cases "wo_ok out")
    case True
    obtain t ok where f: "work_finish t3 i (with_outcome out (base_result result)) (Some (worker, token)) (items (gw_work g)) = (t, ok)" by fastforce
    then have "remote_settle t3 token i (worker, R_Finish (with_outcome out (base_result result))) (items (gw_work g)) = (t, ok)" by (simp add: remote_settle_def)
    then have "settles token (items (gw_work g)) t ok" by (rule settlesI)
    with assms no True f show ?thesis by (cases ok) (auto simp: settle_result_def answers_def)
  next
    case False
    with assms have "record_failure rp hostname http_time t3 i (worker, token) payload result out run g = (g', rep)" by (simp add: settle_result_def)
    then show ?thesis by (rule record_failure_answers)
  qed
qed

lemma work_result_answers:
  assumes "work_result sha rp rs say say_store ct url_host hostname http_date http_time auth t1 t2 t3 data g = (g', rep)"
  shows "answers (sha (text_or_empty rp (get data ''lease_token''))) g g' rep"
  using assms settle_result_answers unfolding work_result_def Let_def
  by (auto simp: answers_def split: option.splits if_splits)

end
