(* ===== verification/Worker_Protocol.thy ===== *)
theory Worker_Protocol
  imports Worker_Gateway_Facts
begin

text \<open>
  The worker interface as a system: any sequence of registrations, heartbeats, claims and results of any callers,
  interleaved with what local stages do to the queue.  Each step is simulated by the work queue of
  \<open>Work_Queue_System\<close>, whose guarantees carry over to the replies the workers see.
\<close>

section \<open>Steps\<close>

text \<open>The token hashes that were handed out, and those under which an answer was accepted.\<close>

record protocol =
  p_gate :: gateway
  p_issued :: "string list"
  p_accepted :: "string list"

definition local_work :: "protocol \<Rightarrow> work_item list \<Rightarrow> protocol" where
  "local_work s t = s\<lparr>p_gate := (p_gate s)\<lparr>gw_work := (gw_work (p_gate s))\<lparr>items := t\<rparr>\<rparr>\<rparr>"

inductive protocol_step :: "(string \<Rightarrow> string) \<Rightarrow> (json \<Rightarrow> string) \<Rightarrow> (string \<Rightarrow> (string \<Rightarrow> bool) option) \<Rightarrow> protocol \<Rightarrow> protocol \<Rightarrow> bool"
  for sha rp rs where
  register: "register_worker rp auth random now data (p_gate s) = (g, rep) \<Longrightarrow> protocol_step sha rp rs s (s\<lparr>p_gate := g\<rparr>)"
| beat: "heartbeat rp auth now data (p_gate s) = (g, rep) \<Longrightarrow> protocol_step sha rp rs s (s\<lparr>p_gate := g\<rparr>)"
| claim: "sha token \<notin> set (p_issued s) \<Longrightarrow> sha token \<noteq> '''' \<Longrightarrow>
    claim_work sha rp rs url_host hostname auth token now data (p_gate s) = Some (g, rep) \<Longrightarrow>
    protocol_step sha rp rs s (s\<lparr>p_gate := g, p_issued := (case rep of Work r tok \<Rightarrow> sha token # p_issued s | _ \<Rightarrow> p_issued s)\<rparr>)"
| result: "work_result sha rp rs say say_store ct url_host hostname http_date http_time auth t1 t2 t3 data (p_gate s) = (g, rep) \<Longrightarrow>
    protocol_step sha rp rs s (s\<lparr>p_gate := g,
      p_accepted := (if answered rep then sha (text_or_empty rp (get data ''lease_token'')) # p_accepted s else p_accepted s)\<rparr>)"
| enqueue: "protocol_step sha rp rs s (s\<lparr>p_gate := (p_gate s)\<lparr>gw_work := fst (enqueue_work now run tgt stage k payload (gw_work (p_gate s)))\<rparr>\<rparr>)"
| local_start: "protocol_step sha rp rs s (local_work s (fst (work_start now i worker '''' None (items (gw_work (p_gate s))))))"
| local_finish: "protocol_step sha rp rs s (local_work s (fst (work_finish now i res None (items (gw_work (p_gate s))))))"
| local_fail: "protocol_step sha rp rs s (local_work s (fst (work_fail now i err retry res' None (items (gw_work (p_gate s))))))"
| reopen: "protocol_step sha rp rs s (local_work s (fst (work_reopen now i err (items (gw_work (p_gate s))))))"

definition idle :: protocol where
  "idle = \<lparr>p_gate = \<lparr>gw_workers = [], gw_work = \<lparr>next_work = 1, items = [], budgets = []\<rparr>,
     gw_cas = \<lparr>objects = [], refs = [], files = (\<lambda>_. None), js_blobs = [], legacy_seeded = False\<rparr>, gw_cool = []\<rparr>, p_issued = [], p_accepted = []\<rparr>"

inductive protocol_reachable :: "(string \<Rightarrow> string) \<Rightarrow> (json \<Rightarrow> string) \<Rightarrow> (string \<Rightarrow> (string \<Rightarrow> bool) option) \<Rightarrow> protocol \<Rightarrow> bool"
  for sha rp rs where
  init: "protocol_reachable sha rp rs idle"
| step: "protocol_reachable sha rp rs s \<Longrightarrow> protocol_step sha rp rs s s' \<Longrightarrow> protocol_reachable sha rp rs s'"

section \<open>Simulation by the work queue\<close>

definition plain_queue :: "work_db \<Rightarrow> work_db" where
  "plain_queue w = \<lparr>next_work = next_work w, items = items w, budgets = []\<rparr>"

definition queue_of :: "protocol \<Rightarrow> work_sys" where
  "queue_of s = \<lparr>wdb = plain_queue (gw_work (p_gate s)), issued = p_issued s, accepted = p_accepted s\<rparr>"

lemma plain_eq: "items w' = items w \<Longrightarrow> next_work w' = next_work w \<Longrightarrow> plain_queue w' = plain_queue w"
  by (simp add: plain_queue_def)

lemma plain_items: "next_work w' = next_work w \<Longrightarrow> plain_queue w' = (plain_queue w)\<lparr>items := items w'\<rparr>"
  by (simp add: plain_queue_def)

lemma plain_fields [simp]: "items (plain_queue w) = items w" "next_work (plain_queue w) = next_work w"
  by (simp_all add: plain_queue_def)

lemma register_work: "register_worker rp auth random now data g = (g', rep) \<Longrightarrow> gw_work g' = gw_work g"
  by (auto simp: register_worker_def Let_def split: option.splits if_splits)

lemma heartbeat_work: "heartbeat rp auth now data g = (g', rep) \<Longrightarrow> gw_work g' = gw_work g"
  by (auto simp: heartbeat_def Let_def split: option.splits)

lemma enqueue_plain: "plain_queue (fst (enqueue_work now run tgt stage k payload w)) = fst (enqueue_work now run tgt stage k payload (plain_queue w))"
  by (simp add: enqueue_work_def Let_def plain_queue_def)

lemma claim_work_cases:
  assumes "keyed wk_id (items (gw_work g))" "claim_work sha rp rs url_host hostname auth token now data g = Some (g', rep)"
  shows "g' = g \<and> (\<forall>r tok. rep \<noteq> Work r tok)
    \<or> rep = No_Work \<and> g' = g\<lparr>gw_work := (gw_work g)\<lparr>items := fst (reclaim_expired_work_leases now (items (gw_work g)))\<rparr>\<rparr>
    \<or> (\<exists>r w. rep = Work r token \<and> g' = g\<lparr>gw_work := (gw_work g)\<lparr>items :=
         remote_claim now (sha token) (wk_id r, w, Some (now + WORK_LEASE_SECONDS)) (items (gw_work g))\<rparr>\<rparr>)"
proof (cases "identified auth (py_str rp (get data ''worker_id'')) g")
  case None
  with assms(2) show ?thesis by (auto simp: claim_work_def)
next
  case (Some worker)
  show ?thesis
  proof (cases "worker_supports_scope (JObj (dict_of (wr_metadata worker)))")
    case False
    with assms(2) Some show ?thesis by (auto simp: claim_work_def)
  next
    case True
    from assms(2) claim_work_eq[OF assms(1) Some True, of sha rs url_host hostname token now] show ?thesis
      by (auto simp: Let_def lease_item_def remote_claim_def split: option.splits)
  qed
qed

lemma answers_step:
  assumes "answers tok g g' rep"
  shows "work_step \<lparr>wdb = plain_queue (gw_work g), issued = iss, accepted = acc\<rparr>
    \<lparr>wdb = plain_queue (gw_work g'), issued = iss, accepted = (if answered rep then tok # acc else acc)\<rparr>"
proof -
  from assms obtain now i o' where o': "remote_settle now tok i o' (items (gw_work g)) = (items (gw_work g'), answered rep)"
    and n: "next_work (gw_work g') = next_work (gw_work g)" by (auto simp: answers_def settles_def)
  show ?thesis
    using work_step.settle[of now tok i o' "\<lparr>wdb = plain_queue (gw_work g), issued = iss, accepted = acc\<rparr>", simplified, OF o']
    by (cases "answered rep") (simp_all add: plain_items[OF n])
qed

lemma protocol_simulated:
  assumes "protocol_step sha rp rs s s'" "keyed wk_id (items (gw_work (p_gate s)))"
  shows "queue_of s' = queue_of s \<or> work_step (queue_of s) (queue_of s')"
  using assms
proof (induction rule: protocol_step.induct)
  case (register auth random now data s g rep)
  then show ?case by (simp add: queue_of_def register_work)
next
  case (beat auth now data s g rep)
  then show ?case by (simp add: queue_of_def heartbeat_work)
next
  case (claim token s url_host hostname auth now data g rep)
  from claim_work_cases[OF claim.prems claim.hyps(3)] show ?case
  proof (elim disjE exE conjE)
    assume "g = p_gate s" "\<forall>r tok. rep \<noteq> Work r tok"
    then show ?thesis by (auto simp: queue_of_def split: reply.split)
  next
    assume "rep = No_Work" "g = (p_gate s)\<lparr>gw_work := (gw_work (p_gate s))\<lparr>items := fst (reclaim_expired_work_leases now (items (gw_work (p_gate s))))\<rparr>\<rparr>"
    then show ?thesis using work_step.reclaim[of "queue_of s" now] by (simp add: queue_of_def plain_queue_def)
  next
    fix r w assume "rep = Work r token" "g = (p_gate s)\<lparr>gw_work := (gw_work (p_gate s))\<lparr>items :=
         remote_claim now (sha token) (wk_id r, w, Some (now + WORK_LEASE_SECONDS)) (items (gw_work (p_gate s)))\<rparr>\<rparr>"
    then show ?thesis using work_step.claim[of "sha token" "queue_of s" now "wk_id r" w "now + WORK_LEASE_SECONDS"] claim.hyps(1,2)
      by (simp add: queue_of_def plain_queue_def)
  qed
next
  case (result say say_store ct url_host hostname http_date http_time auth t1 t2 t3 data s g rep)
  from answers_step[OF work_result_answers[OF result.hyps], of "p_issued s" "p_accepted s"] show ?case by (simp add: queue_of_def)
next
  case (enqueue s now run tgt stage k payload)
  show ?case using work_step.enqueue[of "queue_of s" now run tgt stage k payload] by (simp add: queue_of_def enqueue_plain)
next
  case (local_start s now i worker)
  show ?case using work_step.local_start[of "queue_of s" now i worker] by (simp add: queue_of_def local_work_def plain_queue_def)
next
  case (local_finish s now i res)
  show ?case using work_step.local_finish[of "queue_of s" now i res] by (simp add: queue_of_def local_work_def plain_queue_def)
next
  case (local_fail s now i err retry res')
  show ?case using work_step.local_fail[of "queue_of s" now i err retry res'] by (simp add: queue_of_def local_work_def plain_queue_def)
next
  case (reopen s now i err)
  show ?case using work_step.reopen[of "queue_of s" now i err] by (simp add: queue_of_def local_work_def plain_queue_def)
qed

lemma queue_reachable: "protocol_reachable sha rp rs s \<Longrightarrow> work_reachable (queue_of s)"
proof (induction rule: protocol_reachable.induct)
  case init
  have "queue_of idle = empty_queue" by (simp add: queue_of_def idle_def empty_queue_def plain_queue_def)
  then show ?case by (simp add: work_reachable.init)
next
  case (step s s')
  have "keyed wk_id (items (gw_work (p_gate s)))" using work_reachable_inv[OF step.IH] by (simp add: work_inv_def queue_of_def)
  from protocol_simulated[OF step.hyps(2) this] step.IH show ?case by (metis work_reachable.step)
qed

lemma reachable_keyed: "protocol_reachable sha rp rs s \<Longrightarrow> keyed wk_id (items (gw_work (p_gate s)))"
  using work_reachable_inv[OF queue_reachable] by (simp add: work_inv_def queue_of_def)

lemma spent_token:
  assumes "protocol_reachable sha rp rs s" "tok \<in> set (p_accepted s)" "settles tok (items (gw_work (p_gate s))) t acc"
  shows "t = items (gw_work (p_gate s)) \<and> \<not> acc"
proof -
  have inv: "work_inv (queue_of s)" by (rule work_reachable_inv[OF queue_reachable[OF assms(1)]])
  from assms(3) obtain now i o' where o': "remote_settle now tok i o' (items (gw_work (p_gate s))) = (t, acc)" by (auto simp: settles_def)
  have "remote_settle now tok i o' (items (gw_work (p_gate s))) = (items (gw_work (p_gate s)), False)"
  proof (rule settle_without_lease)
    fix r assume "r \<in> set (items (gw_work (p_gate s)))"
    then have "wk_token r \<noteq> Some tok" using inv assms(2) token_invD(1)[of "p_issued s" "p_accepted s" "items (gw_work (p_gate s))" r tok]
      by (auto simp: work_inv_def queue_of_def)
    then show "\<not> leased_to now i (fst o') tok r" by (auto dest: leased_holder)
  qed
  with o' show ?thesis by simp
qed

section \<open>Identity\<close>

lemma find_worker_upsert:
  assumes "find_worker v g = Some r" "\<And>q. wr_id (f q) = wr_id q" "wr_id new = w"
    "\<And>q. wr_id q = w \<Longrightarrow> wr_auth q \<noteq> '''' \<Longrightarrow> wr_auth (f q) = wr_auth q"
  shows "\<exists>r'. find_worker v (g\<lparr>gw_workers := upsert (\<lambda>q. wr_id q = w) new f (gw_workers g)\<rparr>) = Some r' \<and> (wr_auth r \<noteq> '''' \<longrightarrow> wr_auth r' = wr_auth r)"
proof -
  have sel: "select_one (\<lambda>q. wr_id q = v) (gw_workers g) = Some r" using assms(1) by (simp add: find_worker_def)
  show ?thesis
  proof (cases "list_ex (\<lambda>q. wr_id q = w) (gw_workers g)")
    case True
    have "select_one (\<lambda>q. wr_id q = v) (update_where (\<lambda>q. wr_id q = w) f (gw_workers g)) = Some (if wr_id r = w then f r else r)"
      using select_one_update_where[of "\<lambda>q. wr_id q = w" "\<lambda>q. wr_id q = v" f "gw_workers g"] sel assms(2) by simp
    with True assms(4)[of r] show ?thesis by (auto simp: find_worker_def upsert_def)
  next
    case False
    then have "select_one (\<lambda>q. wr_id q = v) (gw_workers g @ [new]) = Some r" using sel by (simp add: select_one_snoc)
    with False show ?thesis by (auto simp: find_worker_def upsert_def)
  qed
qed

lemma bound_upsert:
  assumes "find_worker v g = Some r" "wr_auth r \<noteq> ''''" "\<And>q. wr_id (f q) = wr_id q" "wr_id new = w"
    "\<And>q. wr_id q = w \<Longrightarrow> wr_auth q \<noteq> '''' \<Longrightarrow> wr_auth (f q) = wr_auth q"
  shows "\<exists>r'. find_worker v (g\<lparr>gw_workers := upsert (\<lambda>q. wr_id q = w) new f (gw_workers g)\<rparr>) = Some r' \<and> wr_auth r' = wr_auth r"
  using find_worker_upsert[OF assms(1,3-5)] assms(2) by blast

lemma register_bound:
  assumes "register_worker rp auth random now data g = (g', rep)" "find_worker v g = Some r" "wr_auth r \<noteq> ''''"
  shows "\<exists>r'. find_worker v g' = Some r' \<and> wr_auth r' = wr_auth r"
proof (cases "g' = g")
  case True
  with assms(2) show ?thesis by blast
next
  case False
  define w where "w = (if truthy (get data ''worker_id'') then py_str rp (get data ''worker_id'') else random)"
  from False assms(1) show ?thesis
    unfolding register_worker_def Let_def w_def[symmetric]
    by (auto split: option.splits if_splits intro!: bound_upsert[OF assms(2,3)])
qed

lemma heartbeat_bound:
  assumes "heartbeat rp auth now data g = (g', rep)" "find_worker v g = Some r"
  shows "\<exists>r'. find_worker v g' = Some r' \<and> wr_auth r' = wr_auth r"
proof -
  have "\<exists>r'. find_worker v (g\<lparr>gw_workers := update_where (\<lambda>r. wr_id r = w) (\<lambda>r. r\<lparr>wr_status := s, wr_heartbeat := h\<rparr>) (gw_workers g)\<rparr>) = Some r' \<and> wr_auth r' = wr_auth r" for w s h
    using assms(2) select_one_update_where[of "\<lambda>r. wr_id r = w" "\<lambda>q. wr_id q = v" "\<lambda>r. r\<lparr>wr_status := s, wr_heartbeat := h\<rparr>" "gw_workers g"]
    by (auto simp: find_worker_def)
  with assms show ?thesis by (auto simp: heartbeat_def Let_def split: option.splits)
qed

lemma claim_workers: "claim_work sha rp rs url_host hostname auth token now data g = Some (g', rep) \<Longrightarrow> gw_workers g' = gw_workers g"
  by (auto simp: claim_work_def Let_def split: option.splits if_splits)

lemma failure_workers: "gw_workers (fst (record_failure rp hostname http_time now i who payload result out run g)) = gw_workers g"
  by (simp add: record_failure_def split: prod.split bool.split)

lemma settle_workers: "gw_workers (fst (settle_result sha rp say_store ct hostname http_time t1 t2 t3 i who payload result out run g)) = gw_workers g"
  by (simp add: settle_result_def failure_workers split: prod.split bool.split sum.split)

lemma result_workers:
  "work_result sha rp rs say say_store ct url_host hostname http_date http_time auth t1 t2 t3 data g = (g', rep) \<Longrightarrow> gw_workers g' = gw_workers g"
  unfolding work_result_def Let_def by (auto split: option.splits if_splits dest!: arg_cong[where f = fst] simp: settle_workers)

lemma step_bound:
  assumes "protocol_step sha rp rs s s'" "find_worker v (p_gate s) = Some r" "wr_auth r \<noteq> ''''"
  shows "\<exists>r'. find_worker v (p_gate s') = Some r' \<and> wr_auth r' = wr_auth r"
  using assms
proof (induction rule: protocol_step.induct)
  case (register auth random now data s g rep)
  then show ?case using register_bound by simp
next
  case (beat auth now data s g rep)
  then show ?case using heartbeat_bound by simp
qed (auto simp: find_worker_def local_work_def dest: claim_workers result_workers)


section \<open>Guarantees\<close>

lemma lease_miss:
  assumes "keyed wk_id t" "rowcount (settle_guard now i (Some who)) t \<noteq> 1"
  shows "update_where (settle_guard now i (Some who)) f t = t"
proof -
  let ?p = "settle_guard now i (Some who)"
  have one: "wk_id r = i" if "?p r" for r using that by (simp add: settle_guard_def leased_to_def split: prod.splits)
  have eq: "rowcount (\<lambda>r. wk_id r = i \<and> ?p r) t = rowcount ?p t"
    unfolding rowcount_def by (intro arg_cong[where f = length] filter_cong refl) (use one in blast)
  have none: "\<not> ?p r" if "r \<in> set t" for r
  proof
    assume p: "?p r"
    have ex: "\<exists>r \<in> set t. wk_id r = i \<and> ?p r" by (rule bexI[OF _ that]) (use p one[OF p] in blast)
    have "rowcount ?p t = 1" using rowcount_key[OF assms(1), of i ?p] unfolding eq if_P[OF ex] .
    with assms(2) show False by contradiction
  qed
  show ?thesis unfolding update_where_def by (rule map_idI) (use none in simp)
qed

text \<open>An answer without a lease leaves the whole controller as it was, up to a file of the object store.\<close>

definition untouched :: "(bytes \<Rightarrow> string) \<Rightarrow> gateway \<Rightarrow> gateway \<Rightarrow> bool" where
  "untouched sha g g' \<longleftrightarrow> g' = g\<lparr>gw_cas := gw_cas g'\<rparr> \<and> rolled_back sha (gw_cas g) (gw_cas g')"

lemma untouched_refl [simp]: "untouched sha g g"
  by (simp add: untouched_def rolled_back_refl)

lemma record_failure_refused:
  assumes "record_failure rp hostname http_time now i (worker, token) payload result out run g = (g', rep)"
    "keyed wk_id (items (gw_work g))" "\<not> answered rep"
  shows "g' = g"
  using assms(1,3) lease_miss[OF assms(2)] by (auto simp: record_failure_def work_fail_def split: bool.splits)

lemma settle_result_refused:
  assumes "settle_result sha rp say_store ct hostname http_time t1 t2 t3 i (worker, token) payload result out run g = (g', rep)"
    "keyed wk_id (items (gw_work g))" "\<not> answered rep"
  shows "untouched sha g g'"
proof (cases "wo_ok out \<and> get payload ''kind'' = JText ''download_url''")
  case True
  obtain w c x where rec: "receive_work_artifact sha rp ct t1 t2 i (dict_of result) worker token (gw_work g, gw_cas g) = ((w, c), x)" by (metis prod.exhaust)
  note h = assms(1)[unfolded settle_result_def fst_conv snd_conv rec prod.case if_P[OF True]]
  have x: "x \<noteq> Inr True" using h assms(3) by auto
  from receive_failed[OF rec x] have w: "w = gw_work g" "rolled_back sha (gw_cas g) c" by simp_all
  have "g' = g\<lparr>gw_work := w, gw_cas := c\<rparr>"
  proof (cases x)
    case (Inl e)
    show ?thesis
    proof (cases "caught e")
      case True
      with h Inl have "record_failure rp hostname http_time t3 i (worker, token) payload result (storage_failure say_store e) run (g\<lparr>gw_work := w, gw_cas := c\<rparr>) = (g', rep)" by simp
      from record_failure_refused[OF this] w assms(2,3) show ?thesis by simp
    next
      case False
      with h Inl show ?thesis by auto
    qed
  next
    case (Inr acc)
    with h show ?thesis by auto
  qed
  with w show ?thesis by (simp add: untouched_def)
next
  case False
  show ?thesis
  proof (cases "wo_ok out")
    case True
    with False assms(1,3) lease_miss[OF assms(2)] show ?thesis
      by (auto simp: settle_result_def work_finish_def split: bool.splits)
  next
    case 2: False
    with assms(1) have "record_failure rp hostname http_time t3 i (worker, token) payload result out run g = (g', rep)" by (simp add: settle_result_def)
    from record_failure_refused[OF this assms(2,3)] show ?thesis by simp
  qed
qed

lemma work_result_refused:
  assumes "work_result sha rp rs say say_store ct url_host hostname http_date http_time auth t1 t2 t3 data g = (g', rep)"
    "keyed wk_id (items (gw_work g))" "\<not> answered rep"
  shows "untouched sha g g'"
  using assms settle_result_refused unfolding work_result_def Let_def
  by (auto split: option.splits if_splits)


definition first_of :: "(work_item \<Rightarrow> bool) \<Rightarrow> work_item list \<Rightarrow> work_item \<Rightarrow> bool" where
  "first_of may t r \<longleftrightarrow> r \<in> set t \<and> claimable r \<and> may r \<and> (\<forall>q \<in> set t. claimable q \<and> 0 < wk_id q \<and> may q \<longrightarrow> wk_id r \<le> wk_id q)"

lemma first_ready_first: "keyed wk_id t \<Longrightarrow> first_ready may t = Some r \<Longrightarrow> first_of may t r"
  using first_ready_some first_ready_least unfolding first_of_def by blast

lemma first_ready_none: "first_ready may t = None \<Longrightarrow> r \<in> set t \<Longrightarrow> claimable r \<Longrightarrow> 0 < wk_id r \<Longrightarrow> \<not> may r"
  by (simp add: first_ready_def find_no_match waiting_members)

text \<open>What a worker reads from the reply to a claim.\<close>

definition handed_out :: "(work_item \<Rightarrow> bool) \<Rightarrow> stamp \<Rightarrow> string \<Rightarrow> string \<Rightarrow> work_item list \<Rightarrow> work_item list \<Rightarrow> reply \<Rightarrow> bool" where
  "handed_out may now w h t t' rep = (case rep of
     Work r tok \<Rightarrow> first_of may t r \<and> (\<exists>q \<in> set t'. wk_payload q = wk_payload r \<and> (\<forall>n \<le> now + WORK_LEASE_SECONDS. leased_to n (wk_id r) w h q))
   | No_Work \<Rightarrow> t' = t \<and> \<not> list_ex (\<lambda>r. claimable r \<and> 0 < wk_id r \<and> may r) t
   | _ \<Rightarrow> False)"

lemma lease_row:
  assumes "r \<in> set t" "claimable r" "h \<noteq> ''''"
  shows "\<exists>q \<in> set (fst (lease_item now w h r t)). wk_payload q = wk_payload r \<and> (\<forall>n \<le> now + WORK_LEASE_SECONDS. leased_to n (wk_id r) w h q)"
proof -
  let ?q = "started now w h (Some (now + WORK_LEASE_SECONDS)) r"
  have "?q \<in> set (fst (lease_item now w h r t))"
    using assms(1,2) by (auto simp: lease_item_def work_start_def startable_def claimable_def set_update_where)
  moreover have "wk_payload ?q = wk_payload r \<and> (\<forall>n \<le> now + WORK_LEASE_SECONDS. leased_to n (wk_id r) w h ?q)"
    using assms(3) by (simp add: started_def leased_to_def)
  ultimately show ?thesis by blast
qed

text \<open>C37: a claim by a worker whose identity and scope version check out always returns: it hands out the first
  item, in the order of the numbers, that is waiting, whose retry delay has passed, whose kind the worker may do, whose
  embedded policy is the target's and covers the address, and whose host does not cool down; the row is then leased to
  this worker under the hash of the token in the reply until the lease time is over.  The reply is empty only when no
  such item waits.  Expired leases are taken back first.\<close>

theorem claim_hands_out_the_first_ready_item:
  assumes "keyed wk_id (items (gw_work g))" "identified auth (py_str rp (get data ''worker_id'')) g = Some worker"
    "worker_supports_scope (JObj (dict_of (wr_metadata worker)))" "sha token \<noteq> ''''"
  shows "case claim_work sha rp rs url_host hostname auth token now data g of
      None \<Rightarrow> False
    | Some (g', rep) \<Rightarrow> handed_out (may_claim rp rs url_host hostname now worker (gw_cool g)) now (py_str rp (get data ''worker_id'')) (sha token)
        (fst (reclaim_expired_work_leases now (items (gw_work g)))) (items (gw_work g')) rep"
proof (cases "claimed_item rp rs url_host hostname now worker g")
  case None
  with claim_work_eq[OF assms(1-3), of sha rs url_host hostname token now] show ?thesis
    by (auto simp: Let_def handed_out_def list_ex_iff claimed_item_def dest: first_ready_none)
next
  case (Some r)
  note f = first_ready_first[OF reclaim_keyed[OF assms(1)] Some[unfolded claimed_item_def]]
  show ?thesis
    using f lease_row[OF _ _ assms(4), of r] claim_work_eq[OF assms(1-3), of sha rs url_host hostname token now] Some
    by (simp add: Let_def handed_out_def first_of_def)
qed

text \<open>C36: however registrations, heartbeats, claims, results and local stages interleave, every token under which a
  result was accepted had been handed out, no token is accepted twice, and a result sent again under such a token is
  refused and changes nothing: no item, budget, cooldown or worker, and no table of the object store.\<close>

theorem one_accepted_answer_per_lease:
  assumes "protocol_reachable sha rp rs s"
  shows "distinct (p_accepted s) \<and> set (p_accepted s) \<subseteq> set (p_issued s)
    \<and> (case work_result sha rp rs say say_store ct url_host hostname http_date http_time auth t1 t2 t3 data (p_gate s) of
         (g', rep) \<Rightarrow> sha (text_or_empty rp (get data ''lease_token'')) \<in> set (p_accepted s) \<longrightarrow> \<not> answered rep \<and> untouched sha (p_gate s) g')"
proof -
  obtain g' rep where r: "work_result sha rp rs say say_store ct url_host hostname http_date http_time auth t1 t2 t3 data (p_gate s) = (g', rep)" by fastforce
  have inv: "distinct (p_accepted s) \<and> set (p_accepted s) \<subseteq> set (p_issued s)"
    using work_reachable_inv[OF queue_reachable[OF assms]] by (simp add: work_inv_def queue_of_def)
  have "\<not> answered rep \<and> untouched sha (p_gate s) g'" if "sha (text_or_empty rp (get data ''lease_token'')) \<in> set (p_accepted s)"
    using work_result_answers[OF r] spent_token[OF assms that] work_result_refused[OF r reachable_keyed[OF assms]] by (auto simp: answers_def)
  with inv r show ?thesis by simp
qed

text \<open>A worker name that was registered with a token stays bound to that token, whatever requests follow.\<close>

theorem worker_name_stays_bound:
  assumes "(protocol_step sha rp rs)\<^sup>*\<^sup>* s s'" "find_worker v (p_gate s) = Some r" "wr_auth r \<noteq> ''''"
  shows "\<exists>r'. find_worker v (p_gate s') = Some r' \<and> wr_auth r' = wr_auth r"
  using assms(1)
proof (induction rule: rtranclp_induct)
  case base
  with assms(2) show ?case by blast
next
  case (step s1 s2)
  then obtain r1 where "find_worker v (p_gate s1) = Some r1" "wr_auth r1 = wr_auth r" by blast
  with step_bound[OF step.hyps(2)] assms(3) show ?case by metis
qed

text \<open>C40: the worker interface refines the work queue: in every reachable state of the protocol, its items and lease
  tokens are those of a reachable state of the queue, so a step of the protocol is a step of the queue or leaves the queue as it is.\<close>

theorem protocol_refines_queue:
  assumes "protocol_reachable sha rp rs s" "protocol_step sha rp rs s s'"
  shows "work_reachable (queue_of s) \<and> (queue_of s' = queue_of s \<or> work_step (queue_of s) (queue_of s'))"
  using queue_reachable[OF assms(1)] protocol_simulated[OF assms(2) reachable_keyed[OF assms(1)]] by simp

text \<open>C38: a file that the controller accepts from a worker is the one it serves afterwards: it passed the check of its
  size and digest against the leased task, the item waits for its local consumer, the object store keeps its invariant,
  and loading the item's artifact returns exactly these bytes, at any later time and with any cap they fit.\<close>

theorem accepted_file_is_served:
  assumes "hex_digest sha" "cas_ok sha c" "keyed wk_id (items w)" "distinct (map fst result)"
    "receive_work_artifact sha rp ct t1 t2 i result worker token (w, c) = ((w', c'), Inr True)"
  shows "\<exists>r data q. select_one (leased_to t1 i worker token) (items w) = Some r \<and> decode_artifact sha (dict_of (wk_payload r)) result = Inr data
    \<and> q \<in> set (items w') \<and> wk_id q = i \<and> wk_status q = W_Artifact \<and> cas_ok sha c'
    \<and> (\<forall>now cap. int (length data) \<le> cap \<longrightarrow> snd (load_work_artifact sha now i (dict_of (wk_result q)) cap c') = Inr data)"
  by (rule accepted_file[OF assms])

text \<open>C39: a request that the controller refuses, for whatever reason (a wrong identity, no lease, a full budget, a
  broken file, a store that fails), leaves workers, items, budgets, cooldowns and the tables of the object store as they
  were; at most a file was written, under the path of its own digest.\<close>

theorem refused_result_changes_nothing:
  assumes "keyed wk_id (items (gw_work g))"
    "work_result sha rp rs say say_store ct url_host hostname http_date http_time auth t1 t2 t3 data g = (g', rep)" "\<not> answered rep"
  shows "g' = g\<lparr>gw_cas := gw_cas g'\<rparr>
    \<and> (\<forall>p. files (gw_cas g') p = files (gw_cas g) p \<or> (\<exists>d. p = cas_path (sha d) \<and> files (gw_cas g') p = Some d))
    \<and> gw_cas g' = (gw_cas g)\<lparr>files := files (gw_cas g')\<rparr>"
  using work_result_refused[OF assms(2,1,3)] by (simp add: untouched_def rolled_back_def)

section \<open>Examples\<close>

definition demo_hello :: "(string \<times> json) list" where
  "demo_hello = [(''worker_id'', JText ''w''), (''capabilities'', JList [JText ''http_head'', JText ''download_url'']),
     (''metadata'', JObj [(''scope_policy_versions'', JList [JInt 1]), (''download_artifact_versions'', JList [JInt 1])])]"

definition demo_registered :: gateway where
  "demo_registered = fst (register_worker (\<lambda>_. '''') ''a'' ''r'' 0 demo_hello (p_gate idle))"

definition demo_queued :: "string \<Rightarrow> gateway" where
  "demo_queued kind = demo_registered\<lparr>gw_work := fst (enqueue_work 0 ''run'' ''ab.cd'' ''s'' ''k'' (demo_task kind) (gw_work demo_registered))\<rparr>"

definition demo_claim :: "string \<Rightarrow> (gateway \<times> reply) option" where
  "demo_claim kind = claim_work flat_sha (\<lambda>_. '''') demo_rs demo_host demo_host ''a'' ''tok'' 10 demo_hello (demo_queued kind)"

definition demo_claimed :: "string \<Rightarrow> gateway" where
  "demo_claimed kind = (case demo_claim kind of None \<Rightarrow> demo_queued kind | Some (g, rep) \<Rightarrow> g)"

definition demo_report :: "(string \<times> json) list" where
  "demo_report = [(''id'', JInt 1), (''worker_id'', JText ''w''), (''lease_token'', JText ''tok''), (''ok'', JBool True),
     (''result'', JObj [(''url'', JText ''https://ab.cd/a.js''), (''status_code'', JInt 200), (''transport_status'', JText ''ok'')])]"

definition demo_result :: "(string \<times> json) list \<Rightarrow> gateway \<Rightarrow> gateway \<times> reply" where
  "demo_result data g = work_result flat_sha (\<lambda>_. '''') demo_rs (\<lambda>_. '''') (\<lambda>_. '''') (\<lambda>_. '''') demo_host demo_host (\<lambda>_. None) (\<lambda>_. None)
     ''a'' 20 20 20 data g"

lemma demo_claim_ok: "demo_claim kind = Some (demo_claimed kind, Work r tok)" if "map_option snd (demo_claim kind) = Some (Work r tok)"
  using that by (auto simp: demo_claimed_def)

lemma demo_head_claimed: "\<exists>r. demo_claim ''http_head'' = Some (demo_claimed ''http_head'', Work r ''tok'') \<and> wk_id r = 1"
proof -
  have "case map_option snd (demo_claim ''http_head'') of Some (Work r tok) \<Rightarrow> tok = ''tok'' \<and> wk_id r = 1 | _ \<Rightarrow> False" by code_simp
  then show ?thesis using demo_claim_ok[of "''http_head''"] by (auto split: option.splits reply.splits)
qed

lemma demo_head_accepted: "answered (snd (demo_result demo_report (demo_claimed ''http_head'')))"
  by code_simp

lemma claim_from:
  assumes "p_gate s = g0" "sha token \<notin> set (p_issued s)" "sha token \<noteq> ''''"
    "claim_work sha rp rs url_host hostname auth token now data g0 = Some (g, Work r tok)" "s' = s\<lparr>p_gate := g, p_issued := sha token # p_issued s\<rparr>"
  shows "protocol_step sha rp rs s s'"
  using protocol_step.claim[where sha = sha and token = token and s = s and rp = rp and rs = rs and url_host = url_host and hostname = hostname
    and auth = auth and now = now and data = data and g = g and rep = "Work r tok"] assms by simp

lemma result_from:
  assumes "p_gate s = g0"
    "answered (snd (work_result sha rp rs say say_store ct url_host hostname http_date http_time auth t1 t2 t3 data g0))"
    "sha (text_or_empty rp (get data ''lease_token'')) = h"
    "s' = s\<lparr>p_gate := fst (work_result sha rp rs say say_store ct url_host hostname http_date http_time auth t1 t2 t3 data g0), p_accepted := h # p_accepted s\<rparr>"
  shows "protocol_step sha rp rs s s'"
proof -
  obtain g rep where "work_result sha rp rs say say_store ct url_host hostname http_date http_time auth t1 t2 t3 data g0 = (g, rep)" by fastforce
  with protocol_step.result[of sha rp rs say say_store ct url_host hostname http_date http_time auth t1 t2 t3 data s g rep] assms show ?thesis by simp
qed

definition demo_protocol :: "string list \<Rightarrow> gateway \<Rightarrow> protocol" where
  "demo_protocol acc g = \<lparr>p_gate = g, p_issued = [flat_sha ''tok''], p_accepted = acc\<rparr>"

lemma demo_token: "text_or_empty (\<lambda>_. '''') (get demo_report ''lease_token'') = ''tok''"
  by code_simp

lemma demo_steps:
  "protocol_reachable flat_sha (\<lambda>_. '''') demo_rs (demo_protocol [] (demo_claimed ''http_head''))"
  "protocol_step flat_sha (\<lambda>_. '''') demo_rs (demo_protocol [] (demo_claimed ''http_head''))
     (demo_protocol [flat_sha ''tok''] (fst (demo_result demo_report (demo_claimed ''http_head''))))"
proof -
  let ?step = "protocol_step flat_sha (\<lambda>_. '''') demo_rs"
  have 1: "?step idle (idle\<lparr>p_gate := demo_registered\<rparr>)"
    unfolding demo_registered_def by (rule protocol_step.register) (rule prod.collapse[symmetric])
  have 2: "?step (idle\<lparr>p_gate := demo_registered\<rparr>) (idle\<lparr>p_gate := demo_queued ''http_head''\<rparr>)"
    using protocol_step.enqueue[of flat_sha "\<lambda>_. ''''" demo_rs "idle\<lparr>p_gate := demo_registered\<rparr>" 0 "''run''" "''ab.cd''" "''s''" "''k''" "demo_task ''http_head''"]
    by (simp add: demo_queued_def)
  obtain r where c: "demo_claim ''http_head'' = Some (demo_claimed ''http_head'', Work r ''tok'')" using demo_head_claimed by blast
  have 3: "?step (idle\<lparr>p_gate := demo_queued ''http_head''\<rparr>) (demo_protocol [] (demo_claimed ''http_head''))"
    by (rule claim_from[OF _ _ _ c[unfolded demo_claim_def]]) (simp_all add: demo_protocol_def idle_def flat_sha_def)
  show "protocol_reachable flat_sha (\<lambda>_. '''') demo_rs (demo_protocol [] (demo_claimed ''http_head''))"
    by (rule protocol_reachable.step[OF protocol_reachable.step[OF protocol_reachable.step[OF protocol_reachable.init 1] 2] 3])
  show "?step (demo_protocol [] (demo_claimed ''http_head'')) (demo_protocol [flat_sha ''tok''] (fst (demo_result demo_report (demo_claimed ''http_head''))))"
    by (rule result_from[OF _ demo_head_accepted[unfolded demo_result_def]]) (simp_all add: demo_protocol_def demo_token demo_result_def)
qed

theorem one_accepted_answer_per_lease_witness:
  "answered (snd (demo_result demo_report (demo_claimed ''http_head'')))
   \<and> \<not> answered (snd (demo_result demo_report (fst (demo_result demo_report (demo_claimed ''http_head'')))))"
  using demo_head_accepted
    one_accepted_answer_per_lease[OF protocol_reachable.step[OF demo_steps], where say = "\<lambda>_. ''''" and say_store = "\<lambda>_. ''''" and ct = "\<lambda>_. ''''"
      and url_host = demo_host and hostname = demo_host and http_date = "\<lambda>_. None" and http_time = "\<lambda>_. None"
      and auth = "''a''" and ?t1.0 = 20 and ?t2.0 = 20 and ?t3.0 = 20 and data = demo_report]
  by (auto simp: demo_protocol_def demo_token demo_result_def split: prod.splits)

theorem protocol_refines_queue_witness:
  "work_reachable (queue_of (demo_protocol [] (demo_claimed ''http_head'')))
   \<and> work_step (queue_of (demo_protocol [] (demo_claimed ''http_head'')))
       (queue_of (demo_protocol [flat_sha ''tok''] (fst (demo_result demo_report (demo_claimed ''http_head'')))))"
  using protocol_refines_queue[OF demo_steps] by (auto simp: queue_of_def demo_protocol_def)

theorem worker_name_stays_bound_witness:
  "\<exists>r. find_worker ''w'' (fst (demo_result demo_report (demo_claimed ''http_head''))) = Some r \<and> wr_auth r = ''a''"
proof -
  have "case find_worker ''w'' (demo_claimed ''http_head'') of None \<Rightarrow> False | Some r \<Rightarrow> wr_auth r = ''a''" by code_simp
  then obtain r where "find_worker ''w'' (p_gate (demo_protocol [] (demo_claimed ''http_head''))) = Some r" "wr_auth r = ''a''"
    by (auto simp: demo_protocol_def split: option.splits)
  moreover have "(protocol_step flat_sha (\<lambda>_. '''') demo_rs)\<^sup>*\<^sup>* (demo_protocol [] (demo_claimed ''http_head''))
      (demo_protocol [flat_sha ''tok''] (fst (demo_result demo_report (demo_claimed ''http_head''))))"
    by (rule r_into_rtranclp) (rule demo_steps)
  ultimately show ?thesis
    using worker_name_stays_bound[where v = "''w''" and r = r and sha = flat_sha and rp = "\<lambda>_. ''''" and rs = demo_rs
        and s = "demo_protocol [] (demo_claimed ''http_head'')"
        and s' = "demo_protocol [flat_sha ''tok''] (fst (demo_result demo_report (demo_claimed ''http_head'')))"]
    by (simp add: demo_protocol_def)
qed

theorem claim_hands_out_the_first_ready_item_witness:
  "case demo_claim ''http_head'' of
     Some (g', Work r tok) \<Rightarrow> list_ex (\<lambda>q. leased_to 130 (wk_id r) ''w'' (flat_sha tok) q) (items (gw_work g')) | _ \<Rightarrow> False"
proof -
  let ?g = "demo_queued ''http_head''"
  have k: "keyed wk_id (items (gw_work ?g))" unfolding keyed_def by code_simp
  have w: "py_str (\<lambda>_. '''') (get demo_hello ''worker_id'') = ''w''" by code_simp
  have "case identified ''a'' ''w'' ?g of None \<Rightarrow> False | Some r \<Rightarrow> worker_supports_scope (JObj (dict_of (wr_metadata r)))" by code_simp
  then obtain r where i: "identified ''a'' (py_str (\<lambda>_. '''') (get demo_hello ''worker_id'')) ?g = Some r" "worker_supports_scope (JObj (dict_of (wr_metadata r)))"
    by (auto simp: w split: option.splits)
  obtain q where c: "demo_claim ''http_head'' = Some (demo_claimed ''http_head'', Work q ''tok'')" using demo_head_claimed by blast
  have "flat_sha ''tok'' \<noteq> ''''" by (simp add: flat_sha_def)
  from claim_hands_out_the_first_ready_item[where sha = flat_sha and token = "''tok''", OF k i this, where rs = demo_rs and url_host = demo_host and hostname = demo_host and now = 10,
      folded demo_claim_def] c show ?thesis
    by (auto simp: handed_out_def w list_ex_iff WORK_LEASE_SECONDS_def)
qed

theorem refused_result_changes_nothing_witness:
  "gw_work (fst (demo_result demo_report (demo_queued ''http_head''))) = gw_work (demo_queued ''http_head'')"
proof -
  have k: "keyed wk_id (items (gw_work (demo_queued ''http_head'')))" unfolding keyed_def by code_simp
  obtain g rep where o': "demo_result demo_report (demo_queued ''http_head'') = (g, rep)" by fastforce
  have "\<not> answered (snd (demo_result demo_report (demo_queued ''http_head'')))" by code_simp
  with o' have "\<not> answered rep" by simp
  from refused_result_changes_nothing[OF k o'[unfolded demo_result_def] this]
  have "g = (demo_queued ''http_head'')\<lparr>gw_cas := gw_cas g\<rparr>" by blast
  from arg_cong[where f = gw_work, OF this] o' show ?thesis by simp
qed


definition demo_file :: "(string \<times> json) list" where
  "demo_file = (case download_report flat_sha (\<lambda>_. '''') Some ''u'' demo_answer (Some ''ab'') of Inl e \<Rightarrow> [] | Inr report \<Rightarrow> report)"

definition demo_receive :: "(work_db \<times> cas_db) \<times> (receive_error + bool)" where
  "demo_receive = receive_work_artifact flat_sha (\<lambda>_. '''') (\<lambda>_. '''') 20 20 1 demo_file ''w'' (flat_sha ''tok'')
     (gw_work (demo_claimed ''download_url''), empty_store)"

theorem accepted_file_is_served_witness:
  "case demo_receive of ((w, c), out) \<Rightarrow>
     list_ex (\<lambda>q. wk_status q = W_Artifact \<and> snd (load_work_artifact flat_sha 50 1 (dict_of (wk_result q)) 2 c) = Inr ''ab'') (items w)"
proof -
  have keys: "keyed wk_id (items (gw_work (demo_claimed ''download_url'')))" unfolding keyed_def by code_simp
  have dist: "distinct (map fst demo_file)" by code_simp
  have ok: "case demo_receive of (st, Inr b) \<Rightarrow> b | _ \<Rightarrow> False" by code_simp
  obtain w c out where st: "demo_receive = ((w, c), out)" by (metis prod.exhaust)
  have r: "demo_receive = ((w, c), Inr True)" using ok unfolding st by (cases out) auto
  have empty: "cas_ok flat_sha empty_store"
    by (simp add: empty_store_def cas_ok_def cas_shape_def counted_def keyed_def refs_resolve_def)
  have sel: "case select_one (leased_to 20 1 ''w'' (flat_sha ''tok'')) (items (gw_work (demo_claimed ''download_url''))) of
      None \<Rightarrow> False | Some r \<Rightarrow> decode_artifact flat_sha (dict_of (wk_payload r)) demo_file = Inr ''ab''" by code_simp
  from accepted_file_is_served[OF flat_hex empty keys dist r[unfolded demo_receive_def]] sel
  show ?thesis unfolding r prod.case by (auto simp: list_ex_iff)
qed

end
