(* ===== verification/Collection_Selection.thy ===== *)
theory Collection_Selection
  imports Sql_Table "HOL-Library.Multiset"
begin

text \<open>
  How the collection stages spend their budgets, from \<open>src/app/stages.py\<close>: the host-balanced choice of
  JavaScript files and of crawl candidates, and the request envelope of the external crawler.

  \<open>host\<close> is the grouping key the code computes from a URL, \<open>prio\<close> the priority of a candidate and
  \<open>scope\<close> the pattern built for the chosen origins.  The loops are partial functions: \<open>None\<close> is a loop that
  does not end.
\<close>

section \<open>Rounds over the hosts\<close>

text \<open>One pass of the \<open>for\<close> loop; \<open>added\<close> is the flag that says whether a URL was taken.\<close>

fun round_pass ::
    "int \<Rightarrow> ('h \<Rightarrow> 'u list) \<Rightarrow> 'h list \<Rightarrow> ('h \<Rightarrow> nat) \<Rightarrow> 'u list \<Rightarrow> bool \<Rightarrow> ('h \<Rightarrow> nat) \<times> 'u list \<times> bool" where
  "round_pass cap urls [] off sel added = (off, sel, added)"
| "round_pass cap urls (h # hs) off sel added =
     (if length (urls h) \<le> off h then round_pass cap urls hs off sel added
      else let sel' = sel @ [urls h ! off h]; off' = off(h := off h + 1)
           in if cap \<le> int (length sel') then (off', sel', True) else round_pass cap urls hs off' sel' True)"

partial_function (option) rounds ::
    "int \<Rightarrow> ('h \<Rightarrow> 'u list) \<Rightarrow> 'h list \<Rightarrow> ('h \<Rightarrow> nat) \<Rightarrow> 'u list \<Rightarrow> 'u list option" where
  "rounds cap urls hosts off sel =
     (if int (length sel) < cap
      then case round_pass cap urls hosts off sel False of
             (off', sel', added) \<Rightarrow> if added then rounds cap urls hosts off' sel' else Some sel'
      else Some sel)"

section \<open>JavaScript files\<close>

definition select_plain :: "(string \<Rightarrow> string) \<Rightarrow> string list \<Rightarrow> int \<Rightarrow> string list option" where
  "select_plain host candidates cap =
     rounds cap (\<lambda>h. filter (\<lambda>u. host u = h) candidates) (sort (dedup (map host candidates))) (\<lambda>_. 0) []"

definition tier :: "(string \<times> int) list \<Rightarrow> string \<Rightarrow> int" where
  "tier attempts u = max 0 (case map_of attempts u of None \<Rightarrow> 0 | Some n \<Rightarrow> n)"

fun select_tiers :: "(string \<Rightarrow> string) \<Rightarrow> (int \<Rightarrow> string list) \<Rightarrow> int \<Rightarrow> int list \<Rightarrow> string list \<Rightarrow> string list option" where
  "select_tiers host urls cap [] sel = Some sel"
| "select_tiers host urls cap (t # ts) sel =
     (if cap \<le> int (length sel) then Some sel
      else case select_plain host (urls t) (cap - int (length sel)) of
        None \<Rightarrow> None
      | Some batch \<Rightarrow> select_tiers host urls cap ts (sel @ batch))"

text \<open>An empty \<open>attempts\<close> is the call without it.\<close>

definition select_javascript_urls ::
    "(string \<Rightarrow> string) \<Rightarrow> string list \<Rightarrow> int \<Rightarrow> (string \<times> int) list \<Rightarrow> (string list \<times> string list) option" where
  "select_javascript_urls host urls cap attempts =
     (let candidates = sort (dedup urls)
      in map_option (\<lambda>sel. (sel, filter (\<lambda>u. u \<notin> set sel) candidates))
           (if attempts = [] then select_plain host candidates cap
            else select_tiers host (\<lambda>t. filter (\<lambda>u. tier attempts u = t) candidates) cap
                   (sort (dedup (map (tier attempts) candidates))) []))"

section \<open>Crawl candidates\<close>

definition by_priority :: "(string \<Rightarrow> int) \<Rightarrow> string list \<Rightarrow> string list" where
  "by_priority prio us = sort_key (\<lambda>u. (- prio u, u)) us"

definition select_diverse_urls :: "(string \<Rightarrow> string) \<Rightarrow> (string \<Rightarrow> int) \<Rightarrow> string list \<Rightarrow> int \<Rightarrow> string list option" where
  "select_diverse_urls host prio candidates limit =
     (if limit \<le> 0 then Some []
      else let urls = (\<lambda>h. by_priority prio (filter (\<lambda>u. host u = h) candidates));
               hosts = sort_key (\<lambda>h. (- prio (hd (urls h)), h)) (dedup (map host candidates))
           in rounds limit urls hosts (\<lambda>_. 0) [])"

section \<open>The crawler's envelope\<close>

record crawl_plan =
  cp_origins :: "string list"
  cp_reservation :: int
  cp_rate_limit :: int
  cp_crawl_seconds :: int
  cp_concurrency :: int
  cp_wall_seconds :: "int option"
  cp_scope_regex :: string

definition no_crawl :: crawl_plan where
  "no_crawl = \<lparr>cp_origins = [], cp_reservation = 0, cp_rate_limit = 0, cp_crawl_seconds = 0, cp_concurrency = 1,
     cp_wall_seconds = None, cp_scope_regex = ''(?!)''\<rparr>"

text \<open>The two \<open>while\<close> loops lower one factor until the product fits or the factor is one.\<close>

partial_function (option) lower_to_fit :: "int \<Rightarrow> int \<Rightarrow> int \<Rightarrow> int option" where
  "lower_to_fit other cap x = (if cap < x * other \<and> 1 < x then lower_to_fit other cap (x - 1) else Some x)"

definition or_one :: "int \<Rightarrow> int" where
  "or_one n = max 1 (if n = 0 then 1 else n)"

definition katana_crawl_plan ::
    "(string list \<Rightarrow> string) \<Rightarrow> string list \<Rightarrow> int option \<Rightarrow> int \<Rightarrow> int \<Rightarrow> int \<Rightarrow> int \<Rightarrow> crawl_plan option" where
  "katana_crawl_plan scope base_urls remaining0 request_rate timeout_seconds http_threads max_urls =
     (let ordered = dedup (filter (\<lambda>u. py_strip u \<noteq> []) base_urls);
          rate = or_one request_rate; timeout = or_one timeout_seconds;
          remaining = map_option (max 0) remaining0
      in if ordered = [] \<or> remaining = Some 0 then Some no_crawl
         else
           let desired = min (or_one max_urls) (rate * timeout);
               reservation = (case remaining of None \<Rightarrow> desired | Some n \<Rightarrow> min n desired);
               origins = take (nat (min (int (length ordered)) (max 1 reservation))) ordered;
               n = int (length origins);
               per_origin = max 1 (reservation div max 1 n);
               rate0 = max 1 (min rate (per_origin div min 60 timeout));
               seconds0 = min (min (max 1 (per_origin div rate0)) 60) timeout
           in case lower_to_fit (seconds0 * n) reservation rate0 of
                None \<Rightarrow> None
              | Some rate1 \<Rightarrow>
                  map_option (\<lambda>seconds1.
                    \<lparr>cp_origins = origins, cp_reservation = reservation, cp_rate_limit = rate1, cp_crawl_seconds = seconds1,
                     cp_concurrency = min 5 (or_one http_threads),
                     cp_wall_seconds = Some (min timeout (max 1 (reservation div rate1))), cp_scope_regex = scope origins\<rparr>)
                    (lower_to_fit (rate1 * n) reservation seconds0))"

end
