(* ===== verification/Collection_Facts.thy ===== *)
theory Collection_Facts
  imports Collection_Selection
begin

text \<open>
  The selections are the first URLs of a round-robin over the hosts; the request envelope stays within its
  reservation.
\<close>

section \<open>Round-robin\<close>

text \<open>The reference: layer by layer, the first URL of every host, then the second, and so on.\<close>

definition layer :: "('h \<Rightarrow> 'u list) \<Rightarrow> 'h list \<Rightarrow> nat \<Rightarrow> 'u list" where
  "layer urls hs r = concat (map (\<lambda>h. if r < length (urls h) then [urls h ! r] else []) hs)"

definition depth :: "('h \<Rightarrow> 'u list) \<Rightarrow> 'h list \<Rightarrow> nat" where
  "depth urls hs = foldr (\<lambda>h n. max (length (urls h)) n) hs 0"

definition round_robin :: "('h \<Rightarrow> 'u list) \<Rightarrow> 'h list \<Rightarrow> 'u list" where
  "round_robin urls hs = concat (map (layer urls hs) [0..<depth urls hs])"

lemma depth_bound: "h \<in> set hs \<Longrightarrow> length (urls h) \<le> depth urls hs"
  by (induction hs) (auto simp: depth_def)

lemma layer_Cons: "layer urls (h # hs) r = (if r < length (urls h) then urls h ! r # layer urls hs r else layer urls hs r)"
  by (simp add: layer_def)

lemma round_pass_fits:
  assumes "\<forall>h \<in> set hs. off h = min r (length (urls h))" "distinct hs" "int (length sel) + int (length (layer urls hs r)) < cap"
  shows "\<exists>off'. round_pass cap urls hs off sel added = (off', sel @ layer urls hs r, added \<or> layer urls hs r \<noteq> [])
    \<and> (\<forall>h \<in> set hs. off' h = min (Suc r) (length (urls h))) \<and> (\<forall>h. h \<notin> set hs \<longrightarrow> off' h = off h)"
  using assms
proof (induction hs arbitrary: off sel added)
  case (Cons h hs)
  show ?case
  proof (cases "r < length (urls h)")
    case True
    with Cons.prems have off: "off h = r" by simp
    let ?off = "off(h := Suc r)" and ?sel = "sel @ [urls h ! r]"
    have "\<forall>k \<in> set hs. ?off k = min r (length (urls k))" "distinct hs" "int (length ?sel) + int (length (layer urls hs r)) < cap"
      using Cons.prems True by (auto simp: layer_Cons)
    from Cons.IH[OF this, of True] obtain off' where "round_pass cap urls hs ?off ?sel True = (off', ?sel @ layer urls hs r, True)"
      "\<forall>k \<in> set hs. off' k = min (Suc r) (length (urls k))" "\<forall>k. k \<notin> set hs \<longrightarrow> off' k = ?off k" by (auto simp del: fun_upd_apply)
    then show ?thesis using Cons.prems(2,3) True off by (auto simp: layer_Cons)
  next
    case False
    from Cons.IH[of off sel added] Cons.prems False obtain off' where
      "round_pass cap urls hs off sel added = (off', sel @ layer urls hs r, added \<or> layer urls hs r \<noteq> [])"
      "\<forall>k \<in> set hs. off' k = min (Suc r) (length (urls k))" "\<forall>k. k \<notin> set hs \<longrightarrow> off' k = off k" by (auto simp: layer_Cons)
    then show ?thesis using Cons.prems False by (auto simp: layer_Cons)
  qed
qed (auto simp: layer_def)

lemma round_pass_full:
  assumes "\<forall>h \<in> set hs. off h = min r (length (urls h))" "distinct hs" "int (length sel) < cap"
    "cap \<le> int (length sel) + int (length (layer urls hs r))"
  shows "\<exists>off'. round_pass cap urls hs off sel added = (off', take (nat cap) (sel @ layer urls hs r), True)"
  using assms
proof (induction hs arbitrary: off sel added)
  case (Cons h hs)
  show ?case
  proof (cases "r < length (urls h)")
    case True
    with Cons.prems have off: "off h = r" by simp
    let ?sel = "sel @ [urls h ! r]"
    show ?thesis
    proof (cases "cap \<le> int (length ?sel)")
      case True
      with Cons.prems(3) have "nat cap = Suc (length sel)" by simp
      with \<open>r < length (urls h)\<close> True off show ?thesis by (simp add: layer_Cons)
    next
      case False
      have "\<forall>k \<in> set hs. (off(h := Suc r)) k = min r (length (urls k))" "distinct hs" "int (length ?sel) < cap"
        "cap \<le> int (length ?sel) + int (length (layer urls hs r))"
        using Cons.prems False \<open>r < length (urls h)\<close> by (auto simp: layer_Cons)
      from Cons.IH[OF this, of True] False \<open>r < length (urls h)\<close> off show ?thesis by (auto simp: layer_Cons simp del: fun_upd_apply)
    qed
  next
    case False
    with Cons.IH[of off sel added] Cons.prems show ?thesis by (auto simp: layer_Cons)
  qed
qed (simp add: layer_def)

lemma rounds_from:
  assumes "\<forall>h \<in> set hs. off h = min r (length (urls h))" "distinct hs"
  shows "rounds cap urls hs off sel = Some (if cap \<le> int (length sel) then sel
    else take (nat cap) (sel @ concat (map (layer urls hs) [r..<depth urls hs])))"
  using assms
proof (induction "depth urls hs - r" arbitrary: r off sel rule: less_induct)
  case less
  show ?case
  proof (cases "cap \<le> int (length sel)")
    case True
    then show ?thesis by (subst rounds.simps) simp
  next
    case room: False
    show ?thesis
    proof (cases "r < depth urls hs")
      case False
      then have "layer urls hs r = []" using depth_bound[of _ hs urls] by (auto simp: layer_def) (metis le_trans linorder_not_less)
      moreover from this room obtain off' where "round_pass cap urls hs off sel False = (off', sel @ layer urls hs r, False \<or> layer urls hs r \<noteq> [])"
        using round_pass_fits[OF less.prems, of sel cap False] by auto
      ultimately show ?thesis using room False by (subst rounds.simps) simp
    next
      case True
      then have split: "[r..<depth urls hs] = r # [Suc r..<depth urls hs]" by (simp add: upt_conv_Cons)
      show ?thesis
      proof (cases "cap \<le> int (length sel) + int (length (layer urls hs r))")
        case full: True
        from round_pass_full[OF less.prems _ full, of False] room obtain off' where
          "round_pass cap urls hs off sel False = (off', take (nat cap) (sel @ layer urls hs r), True)" by auto
        moreover have "take (nat cap) (sel @ concat (map (layer urls hs) [r..<depth urls hs])) = take (nat cap) (sel @ layer urls hs r)"
          using full by (simp add: split)
        moreover have "rounds cap urls hs off' (take (nat cap) (sel @ layer urls hs r)) = Some (take (nat cap) (sel @ layer urls hs r))"
          using full room by (subst rounds.simps) simp
        ultimately show ?thesis using room by (subst rounds.simps) simp
      next
        case False
        then have fits: "int (length sel) + int (length (layer urls hs r)) < cap" by simp
        from round_pass_fits[OF less.prems fits, of False] obtain off' where
          pass: "round_pass cap urls hs off sel False = (off', sel @ layer urls hs r, layer urls hs r \<noteq> [])"
            "\<forall>h \<in> set hs. off' h = min (Suc r) (length (urls h))" by auto
        from True obtain h where "h \<in> set hs" "r < length (urls h)"
          by (induction hs) (auto simp: depth_def max_def split: if_splits)
        then have "layer urls hs r \<noteq> []" by (auto simp: layer_def)
        moreover have "rounds cap urls hs off' (sel @ layer urls hs r)
            = Some (take (nat cap) ((sel @ layer urls hs r) @ concat (map (layer urls hs) [Suc r..<depth urls hs])))"
          using less.hyps[OF _ pass(2) less.prems(2), of "sel @ layer urls hs r"] True fits by auto
        ultimately show ?thesis using room pass(1) by (subst rounds.simps) (simp add: split)
      qed
    qed
  qed
qed

lemma rounds_robin: "distinct hs \<Longrightarrow> rounds cap urls hs (\<lambda>_. 0) [] = Some (take (nat cap) (round_robin urls hs))"
  using rounds_from[of hs "\<lambda>_. 0" 0 urls cap "[]"] by (auto simp: round_robin_def)

section \<open>What a prefix of the round-robin contains\<close>

lemma distinct_concat_map:
  assumes "distinct xs" "\<And>x. x \<in> set xs \<Longrightarrow> distinct (f x)" "\<And>x y. x \<in> set xs \<Longrightarrow> y \<in> set xs \<Longrightarrow> x \<noteq> y \<Longrightarrow> set (f x) \<inter> set (f y) = {}"
  shows "distinct (concat (map f xs))"
  using assms
proof (induction xs)
  case (Cons x xs)
  have "set (f x) \<inter> set (f y) = {}" if "y \<in> set xs" for y using Cons.prems that by auto
  moreover have "distinct (concat (map f xs))" using Cons by auto
  ultimately show ?case using Cons.prems(2)[of x] by auto
qed simp

lemma take_prefix: "u \<in> set (take n (A @ B)) \<Longrightarrow> u \<notin> set A \<Longrightarrow> set A \<subseteq> set (take n (A @ B))"
  by (cases "n \<le> length A") (auto dest: in_set_takeD)

text \<open>The lists of the hosts, in order and without repetition.\<close>

abbreviation of_host :: "(string \<Rightarrow> string) \<Rightarrow> string list \<Rightarrow> string \<Rightarrow> string list" where
  "of_host host us h \<equiv> filter (\<lambda>u. host u = h) us"

abbreviation hosts_of :: "(string \<Rightarrow> string) \<Rightarrow> string list \<Rightarrow> string list" where
  "hosts_of host us \<equiv> sort (dedup (map host us))"

definition robin :: "(string \<Rightarrow> string) \<Rightarrow> string list \<Rightarrow> string list" where
  "robin host us = round_robin (of_host host us) (hosts_of host us)"

text \<open>How many candidates of the same host come before a URL.\<close>

definition rank :: "(string \<Rightarrow> string) \<Rightarrow> string list \<Rightarrow> string \<Rightarrow> nat" where
  "rank host us u = length (filter (\<lambda>v. v < u) (of_host host us (host u)))"

lemma sorted_rank: "sorted xs \<Longrightarrow> distinct xs \<Longrightarrow> i < length xs \<Longrightarrow> length (filter (\<lambda>v. v < xs ! i) xs) = i" for xs :: "'a::linorder list"
proof -
  assume xs: "sorted xs" "distinct xs" "i < length xs"
  have "filter (\<lambda>v. v < xs ! i) (take i xs) = take i xs"
    using xs by (auto simp: filter_id_conv in_set_conv_nth order_le_neq_trans nth_eq_iff_index_eq sorted_nth_mono)
  moreover have "filter (\<lambda>v. v < xs ! i) (drop i xs) = []"
    using xs by (auto simp: filter_empty_conv in_set_conv_nth not_less sorted_nth_mono)
  ultimately show ?thesis using xs(3) by (metis append_take_drop_id filter_append append_Nil2 length_take min.absorb4)
qed

lemma in_layer:
  "u \<in> set (layer (of_host host us) hs r) \<longleftrightarrow> host u \<in> set hs \<and> r < length (of_host host us (host u)) \<and> u = of_host host us (host u) ! r"
proof -
  have "host (of_host host us h ! r) = h" if "r < length (of_host host us h)" for h
    using nth_mem[OF that] by simp
  then show ?thesis by (auto simp: layer_def split: if_splits)
qed

lemma layer_distinct: "distinct hs \<Longrightarrow> distinct (layer (of_host host us) hs r)"
proof (induction hs)
  case (Cons h hs)
  have "of_host host us h ! r \<notin> set (layer (of_host host us) hs r)" if "r < length (of_host host us h)"
  proof -
    have "host (of_host host us h ! r) = h" using nth_mem[OF that] by simp
    with Cons.prems show ?thesis by (simp add: in_layer)
  qed
  with Cons show ?case by (simp add: layer_Cons)
qed (simp add: layer_def)

lemma layer_rank:
  assumes "sorted us" "distinct us" "u \<in> set us"
  shows "u \<in> set (layer (of_host host us) (hosts_of host us) r) \<longleftrightarrow> r = rank host us u"
proof -
  let ?l = "of_host host us (host u)"
  have l: "sorted ?l" "distinct ?l" "u \<in> set ?l" using assms by (simp_all add: sorted_filter[where f = id, simplified])
  from in_set_conv_nth[THEN iffD1, OF l(3)] obtain i where i: "i < length ?l" "?l ! i = u" by blast
  then have "rank host us u = i" using sorted_rank[OF l(1,2) i(1)] by (simp add: rank_def)
  moreover have "r < length ?l \<and> u = ?l ! r \<longleftrightarrow> r = i" using i nth_eq_iff_index_eq[OF l(2), of r i] by auto
  ultimately show ?thesis using assms(3) by (simp add: in_layer)
qed

lemma layer_candidates: "u \<in> set (layer (of_host host us) hs r) \<Longrightarrow> u \<in> set us"
  using nth_mem[of r "of_host host us (host u)"] by (auto simp: in_layer)

lemma robin_layers:
  assumes "sorted us" "distinct us"
  shows "set (robin host us) = set us" "distinct (robin host us)"
proof -
  let ?u = "of_host host us" and ?hs = "hosts_of host us"
  have "rank host us u < depth ?u ?hs" if "u \<in> set us" for u
  proof -
    have "u \<in> set (layer ?u ?hs (rank host us u))" using layer_rank[OF assms that] by simp
    then have "rank host us u < length (?u (host u))" by (simp add: in_layer)
    also have "\<dots> \<le> depth ?u ?hs" using that by (intro depth_bound) simp
    finally show ?thesis .
  qed
  then have "u \<in> set us \<Longrightarrow> \<exists>r<depth ?u ?hs. u \<in> set (layer ?u ?hs r)" for u
    using layer_rank[OF assms] by blast
  moreover have "u \<in> set (robin host us) \<longleftrightarrow> (\<exists>r<depth ?u ?hs. u \<in> set (layer ?u ?hs r))" for u
    by (auto simp: robin_def round_robin_def)
  ultimately show "set (robin host us) = set us" using layer_candidates[of _ host us ?hs] by blast
  have "distinct (layer ?u ?hs r)" for r by (rule layer_distinct) simp
  moreover have "set (layer ?u ?hs r) \<inter> set (layer ?u ?hs q) = {}" if "r \<noteq> q" for r q
  proof (rule ccontr)
    assume "\<not> ?thesis"
    then obtain u where u: "u \<in> set (layer ?u ?hs r)" "u \<in> set (layer ?u ?hs q)" by blast
    from layer_candidates[OF u(1)] have "r = rank host us u" "q = rank host us u"
      using u layer_rank[OF assms, of u host] by blast+
    with that show False by simp
  qed
  ultimately show "distinct (robin host us)" unfolding robin_def round_robin_def by (intro distinct_concat_map) simp_all
qed

lemma robin_split:
  assumes "sorted us" "distinct us" "u \<in> set us"
  obtains A B where "robin host us = A @ B" "u \<notin> set A" "\<And>v. v \<in> set us \<Longrightarrow> rank host us v < rank host us u \<Longrightarrow> v \<in> set A"
proof -
  let ?u = "of_host host us" and ?hs = "hosts_of host us"
  have "u \<in> set (layer ?u ?hs (rank host us u))" using layer_rank[OF assms] by simp
  then have "rank host us u < depth ?u ?hs"
    using depth_bound[of "host u" ?hs ?u] assms(3) by (simp add: in_layer)
  then have "[0..<depth ?u ?hs] = [0..<rank host us u] @ [rank host us u..<depth ?u ?hs]"
    by (metis le_add_diff_inverse less_imp_le_nat upt_add_eq_append zero_le)
  then have "robin host us = concat (map (layer ?u ?hs) [0..<rank host us u]) @ concat (map (layer ?u ?hs) [rank host us u..<depth ?u ?hs])"
    by (simp add: robin_def round_robin_def)
  moreover have "u \<notin> set (concat (map (layer ?u ?hs) [0..<rank host us u]))" using layer_rank[OF assms] by auto
  moreover have "v \<in> set (concat (map (layer ?u ?hs) [0..<rank host us u]))" if "v \<in> set us" "rank host us v < rank host us u" for v
    using layer_rank[OF assms(1,2) that(1)] that(2) by auto
  ultimately show thesis by (rule that)
qed

section \<open>The selection\<close>

lemma select_plain_robin: "select_plain host us cap = Some (take (nat cap) (robin host us))"
  by (simp add: select_plain_def rounds_robin robin_def)

lemma select_tiers_robin:
  "select_tiers host urls cap ts sel = Some (if cap \<le> int (length sel) then sel else take (nat cap) (sel @ concat (map (\<lambda>t. robin host (urls t)) ts)))"
proof (induction ts arbitrary: sel)
  case (Cons t ts)
  show ?case
  proof (cases "cap \<le> int (length sel)")
    case False
    then have "nat (cap - int (length sel)) = nat cap - length sel" by simp
    then have "sel @ take (nat (cap - int (length sel))) (robin host (urls t)) = take (nat cap) (sel @ robin host (urls t))"
      using False by simp
    with Cons.IH[of "take (nat cap) (sel @ robin host (urls t))"] False show ?thesis
      by (auto simp: select_plain_robin)
  qed simp
qed auto

abbreviation tiers_of :: "(string \<times> int) list \<Rightarrow> string list \<Rightarrow> int list" where
  "tiers_of att us \<equiv> sort (dedup (map (tier att) us))"

abbreviation of_tier :: "(string \<times> int) list \<Rightarrow> string list \<Rightarrow> int \<Rightarrow> string list" where
  "of_tier att us t \<equiv> filter (\<lambda>u. tier att u = t) us"

definition preference :: "(string \<Rightarrow> string) \<Rightarrow> (string \<times> int) list \<Rightarrow> string list \<Rightarrow> string list" where
  "preference host att us = concat (map (\<lambda>t. robin host (of_tier att us t)) (tiers_of att us))"

lemma no_attempts: "preference host [] us = robin host us"
proof -
  have t: "tier [] = (\<lambda>_. 0)" by (auto simp: tier_def)
  have "dedup (map (\<lambda>_. 0::int) us) = (if us = [] then [] else [0])" by (induction us) auto
  then show ?thesis by (simp add: preference_def t) (simp add: robin_def round_robin_def depth_def)
qed

lemma selection_preference:
  "select_javascript_urls host urls cap att =
     (let us = sort (dedup urls); sel = take (nat cap) (preference host att us) in Some (sel, filter (\<lambda>u. u \<notin> set sel) us))"
  by (simp add: select_javascript_urls_def Let_def select_plain_robin select_tiers_robin no_attempts flip: preference_def)

lemma preference_all:
  assumes "sorted us" "distinct us"
  shows "set (preference host att us) = set us" "distinct (preference host att us)"
proof -
  have r: "set (robin host (of_tier att us t)) = set (of_tier att us t)" "distinct (robin host (of_tier att us t))" for t
    using robin_layers[of "of_tier att us t" host] assms by (simp_all add: sorted_filter[where f = id, simplified])
  show "set (preference host att us) = set us" by (auto simp: preference_def r(1))
  show "distinct (preference host att us)" unfolding preference_def by (rule distinct_concat_map) (auto simp: r)
qed

lemma sorted_before: "sorted ts \<Longrightarrow> distinct ts \<Longrightarrow> s \<in> set ts \<Longrightarrow> s < t \<Longrightarrow> ts = xs @ t # ys \<Longrightarrow> s \<in> set xs" for s t :: "'a::linorder"
  by (auto simp: sorted_append)

lemma preference_split:
  assumes "sorted us" "distinct us" "u \<in> set us"
  obtains A B where "preference host att us = A @ B" "u \<notin> set A"
    "\<And>v. v \<in> set us \<Longrightarrow> tier att v < tier att u \<or> tier att v = tier att u \<and> rank host (of_tier att us (tier att u)) v < rank host (of_tier att us (tier att u)) u
      \<Longrightarrow> v \<in> set A"
proof -
  let ?t = "tier att u" and ?g = "\<lambda>t. robin host (of_tier att us t)"
  have tier_list: "sorted (of_tier att us t)" "distinct (of_tier att us t)" for t
    using assms by (simp_all add: sorted_filter[where f = id, simplified])
  have mem: "set (?g t) = set (of_tier att us t)" for t by (rule robin_layers(1)[OF tier_list])
  have "?t \<in> set (tiers_of att us)" using assms(3) by simp
  then obtain xs ys where ts: "tiers_of att us = xs @ ?t # ys" by (meson split_list)
  have "distinct (xs @ ?t # ys)" unfolding ts[symmetric] by simp
  then have new: "?t \<notin> set xs" by simp
  obtain A B where ab: "?g ?t = A @ B" "u \<notin> set A"
    "\<And>v. v \<in> set (of_tier att us ?t) \<Longrightarrow> rank host (of_tier att us ?t) v < rank host (of_tier att us ?t) u \<Longrightarrow> v \<in> set A"
    using robin_split[OF tier_list(1,2), of u ?t host] assms(3) by auto
  have "preference host att us = (concat (map ?g xs) @ A) @ (B @ concat (map ?g ys))"
    by (simp add: preference_def ts ab(1))
  moreover have "u \<notin> set (concat (map ?g xs) @ A)" using ab(2) new mem by auto
  moreover have "v \<in> set (concat (map ?g xs) @ A)"
    if "v \<in> set us" "tier att v < ?t \<or> tier att v = ?t \<and> rank host (of_tier att us ?t) v < rank host (of_tier att us ?t) u" for v
  proof (cases "tier att v < ?t")
    case True
    then have "tier att v \<in> set xs" using that(1) by (intro sorted_before[OF _ _ _ _ ts]) auto
    moreover have "v \<in> set (?g (tier att v))" using that(1) mem by simp
    ultimately show ?thesis by auto
  next
    case False
    with that ab(3)[of v] show ?thesis by auto
  qed
  ultimately show thesis by (rule that)
qed

text \<open>C32: Choosing the JavaScript files of a run always ends, and uses the quota exactly: for every list of URLs, whatever
  their hosts and earlier attempts, the loop returns; the selected and the remaining URLs are all of them, each once, and as
  many are selected as the quota allows.\<close>

theorem javascript_selection_terminates:
  "\<exists>sel rest. select_javascript_urls host urls cap att = Some (sel, rest)
     \<and> distinct (sel @ rest) \<and> set (sel @ rest) = set urls \<and> length sel = min (nat cap) (card (set urls)) \<and> sorted rest"
proof -
  let ?us = "sort (dedup urls)"
  have p: "set (preference host att ?us) = set urls" "distinct (preference host att ?us)" using preference_all[of ?us host att] by simp_all
  let ?sel = "take (nat cap) (preference host att ?us)"
  have "length (preference host att ?us) = card (set urls)" using p distinct_card by metis
  then have "length ?sel = min (nat cap) (card (set urls))" by (simp add: min.commute)
  moreover have "set ?sel \<subseteq> set urls" using p(1) set_take_subset by metis
  then have "set (?sel @ filter (\<lambda>u. u \<notin> set ?sel) ?us) = set urls" by auto
  moreover have "distinct (?sel @ filter (\<lambda>u. u \<notin> set ?sel) ?us)" using p(2) by auto
  moreover have "sorted (filter (\<lambda>u. u \<notin> set ?sel) ?us)" by (simp add: sorted_filter[where f = id, simplified])
  ultimately show ?thesis by (simp only: selection_preference Let_def option.inject prod.inject) blast
qed

text \<open>C33: The selection is fair: a URL is chosen only when every URL with fewer earlier attempts is chosen too, and among
  equally often attempted ones a host's next URL is chosen only when every other host got as many - so neither a failing
  prefix nor a host with many files can take the quota of the rest.\<close>

theorem javascript_selection_is_fair:
  assumes "select_javascript_urls host urls cap att = Some (sel, rest)" "u \<in> set sel" "v \<in> set urls"
    and "tier att v < tier att u \<or> tier att v = tier att u
      \<and> rank host (of_tier att (sort (dedup urls)) (tier att u)) v < rank host (of_tier att (sort (dedup urls)) (tier att u)) u"
  shows "v \<in> set sel"
proof -
  let ?us = "sort (dedup urls)"
  have sel: "sel = take (nat cap) (preference host att ?us)" using assms(1) by (simp add: selection_preference Let_def)
  then have "u \<in> set ?us" using assms(2) preference_all(1)[of ?us host att] by (auto dest: in_set_takeD)
  from preference_split[OF sorted_sort _ this, of host att] obtain A B where ab: "preference host att ?us = A @ B" "u \<notin> set A"
    "\<And>v. v \<in> set ?us \<Longrightarrow> tier att v < tier att u \<or> tier att v = tier att u
      \<and> rank host (of_tier att ?us (tier att u)) v < rank host (of_tier att ?us (tier att u)) u \<Longrightarrow> v \<in> set A" by auto
  from ab(3)[of v] assms(3,4) have "v \<in> set A" by simp
  then show ?thesis using take_prefix[of u "nat cap" A B] assms(2) sel ab(1,2) by auto
qed

text \<open>A host is the text before the slash.\<close>

definition demo_host :: "string \<Rightarrow> string" where
  "demo_host u = takeWhile (\<lambda>c. c \<noteq> CHR ''/'') u"

theorem javascript_selection_is_fair_witness:
  "\<exists>sel rest. select_javascript_urls demo_host [''a/1'', ''a/2'', ''b/1''] 2 [(''b/1'', 0)] = Some (sel, rest) \<and> ''b/1'' \<in> set sel"
proof -
  let ?us = "[''a/1'', ''a/2'', ''b/1'']" and ?att = "[(''b/1'', 0::int)]"
  obtain sel rest where s: "select_javascript_urls demo_host ?us 2 ?att = Some (sel, rest)"
    "set (sel @ rest) = set ?us" "length sel = min (nat 2) (card (set ?us))" "distinct (sel @ rest)"
    using javascript_selection_terminates[of demo_host ?us 2 ?att] by blast
  have "sort (dedup ?us) = ?us" by code_simp
  moreover have "rank demo_host (of_tier ?att ?us (tier ?att ''a/2'')) ''b/1'' < rank demo_host (of_tier ?att ?us (tier ?att ''a/2'')) ''a/2''"
    "tier ?att ''b/1'' = tier ?att ''a/2''" by code_simp+
  ultimately have fair: "''a/2'' \<in> set sel \<Longrightarrow> ''b/1'' \<in> set sel"
    using javascript_selection_is_fair[OF s(1), of "''a/2''" "''b/1''"] by simp
  have "''b/1'' \<in> set sel"
  proof (rule ccontr)
    assume no: "''b/1'' \<notin> set sel"
    with fair s(2) have "set sel \<subseteq> {''a/1''}" by auto
    then have "card (set sel) \<le> 1" using card_mono[of "{''a/1''}" "set sel"] by simp
    moreover have "card (set sel) = length sel" using s(4) by (simp add: distinct_card)
    ultimately show False using s(3) by simp
  qed
  with s(1) show ?thesis by blast
qed

section \<open>The crawler's envelope\<close>

lemma lower_to_fit_ends: "1 \<le> x \<Longrightarrow> \<exists>y. lower_to_fit other cap x = Some y \<and> 1 \<le> y \<and> y \<le> x \<and> (y * other \<le> cap \<or> y = 1)"
proof (induction "nat x" arbitrary: x rule: less_induct)
  case less
  show ?case
  proof (cases "cap < x * other \<and> 1 < x")
    case True
    with less.hyps[of "x - 1"] obtain y where "lower_to_fit other cap (x - 1) = Some y" "1 \<le> y" "y \<le> x - 1" "y * other \<le> cap \<or> y = 1" by auto
    with True show ?thesis by (subst lower_to_fit.simps) auto
  next
    case False
    with less.prems show ?thesis by (subst lower_to_fit.simps) auto
  qed
qed

lemma or_one_pos: "1 \<le> or_one n"
  by (simp add: or_one_def)

text \<open>The external crawler stays in its envelope: planning always ends, and in the plan the rate times the seconds times
  the number of origins is at most the reservation, which is at most the remaining requests, the URL limit and what the rate
  allows within the stage's time; rate, seconds and origins respect the configuration.\<close>

theorem crawl_stays_in_its_reservation:
  "\<exists>p. katana_crawl_plan scope base_urls remaining request_rate timeout_seconds http_threads max_urls = Some p
     \<and> cp_rate_limit p * cp_crawl_seconds p * int (length (cp_origins p)) \<le> cp_reservation p
     \<and> 0 \<le> cp_reservation p \<and> cp_reservation p \<le> or_one max_urls \<and> cp_reservation p \<le> or_one request_rate * or_one timeout_seconds
     \<and> (case remaining of None \<Rightarrow> True | Some n \<Rightarrow> cp_reservation p \<le> max 0 n)
     \<and> cp_rate_limit p \<le> or_one request_rate \<and> cp_crawl_seconds p \<le> min 60 (or_one timeout_seconds)
     \<and> set (cp_origins p) \<subseteq> set base_urls \<and> distinct (cp_origins p)"
proof -
  define ordered where "ordered = dedup (filter (\<lambda>u. py_strip u \<noteq> []) base_urls)"
  define rate where "rate = or_one request_rate"
  define timeout where "timeout = or_one timeout_seconds"
  define rem where "rem = map_option (max 0) remaining"
  define desired where "desired = min (or_one max_urls) (rate * timeout)"
  define res where "res = (case rem of None \<Rightarrow> desired | Some n \<Rightarrow> min n desired)"
  define origins where "origins = take (nat (min (int (length ordered)) (max 1 res))) ordered"
  define n where "n = int (length origins)"
  define per where "per = max 1 (res div max 1 n)"
  define rate0 where "rate0 = max 1 (min rate (per div min 60 timeout))"
  define seconds0 where "seconds0 = min (min (max 1 (per div rate0)) 60) timeout"
  have pos: "1 \<le> rate" "1 \<le> timeout" "1 \<le> or_one max_urls" by (simp_all add: rate_def timeout_def or_one_pos)
  show ?thesis
  proof (cases "ordered = [] \<or> rem = Some 0")
    case True
    then have "katana_crawl_plan scope base_urls remaining request_rate timeout_seconds http_threads max_urls = Some no_crawl"
      unfolding katana_crawl_plan_def Let_def ordered_def[symmetric] rem_def[symmetric] by auto
    moreover have "0 \<le> rate * timeout" using pos by (intro mult_nonneg_nonneg) simp_all
    ultimately show ?thesis using pos by (auto simp: no_crawl_def rate_def timeout_def split: option.split)
  next
    case False
    have "1 \<le> rate * timeout" using pos mult_mono[of 1 rate 1 timeout] by simp
    then have desired: "1 \<le> desired" "desired \<le> or_one max_urls" "desired \<le> rate * timeout" using pos by (simp_all add: desired_def)
    have res: "1 \<le> res" "res \<le> desired" "case remaining of None \<Rightarrow> True | Some n \<Rightarrow> res \<le> max 0 n"
      using desired(1) False by (auto simp: res_def rem_def split: option.splits)
    have n: "1 \<le> n" "n \<le> res" using False res(1) by (cases ordered; auto simp: n_def origins_def)+
    have rate0: "1 \<le> rate0" "rate0 \<le> rate" using pos by (auto simp: rate0_def)
    have seconds0: "1 \<le> seconds0" "seconds0 \<le> min 60 timeout" using pos by (auto simp: seconds0_def)
    from lower_to_fit_ends[OF rate0(1)] obtain rate1 where r1: "lower_to_fit (seconds0 * n) res rate0 = Some rate1" "1 \<le> rate1" "rate1 \<le> rate0"
      "rate1 * (seconds0 * n) \<le> res \<or> rate1 = 1" by blast
    from lower_to_fit_ends[OF seconds0(1)] obtain seconds1 where s1: "lower_to_fit (rate1 * n) res seconds0 = Some seconds1" "1 \<le> seconds1" "seconds1 \<le> seconds0"
      "seconds1 * (rate1 * n) \<le> res \<or> seconds1 = 1" by blast
    have "rate1 * n \<le> res"
    proof (cases "rate1 = 1")
      case True
      with n show ?thesis by simp
    next
      case False
      have "rate1 * n \<le> rate1 * (seconds0 * n)" using r1(2) seconds0(1) n(1) mult_right_mono[of 1 seconds0 n] by (intro mult_left_mono) simp_all
      with False r1(4) show ?thesis by simp
    qed
    then have fits: "rate1 * seconds1 * n \<le> res" using s1(4) by (auto simp: algebra_simps)
    have plan: "katana_crawl_plan scope base_urls remaining request_rate timeout_seconds http_threads max_urls = Some
      \<lparr>cp_origins = origins, cp_reservation = res, cp_rate_limit = rate1, cp_crawl_seconds = seconds1, cp_concurrency = min 5 (or_one http_threads),
       cp_wall_seconds = Some (min timeout (max 1 (res div rate1))), cp_scope_regex = scope origins\<rparr>"
      using False r1(1) s1(1) unfolding katana_crawl_plan_def Let_def ordered_def[symmetric] rate_def[symmetric] timeout_def[symmetric] rem_def[symmetric]
        desired_def[symmetric] res_def[symmetric] origins_def[symmetric] n_def[symmetric] per_def[symmetric] rate0_def[symmetric] seconds0_def[symmetric]
      by simp
    have "set origins \<subseteq> set base_urls" "distinct origins" using set_take_subset[of _ ordered] by (fastforce simp: origins_def ordered_def)+
    then show ?thesis
      using plan fits res desired r1(3) rate0(2) s1(3) seconds0(2) by (auto simp: n_def rate_def timeout_def split: option.splits)
  qed
qed

end
