(* ===== verification/Dashboard_Auth.thy ===== *)
theory Dashboard_Auth
  imports Py_Url Worker_Artifact
begin

text \<open>
  The dashboard's password file, \<open>src/app/dashboard_auth.py\<close>: hashing and checking a password, rewriting the
  configuration file, and the check of a \<open>Basic\<close> header.

  \<open>kdf\<close> is \<open>pbkdf2_hmac\<close> with SHA-256, from the bytes of password and salt and the number of iterations; the salt is an
  argument where the code draws it.  A password is given by its UTF-8 bytes where it is checked.
\<close>

section \<open>Base64 of the standard library\<close>

definition to_urlsafe :: "char \<Rightarrow> char" where
  "to_urlsafe c = (if c = CHR ''+'' then CHR ''-'' else if c = CHR ''/'' then CHR ''_'' else c)"

definition from_urlsafe :: "char \<Rightarrow> char" where
  "from_urlsafe c = (if c = CHR ''-'' then CHR ''+'' else if c = CHR ''_'' then CHR ''/'' else c)"

definition urlsafe_encode :: "bytes \<Rightarrow> string" where
  "urlsafe_encode d = map to_urlsafe (b64encode d)"

text \<open>\<open>binascii.a2b_base64\<close> without \<open>validate\<close>: \<open>ds\<close> are the digits of the current quadruple; characters outside the
  alphabet are skipped, and enough padding ends the text.\<close>

definition partial_bytes :: "nat list \<Rightarrow> bytes" where
  "partial_bytes ds = (case ds of [w, x] \<Rightarrow> [first_byte w x] | [w, x, y] \<Rightarrow> [first_byte w x, second_byte x y] | _ \<Rightarrow> [])"

fun lenient_decode :: "nat list \<Rightarrow> nat \<Rightarrow> string \<Rightarrow> bytes option" where
  "lenient_decode ds pads [] = (if ds = [] then Some [] else None)"
| "lenient_decode ds pads (c # s) =
     (if c = CHR ''='' then
        (if length ds < 2 then lenient_decode ds pads s
         else if 4 \<le> length ds + Suc pads then Some (partial_bytes ds) else lenient_decode ds (Suc pads) s)
      else case b64_value c of
          None \<Rightarrow> lenient_decode ds pads s
        | Some v \<Rightarrow>
            (case ds of
               [w, x, y] \<Rightarrow> map_option (\<lambda>r. first_byte w x # second_byte x y # third_byte y v # r) (lenient_decode [] 0 s)
             | _ \<Rightarrow> lenient_decode (ds @ [v]) 0 s))"

definition urlsafe_decode :: "string \<Rightarrow> bytes option" where
  "urlsafe_decode s = (if list_all (\<lambda>c. code c < 128) s then lenient_decode [] 0 (map from_urlsafe s) else None)"

section \<open>Passwords\<close>

definition utf8 :: "string \<Rightarrow> bytes" where
  "utf8 s = map char_of (utf8_encode (map code s))"

definition DEFAULT_ITERATIONS :: int where
  "DEFAULT_ITERATIONS = 310000"

definition hash_password :: "(bytes \<Rightarrow> bytes \<Rightarrow> int \<Rightarrow> bytes) \<Rightarrow> bytes \<Rightarrow> int \<Rightarrow> string \<Rightarrow> string + string \<times> string \<times> int" where
  "hash_password kdf salt iterations password =
     (if length password < 10 then Inl ''Dashboard password must contain at least 10 characters''
      else Inr (urlsafe_encode salt, urlsafe_encode (kdf (utf8 password) salt iterations), iterations))"

definition verify_password :: "(bytes \<Rightarrow> bytes \<Rightarrow> int \<Rightarrow> bytes) \<Rightarrow> bytes \<Rightarrow> string \<Rightarrow> string \<Rightarrow> int \<Rightarrow> bool" where
  "verify_password kdf password salt_b64 hash_b64 iterations =
     (case (urlsafe_decode salt_b64, urlsafe_decode hash_b64) of
        (Some salt, Some expected) \<Rightarrow> kdf password salt iterations = expected
      | _ \<Rightarrow> False)"

section \<open>The configuration file\<close>

text \<open>The key of a line, when the line sets one.\<close>

definition line_key :: "string \<Rightarrow> string option" where
  "line_key line =
     (let stripped = py_strip line
      in if stripped \<noteq> '''' \<and> \<not> startswith stripped ''#'' \<and> CHR ''='' \<in> set stripped
         then Some (py_strip (before (CHR ''='') stripped)) else None)"

definition quoted_line :: "string \<Rightarrow> string \<Rightarrow> string" where
  "quoted_line k v = k @ ''='' @ [quote] @ v @ [quote]"

fun rewrite_lines :: "(string \<times> string) list \<Rightarrow> string list \<Rightarrow> string list \<times> (string \<times> string) list" where
  "rewrite_lines remaining [] = ([], remaining)"
| "rewrite_lines remaining (line # ls) =
     (case line_key line of
        None \<Rightarrow> (case rewrite_lines remaining ls of (out, r) \<Rightarrow> (line # out, r))
      | Some k \<Rightarrow>
          (case map_of remaining k of
             None \<Rightarrow> (case rewrite_lines remaining ls of (out, r) \<Rightarrow> (line # out, r))
           | Some v \<Rightarrow> (case rewrite_lines (AList.delete k remaining) ls of (out, r) \<Rightarrow> (quoted_line k v # out, r))))"

definition py_rstrip :: "string \<Rightarrow> string" where
  "py_rstrip s = rev (py_lstrip (rev s))"

definition newline :: string where
  "newline = [CHR 10]"

definition update_env :: "string option \<Rightarrow> (string \<times> string) list \<Rightarrow> string" where
  "update_env content updates =
     (case rewrite_lines updates (case content of None \<Rightarrow> [] | Some s \<Rightarrow> splitlines s) of
        (out, remaining) \<Rightarrow>
          (let out' = (if out \<noteq> [] \<and> py_strip (List.last out) \<noteq> '''' then out @ [''''] else out)
           in py_rstrip (py_join newline (out' @ map (\<lambda>(k, v). quoted_line k v) remaining)) @ newline))"

definition username_error :: "string \<Rightarrow> bool" where
  "username_error u \<longleftrightarrow> u = '''' \<or> 100 < length u \<or> list_ex (\<lambda>c. c = CHR '':'' \<or> code c = 13 \<or> code c = 10) u"

definition auth_updates :: "string \<Rightarrow> string \<Rightarrow> string \<Rightarrow> int \<Rightarrow> (string \<times> string) list" where
  "auth_updates username salt digest iterations =
     [(''DASHBOARD_AUTH_ENABLED'', ''yes''), (''DASHBOARD_AUTH_USERNAME'', username), (''DASHBOARD_AUTH_SALT'', salt),
      (''DASHBOARD_AUTH_HASH'', digest), (''DASHBOARD_AUTH_ITERATIONS'', show_int iterations)]"

definition configure_auth :: "(bytes \<Rightarrow> bytes \<Rightarrow> int \<Rightarrow> bytes) \<Rightarrow> bytes \<Rightarrow> string option \<Rightarrow> string \<Rightarrow> string \<Rightarrow> string + string" where
  "configure_auth kdf salt content username password =
     (let u = py_strip username
      in if username_error u then Inl ''Dashboard username is invalid''
         else case hash_password kdf salt DEFAULT_ITERATIONS password of
           Inl e \<Rightarrow> Inl e
         | Inr (s, h, n) \<Rightarrow> Inr (update_env content (auth_updates u s h n)))"

definition disable_auth :: "string option \<Rightarrow> string" where
  "disable_auth content = update_env content
     [(''DASHBOARD_AUTH_ENABLED'', ''no''), (''DASHBOARD_AUTH_USERNAME'', ''''), (''DASHBOARD_AUTH_SALT'', ''''), (''DASHBOARD_AUTH_HASH'', '''')]"

text \<open>\<open>Config.bool\<close> and \<open>Config.int\<close>: the values as they are, without the key store.\<close>

definition config_value :: "(string \<times> string) list \<Rightarrow> string \<Rightarrow> json" where
  "config_value cfg k = (case map_of cfg k of None \<Rightarrow> JNull | Some s \<Rightarrow> JText s)"

definition config_bool :: "(string \<times> string) list \<Rightarrow> string \<Rightarrow> bool \<Rightarrow> bool" where
  "config_bool cfg k dflt = parse_bool (\<lambda>_. '''') (config_value cfg k) dflt"

definition auth_status :: "(string \<Rightarrow> string option) \<Rightarrow> (string \<times> string) list \<Rightarrow> bool \<times> string" where
  "auth_status keychain cfg =
     (let enabled = config_bool cfg ''DASHBOARD_AUTH_ENABLED'' False;
          username = config_get keychain cfg ''DASHBOARD_AUTH_USERNAME'' '''';
          configured = (username \<noteq> '''' \<and> config_get keychain cfg ''DASHBOARD_AUTH_SALT'' '''' \<noteq> '''' \<and> config_get keychain cfg ''DASHBOARD_AUTH_HASH'' '''' \<noteq> '''')
      in if enabled \<and> configured then (True, ''Dashboard authentication enabled for user: '' @ username)
         else if enabled then (False, ''Dashboard authentication is enabled but credentials are incomplete'')
         else (False, ''Dashboard authentication is disabled''))"

text \<open>The header carries bytes; a text that is no UTF-8 is refused, which is seen by decoding and encoding it again.\<close>

definition valid_utf8 :: "bytes \<Rightarrow> bool" where
  "valid_utf8 b \<longleftrightarrow> utf8_encode (utf8_decode (map code b)) = map code b"

definition header_credentials :: "string \<Rightarrow> (bytes \<times> bytes) option" where
  "header_credentials hdr =
     (if \<not> startswith hdr ''Basic '' then None
      else case b64decode (py_strip (drop 6 hdr)) of
          None \<Rightarrow> None
        | Some raw \<Rightarrow> if valid_utf8 raw \<and> CHR '':'' \<in> set raw then Some (before (CHR '':'') raw, after (CHR '':'') raw) else None)"

definition verify_basic_header :: "(bytes \<Rightarrow> bytes \<Rightarrow> int \<Rightarrow> bytes) \<Rightarrow> (string \<Rightarrow> string option) \<Rightarrow> (string \<times> string) list \<Rightarrow> string \<Rightarrow> bool" where
  "verify_basic_header kdf keychain cfg hdr =
     (if \<not> config_bool cfg ''DASHBOARD_AUTH_ENABLED'' False then True
      else case header_credentials hdr of
          None \<Rightarrow> False
        | Some (username, password) \<Rightarrow>
            (let user_ok = username = utf8 (config_get keychain cfg ''DASHBOARD_AUTH_USERNAME'' '''');
                 password_ok = verify_password kdf password (config_get keychain cfg ''DASHBOARD_AUTH_SALT'' '''')
                   (config_get keychain cfg ''DASHBOARD_AUTH_HASH'' '''')
                   (parse_int (\<lambda>_. '''') (JText (config_get keychain cfg ''DASHBOARD_AUTH_ITERATIONS'' '''')) DEFAULT_ITERATIONS (Some 100000) (Some 2000000))
             in user_ok \<and> password_ok))"

section \<open>Base64 and passwords\<close>

lemma lenient_round_trip: "lenient_decode [] 0 (b64encode d) = Some d"
  by (induction d rule: b64encode.induct) (simp_all add: b64_value_digit b64_digit_plain sextets byte_parts partial_bytes_def)

lemma urlsafe_inverse:
  assumes "c \<in> set b64_alphabet \<or> c = CHR ''=''"
  shows "from_urlsafe (to_urlsafe c) = c \<and> code (to_urlsafe c) < 128 \<and> \<not> line_end (to_urlsafe c)"
proof -
  let ?P = "\<lambda>c. from_urlsafe (to_urlsafe c) = c \<and> code (to_urlsafe c) < 128 \<and> \<not> line_end (to_urlsafe c)"
  have "list_all ?P (CHR ''='' # b64_alphabet)" by code_simp
  then have "\<forall>c \<in> set (CHR ''='' # b64_alphabet). ?P c" unfolding list_all_iff .
  moreover have "c \<in> set (CHR ''='' # b64_alphabet)" using assms by (elim disjE) simp_all
  ultimately show ?thesis by blast
qed

lemma b64_digit_alphabet: "n < 64 \<Longrightarrow> b64_digit n \<in> set b64_alphabet"
proof -
  have "length b64_alphabet = 64" by code_simp
  then show "n < 64 \<Longrightarrow> b64_digit n \<in> set b64_alphabet" using nth_mem[of n b64_alphabet] by (simp add: b64_digit_def)
qed

lemma b64encode_chars: "c \<in> set (b64encode d) \<Longrightarrow> c \<in> set b64_alphabet \<or> c = CHR ''=''"
proof (induction d rule: b64encode.induct)
  case (4 a b c' s)
  then show ?case by (simp add: b64_digit_alphabet sextets) (use b64_digit_alphabet sextets in blast)
qed (use b64_digit_alphabet sextets in fastforce)+

lemma urlsafe_round_trip: "urlsafe_decode (urlsafe_encode d) = Some d"
proof -
  have c: "from_urlsafe (to_urlsafe c) = c \<and> code (to_urlsafe c) < 128" if "c \<in> set (b64encode d)" for c
    using urlsafe_inverse[OF b64encode_chars[OF that]] by blast
  have "map (from_urlsafe \<circ> to_urlsafe) (b64encode d) = b64encode d" by (rule map_idI) (simp add: c)
  then have "map from_urlsafe (urlsafe_encode d) = b64encode d" by (simp add: urlsafe_encode_def)
  moreover have "list_all (\<lambda>c. code c < 128) (urlsafe_encode d)" by (simp add: urlsafe_encode_def list_all_iff c)
  ultimately show ?thesis by (simp add: urlsafe_decode_def lenient_round_trip)
qed

lemma hashed_password:
  "hash_password kdf salt n pw = Inr (s, h, m) \<Longrightarrow> verify_password kdf other s h m = (kdf other salt n = kdf (utf8 pw) salt n)"
  by (auto simp: hash_password_def verify_password_def urlsafe_round_trip split: if_splits)

end
