(* ===== verification/User_Sessions.thy ===== *)
theory User_Sessions
  imports Dashboard_Auth Audit_Chain
begin

text \<open>
  Users and sessions of the dashboard: \<open>src/app/session_auth.py\<close>, and of \<open>src/app/dashboard_core.py\<close> the login form and the
  checks before a request.

  A time is in seconds on one clock, also where the code compares texts of times; one call reads the clock once.  Passwords,
  salts and tokens that the code draws at random are arguments.  The content of a session file is the record that was
  written, or \<open>None\<close> when it cannot be read as JSON; a file is named by the hash of its token.  \<open>cookies\<close> is what
  \<open>SimpleCookie\<close> reads from the header, \<open>None\<close> when it fails.
\<close>

section \<open>State\<close>

definition SESSION_TTL_SECONDS :: int where
  "SESSION_TTL_SECONDS = 8 * 3600"

definition ROLE_LEVEL :: "(string \<times> int) list" where
  "ROLE_LEVEL = [(''viewer'', 10), (''analyst'', 20), (''lead_analyst'', 25), (''admin'', 30)]"

record session =
  se_user :: string
  se_role :: string
  se_csrf :: string
  se_expires :: int
  se_token :: string

definition level_of :: "string \<Rightarrow> int \<Rightarrow> int" where
  "level_of role dflt = (case map_of ROLE_LEVEL role of None \<Rightarrow> dflt | Some n \<Rightarrow> n)"

definition allows :: "session \<Rightarrow> string \<Rightarrow> bool" where
  "allows s required \<longleftrightarrow> level_of required 999 \<le> level_of (se_role s) 0"

record user_row =
  us_name :: string
  us_salt :: string
  us_hash :: string
  us_iterations :: int
  us_role :: string
  us_enabled :: bool
  us_epoch :: int
  us_created :: int
  us_updated :: int
  us_login :: "int option"
  us_failed :: int
  us_locked :: "int option"

record session_file =
  sf_user :: string
  sf_role :: string
  sf_epoch :: int
  sf_csrf :: string
  sf_expires :: int
  sf_created :: int

record auth_db =
  au_users :: "user_row list"
  au_files :: "(string \<times> session_file option) list"
  au_audit :: audit_db
  au_attempts :: "(string \<times> int list) list"

text \<open>The functions that the code takes from its libraries, and whether a line can be written to the audit mirror.\<close>

record auth_env =
  en_kdf :: "bytes \<Rightarrow> bytes \<Rightarrow> int \<Rightarrow> bytes"
  en_sha :: "string \<Rightarrow> string"
  en_float :: "rat \<Rightarrow> string"
  en_mirror :: "string \<Rightarrow> bool"
  en_iso :: "int \<Rightarrow> string"

definition named :: "string \<Rightarrow> user_row \<Rightarrow> bool" where
  "named u r \<longleftrightarrow> us_name r = u"

definition record_audit :: "auth_env \<Rightarrow> int \<Rightarrow> audit_event \<Rightarrow> auth_db \<Rightarrow> auth_db \<times> bool" where
  "record_audit en now ev db = (case audit (en_sha en) (en_float en) (en_mirror en) (en_iso en now) ev (au_audit db) of (a, ok) \<Rightarrow> (db\<lparr>au_audit := a\<rparr>, ok))"

section \<open>Users\<close>

definition user_error :: "string \<Rightarrow> string \<Rightarrow> string option" where
  "user_error username role =
     (if map_of ROLE_LEVEL role = None then Some ''Role must be viewer, analyst, lead_analyst, or admin''
      else if username_error username then Some ''Invalid username'' else None)"

definition upserted :: "int \<Rightarrow> string \<Rightarrow> string \<Rightarrow> string \<times> string \<times> int \<Rightarrow> user_row list \<Rightarrow> user_row list" where
  "upserted now u role h =
     (case h of (s, digest, n) \<Rightarrow>
        upsert (named u)
          \<lparr>us_name = u, us_salt = s, us_hash = digest, us_iterations = n, us_role = role, us_enabled = True, us_epoch = 1,
            us_created = now, us_updated = now, us_login = None, us_failed = 0, us_locked = None\<rparr>
          (\<lambda>r. r\<lparr>us_salt := s, us_hash := digest, us_iterations := n, us_role := role, us_enabled := True, us_epoch := us_epoch r + 1, us_updated := now\<rparr>))"

definition user_event :: "string \<Rightarrow> string \<Rightarrow> string \<Rightarrow> (string \<times> json) list \<Rightarrow> audit_event" where
  "user_event action actor u details =
     \<lparr>ev_actor = actor, ev_action = action, ev_target = '''', ev_type = ''user'', ev_value = u, ev_details = details\<rparr>"

definition create_user :: "auth_env \<Rightarrow> int \<Rightarrow> bytes \<Rightarrow> string \<Rightarrow> string \<Rightarrow> string \<Rightarrow> auth_db \<Rightarrow> auth_db \<times> (string + unit)" where
  "create_user en now salt username password role db =
     (let u = py_strip username; rl = py_lower (py_strip role)
      in case user_error u rl of
           Some e \<Rightarrow> (db, Inl e)
         | None \<Rightarrow>
             (case hash_password (en_kdf en) salt DEFAULT_ITERATIONS password of
                Inl e \<Rightarrow> (db, Inl e)
              | Inr h \<Rightarrow>
                  (case record_audit en now (user_event ''dashboard_user_upserted'' u u [(''role'', JText rl)]) (db\<lparr>au_users := upserted now u rl h (au_users db)\<rparr>) of
                     (db', ok) \<Rightarrow> (db', if ok then Inr () else Inl ''audit''))))"

definition disabled :: "int \<Rightarrow> string \<Rightarrow> user_row list \<Rightarrow> user_row list" where
  "disabled now u = update_where (named u) (\<lambda>r. r\<lparr>us_enabled := False, us_epoch := us_epoch r + 1, us_updated := now\<rparr>)"

definition disable_user :: "auth_env \<Rightarrow> int \<Rightarrow> string \<Rightarrow> auth_db \<Rightarrow> auth_db \<times> (string + unit)" where
  "disable_user en now u db =
     (case record_audit en now (user_event ''dashboard_user_disabled'' ''system'' u []) (db\<lparr>au_users := disabled now u (au_users db)\<rparr>) of
        (db', ok) \<Rightarrow> (db', if ok then Inr () else Inl ''audit''))"

definition list_users :: "auth_db \<Rightarrow> (string \<times> string \<times> bool \<times> int \<times> int) list" where
  "list_users db = map (\<lambda>r. (us_name r, us_role r, us_enabled r, us_created r, us_updated r)) (sort_key us_name (au_users db))"

text \<open>The check of a password reads the row, and writes it in a second statement.\<close>

definition LOCKOUT_FAILURES :: int where
  "LOCKOUT_FAILURES = 5"

definition LOCKOUT_SECONDS :: int where
  "LOCKOUT_SECONDS = 15 * 60"

definition locked :: "int \<Rightarrow> user_row \<Rightarrow> bool" where
  "locked now r \<longleftrightarrow> (case us_locked r of None \<Rightarrow> False | Some t \<Rightarrow> now < t)"

definition checked_row :: "int \<Rightarrow> string \<Rightarrow> auth_db \<Rightarrow> user_row option" where
  "checked_row now u db = (case select_one (\<lambda>r. named u r \<and> us_enabled r) (au_users db) of None \<Rightarrow> None | Some r \<Rightarrow> if locked now r then None else Some r)"

definition password_ok :: "auth_env \<Rightarrow> user_row \<Rightarrow> string \<Rightarrow> bool" where
  "password_ok en r password = verify_password (en_kdf en) (utf8 password) (us_salt r) (us_hash r) (us_iterations r)"

definition after_success :: "int \<Rightarrow> string \<Rightarrow> user_row list \<Rightarrow> user_row list" where
  "after_success now u = update_where (named u) (\<lambda>r. r\<lparr>us_failed := 0, us_locked := None, us_login := Some now, us_updated := now\<rparr>)"

definition after_failure :: "int \<Rightarrow> string \<Rightarrow> int \<Rightarrow> user_row list \<Rightarrow> user_row list" where
  "after_failure now u failures = update_where (named u)
     (\<lambda>r. r\<lparr>us_failed := failures, us_locked := if LOCKOUT_FAILURES \<le> failures then Some (now + LOCKOUT_SECONDS) else None, us_updated := now\<rparr>)"

definition settle_check :: "auth_env \<Rightarrow> int \<Rightarrow> string \<Rightarrow> string \<Rightarrow> user_row \<Rightarrow> auth_db \<Rightarrow> auth_db \<times> string option" where
  "settle_check en now u password r db =
     (if password_ok en r password then (db\<lparr>au_users := after_success now u (au_users db)\<rparr>, Some (us_role r))
      else (db\<lparr>au_users := after_failure now u (us_failed r + 1) (au_users db)\<rparr>, None))"

definition verify_user :: "auth_env \<Rightarrow> int \<Rightarrow> string \<Rightarrow> string \<Rightarrow> auth_db \<Rightarrow> auth_db \<times> string option" where
  "verify_user en now u password db =
     (case checked_row now u db of None \<Rightarrow> (db, None) | Some r \<Rightarrow> settle_check en now u password r db)"

section \<open>Sessions\<close>

definition session_path :: "auth_env \<Rightarrow> string \<Rightarrow> string" where
  "session_path en token = en_sha en token"

definition role_of :: "user_row \<Rightarrow> string" where
  "role_of r = (if us_role r = '''' then ''viewer'' else us_role r)"

definition epoch_of :: "user_row \<Rightarrow> int" where
  "epoch_of r = (if us_epoch r = 0 then 1 else us_epoch r)"

definition create_session :: "auth_env \<Rightarrow> int \<Rightarrow> string \<Rightarrow> string \<Rightarrow> int \<Rightarrow> string \<Rightarrow> string \<Rightarrow> auth_db \<Rightarrow> auth_db \<times> (string + session)" where
  "create_session en now token csrf ttl u role db =
     (case select_one (named u) (au_users db) of
        None \<Rightarrow> (db, Inl ''Cannot create a session for a disabled or unknown user'')
      | Some r \<Rightarrow>
          if \<not> us_enabled r then (db, Inl ''Cannot create a session for a disabled or unknown user'')
          else if role \<noteq> '''' \<and> role \<noteq> role_of r then (db, Inl ''Session role does not match the current user role'')
          else (db\<lparr>au_files := AList.update (session_path en token)
                      (Some \<lparr>sf_user = u, sf_role = role_of r, sf_epoch = epoch_of r, sf_csrf = csrf, sf_expires = now + ttl, sf_created = now\<rparr>) (au_files db)\<rparr>,
                Inr \<lparr>se_user = u, se_role = role_of r, se_csrf = csrf, se_expires = now + ttl, se_token = token\<rparr>))"

definition unlink :: "string \<Rightarrow> auth_db \<Rightarrow> auth_db" where
  "unlink path db = db\<lparr>au_files := AList.delete path (au_files db)\<rparr>"

definition still_valid :: "session_file \<Rightarrow> auth_db \<Rightarrow> bool" where
  "still_valid f db \<longleftrightarrow>
     (case select_one (named (sf_user f)) (au_users db) of
        None \<Rightarrow> False
      | Some r \<Rightarrow> us_enabled r \<and> epoch_of r = sf_epoch f \<and> role_of r = sf_role f)"

definition parse_session :: "auth_env \<Rightarrow> int \<Rightarrow> (string \<times> string) list option \<Rightarrow> auth_db \<Rightarrow> auth_db \<times> session option" where
  "parse_session en now cookies db =
     (case cookies of
        None \<Rightarrow> (db, None)
      | Some jar \<Rightarrow>
          (case map_of jar ''recon_session'' of
             None \<Rightarrow> (db, None)
           | Some token \<Rightarrow>
               (let path = session_path en token
                in case map_of (au_files db) path of
                     None \<Rightarrow> (db, None)
                   | Some None \<Rightarrow> (unlink path db, None)
                   | Some (Some f) \<Rightarrow>
                       if sf_expires f < now then (unlink path db, None)
                       else if \<not> still_valid f db then (unlink path db, None)
                       else (db, Some \<lparr>se_user = sf_user f, se_role = sf_role f, se_csrf = sf_csrf f, se_expires = sf_expires f, se_token = token\<rparr>))))"

definition destroy_session :: "auth_env \<Rightarrow> string \<Rightarrow> auth_db \<Rightarrow> auth_db" where
  "destroy_session en token db = unlink (session_path en token) db"

definition expires_of :: "session_file option \<Rightarrow> int" where
  "expires_of f = (case f of None \<Rightarrow> 0 | Some f \<Rightarrow> sf_expires f)"

definition cleanup_sessions :: "int \<Rightarrow> auth_db \<Rightarrow> auth_db \<times> nat" where
  "cleanup_sessions now db =
     (db\<lparr>au_files := filter (\<lambda>(d, f). \<not> expires_of f < now) (au_files db)\<rparr>, length (filter (\<lambda>(d, f). expires_of f < now) (au_files db)))"

definition session_cookie :: "int \<Rightarrow> bool \<Rightarrow> session \<Rightarrow> string" where
  "session_cookie now secure s = py_join ''; '' ([''recon_session='' @ se_token s, ''Path=/'', ''HttpOnly'', ''SameSite=Strict'',
     ''Max-Age='' @ show_int (max 0 (se_expires s - now))] @ (if secure then [''Secure''] else []))"

definition expired_cookie :: string where
  "expired_cookie = ''recon_session=; Path=/; HttpOnly; SameSite=Strict; Max-Age=0''"

section \<open>The dashboard\<close>

datatype login = Too_Many_Attempts | Invalid_Credentials | Login_Failed string | Signed_In session string

definition LOGIN_WINDOW :: int where
  "LOGIN_WINDOW = 300"

definition LOGIN_LIMIT :: nat where
  "LOGIN_LIMIT = 10"

definition recent_attempts :: "int \<Rightarrow> string \<Rightarrow> auth_db \<Rightarrow> int list" where
  "recent_attempts now ip db = filter (\<lambda>x. now - x < LOGIN_WINDOW) (case map_of (au_attempts db) ip of None \<Rightarrow> [] | Some xs \<Rightarrow> xs)"

definition login_event :: "string \<Rightarrow> string \<Rightarrow> string \<Rightarrow> audit_event" where
  "login_event u ip role =
     \<lparr>ev_actor = u, ev_action = ''dashboard_login'', ev_target = '''', ev_type = ''session'', ev_value = ip, ev_details = [(''role'', JText role)]\<rparr>"

definition login_submit :: "auth_env \<Rightarrow> int \<Rightarrow> string \<Rightarrow> string \<Rightarrow> string \<Rightarrow> string \<Rightarrow> string \<Rightarrow> auth_db \<Rightarrow> auth_db \<times> login" where
  "login_submit en now token csrf ip u password db =
     (let attempts = recent_attempts now ip db
      in if LOGIN_LIMIT \<le> length attempts then (db, Too_Many_Attempts)
         else case verify_user en now u password db of
           (db1, None) \<Rightarrow> (db1\<lparr>au_attempts := AList.update ip (attempts @ [now]) (au_attempts db1)\<rparr>, Invalid_Credentials)
         | (db1, Some role) \<Rightarrow>
             (case create_session en now token csrf SESSION_TTL_SECONDS u role (db1\<lparr>au_attempts := AList.delete ip (au_attempts db1)\<rparr>) of
                (db2, Inl e) \<Rightarrow> (db2, Login_Failed e)
              | (db2, Inr s) \<Rightarrow>
                  (case record_audit en now (login_event u ip role) db2 of
                     (db3, ok) \<Rightarrow> (db3, if ok then Signed_In s (session_cookie now False s) else Login_Failed ''audit''))))"

definition logout :: "auth_env \<Rightarrow> int \<Rightarrow> (string \<times> string) list option \<Rightarrow> auth_db \<Rightarrow> auth_db" where
  "logout en now cookies db = (case parse_session en now cookies db of (db1, None) \<Rightarrow> db1 | (db1, Some s) \<Rightarrow> destroy_session en (se_token s) db1)"

definition session_mode :: "(string \<Rightarrow> string option) \<Rightarrow> (string \<times> string) list \<Rightarrow> bool" where
  "session_mode keychain cfg \<longleftrightarrow> py_lower (config_get keychain cfg ''DASHBOARD_AUTH_MODE'' ''session'') = ''session''"

definition authenticated ::
    "auth_env \<Rightarrow> (string \<Rightarrow> string option) \<Rightarrow> (string \<times> string) list \<Rightarrow> int \<Rightarrow> string \<Rightarrow> (string \<times> string) list option \<Rightarrow> string \<Rightarrow> auth_db
     \<Rightarrow> auth_db \<times> session option \<times> bool" where
  "authenticated en keychain cfg now required cookies authorization db =
     (if session_mode keychain cfg
      then (case parse_session en now cookies db of (db', s) \<Rightarrow> (db', s, case s of None \<Rightarrow> False | Some x \<Rightarrow> allows x required))
      else (db, None, verify_basic_header (en_kdf en) keychain cfg authorization))"

definition require_auth ::
    "auth_env \<Rightarrow> (string \<Rightarrow> string option) \<Rightarrow> (string \<times> string) list \<Rightarrow> int \<Rightarrow> string \<Rightarrow> (string \<times> string) list option \<Rightarrow> string \<Rightarrow> auth_db
     \<Rightarrow> auth_db \<times> session option \<times> bool" where
  "require_auth en keychain cfg now required cookies authorization db =
     (if \<not> config_bool cfg ''DASHBOARD_AUTH_ENABLED'' False then (db, None, True)
      else authenticated en keychain cfg now required cookies authorization db)"

definition require_csrf :: "(string \<Rightarrow> string option) \<Rightarrow> (string \<times> string) list \<Rightarrow> session option \<Rightarrow> string \<Rightarrow> bool" where
  "require_csrf keychain cfg s token \<longleftrightarrow>
     (if \<not> config_bool cfg ''DASHBOARD_AUTH_ENABLED'' False \<or> \<not> session_mode keychain cfg then True
      else case s of None \<Rightarrow> False | Some x \<Rightarrow> token \<noteq> '''' \<and> se_csrf x \<noteq> '''' \<and> token = se_csrf x)"

section \<open>Histories\<close>

datatype auth_call =
    Create_User bytes string string string
  | Disable_User string
  | Verify string string
  | Issue string string int string string
  | Login string string string string string
  | Parse "(string \<times> string) list option"
  | Logout "(string \<times> string) list option"
  | Destroy string
  | Cleanup

fun perform :: "auth_env \<Rightarrow> int \<Rightarrow> auth_call \<Rightarrow> auth_db \<Rightarrow> auth_db" where
  "perform en now (Create_User salt u pw role) db = fst (create_user en now salt u pw role db)"
| "perform en now (Disable_User u) db = fst (disable_user en now u db)"
| "perform en now (Verify u pw) db = fst (verify_user en now u pw db)"
| "perform en now (Issue u role ttl token csrf) db = fst (create_session en now token csrf ttl u role db)"
| "perform en now (Login ip u pw token csrf) db = fst (login_submit en now token csrf ip u pw db)"
| "perform en now (Parse cookies) db = fst (parse_session en now cookies db)"
| "perform en now (Logout cookies) db = logout en now cookies db"
| "perform en now (Destroy token) db = destroy_session en token db"
| "perform en now Cleanup db = fst (cleanup_sessions now db)"

text \<open>What happened, the last call first, and the state it led to.\<close>

inductive history :: "auth_env \<Rightarrow> (int \<times> auth_call) list \<Rightarrow> auth_db \<Rightarrow> bool" for en where
  start: "au_users db = [] \<Longrightarrow> au_files db = [] \<Longrightarrow> history en [] db"
| more: "history en h db \<Longrightarrow> \<forall>(t, c) \<in> set h. t \<le> now \<Longrightarrow> history en ((now, c) # h) (perform en now c db)"

end
