(* ===== verification/User_Sessions_Facts.thy ===== *)
theory User_Sessions_Facts
  imports User_Sessions
begin

text \<open>
  What the sessions guarantee over every history of calls: an accepted session goes back to a login that nothing has
  revoked since, a fresh session is accepted, and guessing a password is slowed down by the lock-out.
\<close>

section \<open>The users after a call\<close>

definition user :: "auth_db \<Rightarrow> string \<Rightarrow> user_row option" where
  "user db u = select_one (named u) (au_users db)"

text \<open>The call changes the credentials or the standing of a user.\<close>

definition revokes_user :: "auth_call \<Rightarrow> string \<Rightarrow> bool" where
  "revokes_user c u \<longleftrightarrow>
     (case c of
        Create_User salt n pw role \<Rightarrow> py_strip n = u \<and> user_error u (py_lower (py_strip role)) = None \<and> 10 \<le> length pw
      | Disable_User n \<Rightarrow> n = u
      | _ \<Rightarrow> False)"

text \<open>The call destroys the session at a path: directly, or as the logout of a browser that holds its cookie.\<close>

definition ends_token :: "auth_env \<Rightarrow> auth_call \<Rightarrow> string \<Rightarrow> bool" where
  "ends_token en c d \<longleftrightarrow>
     (case c of
        Destroy token \<Rightarrow> session_path en token = d
      | Logout (Some jar) \<Rightarrow> (case map_of jar ''recon_session'' of None \<Rightarrow> False | Some token \<Rightarrow> session_path en token = d)
      | _ \<Rightarrow> False)"

text \<open>The session that a call earns in the state it happens in: a login with the right password of an enabled user who is not
  locked out, from an address that is not refused, or a session issued for an enabled user in that user's role.\<close>

definition grants :: "auth_env \<Rightarrow> int \<Rightarrow> auth_call \<Rightarrow> auth_db \<Rightarrow> session option" where
  "grants en now c db =
     (case c of
        Issue u role ttl token csrf \<Rightarrow>
          (case user db u of
             None \<Rightarrow> None
           | Some r \<Rightarrow> if us_enabled r \<and> (role = '''' \<or> role = role_of r)
               then Some \<lparr>se_user = u, se_role = role_of r, se_csrf = csrf, se_expires = now + ttl, se_token = token\<rparr> else None)
      | Login ip u pw token csrf \<Rightarrow>
          (case user db u of
             None \<Rightarrow> None
           | Some r \<Rightarrow> if us_enabled r \<and> \<not> locked now r \<and> password_ok en r pw \<and> length (recent_attempts now ip db) < LOGIN_LIMIT
               then Some \<lparr>se_user = u, se_role = role_of r, se_csrf = csrf, se_expires = now + SESSION_TTL_SECONDS, se_token = token\<rparr> else None)
      | _ \<Rightarrow> None)"

lemma user_parts [simp]:
  "user (db\<lparr>au_files := x\<rparr>) u = user db u" "user (db\<lparr>au_audit := y\<rparr>) u = user db u" "user (db\<lparr>au_attempts := z\<rparr>) u = user db u"
  by (simp_all add: user_def)

lemma named_eq: "named u = (\<lambda>r. us_name r = u)"
  by (simp add: fun_eq_iff named_def)

lemma record_audit_parts:
  "au_users (fst (record_audit en now ev db)) = au_users db" "au_files (fst (record_audit en now ev db)) = au_files db"
  "au_attempts (fst (record_audit en now ev db)) = au_attempts db"
  by (simp_all add: record_audit_def split: prod.split)

lemma update_user:
  assumes "\<And>r. us_name (f r) = us_name r"
  shows "select_one (named u) (update_where (named v) f t) = map_option (\<lambda>r. if u = v then f r else r) (select_one (named u) t)"
proof -
  have "select_one (named u) (update_where (named v) f t) = map_option (\<lambda>r. if named v r then f r else r) (select_one (named u) t)"
    by (rule select_one_update_where) (simp add: named_def assms)
  moreover have "named v r = (u = v)" if "select_one (named u) t = Some r" for r
    using select_one_Some[OF that] by (auto simp: named_def)
  ultimately show ?thesis by (cases "select_one (named u) t") auto
qed

lemma create_user_users:
  "au_users (fst (create_user en now salt n pw role db)) =
     (if user_error (py_strip n) (py_lower (py_strip role)) = None \<and> 10 \<le> length pw
      then upserted now (py_strip n) (py_lower (py_strip role)) (urlsafe_encode salt, urlsafe_encode (en_kdf en (utf8 pw) salt DEFAULT_ITERATIONS), DEFAULT_ITERATIONS) (au_users db)
      else au_users db)"
  by (auto simp: create_user_def hash_password_def Let_def record_audit_def split: option.split prod.split)

lemma create_user_files: "au_files (fst (create_user en now salt n pw role db)) = au_files db"
  by (auto simp: create_user_def hash_password_def Let_def record_audit_def split: option.split prod.split sum.split)

lemma disable_user_parts:
  "au_users (fst (disable_user en now u db)) = disabled now u (au_users db)" "au_files (fst (disable_user en now u db)) = au_files db"
  by (simp_all add: disable_user_def record_audit_def split: prod.split)

lemma upserted_user:
  "select_one (named v) (upserted now u role h t) = (if v = u then
     Some (case select_one (named u) t of
         None \<Rightarrow> \<lparr>us_name = u, us_salt = fst h, us_hash = fst (snd h), us_iterations = snd (snd h), us_role = role, us_enabled = True, us_epoch = 1,
            us_created = now, us_updated = now, us_login = None, us_failed = 0, us_locked = None\<rparr>
       | Some r \<Rightarrow> r\<lparr>us_salt := fst h, us_hash := fst (snd h), us_iterations := snd (snd h), us_role := role, us_enabled := True, us_epoch := us_epoch r + 1, us_updated := now\<rparr>)
     else select_one (named v) t)"
proof (cases "v = u")
  case True
  show ?thesis unfolding upserted_def split_def True by (subst select_one_upsert) (simp_all add: named_def)
next
  case False
  then show ?thesis unfolding upserted_def split_def by (subst select_one_upsert_other) (auto simp: named_def)
qed

text \<open>A check of a password and a granted session leave every user's name, role and epoch alone.\<close>

definition same_standing :: "user_row \<Rightarrow> user_row \<Rightarrow> bool" where
  "same_standing r s \<longleftrightarrow> us_name r = us_name s \<and> us_role r = us_role s \<and> us_enabled r = us_enabled s \<and> us_epoch r = us_epoch s"

lemma verify_user_users: "user db u = Some r \<Longrightarrow> \<exists>s. user (fst (verify_user en now v pw db)) u = Some s \<and> same_standing r s"
  by (auto simp: verify_user_def settle_check_def user_def after_success_def after_failure_def update_user same_standing_def split: option.split)

lemma verify_user_none: "user db u = None \<Longrightarrow> user (fst (verify_user en now v pw db)) u = None"
  by (auto simp: verify_user_def settle_check_def user_def after_success_def after_failure_def update_user split: option.split)

lemma verify_user_files: "au_files (fst (verify_user en now v pw db)) = au_files db" "au_attempts (fst (verify_user en now v pw db)) = au_attempts db"
  by (auto simp: verify_user_def settle_check_def split: option.split)

lemma create_session_users: "au_users (fst (create_session en now token csrf ttl u role db)) = au_users db"
  by (auto simp: create_session_def split: option.split)

lemma parse_session_users: "au_users (fst (parse_session en now cookies db)) = au_users db"
  by (auto simp: parse_session_def unlink_def Let_def split: option.split)

lemma login_cases:
  obtains (unchanged) "fst (login_submit en now token csrf ip u pw db) = db"
  | (failed) xs where "fst (login_submit en now token csrf ip u pw db) = (fst (verify_user en now u pw db))\<lparr>au_attempts := xs\<rparr>"
  | (granted) role xs a where "length (recent_attempts now ip db) < LOGIN_LIMIT" "snd (verify_user en now u pw db) = Some role"
      "fst (login_submit en now token csrf ip u pw db) =
      (fst (create_session en now token csrf SESSION_TTL_SECONDS u role ((fst (verify_user en now u pw db))\<lparr>au_attempts := xs\<rparr>)))\<lparr>au_audit := a\<rparr>"
proof -
  consider "LOGIN_LIMIT \<le> length (recent_attempts now ip db)" | db1 where "verify_user en now u pw db = (db1, None)" "\<not> LOGIN_LIMIT \<le> length (recent_attempts now ip db)"
    | db1 role where "verify_user en now u pw db = (db1, Some role)" "\<not> LOGIN_LIMIT \<le> length (recent_attempts now ip db)"
    by (cases "verify_user en now u pw db"; cases "snd (verify_user en now u pw db)") auto
  then show thesis
  proof cases
    case 1
    then show thesis by (intro unchanged) (simp add: login_submit_def)
  next
    case 2
    then show thesis by (intro failed) (simp add: login_submit_def Let_def)
  next
    case 3
    let ?db2 = "create_session en now token csrf SESSION_TTL_SECONDS u role (db1\<lparr>au_attempts := AList.delete ip (au_attempts db1)\<rparr>)"
    have "\<exists>a. fst (login_submit en now token csrf ip u pw db) = (fst ?db2)\<lparr>au_audit := a\<rparr>"
    proof (cases ?db2)
      case (Pair db2 res)
      have "\<exists>a. db2 = db2\<lparr>au_audit := a\<rparr>" by (rule exI[of _ "au_audit db2"]) simp
      with Pair 3 show ?thesis by (cases res) (auto simp: login_submit_def Let_def record_audit_def split: prod.split)
    qed
    with 3 show thesis by (auto intro: granted)
  qed
qed


lemma login_users: "user db v = Some r \<Longrightarrow> \<exists>s. user (fst (login_submit en now token csrf ip u pw db)) v = Some s \<and> same_standing r s"
  using login_cases[of en now token csrf ip u pw db]
proof cases
  case unchanged
  then show "user db v = Some r \<Longrightarrow> ?thesis" by (simp add: same_standing_def)
next
  case (failed xs)
  with verify_user_users[of db v r en now u pw] show "user db v = Some r \<Longrightarrow> ?thesis" by simp
next
  case (granted role xs a)
  with verify_user_users[of db v r en now u pw] show "user db v = Some r \<Longrightarrow> ?thesis" by (simp add: user_def create_session_users)
qed

lemma perform_user:
  assumes "user db u = Some r"
  shows "\<exists>s. user (perform en now c db) u = Some s \<and> us_epoch r \<le> us_epoch s \<and> (us_epoch s = us_epoch r \<longrightarrow> \<not> revokes_user c u)"
proof (cases c)
  case (Create_User salt n pw role)
  with assms show ?thesis by (auto simp: user_def create_user_users upserted_user revokes_user_def split: if_splits)
next
  case (Disable_User n)
  with assms show ?thesis by (auto simp: user_def disable_user_parts disabled_def update_user revokes_user_def)
next
  case (Verify n pw)
  with verify_user_users[OF assms, of en now n pw] show ?thesis by (auto simp: revokes_user_def same_standing_def)
next
  case (Issue n role ttl token csrf)
  with assms show ?thesis by (simp add: user_def create_session_users revokes_user_def)
next
  case (Login ip n pw token csrf)
  with login_users[OF assms, of en now token csrf ip n pw] show ?thesis by (auto simp: revokes_user_def same_standing_def)
next
  case (Parse cookies)
  with assms show ?thesis by (simp add: user_def parse_session_users revokes_user_def)
next
  case (Logout cookies)
  with assms show ?thesis
    by (cases "parse_session en now cookies db"; cases "snd (parse_session en now cookies db)")
       (use parse_session_users[of en now cookies db] in \<open>auto simp: user_def logout_def destroy_session_def unlink_def revokes_user_def\<close>)
qed (use assms in \<open>auto simp: user_def destroy_session_def unlink_def cleanup_sessions_def revokes_user_def\<close>)

lemma keyed_update: "(\<And>r. us_name (f r) = us_name r) \<Longrightarrow> keyed us_name t \<Longrightarrow> keyed us_name (update_where p f t)"
  by (rule keyed_update_where) auto

lemma keyed_upserted: "keyed us_name t \<Longrightarrow> keyed us_name (upserted now u role h t)"
  unfolding upserted_def split_def by (rule keyed_upsert) (auto simp: named_def)

lemma verify_keyed: "keyed us_name (au_users db) \<Longrightarrow> keyed us_name (au_users (fst (verify_user en now u pw db)))"
  by (auto simp: verify_user_def settle_check_def after_success_def after_failure_def intro!: keyed_update split: option.split)

lemma perform_keyed: "keyed us_name (au_users db) \<Longrightarrow> keyed us_name (au_users (perform en now c db))"
proof (cases c)
  case (Login ip n pw token csrf)
  show "keyed us_name (au_users db) \<Longrightarrow> ?thesis"
    using login_cases[of en now token csrf ip n pw db] by cases (use Login in \<open>auto simp: create_session_users verify_keyed\<close>)
next
  case (Logout cookies)
  then show "keyed us_name (au_users db) \<Longrightarrow> ?thesis"
    using parse_session_users[of en now cookies db] by (auto simp: logout_def destroy_session_def unlink_def split: prod.splits option.splits)
qed (auto simp: create_user_users keyed_upserted disable_user_parts disabled_def keyed_update verify_keyed create_session_users parse_session_users
    destroy_session_def unlink_def cleanup_sessions_def)

lemma checked_user: "keyed us_name (au_users db) \<Longrightarrow> checked_row now u db = Some r \<Longrightarrow> user db u = Some r \<and> \<not> locked now r"
proof -
  assume k: "keyed us_name (au_users db)" and "checked_row now u db = Some r"
  then have r: "select_one (\<lambda>r. named u r \<and> us_enabled r) (au_users db) = Some r" "\<not> locked now r" by (auto simp: checked_row_def split: option.splits if_splits)
  then have "r \<in> set (au_users db)" "us_name r = u" using select_one_Some by (fastforce simp: named_def)+
  then show ?thesis using select_one_key[OF k, of r] r(2) by (simp add: user_def named_eq)
qed

definition epochs_ok :: "auth_db \<Rightarrow> bool" where
  "epochs_ok db \<longleftrightarrow> (\<forall>u r. user db u = Some r \<longrightarrow> 1 \<le> us_epoch r)"

section \<open>The files after a call\<close>

definition granted_file :: "auth_env \<Rightarrow> int \<Rightarrow> auth_call \<Rightarrow> string \<Rightarrow> session_file \<Rightarrow> auth_db \<Rightarrow> bool" where
  "granted_file en now c d f db \<longleftrightarrow> (\<exists>token r.
     grants en now c db = Some \<lparr>se_user = sf_user f, se_role = sf_role f, se_csrf = sf_csrf f, se_expires = sf_expires f, se_token = token\<rparr>
     \<and> session_path en token = d \<and> user (perform en now c db) (sf_user f) = Some r \<and> sf_epoch f = epoch_of r)"

lemma map_of_filter_some: "map_of (filter P xs) k = Some v \<Longrightarrow> distinct (map fst xs) \<Longrightarrow> map_of xs k = Some v"
  by (auto dest: map_of_SomeD)

lemma create_session_files:
  assumes "map_of (au_files (fst (create_session en now token csrf ttl u role db))) d = Some (Some f)"
  shows "map_of (au_files db) d = Some (Some f) \<or> session_path en token = d \<and> sf_user f = u \<and> sf_csrf f = csrf \<and> sf_expires f = now + ttl
    \<and> (\<exists>r. user db u = Some r \<and> us_enabled r \<and> (role = '''' \<or> role = role_of r) \<and> sf_role f = role_of r \<and> sf_epoch f = epoch_of r)"
  using assms by (auto simp: create_session_def user_def update_conv' split: option.splits if_splits)

lemma unlink_files: "map_of (au_files (unlink p db)) d = (if d = p then None else map_of (au_files db) d)"
  by (simp add: unlink_def delete_conv')

lemma parse_session_files:
  "map_of (au_files (fst (parse_session en now cookies db))) d = Some (Some f) \<Longrightarrow> map_of (au_files db) d = Some (Some f)"
  by (auto simp: parse_session_def unlink_files Let_def split: option.splits if_splits)

lemma logout_files:
  "map_of (au_files (logout en now cookies db)) d = Some (Some f) \<Longrightarrow> map_of (au_files db) d = Some (Some f)"
  using parse_session_files[of en now cookies db d f]
  by (auto simp: logout_def destroy_session_def unlink_files split: prod.splits option.splits if_splits)

lemma logout_ends: "map_of jar ''recon_session'' = Some token \<Longrightarrow> map_of (au_files (logout en now (Some jar) db)) (session_path en token) = None"
  by (auto simp: logout_def parse_session_def destroy_session_def unlink_files Let_def split: option.split)

lemma verified_row:
  assumes "snd (verify_user en now u pw db) = Some role" "keyed us_name (au_users db)"
  shows "\<exists>r. user db u = Some r \<and> us_enabled r \<and> \<not> locked now r \<and> password_ok en r pw"
proof -
  from assms(1) obtain r where r: "checked_row now u db = Some r" "password_ok en r pw"
    by (auto simp: verify_user_def settle_check_def split: option.splits if_splits)
  have "us_enabled r" using r(1) by (auto simp: checked_row_def split: option.splits if_splits dest: select_one_Some)
  with checked_user[OF assms(2) r(1)] r(2) show ?thesis by blast
qed

lemma login_files:
  assumes "map_of (au_files (perform en now (Login ip u pw token csrf) db)) d = Some (Some f)" "keyed us_name (au_users db)"
  shows "map_of (au_files db) d = Some (Some f) \<or> granted_file en now (Login ip u pw token csrf) d f db"
  using login_cases[of en now token csrf ip u pw db]
proof cases
  case (granted role xs a)
  let ?db1 = "(fst (verify_user en now u pw db))\<lparr>au_attempts := xs\<rparr>"
  obtain r where r: "user db u = Some r" "us_enabled r" "\<not> locked now r" "password_ok en r pw" using verified_row[OF granted(2) assms(2)] by blast
  obtain q where q: "user (fst (verify_user en now u pw db)) u = Some q" "same_standing r q" using verify_user_users[OF r(1)] by blast
  have after: "user (perform en now (Login ip u pw token csrf) db) u = Some q"
    using q(1) granted(3) by (simp add: user_def create_session_users)
  have same: "role_of q = role_of r" using q(2) by (simp add: same_standing_def role_of_def)
  from assms(1) granted(3) create_session_files[of en now token csrf SESSION_TTL_SECONDS u role ?db1 d f] q(1) r granted(1) same after
  show ?thesis by (auto simp: granted_file_def grants_def verify_user_files)
qed (use assms(1) in \<open>auto simp: verify_user_files\<close>)

lemma perform_files:
  assumes "map_of (au_files (perform en now c db)) d = Some (Some f)" "distinct (map fst (au_files db))" "keyed us_name (au_users db)"
  shows "map_of (au_files db) d = Some (Some f) \<and> \<not> ends_token en c d \<or> granted_file en now c d f db"
proof (cases c)
  case (Issue u role ttl token csrf)
  with assms(1) create_session_files[of en now token csrf ttl u role db d f] show ?thesis
    by (auto simp: granted_file_def grants_def ends_token_def user_def create_session_users)
next
  case (Login ip u pw token csrf)
  with login_files[OF assms(1)[unfolded Login] assms(3)] show ?thesis by (simp add: ends_token_def)
next
  case (Logout cookies)
  with assms(1) logout_files[of en now cookies db d f] logout_ends[of _ _ en now db] show ?thesis
    by (auto simp: ends_token_def split: option.split)
next
  case Cleanup
  with assms show ?thesis by (auto simp: cleanup_sessions_def ends_token_def dest: map_of_filter_some)
qed (use assms(1) in \<open>auto simp: create_user_files disable_user_parts verify_user_files destroy_session_def unlink_files ends_token_def
    dest: parse_session_files split: if_splits\<close>)


lemma perform_new_user: "user db u = None \<Longrightarrow> user (perform en now c db) u = Some s \<Longrightarrow> us_epoch s = 1"
proof (cases c)
  case (Create_User salt n pw role)
  then show "user db u = None \<Longrightarrow> user (perform en now c db) u = Some s \<Longrightarrow> ?thesis" by (auto simp: user_def create_user_users upserted_user split: if_splits)
next
  case (Login ip n pw token csrf)
  show "user db u = None \<Longrightarrow> user (perform en now c db) u = Some s \<Longrightarrow> ?thesis"
    using login_cases[of en now token csrf ip n pw db]
    by cases (use Login verify_user_none[of db u en now n pw] in \<open>auto simp: user_def create_session_users\<close>)
next
  case (Logout cookies)
  then show "user db u = None \<Longrightarrow> user (perform en now c db) u = Some s \<Longrightarrow> ?thesis"
    using parse_session_users[of en now cookies db] by (auto simp: user_def logout_def destroy_session_def unlink_def split: prod.splits option.splits)
qed (auto simp: user_def disable_user_parts disabled_def update_user create_session_users parse_session_users destroy_session_def unlink_def cleanup_sessions_def
    verify_user_none[unfolded user_def])

lemma perform_epochs: "epochs_ok db \<Longrightarrow> epochs_ok (perform en now c db)"
  unfolding epochs_ok_def
proof (intro allI impI)
  fix u s assume ok: "\<forall>u r. user db u = Some r \<longrightarrow> 1 \<le> us_epoch r" and s: "user (perform en now c db) u = Some s"
  show "1 \<le> us_epoch s"
  proof (cases "user db u")
    case None
    with perform_new_user[OF None s] show ?thesis by simp
  next
    case (Some r)
    with perform_user[OF Some, of en now c] s ok show ?thesis by fastforce
  qed
qed

lemma distinct_unlink: "distinct (map fst (au_files db)) \<Longrightarrow> distinct (map fst (au_files (unlink p db)))"
  by (simp add: unlink_def distinct_delete)

lemma distinct_create: "distinct (map fst (au_files db)) \<Longrightarrow> distinct (map fst (au_files (fst (create_session en now token csrf ttl u role db))))"
  by (auto simp: create_session_def distinct_update split: option.split)

lemma distinct_parse: "distinct (map fst (au_files db)) \<Longrightarrow> distinct (map fst (au_files (fst (parse_session en now cookies db))))"
  by (auto simp: parse_session_def distinct_unlink Let_def split: option.split)

lemma perform_distinct: "distinct (map fst (au_files db)) \<Longrightarrow> distinct (map fst (au_files (perform en now c db)))"
proof (cases c)
  case (Login ip n pw token csrf)
  show "distinct (map fst (au_files db)) \<Longrightarrow> ?thesis"
    using login_cases[of en now token csrf ip n pw db]
    by cases (use Login in \<open>auto simp: verify_user_files intro!: distinct_create\<close>)
next
  case (Logout cookies)
  then show "distinct (map fst (au_files db)) \<Longrightarrow> ?thesis"
    using distinct_parse[of db en now cookies] distinct_unlink
    by (auto simp: logout_def destroy_session_def split: prod.splits option.splits)
next
  case Cleanup
  then show "distinct (map fst (au_files db)) \<Longrightarrow> ?thesis" by (simp add: cleanup_sessions_def distinct_map_filter)
qed (auto simp: create_user_files disable_user_parts verify_user_files destroy_session_def distinct_unlink distinct_create distinct_parse)

section \<open>Where a session comes from\<close>

text \<open>The file goes back to a call that granted it, after which its token was not ended; the user's epoch has not fallen below
  that of the file, and if it is still the same then nothing has revoked the user's sessions.\<close>

definition replay :: "auth_env \<Rightarrow> (int \<times> auth_call) list \<Rightarrow> auth_db \<Rightarrow> auth_db" where
  "replay en = foldr (\<lambda>(t, c). perform en t c)"

definition traced :: "auth_env \<Rightarrow> (int \<times> auth_call) list \<Rightarrow> auth_db \<Rightarrow> string \<Rightarrow> session_file \<Rightarrow> bool" where
  "traced en h db d f \<longleftrightarrow>
     (\<exists>later t c earlier db0 token r. h = later @ (t, c) # earlier \<and> history en earlier db0 \<and> db = replay en later (perform en t c db0)
        \<and> grants en t c db0 = Some \<lparr>se_user = sf_user f, se_role = sf_role f, se_csrf = sf_csrf f, se_expires = sf_expires f, se_token = token\<rparr>
        \<and> session_path en token = d \<and> (\<forall>(t', c') \<in> set later. \<not> ends_token en c' d)
        \<and> user db (sf_user f) = Some r \<and> sf_epoch f \<le> us_epoch r
        \<and> (us_epoch r = sf_epoch f \<longrightarrow> (\<forall>(t', c') \<in> set later. \<not> revokes_user c' (sf_user f))))"

lemma traced_more:
  assumes "traced en h db d f" "\<not> ends_token en c d"
  shows "traced en ((now, c) # h) (perform en now c db) d f"
proof -
  from assms(1) obtain later t c0 earlier db0 token r where h: "h = later @ (t, c0) # earlier" "history en earlier db0"
      "db = replay en later (perform en t c0 db0)"
      "grants en t c0 db0 = Some \<lparr>se_user = sf_user f, se_role = sf_role f, se_csrf = sf_csrf f, se_expires = sf_expires f, se_token = token\<rparr>"
      "session_path en token = d" "\<forall>(t', c') \<in> set later. \<not> ends_token en c' d"
    and r: "user db (sf_user f) = Some r" "sf_epoch f \<le> us_epoch r" "us_epoch r = sf_epoch f \<longrightarrow> (\<forall>(t', c') \<in> set later. \<not> revokes_user c' (sf_user f))"
    unfolding traced_def by blast
  obtain s where s: "user (perform en now c db) (sf_user f) = Some s" "us_epoch r \<le> us_epoch s" "us_epoch s = us_epoch r \<longrightarrow> \<not> revokes_user c (sf_user f)"
    using perform_user[OF r(1)] by blast
  have "us_epoch s = sf_epoch f \<longrightarrow> (\<forall>(t', c') \<in> set ((now, c) # later). \<not> revokes_user c' (sf_user f))" using r(2,3) s(2,3) by auto
  moreover have "(now, c) # h = ((now, c) # later) @ (t, c0) # earlier" "\<forall>(t', c') \<in> set ((now, c) # later). \<not> ends_token en c' d" using h(1,6) assms(2) by auto
  moreover have "sf_epoch f \<le> us_epoch s" using r(2) s(2) by simp
  moreover have "perform en now c db = replay en ((now, c) # later) (perform en t c0 db0)" using h(3) by (simp add: replay_def)
  ultimately show ?thesis unfolding traced_def using h(2,4,5) s(1) by blast
qed

lemma history_traced:
  assumes "history en h db"
  shows "epochs_ok db \<and> distinct (map fst (au_files db)) \<and> keyed us_name (au_users db)
    \<and> (\<forall>d f. map_of (au_files db) d = Some (Some f) \<longrightarrow> traced en h db d f)"
  using assms
proof (induction rule: history.induct)
  case (start db)
  then show ?case by (simp add: epochs_ok_def user_def select_one_def keyed_def)
next
  case (more h db now c)
  let ?db = "perform en now c db"
  have ok: "epochs_ok ?db" "distinct (map fst (au_files ?db))" "keyed us_name (au_users ?db)"
    using more.IH perform_epochs perform_distinct perform_keyed by blast+
  have "traced en ((now, c) # h) ?db d f" if f: "map_of (au_files ?db) d = Some (Some f)" for d f
  proof -
    consider "map_of (au_files db) d = Some (Some f)" "\<not> ends_token en c d" | "granted_file en now c d f db" using perform_files[OF f] more.IH by blast
    then show ?thesis
    proof cases
    case 2
    then obtain token r where g: "grants en now c db = Some \<lparr>se_user = sf_user f, se_role = sf_role f, se_csrf = sf_csrf f, se_expires = sf_expires f, se_token = token\<rparr>"
      "session_path en token = d" "user ?db (sf_user f) = Some r" "sf_epoch f = epoch_of r" by (auto simp: granted_file_def)
    have "1 \<le> us_epoch r" using ok(1) g(3) by (auto simp: epochs_ok_def)
    then have "sf_epoch f \<le> us_epoch r" by (simp add: g(4) epoch_of_def)
    then show ?thesis unfolding traced_def using g(1-3) more.hyps(1)
      by (intro exI[of _ "[]"] exI[of _ now] exI[of _ c] exI[of _ h] exI[of _ db] exI[of _ token] exI[of _ r]) (simp add: replay_def)
    qed (use more.IH traced_more in blast)
  qed
  with ok show ?case by blast
qed


text \<open>C22: a session that the dashboard accepts goes back to a call that earned exactly this session for exactly this user, in the
  state it happened in: a login with the right password of an enabled user who was not locked out, or a session issued for such a
  user.  Since then the user's credentials were not changed, the user was not disabled, and the session was neither destroyed nor logged out;
  it has not expired, and the user exists, is enabled and still has the session's role.  (Two tokens with the same digest name the same file.)\<close>

theorem session_goes_back_to_a_login:
  assumes "history en h db" "parse_session en now cookies db = (db', Some s)"
  shows "\<exists>later t c earlier db0 token. h = later @ (t, c) # earlier \<and> history en earlier db0 \<and> db = replay en later (perform en t c db0)
      \<and> grants en t c db0 = Some (s\<lparr>se_token := token\<rparr>) \<and> session_path en token = session_path en (se_token s) \<and> now \<le> se_expires s
      \<and> (\<forall>(t', c') \<in> set later. \<not> revokes_user c' (se_user s) \<and> \<not> ends_token en c' (session_path en token))
      \<and> (\<exists>r. user db (se_user s) = Some r \<and> us_enabled r \<and> role_of r = se_role s)"
proof -
  from assms(2) obtain jar token f where f: "cookies = Some jar" "map_of jar ''recon_session'' = Some token" "map_of (au_files db) (session_path en token) = Some (Some f)"
    "now \<le> sf_expires f" "still_valid f db" "s = \<lparr>se_user = sf_user f, se_role = sf_role f, se_csrf = sf_csrf f, se_expires = sf_expires f, se_token = token\<rparr>"
    by (auto simp: parse_session_def Let_def split: option.splits if_splits)
  from history_traced[OF assms(1)] f(3) have "epochs_ok db" "traced en h db (session_path en token) f" by blast+
  then obtain later t c earlier db0 token' r where h: "h = later @ (t, c) # earlier" "history en earlier db0" "db = replay en later (perform en t c db0)"
    "grants en t c db0 = Some \<lparr>se_user = sf_user f, se_role = sf_role f, se_csrf = sf_csrf f, se_expires = sf_expires f, se_token = token'\<rparr>"
    "session_path en token' = session_path en token" "\<forall>(t', c') \<in> set later. \<not> ends_token en c' (session_path en token)"
    and r: "user db (sf_user f) = Some r" "us_epoch r = sf_epoch f \<longrightarrow> (\<forall>(t', c') \<in> set later. \<not> revokes_user c' (sf_user f))"
    unfolding traced_def by blast
  have "1 \<le> us_epoch r" using \<open>epochs_ok db\<close> r(1) by (auto simp: epochs_ok_def)
  with f(5) r(1) have v: "us_enabled r" "us_epoch r = sf_epoch f" "role_of r = sf_role f" by (auto simp: still_valid_def epoch_of_def user_def)
  with r(2) h(6) have "\<forall>(t', c') \<in> set later. \<not> revokes_user c' (sf_user f) \<and> \<not> ends_token en c' (session_path en token)" by auto
  then show ?thesis using h(1-5) f(4) v r(1)
    by (intro exI[of _ later] exI[of _ t] exI[of _ c] exI[of _ earlier] exI[of _ db0] exI[of _ token']) (simp add: f(6))
qed

text \<open>C25: a sign-in succeeds only with the right password of an enabled user who is not locked out; the session it grants is for
  this user, in the user's role, and lasts for the session time; and as long as it lasts and nothing else happens the session is accepted as it was granted.\<close>

theorem sign_in_is_earned_and_lasts:
  assumes "login_submit en now token csrf ip u pw db = (db', Signed_In s cookie)" "map_of jar ''recon_session'' = Some token" "later \<le> se_expires s"
  shows "(\<exists>r. r \<in> set (au_users db) \<and> us_name r = u \<and> us_enabled r \<and> \<not> locked now r \<and> password_ok en r pw \<and> se_role s = role_of r)
    \<and> parse_session en later (Some jar) db' = (db', Some s) \<and> se_user s = u \<and> se_expires s = now + SESSION_TTL_SECONDS"
proof -
  from assms(1) obtain db1 role where v: "verify_user en now u pw db = (db1, Some role)"
    by (auto simp: login_submit_def Let_def split: prod.splits option.splits if_splits)
  let ?db1 = "db1\<lparr>au_attempts := AList.delete ip (au_attempts db1)\<rparr>"
  from assms(1) v obtain db2 where c: "create_session en now token csrf SESSION_TTL_SECONDS u role ?db1 = (db2, Inr s)" "db' = fst (record_audit en now (login_event u ip role) db2)"
    by (auto simp: login_submit_def Let_def split: prod.splits option.splits if_splits sum.splits)
  from v obtain r where r: "checked_row now u db = Some r" "password_ok en r pw" by (auto simp: verify_user_def settle_check_def split: option.splits if_splits)
  then have "select_one (\<lambda>r. named u r \<and> us_enabled r) (au_users db) = Some r" "\<not> locked now r" by (auto simp: checked_row_def split: option.splits if_splits)
  with r(2) have earned: "r \<in> set (au_users db)" "us_name r = u" "us_enabled r" "\<not> locked now r" "password_ok en r pw"
    using select_one_Some by (fastforce simp: named_def)+

  from c(1) obtain q where q: "select_one (named u) (au_users ?db1) = Some q" "us_enabled q"
    "db2 = ?db1\<lparr>au_files := AList.update (session_path en token) (Some \<lparr>sf_user = u, sf_role = role_of q, sf_epoch = epoch_of q, sf_csrf = csrf, sf_expires = now + SESSION_TTL_SECONDS, sf_created = now\<rparr>) (au_files ?db1)\<rparr>"
    "s = \<lparr>se_user = u, se_role = role_of q, se_csrf = csrf, se_expires = now + SESSION_TTL_SECONDS, se_token = token\<rparr>"    by (auto simp: create_session_def split: option.splits if_splits)
  have users: "au_users db' = au_users ?db1" and files: "au_files db' = au_files db2" by (simp_all add: c(2) record_audit_parts q(3))
  have accepted: "parse_session en later (Some jar) db' = (db', Some s)"
    using assms(2,3) q by (simp add: parse_session_def files still_valid_def users update_conv')
  have "role_of q = role_of r"
  proof -
    have q': "user db1 u = Some q" using q(1) by (simp add: user_def)
    with v verify_user_none[of db u en now u pw] obtain q0 where q0: "user db u = Some q0" by (cases "user db u") auto
    from verify_user_users[OF q0, of en now u pw] q' v have same: "same_standing q0 q" by auto
    have first: "find P xs = Some x \<Longrightarrow> Q x \<Longrightarrow> find (\<lambda>x. P x \<and> Q x) xs = Some x" for P Q x and xs :: "user_row list"
      by (induction xs) (auto split: if_splits)
    have "select_one (\<lambda>r. named u r \<and> us_enabled r) (au_users db) = Some q0"
      using q0 same q(2) unfolding user_def select_one_def by (intro first) (auto simp: same_standing_def)
    with \<open>select_one (\<lambda>r. named u r \<and> us_enabled r) (au_users db) = Some r\<close> have "r = q0" by simp
    with same show ?thesis by (simp add: same_standing_def role_of_def)
  qed
  with earned q(4) accepted show ?thesis by auto
qed


section \<open>Guessing a password\<close>

text \<open>The call has a password of the user checked, and the check succeeds.\<close>

definition checks :: "int \<Rightarrow> auth_call \<Rightarrow> auth_db \<Rightarrow> string \<Rightarrow> (user_row \<times> string) option" where
  "checks now c db u =
     (case c of
        Verify v pw \<Rightarrow> if v = u then map_option (\<lambda>r. (r, pw)) (checked_row now u db) else None
      | Login ip v pw token csrf \<Rightarrow>
          if v = u \<and> length (recent_attempts now ip db) < LOGIN_LIMIT then map_option (\<lambda>r. (r, pw)) (checked_row now u db) else None
      | _ \<Rightarrow> None)"

definition guesses_right :: "auth_env \<Rightarrow> int \<Rightarrow> auth_call \<Rightarrow> auth_db \<Rightarrow> string \<Rightarrow> bool" where
  "guesses_right en now c db u \<longleftrightarrow> (case checks now c db u of None \<Rightarrow> False | Some (r, pw) \<Rightarrow> password_ok en r pw)"

text \<open>From the time \<open>t0\<close> on, \<open>n\<close> passwords of the user were checked and none was right, whatever else was called.\<close>

inductive guessing :: "auth_env \<Rightarrow> string \<Rightarrow> int \<Rightarrow> auth_db \<Rightarrow> nat \<Rightarrow> int \<Rightarrow> auth_db \<Rightarrow> bool" for en u t0 db0 where
  none: "guessing en u t0 db0 0 t0 db0"
| wrong: "guessing en u t0 db0 n t db \<Longrightarrow> t \<le> now \<Longrightarrow> \<not> guesses_right en now c db u \<Longrightarrow>
    guessing en u t0 db0 (if checks now c db u = None then n else Suc n) now (perform en now c db)"

definition users_ok :: "auth_db \<Rightarrow> bool" where
  "users_ok db \<longleftrightarrow> keyed us_name (au_users db) \<and> (\<forall>r \<in> set (au_users db). 0 \<le> us_failed r)"

lemma verify_other: "v \<noteq> u \<Longrightarrow> user (fst (verify_user en now v pw db)) u = user db u"
  by (auto simp: verify_user_def settle_check_def user_def after_success_def after_failure_def update_user option.map_ident split: option.split)

lemma verify_unchecked: "checked_row now u db = None \<Longrightarrow> fst (verify_user en now u pw db) = db"
  by (simp add: verify_user_def)

lemma verify_wrong:
  "checked_row now u db = Some r \<Longrightarrow> \<not> password_ok en r pw \<Longrightarrow>
   user (fst (verify_user en now u pw db)) u = map_option (\<lambda>s. s\<lparr>us_failed := us_failed r + 1,
     us_locked := if LOCKOUT_FAILURES \<le> us_failed r + 1 then Some (now + LOCKOUT_SECONDS) else None, us_updated := now\<rparr>) (user db u)"
  by (simp add: verify_user_def settle_check_def user_def after_failure_def update_user)

lemma login_unlimited:
  assumes "length (recent_attempts now ip db) < LOGIN_LIMIT"
  shows "user (fst (login_submit en now token csrf ip u pw db)) v = user (fst (verify_user en now u pw db)) v"
proof -
  obtain db1 o1 where v: "verify_user en now u pw db = (db1, o1)" by fastforce
  show ?thesis
  proof (cases o1)
    case None
    with assms v show ?thesis by (simp add: login_submit_def Let_def)
  next
    case (Some role)
    obtain db2 res where c: "create_session en now token csrf SESSION_TTL_SECONDS u role (db1\<lparr>au_attempts := AList.delete ip (au_attempts db1)\<rparr>) = (db2, res)" by fastforce
    have "au_users db2 = au_users db1" using create_session_users[of en now token csrf SESSION_TTL_SECONDS u role "db1\<lparr>au_attempts := AList.delete ip (au_attempts db1)\<rparr>"] c by simp
    with assms v Some c show ?thesis
      using record_audit_parts(1)[of en now "login_event u ip role" db2] by (cases res) (auto simp: login_submit_def Let_def user_def split: prod.split)
  qed
qed

lemma login_limited: "\<not> length (recent_attempts now ip db) < LOGIN_LIMIT \<Longrightarrow> fst (login_submit en now token csrf ip u pw db) = db"
  by (simp add: login_submit_def)


lemma unguessed:
  assumes "checks now c db u = None" "user db u = Some r"
  shows "\<exists>s. user (perform en now c db) u = Some s \<and> us_failed s = us_failed r \<and> us_locked s = us_locked r"
proof (cases c)
  case (Create_User salt n pw role)
  with assms(2) show ?thesis by (auto simp: user_def create_user_users upserted_user)
next
  case (Disable_User n)
  with assms(2) show ?thesis by (auto simp: user_def disable_user_parts disabled_def update_user)
next
  case (Verify n pw)
  with assms show ?thesis by (cases "n = u") (auto simp: checks_def verify_other verify_unchecked split: if_splits)
next
  case (Login ip n pw token csrf)
  show ?thesis
  proof (cases "length (recent_attempts now ip db) < LOGIN_LIMIT")
    case True
    with assms Login show ?thesis by (cases "n = u") (auto simp: checks_def login_unlimited verify_other verify_unchecked)
  next
    case False
    with assms(2) Login show ?thesis by (simp add: login_limited)
  qed
next
  case (Logout cookies)
  with assms(2) parse_session_users[of en now cookies db] show ?thesis
    by (auto simp: user_def logout_def destroy_session_def unlink_def split: prod.splits option.splits)
qed (use assms(2) in \<open>simp_all add: user_def create_session_users parse_session_users destroy_session_def unlink_def cleanup_sessions_def\<close>)

lemma guessed_wrong:
  assumes "checks now c db u = Some (r, pw)" "\<not> password_ok en r pw" "keyed us_name (au_users db)"
  shows "user db u = Some r \<and> \<not> locked now r \<and> (\<exists>s. user (perform en now c db) u = Some s \<and> us_failed s = us_failed r + 1
    \<and> us_locked s = (if LOCKOUT_FAILURES \<le> us_failed r + 1 then Some (now + LOCKOUT_SECONDS) else None))"
proof -
  have r: "checked_row now u db = Some r" using assms(1) by (auto simp: checks_def split: auth_call.splits if_splits)
  have "user (perform en now c db) u = user (fst (verify_user en now u pw db)) u"
    using assms(1) by (auto simp: checks_def login_unlimited split: auth_call.splits if_splits)
  with checked_user[OF assms(3) r] verify_wrong[OF r assms(2)] show ?thesis by simp
qed

lemma new_user_unlocked: "user db u = None \<Longrightarrow> user (perform en now c db) u = Some s \<Longrightarrow> us_failed s = 0"
proof (cases c)
  case (Create_User salt n pw role)
  then show "user db u = None \<Longrightarrow> user (perform en now c db) u = Some s \<Longrightarrow> ?thesis" by (auto simp: user_def create_user_users upserted_user split: if_splits)
next
  case (Login ip n pw token csrf)
  show "user db u = None \<Longrightarrow> user (perform en now c db) u = Some s \<Longrightarrow> ?thesis"
    using login_cases[of en now token csrf ip n pw db]
    by cases (use Login verify_user_none[of db u en now n pw] in \<open>auto simp: user_def create_session_users\<close>)
next
  case (Logout cookies)
  then show "user db u = None \<Longrightarrow> user (perform en now c db) u = Some s \<Longrightarrow> ?thesis"
    using parse_session_users[of en now cookies db] by (auto simp: user_def logout_def destroy_session_def unlink_def split: prod.splits option.splits)
qed (auto simp: user_def disable_user_parts disabled_def update_user create_session_users parse_session_users destroy_session_def unlink_def cleanup_sessions_def
    verify_user_none[unfolded user_def])

text \<open>After \<open>n\<close> wrong guesses the count has grown by as much, and from the fifth on the account is locked for a while after each.\<close>

definition slowed :: "string \<Rightarrow> int \<Rightarrow> nat \<Rightarrow> int \<Rightarrow> auth_db \<Rightarrow> bool" where
  "slowed u t0 n t db \<longleftrightarrow> keyed us_name (au_users db) \<and> t0 \<le> t \<and> (\<forall>r. user db u = Some r \<longrightarrow> int n \<le> us_failed r) \<and> (0 < n \<longrightarrow> user db u \<noteq> None)
     \<and> (5 \<le> n \<longrightarrow> (int n - 5) * LOCKOUT_SECONDS \<le> t - t0 \<and> (\<exists>r l. user db u = Some r \<and> us_locked r = Some l \<and> t0 + (int n - 4) * LOCKOUT_SECONDS \<le> l))"

lemma guessing_slowed:
  assumes "guessing en u t0 db0 n t db" "users_ok db0"
  shows "slowed u t0 n t db"
  using assms(1)
proof (induction rule: guessing.induct)
  case none
  have "0 \<le> us_failed r" if "user db0 u = Some r" for r
    using that assms(2) select_one_Some[of "named u" "au_users db0" r] by (auto simp: user_def users_ok_def)
  with assms(2) show ?case by (simp add: slowed_def users_ok_def)
next
  case (wrong n t db now c)
  let ?db = "perform en now c db"
  have k: "keyed us_name (au_users db)" "keyed us_name (au_users ?db)" using wrong.IH perform_keyed by (auto simp: slowed_def)
  show ?case
  proof (cases "checks now c db u")
    case None
    have *: "slowed u t0 n now ?db"
    proof (cases "user db u")
      case (Some r)
      with unguessed[OF None Some, of en] wrong.IH wrong.hyps(2) k(2) show ?thesis unfolding slowed_def by fastforce
    next
      case no: None
      with wrong.IH have "n = 0" by (auto simp: slowed_def)
      moreover have "0 \<le> us_failed s" if "user ?db u = Some s" for s using new_user_unlocked[OF no that] by simp
      ultimately show ?thesis using wrong.IH wrong.hyps(2) k(2) unfolding slowed_def by auto
    qed
    with None show ?thesis by simp
  next
    case (Some rp)
    obtain r pw where rp: "rp = (r, pw)" by fastforce
    with wrong.hyps(3) Some have "\<not> password_ok en r pw" by (simp add: guesses_right_def)
    from guessed_wrong[OF Some[unfolded rp] this k(1)] obtain s where s: "user db u = Some r" "\<not> locked now r" "user ?db u = Some s" "us_failed s = us_failed r + 1"
      "us_locked s = (if LOCKOUT_FAILURES \<le> us_failed r + 1 then Some (now + LOCKOUT_SECONDS) else None)" by blast
    have n: "int n \<le> us_failed r" "t0 \<le> t" using wrong.IH s(1) by (auto simp: slowed_def)
    have late: "(int n - 4) * LOCKOUT_SECONDS \<le> now - t0" if "4 \<le> n"
    proof (cases "5 \<le> n")
      case True
      with wrong.IH s(1) obtain l where "us_locked r = Some l" "t0 + (int n - 4) * LOCKOUT_SECONDS \<le> l" by (auto simp: slowed_def)
      with s(2) show ?thesis by (simp add: locked_def)
    next
      case False
      with that have "n = 4" by simp
      with n(2) wrong.hyps(2) show ?thesis by simp
    qed
    have "slowed u t0 (Suc n) now ?db"
      unfolding slowed_def
    proof (intro conjI impI k(2) allI)
      show "t0 \<le> now" using n(2) wrong.hyps(2) by simp
      show "int (Suc n) \<le> us_failed r'" if "user ?db u = Some r'" for r' using that s(3,4) n(1) by simp
      show "user ?db u \<noteq> None" using s(3) by simp
    next
      assume five: "5 \<le> Suc n"
      then have four: "4 \<le> n" by simp
      show "(int (Suc n) - 5) * LOCKOUT_SECONDS \<le> now - t0" using late[OF four] by simp
      have "us_locked s = Some (now + LOCKOUT_SECONDS)" using s(5) n(1) four by (simp add: LOCKOUT_FAILURES_def)
      moreover have "t0 + (int (Suc n) - 4) * LOCKOUT_SECONDS \<le> now + LOCKOUT_SECONDS" using late[OF four] by (simp add: algebra_simps)
      ultimately show "\<exists>r l. user ?db u = Some r \<and> us_locked r = Some l \<and> t0 + (int (Suc n) - 4) * LOCKOUT_SECONDS \<le> l" using s(3) by blast
    qed
    with Some show ?thesis by simp
  qed
qed

text \<open>C23: as long as no guess is right, at most five passwords of a user are checked and one more in each quarter of an hour,
  however the guesses are spread over addresses and whatever else happens, provided that the calls do not overlap.\<close>

theorem guessing_is_slow:
  assumes "guessing en u t0 db0 n t db" "users_ok db0"
  shows "int n \<le> 5 + (t - t0) div LOCKOUT_SECONDS"
proof (cases "5 \<le> n")
  case True
  with guessing_slowed[OF assms] have "(int n - 5) * LOCKOUT_SECONDS \<le> t - t0" by (simp add: slowed_def)
  then have "(int n - 5) * LOCKOUT_SECONDS div LOCKOUT_SECONDS \<le> (t - t0) div LOCKOUT_SECONDS" by (rule zdiv_mono1) (simp add: LOCKOUT_SECONDS_def)
  then show ?thesis by (simp add: LOCKOUT_SECONDS_def)
next
  case False
  have "0 \<le> (t - t0) div LOCKOUT_SECONDS" using guessing_slowed[OF assms] by (simp add: slowed_def LOCKOUT_SECONDS_def pos_imp_zdiv_nonneg_iff)
  with False show ?thesis by simp
qed

text \<open>Calls that overlap are not slowed down: each writes the count it has read, so checks that read the same row count as one.\<close>

lemma overlapping_failures_count_once:
  assumes "\<not> password_ok en r pw" "user db u = Some r" "us_failed r = 0"
  shows "\<exists>s. user (((\<lambda>db. fst (settle_check en now u pw r db)) ^^ Suc n) db) u = Some s \<and> us_failed s = 1 \<and> us_locked s = None"
proof -
  have one: "user (fst (settle_check en now u pw r d)) u = map_option (\<lambda>s. s\<lparr>us_failed := 1, us_locked := None, us_updated := now\<rparr>) (user d u)" for d
    using assms(1,3) by (simp add: settle_check_def user_def after_failure_def update_user LOCKOUT_FAILURES_def)
  show ?thesis
  proof (induction n)
    case 0
    show ?case using one[of db] assms(2) by simp
  next
    case (Suc n)
    let ?f = "\<lambda>db. fst (settle_check en now u pw r db)"
    from Suc obtain s where "user ((?f ^^ Suc n) db) u = Some s" by blast
    moreover have "(?f ^^ Suc (Suc n)) db = ?f ((?f ^^ Suc n) db)" by simp
    ultimately show ?case using one[of "(?f ^^ Suc n) db"] by simp
  qed
qed


section \<open>Examples\<close>

definition demo_en :: auth_env where
  "demo_en = \<lparr>en_kdf = (\<lambda>p s n. p), en_sha = (\<lambda>s. s), en_float = (\<lambda>_. ''''), en_mirror = (\<lambda>_. True), en_iso = (\<lambda>_. ''t'')\<rparr>"

definition demo_start :: auth_db where
  "demo_start = \<lparr>au_users = [], au_files = [], au_audit = \<lparr>log = [], chain = [], audit_seq = 0, in_tx = False, depth = 0, pending = [], mirror = []\<rparr>, au_attempts = []\<rparr>"

definition demo_row :: user_row where
  "demo_row = \<lparr>us_name = ''bob'', us_salt = urlsafe_encode ''salt'', us_hash = urlsafe_encode (utf8 ''0123456789''), us_iterations = DEFAULT_ITERATIONS,
     us_role = ''viewer'', us_enabled = True, us_epoch = 1, us_created = 1, us_updated = 1, us_login = None, us_failed = 0, us_locked = None\<rparr>"

definition demo_db :: auth_db where
  "demo_db = demo_start\<lparr>au_users := [demo_row]\<rparr>"

definition demo_jar :: "(string \<times> string) list option" where
  "demo_jar = Some [(''recon_session'', ''T'')]"

lemma demo_password: "password_ok demo_en demo_row pw = (utf8 pw = utf8 ''0123456789'')"
  by (simp add: password_ok_def verify_password_def demo_row_def demo_en_def urlsafe_round_trip)

lemma demo_lookup: "select_one (named ''bob'') [demo_row] = Some demo_row" "checked_row now ''bob'' demo_db = Some demo_row"
  by (simp_all add: select_one_def named_def demo_row_def checked_row_def demo_db_def locked_def)

definition demo_created :: auth_db where
  "demo_created = perform demo_en 1 (Create_User ''salt'' ''bob'' ''0123456789'' ''viewer'') demo_start"

lemma demo_created_parts: "au_users demo_created = [demo_row]" "au_files demo_created = []"
proof -
  have e: "user_error (py_strip ''bob'') (py_lower (py_strip ''viewer'')) = None" "py_strip ''bob'' = ''bob''" "py_lower (py_strip ''viewer'') = ''viewer''" by code_simp+
  then show "au_users demo_created = [demo_row]"
    by (simp add: demo_created_def create_user_users upserted_def upsert_def demo_start_def demo_row_def demo_en_def)
  show "au_files demo_created = []" by (simp add: demo_created_def create_user_files demo_start_def)
qed

lemma demo_row_parts: "us_enabled demo_row" "us_role demo_row = ''viewer''" "role_of demo_row = ''viewer''" "epoch_of demo_row = 1"
  by (simp_all add: demo_row_def role_of_def epoch_of_def)

lemma demo_path: "session_path demo_en token = token"
  by (simp add: session_path_def demo_en_def)

theorem session_goes_back_to_a_login_witness:
  "\<exists>h db db' s. history demo_en h db \<and> parse_session demo_en 9 demo_jar db = (db', Some s) \<and> se_user s = ''bob'' \<and> length h = 2
     \<and> (\<exists>r. user db ''bob'' = Some r \<and> us_enabled r)"
proof -
  let ?db = "perform demo_en 5 (Issue ''bob'' '''' 10 ''T'' ''C'') demo_created"
  have h: "history demo_en [(5, Issue ''bob'' '''' 10 ''T'' ''C''), (1, Create_User ''salt'' ''bob'' ''0123456789'' ''viewer'')] ?db"
    unfolding demo_created_def by (intro history.more history.start) (auto simp: demo_start_def)
  have d: "?db = demo_created\<lparr>au_files := [(''T'', Some \<lparr>sf_user = ''bob'', sf_role = ''viewer'', sf_epoch = 1, sf_csrf = ''C'', sf_expires = 15, sf_created = 5\<rparr>)]\<rparr>"
    by (simp add: create_session_def demo_created_parts demo_lookup demo_row_parts demo_path)
  have p: "parse_session demo_en 9 demo_jar ?db = (?db, Some \<lparr>se_user = ''bob'', se_role = ''viewer'', se_csrf = ''C'', se_expires = 15, se_token = ''T''\<rparr>)"
    unfolding d by (simp add: parse_session_def Let_def demo_jar_def demo_path still_valid_def demo_created_parts demo_lookup demo_row_parts)
  from session_goes_back_to_a_login[OF h p] have "\<exists>r. user ?db ''bob'' = Some r \<and> us_enabled r" by auto
  moreover have "\<exists>db' s. parse_session demo_en 9 demo_jar ?db = (db', Some s) \<and> se_user s = ''bob''" using p by simp
  ultimately show ?thesis using h by (metis length_Cons list.size(3) numeral_2_eq_2)
qed

theorem sign_in_is_earned_and_lasts_witness:
  "\<exists>db' s cookie. login_submit demo_en 5 ''T'' ''C'' ''ip'' ''bob'' ''0123456789'' demo_db = (db', Signed_In s cookie)
     \<and> parse_session demo_en 6 demo_jar db' = (db', Some s)"
proof -
  let ?r = "demo_row\<lparr>us_failed := 0, us_locked := None, us_login := Some 5, us_updated := 5\<rparr>"
  have ok: "snd (audit (\<lambda>s. s) (\<lambda>_. '''') (\<lambda>_. True) ''t'' (login_event ''bob'' ''ip'' ''viewer'') (au_audit demo_start))" by code_simp
  have v: "verify_user demo_en 5 ''bob'' ''0123456789'' demo_db = (demo_start\<lparr>au_users := [?r]\<rparr>, Some ''viewer'')"
    by (simp add: verify_user_def settle_check_def demo_lookup demo_password demo_row_parts after_success_def) (simp add: demo_db_def demo_row_def named_def)
  have q: "select_one (named ''bob'') [?r] = Some ?r" "us_enabled ?r" "role_of ?r = ''viewer''" "epoch_of ?r = 1"
    by (simp_all add: select_one_def named_def demo_row_def role_of_def epoch_of_def)
  have "recent_attempts 5 ''ip'' demo_db = []" "au_attempts demo_start = []" by (simp_all add: recent_attempts_def demo_db_def demo_start_def)
  moreover have a: "\<exists>db3. record_audit demo_en 5 (login_event ''bob'' ''ip'' ''viewer'') db2 = (db3, True)" if "au_audit db2 = au_audit demo_start" for db2
    using ok that by (auto simp: record_audit_def demo_en_def split: prod.split)
  obtain db2 s where c: "create_session demo_en 5 ''T'' ''C'' SESSION_TTL_SECONDS ''bob'' ''viewer'' (demo_start\<lparr>au_users := [?r], au_attempts := []\<rparr>) = (db2, Inr s)"
    "au_audit db2 = au_audit demo_start" "6 \<le> se_expires s" by (auto simp: create_session_def q SESSION_TTL_SECONDS_def)
  moreover obtain db3 where "record_audit demo_en 5 (login_event ''bob'' ''ip'' ''viewer'') db2 = (db3, True)" using a[OF c(2)] by blast
  ultimately have "\<exists>db' s cookie. login_submit demo_en 5 ''T'' ''C'' ''ip'' ''bob'' ''0123456789'' demo_db = (db', Signed_In s cookie) \<and> 6 \<le> se_expires s"
    by (simp add: login_submit_def LOGIN_LIMIT_def v)
  then obtain db' s cookie where l: "login_submit demo_en 5 ''T'' ''C'' ''ip'' ''bob'' ''0123456789'' demo_db = (db', Signed_In s cookie)"
    "6 \<le> se_expires s" by blast
  have "map_of [(''recon_session'', ''T'')] ''recon_session'' = Some ''T''" by simp
  from sign_in_is_earned_and_lasts[OF l(1) this l(2)] l(1) show ?thesis by (auto simp: demo_jar_def)
qed

theorem guessing_is_slow_witness:
  "\<exists>db. guessing demo_en ''bob'' 6 demo_db 1 7 db \<and> int 1 \<le> 5 + (7 - 6) div LOCKOUT_SECONDS"
proof -
  have "utf8 ''wrong'' \<noteq> utf8 ''0123456789''" by code_simp
  then have c: "checks 7 (Verify ''bob'' ''wrong'') demo_db ''bob'' \<noteq> None" "\<not> guesses_right demo_en 7 (Verify ''bob'' ''wrong'') demo_db ''bob''"
    by (simp_all add: checks_def guesses_right_def demo_lookup demo_password)
  have ok: "users_ok demo_db" by (simp add: users_ok_def keyed_def demo_db_def demo_row_def)
  from guessing.wrong[OF guessing.none, of 6 7 demo_en "Verify ''bob'' ''wrong''" demo_db "''bob''"] c
  have g: "guessing demo_en ''bob'' 6 demo_db 1 7 (perform demo_en 7 (Verify ''bob'' ''wrong'') demo_db)" by simp
  from guessing_is_slow[OF g ok] g show ?thesis by blast
qed

end
