(* ===== verification/Api_Access.thy ===== *)
theory Api_Access
  imports User_Sessions
begin

text \<open>
  Tokens of the API: roles, scopes, \<open>create_token\<close>, \<open>authenticate\<close> and \<open>APIHandler.auth\<close> of
  \<open>src/app/api_server_core.py\<close>, and the revocation of \<open>src/app/recon_monitor_core.py\<close>.

  The column \<open>scopes_json\<close> holds JSON text.  Times are seconds, also where the code compares texts; a token that the code draws
  at random is an argument.
\<close>

section \<open>Roles and scopes\<close>

definition API_SCOPES :: "string list" where
  "API_SCOPES = [''read'', ''write'', ''validation'', ''operations'', ''admin'', ''worker'']"

definition ROLE_ALLOWED_SCOPES :: "(string \<times> string list) list" where
  "ROLE_ALLOWED_SCOPES =
     [(''viewer'', [''read'']), (''analyst'', [''read'', ''write'', ''validation'']),
      (''lead_analyst'', [''read'', ''write'', ''validation'', ''operations'']), (''admin'', API_SCOPES), (''worker'', [''worker''])]"

definition ROLE_DEFAULT_SCOPES :: "(string \<times> string list) list" where
  "ROLE_DEFAULT_SCOPES =
     [(''viewer'', [''read'']), (''analyst'', [''read'', ''write'']), (''lead_analyst'', [''read'', ''write'', ''validation'', ''operations'']),
      (''admin'', [''read'', ''write'', ''validation'', ''operations'', ''admin'', ''worker'']), (''worker'', [''worker''])]"

definition OPERATIONS_POST_PATHS :: "string list" where
  "OPERATIONS_POST_PATHS = map (\<lambda>s. ''/api/v1/suite/'' @ s)
     [''revalidation'', ''revalidation-process'', ''scheduled-run'', ''schedule-sync'', ''notification-deliver'', ''security-posture'',
      ''retention-policy'', ''retention-preview'', ''retention-apply'', ''template-apply'']"

definition role_allows :: "string \<Rightarrow> string \<Rightarrow> bool" where
  "role_allows role required \<longleftrightarrow>
     (if required = ''worker'' then role \<in> {''worker'', ''admin''}
      else if role = ''worker'' then False
      else level_of required 999 \<le> level_of role 0)"

definition worker_path :: "string \<Rightarrow> bool" where
  "worker_path path \<longleftrightarrow> startswith path ''/api/v1/work/'' \<or> startswith path ''/api/v1/workers/''"

definition request_scope :: "string \<Rightarrow> string \<Rightarrow> string" where
  "request_scope meth path =
     (if worker_path path then ''worker''
      else if meth = ''POST'' \<and> startswith path ''/api/v1/validation/'' then ''validation''
      else if meth = ''POST'' \<and> path \<in> set OPERATIONS_POST_PATHS then ''operations''
      else if meth = ''GET'' then ''read'' else ''write'')"

section \<open>Tokens\<close>

record token_row =
  tk_id :: nat
  tk_name :: string
  tk_hash :: string
  tk_role :: string
  tk_scopes :: string
  tk_expires :: "int option"
  tk_created :: int
  tk_last :: "int option"
  tk_revoked :: "int option"

record api_db =
  ap_tokens :: "token_row list"
  ap_seq :: nat
  ap_audit :: audit_db

definition bearer_token :: "string \<Rightarrow> string option" where
  "bearer_token hdr = (if startswith hdr ''Bearer '' then Some (py_strip (drop 7 hdr)) else None)"

definition bearer_token_hash :: "auth_env \<Rightarrow> string \<Rightarrow> string" where
  "bearer_token_hash en hdr = (case bearer_token hdr of None \<Rightarrow> '''' | Some t \<Rightarrow> if t = '''' then '''' else en_sha en t)"

definition wanted_scopes :: "string \<Rightarrow> string list option \<Rightarrow> string list" where
  "wanted_scopes role scopes =
     (let dflt = (case map_of ROLE_DEFAULT_SCOPES role of None \<Rightarrow> [] | Some d \<Rightarrow> d);
          requested = map (\<lambda>s. py_lower (py_strip s)) (filter (\<lambda>s. py_strip s \<noteq> '''') (case scopes of None \<Rightarrow> dflt | Some ss \<Rightarrow> ss))
      in if requested = [] then dflt else requested)"

definition token_error :: "string \<Rightarrow> string list \<Rightarrow> string option" where
  "token_error role requested =
     (case map_of ROLE_ALLOWED_SCOPES role of
        None \<Rightarrow> Some ''Invalid API role''
      | Some granted \<Rightarrow>
          if \<not> set requested \<subseteq> set API_SCOPES then Some ''Invalid API token scope''
          else if \<not> set requested \<subseteq> set granted then Some ''API token scope exceeds the selected role'' else None)"

definition lifetime :: "int \<Rightarrow> int" where
  "lifetime days = max 1 (min 3650 days) * 86400"

definition token_event :: "string \<Rightarrow> string \<Rightarrow> string list \<Rightarrow> string \<Rightarrow> audit_event" where
  "token_event name role scopes expires =
     \<lparr>ev_actor = ''system'', ev_action = ''api_token_created'', ev_target = '''', ev_type = ''api_token'', ev_value = name,
      ev_details = [(''role'', JText role), (''scopes'', JList (map JText scopes)), (''expires_at'', JText expires)]\<rparr>"

text \<open>The insertion fails when a token with the same hash exists, because the column is unique.\<close>

definition create_token :: "auth_env \<Rightarrow> int \<Rightarrow> string \<Rightarrow> string \<Rightarrow> string \<Rightarrow> string list option \<Rightarrow> int \<Rightarrow> api_db \<Rightarrow> api_db \<times> (string + string)" where
  "create_token en now token name role scopes days db =
     (let wanted = wanted_scopes role scopes
      in case token_error role wanted of
           Some e \<Rightarrow> (db, Inl e)
         | None \<Rightarrow>
             (let requested = dedup wanted; expires = now + lifetime days
              in if list_ex (\<lambda>r. tk_hash r = en_sha en token) (ap_tokens db) then (db, Inl ''IntegrityError'')
                 else
                   (let r = \<lparr>tk_id = Suc (ap_seq db), tk_name = name, tk_hash = en_sha en token, tk_role = role,
                          tk_scopes = json_dumps (en_float en) (JList (map JText requested)), tk_expires = Some expires, tk_created = now,
                          tk_last = None, tk_revoked = None\<rparr>;
                        db' = db\<lparr>ap_tokens := ap_tokens db @ [r], ap_seq := Suc (ap_seq db)\<rparr>
                    in case audit (en_sha en) (en_float en) (en_mirror en) (en_iso en now) (token_event name role requested (en_iso en expires)) (ap_audit db') of
                         (a, ok) \<Rightarrow> (db'\<lparr>ap_audit := a\<rparr>, if ok then Inr token else Inl ''audit''))))"

definition revoke_token :: "int \<Rightarrow> nat \<Rightarrow> api_db \<Rightarrow> api_db" where
  "revoke_token now i db = (if i = 0 then db else db\<lparr>ap_tokens := update_where (\<lambda>r. tk_id r = i) (\<lambda>r. r\<lparr>tk_revoked := Some now\<rparr>) (ap_tokens db)\<rparr>)"

definition expired_token :: "int \<Rightarrow> token_row \<Rightarrow> bool" where
  "expired_token now r \<longleftrightarrow> (case tk_expires r of None \<Rightarrow> False | Some t \<Rightarrow> t \<le> now)"

definition scope_set :: "string \<Rightarrow> string list" where
  "scope_set stored = (case safe_json_loads (JText stored) (JList []) (Some List_Kind) of JList vs \<Rightarrow> map (py_str (\<lambda>_. '''')) vs | _ \<Rightarrow> [])"

definition authenticate :: "auth_env \<Rightarrow> int \<Rightarrow> string \<Rightarrow> api_db \<Rightarrow> api_db \<times> (string \<times> string \<times> string list) option" where
  "authenticate en now hdr db =
     (case bearer_token hdr of
        None \<Rightarrow> (db, None)
      | Some t \<Rightarrow>
          (case select_one (\<lambda>r. tk_hash r = en_sha en t \<and> tk_revoked r = None) (ap_tokens db) of
             None \<Rightarrow> (db, None)
           | Some r \<Rightarrow>
               if expired_token now r then (db, None)
               else (db\<lparr>ap_tokens := update_where (\<lambda>q. tk_id q = tk_id r) (\<lambda>q. q\<lparr>tk_last := Some now\<rparr>) (ap_tokens db)\<rparr>,
                     Some (tk_name r, tk_role r, scope_set (tk_scopes r)))))"

text \<open>\<open>APIHandler.auth\<close>: the name and role of the caller and the hash of the token, or the answer 401.\<close>

definition api_auth :: "auth_env \<Rightarrow> int \<Rightarrow> string \<Rightarrow> string \<Rightarrow> string \<Rightarrow> string \<Rightarrow> api_db \<Rightarrow> api_db \<times> (string \<times> string \<times> string) option" where
  "api_auth en now meth path required hdr db =
     (case authenticate en now hdr db of
        (db', None) \<Rightarrow> (db', None)
      | (db', Some (name, role, scopes)) \<Rightarrow>
          (let scope = request_scope meth path;
               scope_ok = (scope \<in> set scopes \<or> role = ''admin'' \<and> ''admin'' \<in> set scopes)
           in (db', if role_allows role required \<and> scope_ok then Some (name, role, bearer_token_hash en hdr) else None)))"

text \<open>The role that a request needs, from the first lines of \<open>do_GET\<close> and \<open>do_POST\<close>.\<close>

definition required_role :: "string \<Rightarrow> string \<Rightarrow> string" where
  "required_role meth path = (if meth = ''GET'' then ''viewer'' else if worker_path path then ''worker'' else ''analyst'')"

definition handle_request :: "auth_env \<Rightarrow> int \<Rightarrow> string \<Rightarrow> string \<Rightarrow> string \<Rightarrow> api_db \<Rightarrow> api_db \<times> (string \<times> string \<times> string) option" where
  "handle_request en now meth path hdr db = api_auth en now meth path (required_role meth path) hdr db"

section \<open>Histories\<close>

datatype api_call =
    Make_Token string string string "string list option" int
  | Revoke_Token nat
  | Api_Request string string string

fun api_step :: "auth_env \<Rightarrow> int \<Rightarrow> api_call \<Rightarrow> api_db \<Rightarrow> api_db" where
  "api_step en now (Make_Token token name role scopes days) db = fst (create_token en now token name role scopes days db)"
| "api_step en now (Revoke_Token i) db = revoke_token now i db"
| "api_step en now (Api_Request meth path hdr) db = fst (handle_request en now meth path hdr db)"

inductive api_history :: "auth_env \<Rightarrow> (int \<times> api_call) list \<Rightarrow> api_db \<Rightarrow> bool" for en where
  api_start: "ap_tokens db = [] \<Longrightarrow> api_history en [] db"
| api_more: "api_history en h db \<Longrightarrow> \<forall>(t, c) \<in> set h. t \<le> now \<Longrightarrow> api_history en ((now, c) # h) (api_step en now c db)"

end
