(* ===== verification/Api_Access_Facts.thy ===== *)
theory Api_Access_Facts
  imports Api_Access
begin

text \<open>
  Every request that the API lets through is covered by a token that was made for it, whatever else was made, revoked or asked before.
\<close>

section \<open>Stored scopes\<close>

lemma scope_set_dumps: "scope_set (json_dumps fr (JList (map JText ss))) = ss"
proof -
  have s: "sorted_keys (JList (map JText ss)) = JList (map JText ss)" by (induction ss) simp_all
  have "json_ok (JList (map JText ss))" by (simp add: list_all_iff)
  from loads_dumps[OF this, of fr "JList []"] have "safe_json_loads (JText (json_dumps fr (JList (map JText ss)))) (JList []) (Some List_Kind) = JList (map JText ss)"
    unfolding s by simp
  then show ?thesis by (simp add: scope_set_def comp_def py_str_def)
qed

section \<open>The tokens after a call\<close>

definition same_token :: "token_row \<Rightarrow> token_row \<Rightarrow> bool" where
  "same_token r s \<longleftrightarrow> tk_id r = tk_id s \<and> tk_name r = tk_name s \<and> tk_hash r = tk_hash s \<and> tk_role r = tk_role s \<and> tk_scopes r = tk_scopes s \<and> tk_expires r = tk_expires s"

definition made_by :: "auth_env \<Rightarrow> int \<Rightarrow> api_call \<Rightarrow> token_row \<Rightarrow> bool" where
  "made_by en t c r \<longleftrightarrow>
     (\<exists>token scopes days. c = Make_Token token (tk_name r) (tk_role r) scopes days \<and> tk_hash r = en_sha en token \<and> tk_expires r = Some (t + lifetime days)
        \<and> token_error (tk_role r) (wanted_scopes (tk_role r) scopes) = None
        \<and> tk_scopes r = json_dumps (en_float en) (JList (map JText (dedup (wanted_scopes (tk_role r) scopes)))))"

lemma made_same: "made_by en t c r \<Longrightarrow> same_token r s \<Longrightarrow> made_by en t c s"
  by (auto simp: made_by_def same_token_def)

lemma create_token_rows:
  "r \<in> set (ap_tokens (fst (create_token en now token name role scopes days db))) \<Longrightarrow>
   r \<in> set (ap_tokens db) \<or> made_by en now (Make_Token token name role scopes days) r \<and> tk_id r = Suc (ap_seq db)"
  by (auto simp: create_token_def Let_def made_by_def split: option.splits if_splits prod.splits)

lemma authenticate_rows:
  "r \<in> set (ap_tokens (fst (authenticate en now hdr db))) \<Longrightarrow> \<exists>s \<in> set (ap_tokens db). same_token s r \<and> tk_revoked s = tk_revoked r"
  by (auto simp: authenticate_def same_token_def set_update_where split: option.splits if_splits)

lemma api_step_rows:
  assumes "r \<in> set (ap_tokens (api_step en now c db))"
  obtains (new) "made_by en now c r" "tk_id r \<noteq> 0"
  | (old) s where "s \<in> set (ap_tokens db)" "same_token s r" "tk_revoked r = None \<longrightarrow> tk_revoked s = None \<and> (tk_id r \<noteq> 0 \<longrightarrow> c \<noteq> Revoke_Token (tk_id r))"
proof (cases c)
  case (Make_Token token name role scopes days)
  with assms create_token_rows[of r en now token name role scopes days db] consider "r \<in> set (ap_tokens db)" | "made_by en now c r" "tk_id r = Suc (ap_seq db)" by auto
  then show thesis by cases (use Make_Token in \<open>auto intro: new old[of r] simp: same_token_def\<close>)
next
  case (Revoke_Token i)
  with assms obtain s where "s \<in> set (ap_tokens db)" "r = (if i \<noteq> 0 \<and> tk_id s = i then s\<lparr>tk_revoked := Some now\<rparr> else s)"
    by (auto simp: revoke_token_def set_update_where split: if_splits)
  with Revoke_Token show thesis by (intro old[of s]) (auto simp: same_token_def split: if_splits)
next
  case (Api_Request meth path hdr)
  have "ap_tokens (api_step en now c db) = ap_tokens (fst (authenticate en now hdr db))"
    by (auto simp: Api_Request handle_request_def api_auth_def Let_def split: prod.split option.split)
  with assms authenticate_rows[of r en now hdr db] Api_Request show thesis by (auto intro: old)
qed

text \<open>The token goes back to the call that made it, and if it is not revoked then no later call revoked it.\<close>

definition token_traced :: "auth_env \<Rightarrow> (int \<times> api_call) list \<Rightarrow> token_row \<Rightarrow> bool" where
  "token_traced en h r \<longleftrightarrow> tk_id r \<noteq> 0 \<and>
     (\<exists>later t c earlier. h = later @ (t, c) # earlier \<and> made_by en t c r \<and> (tk_revoked r = None \<longrightarrow> (\<forall>(t', c') \<in> set later. c' \<noteq> Revoke_Token (tk_id r))))"

lemma api_history_traced: "api_history en h db \<Longrightarrow> \<forall>r \<in> set (ap_tokens db). token_traced en h r"
proof (induction rule: api_history.induct)
  case (api_more h db now c)
  show ?case
  proof
    fix r assume "r \<in> set (ap_tokens (api_step en now c db))"
    then show "token_traced en ((now, c) # h) r"
    proof (cases rule: api_step_rows)
      case new
      then show ?thesis unfolding token_traced_def by (intro conjI exI[of _ "[]"] exI[of _ now] exI[of _ c] exI[of _ h]) simp_all
    next
      case (old s)
      with api_more.IH obtain later t c0 earlier where s: "tk_id s \<noteq> 0" "h = later @ (t, c0) # earlier" "made_by en t c0 s"
        "tk_revoked s = None \<longrightarrow> (\<forall>(t', c') \<in> set later. c' \<noteq> Revoke_Token (tk_id s))" unfolding token_traced_def by blast
      have i: "tk_id r = tk_id s" using old(2) by (simp add: same_token_def)
      have "tk_revoked r = None \<longrightarrow> (\<forall>(t', c') \<in> set ((now, c) # later). c' \<noteq> Revoke_Token (tk_id r))" using s(1,4) old(3) i by auto
      moreover have "(now, c) # h = ((now, c) # later) @ (t, c0) # earlier" using s(2) by simp
      ultimately show ?thesis unfolding token_traced_def using made_same[OF s(3) old(2)] s(1) i by metis
    qed
  qed
qed simp

section \<open>What a token may do\<close>

definition allowed_scopes :: "string \<Rightarrow> string list" where
  "allowed_scopes role = (case map_of ROLE_ALLOWED_SCOPES role of None \<Rightarrow> [] | Some ss \<Rightarrow> ss)"

lemma request_scope_known: "request_scope meth path \<in> set API_SCOPES"
  by (simp add: request_scope_def API_SCOPES_def)

lemma handled_request:
  assumes "api_history en h db" "handle_request en now meth path hdr db = (db', Some (name, role, digest))"
  shows "\<exists>later t token scopes days earlier i. h = later @ (t, Make_Token token name role scopes days) # earlier
      \<and> bearer_token hdr \<noteq> None \<and> en_sha en token = en_sha en (the (bearer_token hdr)) \<and> now < t + lifetime days
      \<and> (\<exists>r \<in> set (ap_tokens db). tk_id r = i \<and> tk_hash r = en_sha en token) \<and> (\<forall>(t', c') \<in> set later. c' \<noteq> Revoke_Token i)
      \<and> role_allows role (required_role meth path) \<and> request_scope meth path \<in> set (allowed_scopes role)
      \<and> (request_scope meth path \<in> set (wanted_scopes role scopes) \<or> role = ''admin'' \<and> ''admin'' \<in> set (wanted_scopes role scopes))"
proof -
  from assms(2) obtain scopes0 where a: "authenticate en now hdr db = (db', Some (name, role, scopes0))" "role_allows role (required_role meth path)"
    "request_scope meth path \<in> set scopes0 \<or> role = ''admin'' \<and> ''admin'' \<in> set scopes0"
    by (auto simp: handle_request_def api_auth_def Let_def split: prod.splits option.splits if_splits)
  from a(1) obtain token' r where r: "bearer_token hdr = Some token'" "select_one (\<lambda>r. tk_hash r = en_sha en token' \<and> tk_revoked r = None) (ap_tokens db) = Some r"
    "\<not> expired_token now r" "name = tk_name r" "role = tk_role r" "scopes0 = scope_set (tk_scopes r)"
    by (auto simp: authenticate_def split: option.splits if_splits)
  from select_one_Some[OF r(2)] have rr: "r \<in> set (ap_tokens db)" "tk_hash r = en_sha en token'" "tk_revoked r = None" by auto
  from api_history_traced[OF assms(1)] rr(1,3) obtain later t c earlier where h: "h = later @ (t, c) # earlier" "made_by en t c r"
    "\<forall>(t', c') \<in> set later. c' \<noteq> Revoke_Token (tk_id r)" unfolding token_traced_def by blast
  from h(2) obtain token scopes days where m: "c = Make_Token token name role scopes days" "tk_hash r = en_sha en token" "tk_expires r = Some (t + lifetime days)"
    "token_error role (wanted_scopes role scopes) = None" "tk_scopes r = json_dumps (en_float en) (JList (map JText (dedup (wanted_scopes role scopes))))"
    using r(4,5) by (auto simp: made_by_def)
  have s: "set scopes0 = set (wanted_scopes role scopes)" by (simp add: r(6) m(5) scope_set_dumps)
  have sub: "set (wanted_scopes role scopes) \<subseteq> set (allowed_scopes role)" using m(4) by (auto simp: token_error_def allowed_scopes_def split: option.splits if_splits)
  have "request_scope meth path \<in> set (allowed_scopes role)"
  proof (cases "role = ''admin''")
    case True
    have "allowed_scopes ''admin'' = API_SCOPES" by code_simp
    with True request_scope_known show ?thesis by simp
  next
    case False
    with a(3) s sub show ?thesis by auto
  qed
  moreover have "now < t + lifetime days" using r(3) m(3) by (simp add: expired_token_def)
  ultimately show ?thesis using h m(1,2) a(2,3) r(1) rr s by (intro exI[of _ later] exI[of _ t] exI[of _ token] exI[of _ scopes] exI[of _ days] exI[of _ earlier] exI[of _ "tk_id r"]) auto
qed

text \<open>C24: a request that the API lets through carries a token whose hash is that of a token made before under the name and role it
  acts with, which has not expired and was not revoked since; the role is high enough, and the scope of the request is one that the role
  allows and that the token was made for (or the token is an administrator's with the scope \<open>admin\<close>).\<close>

theorem api_request_is_covered:
  assumes "api_history en h db" "handle_request en now meth path hdr db = (db', Some (name, role, digest))"
  shows "\<exists>later t token scopes days earlier i. h = later @ (t, Make_Token token name role scopes days) # earlier
      \<and> bearer_token hdr \<noteq> None \<and> en_sha en token = en_sha en (the (bearer_token hdr)) \<and> now < t + lifetime days
      \<and> (\<exists>r \<in> set (ap_tokens db). tk_id r = i \<and> tk_hash r = en_sha en token) \<and> (\<forall>(t', c') \<in> set later. c' \<noteq> Revoke_Token i)
      \<and> role_allows role (required_role meth path) \<and> request_scope meth path \<in> set (allowed_scopes role)
      \<and> (request_scope meth path \<in> set (wanted_scopes role scopes) \<or> role = ''admin'' \<and> ''admin'' \<in> set (wanted_scopes role scopes))"
  by (rule handled_request[OF assms])

text \<open>The roles are confined: a worker's token reaches only the paths of workers, and these are closed to everyone but workers and
  administrators; a viewer's token only reads.\<close>

theorem api_roles_are_confined:
  assumes "api_history en h db" "handle_request en now meth path hdr db = (db', Some (name, role, digest))"
  shows "(role = ''worker'' \<longrightarrow> worker_path path \<and> meth \<noteq> ''GET'') \<and> (worker_path path \<longrightarrow> role = ''worker'' \<or> role = ''admin'') \<and> (role = ''viewer'' \<longrightarrow> meth = ''GET'')"
proof -
  from handled_request[OF assms] have h: "role_allows role (required_role meth path)" "request_scope meth path \<in> set (allowed_scopes role)" by blast+
  have r: "allowed_scopes ''viewer'' = [''read'']" by code_simp
  have w: "role \<in> {''worker'', ''admin''}" if "''worker'' \<in> set (allowed_scopes role)"
    using that by (auto simp: allowed_scopes_def ROLE_ALLOWED_SCOPES_def API_SCOPES_def split: if_splits)
  have "\<not> role_allows ''worker'' ''viewer''" "\<not> role_allows ''worker'' ''analyst''" by code_simp+
  then have "worker_path path \<and> meth \<noteq> ''GET''" if "role = ''worker''" using h(1) that by (auto simp: required_role_def split: if_splits)
  moreover have "role = ''worker'' \<or> role = ''admin''" if "worker_path path" using h(2) that w by (auto simp: request_scope_def)
  moreover have "meth = ''GET''" if "role = ''viewer''" using h(2) that r by (auto simp: request_scope_def split: if_splits)
  ultimately show ?thesis by blast
qed


section \<open>Examples\<close>

definition api_demo :: auth_env where
  "api_demo = \<lparr>en_kdf = (\<lambda>p s n. p), en_sha = (\<lambda>s. s), en_float = (\<lambda>_. ''''), en_mirror = (\<lambda>_. True), en_iso = (\<lambda>_. ''t'')\<rparr>"

definition api_empty :: api_db where
  "api_empty = \<lparr>ap_tokens = [], ap_seq = 0, ap_audit = \<lparr>log = [], chain = [], audit_seq = 0, in_tx = False, depth = 0, pending = [], mirror = []\<rparr>\<rparr>"

definition api_demo_db :: api_db where
  "api_demo_db = api_step api_demo 1 (Make_Token ''T'' ''n'' ''viewer'' None 1) api_empty"

lemma api_demo_history: "api_history api_demo [(1, Make_Token ''T'' ''n'' ''viewer'' None 1)] api_demo_db"
  unfolding api_demo_db_def by (intro api_more api_start) (auto simp: api_empty_def)

lemma api_demo_request: "\<exists>db' digest. handle_request api_demo 5 ''GET'' ''/x'' ''Bearer T'' api_demo_db = (db', Some (''n'', ''viewer'', digest))"
proof -
  have "case handle_request api_demo 5 ''GET'' ''/x'' ''Bearer T'' api_demo_db of (db', r) \<Rightarrow> (case r of Some (n, role, digest) \<Rightarrow> n = ''n'' \<and> role = ''viewer'' | None \<Rightarrow> False)"
    by code_simp
  then show ?thesis by (auto split: prod.splits option.splits)
qed

theorem api_request_is_covered_witness:
  "\<exists>db' digest. handle_request api_demo 5 ''GET'' ''/x'' ''Bearer T'' api_demo_db = (db', Some (''n'', ''viewer'', digest)) \<and> ''read'' \<in> set (allowed_scopes ''viewer'')"
proof -
  obtain db' digest where d: "handle_request api_demo 5 ''GET'' ''/x'' ''Bearer T'' api_demo_db = (db', Some (''n'', ''viewer'', digest))" using api_demo_request by blast
  have "request_scope ''GET'' ''/x'' = ''read''" by code_simp
  with api_request_is_covered[OF api_demo_history d] d show ?thesis by auto
qed

theorem api_roles_are_confined_witness:
  "\<exists>db' digest. handle_request api_demo 5 ''GET'' ''/x'' ''Bearer T'' api_demo_db = (db', Some (''n'', ''viewer'', digest)) \<and> \<not> worker_path ''/x''"
proof -
  obtain db' digest where d: "handle_request api_demo 5 ''GET'' ''/x'' ''Bearer T'' api_demo_db = (db', Some (''n'', ''viewer'', digest))" using api_demo_request by blast
  from api_roles_are_confined[OF api_demo_history d] d show ?thesis by auto
qed

end
