(* ===== verification/Dashboard_Auth_Facts.thy ===== *)
theory Dashboard_Auth_Facts
  imports Dashboard_Auth
begin

text \<open>
  What rewriting the configuration file does to the values read from it, and which credentials a configured dashboard accepts.
\<close>

section \<open>Reading a file line by line\<close>

text \<open>The lines of a text when every character that ends a line ends one: a carriage return with a line feed then makes an
  empty line, which sets nothing.\<close>

fun pieces :: "string \<Rightarrow> string \<Rightarrow> string list" where
  "pieces acc [] = [rev acc]"
| "pieces acc (c # s) = (if line_end c then rev acc # pieces [] s else pieces (c # acc) s)"

lemma line_end_space: "line_end c \<Longrightarrow> py_space c"
  by (auto simp: line_end_def py_space_def)

lemma strip_blank: "list_all py_space w \<Longrightarrow> py_strip w = []"
  by (auto simp: py_strip_def py_lstrip_def list_all_iff dest: set_dropWhileD)

lemma strip_snoc:
  assumes "list_all py_space w"
  shows "py_strip (s @ w) = py_strip s"
proof (cases "\<forall>x \<in> set s. py_space x")
  case True
  then have "list_all py_space s" by (simp add: list_all_iff)
  moreover from this assms have "list_all py_space (s @ w)" by (simp only: list_all_append)
  ultimately show ?thesis by (simp only: strip_blank)
next
  case False
  then have "dropWhile py_space (s @ w) = dropWhile py_space s @ w" by (auto simp: dropWhile_append)
  moreover have "dropWhile py_space (rev w @ t) = dropWhile py_space t" for t using assms by (simp add: dropWhile_append list_all_iff)
  ultimately show ?thesis by (simp add: py_strip_def py_lstrip_def)
qed

lemma env_line_strip: "py_strip a = py_strip b \<Longrightarrow> env_line m a = env_line m b"
  by (simp add: env_line_def)

lemma env_line_blank: "list_all py_space w \<Longrightarrow> env_line m w = m"
  by (simp add: env_line_def strip_blank)

lemma pieces_blank: "list_all py_space w \<Longrightarrow> foldl env_line m (pieces acc w) = env_line m (rev acc)"
proof (induction w arbitrary: acc m)
  case (Cons c w)
  have "env_line m (rev acc @ [c]) = env_line m (rev acc)" using Cons.prems by (intro env_line_strip strip_snoc) simp
  with Cons show ?case by (simp add: env_line_blank)
qed simp

lemma pieces_tail: "list_all py_space w \<Longrightarrow> foldl env_line m (pieces acc (t @ w)) = foldl env_line m (pieces acc t)"
  by (induction t arbitrary: acc m) (simp_all add: pieces_blank)

lemma splitlines_pieces: "foldl env_line m (splitlines_from acc s) = foldl env_line m (pieces acc s)"
proof (induction acc s arbitrary: m rule: splitlines_from.induct)
  case (1 acc)
  then show ?case by (simp add: env_line_blank)
next
  case (2 acc c)
  then show ?case using env_line_blank[of "[c]"] by (simp add: env_line_blank)
next
  case (3 acc c d s)
  have "line_end c \<and> line_end d" if "code c = 13 \<and> code d = 10" using that by (simp add: line_end_def)
  with 3 show ?case by (auto simp: env_line_blank)
qed

lemma pieces_line: "list_all (\<lambda>c. \<not> line_end c) l \<Longrightarrow> pieces acc (l @ CHR 10 # s) = (rev acc @ l) # pieces [] s"
  by (induction l arbitrary: acc) (simp_all add: line_end_def code_def)

lemma pieces_clean: "list_all (\<lambda>c. \<not> line_end c) l \<Longrightarrow> pieces acc l = [rev acc @ l]"
  by (induction l arbitrary: acc) simp_all

lemma pieces_join:
  "ls \<noteq> [] \<Longrightarrow> list_all (list_all (\<lambda>c. \<not> line_end c)) ls \<Longrightarrow> pieces [] (py_join newline ls) = ls"
  by (induction newline ls rule: py_join.induct) (simp_all add: pieces_line pieces_clean newline_def)

lemma parse_lines:
  assumes "list_all (list_all (\<lambda>c. \<not> line_end c)) ls"
  shows "parse_env_file (Some (py_rstrip (py_join newline ls) @ newline)) = foldl env_line [] ls"
proof -
  let ?s = "py_join newline ls"
  have w: "list_all py_space newline" by (simp add: newline_def py_space_def code_def)
  have "?s = py_rstrip ?s @ rev (takeWhile py_space (rev ?s))"
    unfolding py_rstrip_def py_lstrip_def by (metis rev_append rev_rev_ident takeWhile_dropWhile_id)
  moreover have "list_all py_space (rev (takeWhile py_space (rev ?s)))" by (auto simp: list_all_iff dest: set_takeWhileD)
  ultimately have "foldl env_line [] (pieces [] ?s) = foldl env_line [] (pieces [] (py_rstrip ?s))" by (metis pieces_tail)
  moreover have "foldl env_line [] (pieces [] (py_rstrip ?s @ newline)) = foldl env_line [] (pieces [] (py_rstrip ?s))" by (rule pieces_tail[OF w])
  moreover have "foldl env_line [] (pieces [] ?s) = foldl env_line [] ls"
    by (cases "ls = []") (simp_all add: env_line_blank pieces_join[OF _ assms])
  ultimately show ?thesis by (simp add: parse_env_file_def splitlines_def splitlines_pieces)
qed

lemma splitlines_from_clean: "list_all (\<lambda>c. \<not> line_end c) acc \<Longrightarrow> list_all (list_all (\<lambda>c. \<not> line_end c)) (splitlines_from acc s)"
  by (induction acc s rule: splitlines_from.induct) simp_all


section \<open>Rewriting\<close>

definition clean_key :: "string \<Rightarrow> bool" where
  "clean_key k \<longleftrightarrow> k \<noteq> [] \<and> py_strip k = k \<and> \<not> startswith k ''#'' \<and> list_all (\<lambda>c. c \<noteq> CHR ''='' \<and> \<not> line_end c) k"

lemma env_line_key: "env_line m line = (case line_key line of None \<Rightarrow> m
    | Some k \<Rightarrow> AList.update k (unquoted (py_strip (after (CHR ''='') (py_strip line)))) m)"
  by (simp add: env_line_def line_key_def Let_def)

lemma env_line_other: "line_key line \<noteq> Some k \<Longrightarrow> map_of (env_line m line) k = map_of m k"
  by (auto simp: env_line_key update_conv' split: option.split)

lemma env_lines_other: "Some k \<notin> set (map line_key ls) \<Longrightarrow> map_of (foldl env_line m ls) k = map_of m k"
  by (induction ls arbitrary: m) (auto simp: env_line_other)

lemma quoted_line_parts:
  assumes "clean_key k"
  shows "py_strip (quoted_line k v) = quoted_line k v" "before (CHR ''='') (quoted_line k v) = k" "after (CHR ''='') (quoted_line k v) = [quote] @ v @ [quote]"
proof -
  have k: "k \<noteq> []" "py_strip k = k" "\<forall>c \<in> set k. c \<noteq> CHR ''=''" using assms by (auto simp: clean_key_def list_all_iff)
  have "\<not> py_space (hd k)" using strip_ends[of k] k(1,2) by simp
  moreover have "\<not> py_space quote" by (simp add: quote_def py_space_def code_def)
  ultimately show "py_strip (quoted_line k v) = quoted_line k v" using k(1) by (intro strip_id) (simp add: quoted_line_def hd_append)
  show "before (CHR ''='') (quoted_line k v) = k" "after (CHR ''='') (quoted_line k v) = [quote] @ v @ [quote]"
    using k(3) by (simp_all add: before_def after_def quoted_line_def takeWhile_append dropWhile_append)
qed

lemma startswith_first: "k \<noteq> [] \<Longrightarrow> startswith (k @ s) [c] = startswith k [c]"
  by (cases k) (simp_all add: startswith_def)

lemma quoted_line_key:
  assumes "clean_key k"
  shows "line_key (quoted_line k v) = Some k"
proof -
  have "k \<noteq> []" "py_strip k = k" "\<not> startswith k ''#''" using assms by (simp_all add: clean_key_def)
  then show ?thesis unfolding line_key_def quoted_line_parts[OF assms] Let_def by (simp add: quoted_line_def startswith_first)
qed

lemma quoted_line_value: "clean_key k \<Longrightarrow> env_line m (quoted_line k v) = AList.update k v m"
proof -
  assume k: "clean_key k"
  have "\<not> py_space quote" by (simp add: quote_def py_space_def code_def)
  then have "py_strip ([quote] @ v @ [quote]) = [quote] @ v @ [quote]" by (intro strip_id) simp
  then show ?thesis by (simp add: env_line_key quoted_line_key[OF k] quoted_line_parts[OF k] unquoted_def butlast_append)
qed

lemma rewrite_keys:
  "\<forall>k \<in> dom (map_of rem). clean_key k \<Longrightarrow> map line_key (fst (rewrite_lines rem ls)) = map line_key ls"
proof (induction rem ls rule: rewrite_lines.induct)
  case (2 rem line ls)
  have d: "\<forall>k \<in> dom (map_of (AList.delete k' rem)). clean_key k" for k' using 2(4) by (simp add: delete_conv')
  show ?case
  proof (cases "line_key line")
    case None
    with 2(1)[OF None 2(4)] show ?thesis by (simp add: split_def)
  next
    case (Some k)
    show ?thesis
    proof (cases "map_of rem k")
      case None
      with 2(2)[OF Some None 2(4)] Some show ?thesis by (simp add: split_def)
    next
      case v: (Some v)
      with 2(4) have "clean_key k" by blast
      with 2(3)[OF Some v d] Some v show ?thesis by (simp add: split_def quoted_line_key)
    qed
  qed
qed simp


text \<open>The value of a key is set by the lines of that key alone.  Rewriting replaces the first of them and leaves over the
  updates whose key no line has.\<close>

lemma env_lines_of_key: "map_of m k = map_of m' k \<Longrightarrow>
  map_of (foldl env_line m ls) k = map_of (foldl env_line m' (filter (\<lambda>l. line_key l = Some k) ls)) k"
proof (induction ls arbitrary: m m')
  case (Cons l ls)
  show ?case
  proof (cases "line_key l = Some k")
    case True
    then have "map_of (env_line m l) k = map_of (env_line m' l) k" by (simp add: env_line_key update_conv')
    from Cons.IH[OF this] True show ?thesis by simp
  next
    case False
    with Cons.IH[of "env_line m l" m'] Cons.prems show ?thesis by (simp add: env_line_other)
  qed
qed simp

lemma rewrite_cases:
  assumes "\<forall>k \<in> dom (map_of rem). clean_key k"
  obtains (same) "rewrite_lines rem (line # ls) = (line # fst (rewrite_lines rem ls), snd (rewrite_lines rem ls))" "\<forall>k. line_key line = Some k \<longrightarrow> map_of rem k = None"
  | (new) k v where "line_key line = Some k" "map_of rem k = Some v" "clean_key k"
      "rewrite_lines rem (line # ls) = (quoted_line k v # fst (rewrite_lines (AList.delete k rem) ls), snd (rewrite_lines (AList.delete k rem) ls))"
      "\<forall>k' \<in> dom (map_of (AList.delete k rem)). clean_key k'"
proof (cases "\<exists>k v. line_key line = Some k \<and> map_of rem k = Some v")
  case True
  then obtain k v where kv: "line_key line = Some k" "map_of rem k = Some v" by blast
  show thesis by (rule new[OF kv]) (use assms kv in \<open>auto simp: split_def delete_conv'\<close>)
next
  case False
  then show thesis by (intro same) (auto simp: split_def split: option.split)
qed

lemma rewritten_lines:
  assumes "\<forall>k \<in> dom (map_of rem). clean_key k"
  shows "filter (\<lambda>l. line_key l = Some k) (fst (rewrite_lines rem ls)) = (case map_of rem k of None \<Rightarrow> filter (\<lambda>l. line_key l = Some k) ls
      | Some v \<Rightarrow> (case filter (\<lambda>l. line_key l = Some k) ls of [] \<Rightarrow> [] | l # ls' \<Rightarrow> quoted_line k v # ls'))"
  using assms
proof (induction ls arbitrary: rem)
  case (Cons line ls)
  from Cons.prems show ?case
  proof (cases rule: rewrite_cases[where line = line and ls = ls])
    case same
    with Cons.IH[OF Cons.prems] show ?thesis by (auto split: option.split)
  next
    case (new j v)
    with Cons.IH[OF new(5)] show ?thesis by (cases "j = k") (auto simp: delete_conv' quoted_line_key split: option.split)
  qed
qed (simp split: option.split)

lemma left_over:
  assumes "\<forall>k \<in> dom (map_of rem). clean_key k"
  shows "map_of (snd (rewrite_lines rem ls)) k = (if Some k \<in> line_key ` set ls then None else map_of rem k)"
  using assms
proof (induction ls arbitrary: rem)
  case (Cons line ls)
  from Cons.prems show ?case
  proof (cases rule: rewrite_cases[where line = line and ls = ls])
    case same
    with Cons.IH[OF Cons.prems] show ?thesis by auto
  next
    case (new j v)
    with Cons.IH[OF new(5)] show ?thesis by (auto simp: delete_conv')
  qed
qed simp

lemma quoted_line_clean: "clean_key k \<Longrightarrow> list_all (\<lambda>c. \<not> line_end c) v \<Longrightarrow> list_all (\<lambda>c. \<not> line_end c) (quoted_line k v)"
proof -
  have "\<not> line_end quote" "\<not> line_end (CHR ''='')" by (simp_all add: quote_def line_end_def code_def)
  then show "clean_key k \<Longrightarrow> list_all (\<lambda>c. \<not> line_end c) v \<Longrightarrow> list_all (\<lambda>c. \<not> line_end c) (quoted_line k v)" by (auto simp: quoted_line_def clean_key_def list_all_iff)
qed

lemma rewritten_clean:
  assumes "\<forall>k \<in> dom (map_of rem). clean_key k" "list_all (list_all (\<lambda>c. \<not> line_end c)) ls" "\<forall>v \<in> ran (map_of rem). list_all (\<lambda>c. \<not> line_end c) v"
  shows "list_all (list_all (\<lambda>c. \<not> line_end c)) (fst (rewrite_lines rem ls))"
  using assms
proof (induction ls arbitrary: rem)
  case (Cons line ls)
  from Cons.prems(1) show ?case
  proof (cases rule: rewrite_cases[where line = line and ls = ls])
    case same
    with Cons.IH[OF Cons.prems(1)] Cons.prems(2,3) show ?thesis by simp
  next
    case (new j v)
    have "\<forall>v \<in> ran (map_of (AList.delete j rem)). list_all (\<lambda>c. \<not> line_end c) v" using Cons.prems(3) by (auto simp: delete_conv' ran_def)
    moreover have "list_all (\<lambda>c. \<not> line_end c) v" using Cons.prems(3) new(2) by (auto intro: ranI)
    ultimately show ?thesis using Cons.IH[OF new(5)] Cons.prems(2) new(4) quoted_line_clean[OF new(3)] by simp
  qed
qed simp

lemma rewritten_rest: "set (snd (rewrite_lines rem ls)) \<subseteq> set rem"
proof (induction rem ls rule: rewrite_lines.induct)
  case (2 rem line ls)
  have "set (AList.delete k rem) \<subseteq> set rem" for k by (auto simp: AList.delete_eq)
  with 2 show ?case by (simp add: split_def split: option.split) blast
qed simp

lemma rewritten_distinct: "distinct (map fst rem) \<Longrightarrow> distinct (map fst (snd (rewrite_lines rem ls)))"
  by (induction rem ls rule: rewrite_lines.induct) (auto simp: split_def distinct_delete split: option.split)

lemma added_lines:
  "\<forall>(k, v) \<in> set rem. clean_key k \<Longrightarrow> foldl env_line m (map (\<lambda>(k, v). quoted_line k v) rem) = foldl (\<lambda>m (k, v). AList.update k v m) m rem"
  by (induction rem arbitrary: m) (auto simp: quoted_line_value)

lemma updates_map: "distinct (map fst ups) \<Longrightarrow> map_of (foldl (\<lambda>m (k, v). AList.update k v m) m ups) k = (case map_of ups k of None \<Rightarrow> map_of m k | Some v \<Rightarrow> Some v)"
proof (induction ups arbitrary: m)
  case (Cons kv ups)
  obtain j v where kv: "kv = (j, v)" by fastforce
  from Cons.prems have "map_of ups j = None" by (simp add: kv map_of_eq_None_iff)
  with Cons.IH[of "AList.update j v m"] Cons.prems show ?case by (simp add: kv update_conv' split: option.split)
qed simp

definition file_lines :: "string option \<Rightarrow> string list" where
  "file_lines content = (case content of None \<Rightarrow> [] | Some s \<Rightarrow> splitlines s)"

definition updatable :: "string option \<Rightarrow> (string \<times> string) list \<Rightarrow> bool" where
  "updatable content ups \<longleftrightarrow> distinct (map fst ups)
     \<and> list_all (\<lambda>(k, v). clean_key k \<and> list_all (\<lambda>c. \<not> line_end c) v \<and> length (filter (\<lambda>l. line_key l = Some k) (file_lines content)) \<le> 1) ups"

lemma update_env_reads:
  assumes "updatable content ups"
  shows "map_of (parse_env_file (Some (update_env content ups))) k = (case map_of ups k of None \<Rightarrow> map_of (parse_env_file content) k | Some v \<Rightarrow> Some v)"
proof -
  define ls where "ls = file_lines content"
  define out where "out = fst (rewrite_lines ups ls)"
  define rem where "rem = snd (rewrite_lines ups ls)"
  let ?out = "if out \<noteq> [] \<and> py_strip (List.last out) \<noteq> [] then out @ [[]] else out"
  have r: "rewrite_lines ups ls = (out, rem)" by (simp add: out_def rem_def)
  let ?add = "map (\<lambda>(k, v). quoted_line k v) rem"
  have ups: "distinct (map fst ups)" "\<And>k v. (k, v) \<in> set ups \<Longrightarrow> clean_key k \<and> list_all (\<lambda>c. \<not> line_end c) v \<and> length (filter (\<lambda>l. line_key l = Some k) ls) \<le> 1"
    using assms by (auto simp: updatable_def list_all_iff ls_def)
  have keys: "\<forall>k \<in> dom (map_of ups). clean_key k" and vals: "\<forall>v \<in> ran (map_of ups). list_all (\<lambda>c. \<not> line_end c) v"
    using ups(2) by (auto simp: ran_def dest!: map_of_SomeD)
  have ls: "list_all (list_all (\<lambda>c. \<not> line_end c)) ls" using splitlines_from_clean[of "[]"] by (simp add: ls_def file_lines_def splitlines_def split: option.split)
  have rem: "\<forall>(k, v) \<in> set rem. clean_key k" "distinct (map fst rem)"
    using rewritten_rest[of ups ls] ups(2) rewritten_distinct[OF ups(1)] by (auto simp: rem_def)
  have "list_all (\<lambda>c. \<not> line_end c) (quoted_line k v)" if "(k, v) \<in> set rem" for k v
    by (rule quoted_line_clean) (use rewritten_rest[of ups ls] ups(2) that in \<open>auto simp: rem_def\<close>)
  then have "list_all (list_all (\<lambda>c. \<not> line_end c)) (?out @ ?add)"
    using rewritten_clean[OF keys ls vals] by (auto simp: list_all_iff out_def)
  from parse_lines[OF this] have "parse_env_file (Some (update_env content ups)) = foldl env_line [] (?out @ ?add)"
    unfolding update_env_def file_lines_def[symmetric] ls_def[symmetric] r prod.case Let_def .
  also have "\<dots> = foldl (\<lambda>m (k, v). AList.update k v m) (foldl env_line [] out) rem" by (simp add: added_lines[OF rem(1)] env_line_blank)
  finally have p: "map_of (parse_env_file (Some (update_env content ups))) k = (case map_of rem k of None \<Rightarrow> map_of (foldl env_line [] out) k | Some v \<Rightarrow> Some v)"
    by (simp add: updates_map[OF rem(2)])
  have old: "map_of (parse_env_file content) k = map_of (foldl env_line [] ls) k" by (simp add: parse_env_file_def ls_def file_lines_def split: option.split)
  have o: "map_of (foldl env_line [] out) k = map_of (foldl env_line [] (filter (\<lambda>l. line_key l = Some k) out)) k" by (rule env_lines_of_key) simp
  show ?thesis
  proof (cases "map_of ups k")
    case None
    then have "filter (\<lambda>l. line_key l = Some k) out = filter (\<lambda>l. line_key l = Some k) ls" "map_of rem k = None"
      using rewritten_lines[OF keys, of k ls] left_over[OF keys, of ls k] by (simp_all add: out_def rem_def)
    with p o old env_lines_of_key[of "[]" k "[]" ls] None show ?thesis by simp
  next
    case (Some v)
    then have v: "clean_key k" "length (filter (\<lambda>l. line_key l = Some k) ls) \<le> 1" using ups(2) map_of_SomeD by fastforce+
    show ?thesis
    proof (cases "Some k \<in> line_key ` set ls")
      case True
      then obtain l where l: "l \<in> set (filter (\<lambda>l. line_key l = Some k) ls)" by auto
      then obtain l' where "filter (\<lambda>l. line_key l = Some k) ls = [l']" using v(2) by (cases "filter (\<lambda>l. line_key l = Some k) ls") auto
      then have "filter (\<lambda>l. line_key l = Some k) out = [quoted_line k v]" using rewritten_lines[OF keys, of k ls] Some by (simp add: out_def)
      with p o left_over[OF keys, of ls k] True Some v(1) show ?thesis by (simp add: rem_def quoted_line_value update_conv')
    next
      case False
      with p left_over[OF keys, of ls k] Some show ?thesis by (simp add: rem_def)
    qed
  qed
qed


section \<open>Configured credentials\<close>

lemma underscored_digits: "s \<noteq> [] \<Longrightarrow> list_all py_digit s \<Longrightarrow> underscored s"
proof (induction s rule: underscored.induct)
  case (3 c d s)
  have "\<not> py_digit CHR ''_''" by (simp add: py_digit_def code_def)
  with 3 show ?case by auto
qed simp_all

lemma shown_digits: "list_all py_digit (show_nat n)"
proof (induction n rule: show_nat.induct)
  case (1 n)
  have "py_digit (char_of (48 + m))" if "m < 10" for m :: nat using that by (simp add: py_digit_def)
  with 1 show ?case by (subst show_nat.simps) simp
qed

lemma int_of_shown: "int_of_text (show_nat n) = Some (int n)"
proof -
  have d: "list_all py_digit (show_nat n)" "show_nat n \<noteq> []" by (simp_all add: shown_digits)
  have "\<not> py_space c \<and> c \<noteq> CHR ''-'' \<and> c \<noteq> CHR ''+''" if "py_digit c" for c
    using that by (auto simp: py_digit_def py_space_def code_def)
  with d have h: "\<not> py_space (hd (show_nat n))" "\<not> py_space (List.last (show_nat n))" "hd (show_nat n) \<noteq> CHR ''-''" "hd (show_nat n) \<noteq> CHR ''+''"
    by (simp_all add: list_all_iff)
  have "py_strip (show_nat n) = show_nat n" by (rule strip_id) (use h in simp)
  moreover have "filter py_digit (show_nat n) = show_nat n" using d by (simp add: list_all_iff filter_id_conv)
  ultimately show ?thesis using h underscored_digits[OF d(2,1)] by (simp add: int_of_text_def Let_def)
qed

lemma config_get_plain:
  assumes "map_of cfg k = Some v" "CHR '':'' \<notin> set v" "map_of keychain_map k = None"
  shows "config_get keychain cfg k d = v"
proof -
  have "\<not> startswith (py_strip v) ''keychain:''"
  proof
    assume "startswith (py_strip v) ''keychain:''"
    then have t: "take (length ''keychain:'') (py_strip v) = ''keychain:''" unfolding startswith_def .
    have "CHR '':'' \<in> set (take (length ''keychain:'') (py_strip v))" unfolding t by simp
    then have "CHR '':'' \<in> set (py_strip v)" by (rule in_set_takeD)
    then have "CHR '':'' \<in> set v" by (auto simp: py_strip_def py_lstrip_def dest!: set_dropWhileD)
    with assms(2) show False by contradiction
  qed
  then show ?thesis using assms(1,3) by (simp add: config_get_def secret_name_def text_or_def)
qed

lemma load_other:
  assumes "\<not> environment_key k"
  shows "map_of (load_config content env) k = map_of (parse_env_file content) k"
proof -
  have "map_of (foldl (\<lambda>m (j, v). if environment_key j then AList.update j v m else m) m env) k = map_of m k" for m
    using assms by (induction env arbitrary: m) (auto simp: update_conv')
  then show ?thesis by (simp add: load_config_def)
qed

lemma urlsafe_plain: "c \<in> set (urlsafe_encode d) \<Longrightarrow> \<not> line_end c \<and> c \<noteq> CHR '':''"
proof -
  assume "c \<in> set (urlsafe_encode d)"
  then obtain b where b: "c = to_urlsafe b" "b \<in> set (b64encode d)" by (auto simp: urlsafe_encode_def)
  have "list_all (\<lambda>b. to_urlsafe b \<noteq> CHR '':'') (CHR ''='' # b64_alphabet)" by code_simp
  then have "\<forall>b \<in> set (CHR ''='' # b64_alphabet). to_urlsafe b \<noteq> CHR '':''" unfolding list_all_iff .
  with b64encode_chars[OF b(2)] urlsafe_inverse[OF b64encode_chars[OF b(2)]] b(1) show ?thesis by (metis list.set_intros)
qed

definition auth_keys :: "string list" where
  "auth_keys = [''DASHBOARD_AUTH_ENABLED'', ''DASHBOARD_AUTH_USERNAME'', ''DASHBOARD_AUTH_SALT'', ''DASHBOARD_AUTH_HASH'', ''DASHBOARD_AUTH_ITERATIONS'']"

lemma auth_keys_plain: "list_all clean_key auth_keys" "list_all (\<lambda>k. \<not> environment_key k \<and> map_of keychain_map k = None) auth_keys" "distinct auth_keys"
  by code_simp+

text \<open>No key of the dashboard's credentials is set twice in the file.\<close>

definition set_once :: "string option \<Rightarrow> bool" where
  "set_once content \<longleftrightarrow> list_all (\<lambda>k. length (filter (\<lambda>l. line_key l = Some k) (file_lines content)) \<le> 1) auth_keys"


lemma configured:
  assumes "configure_auth kdf salt content username password = Inr text" "set_once content" "list_all (\<lambda>c. \<not> line_end c) (py_strip username)"
    and cfg_def: "cfg = load_config (Some text) env"
  shows "map_of cfg ''DASHBOARD_AUTH_ENABLED'' = Some ''yes''"
    "config_get keychain cfg ''DASHBOARD_AUTH_USERNAME'' d = py_strip username"
    "config_get keychain cfg ''DASHBOARD_AUTH_SALT'' d = urlsafe_encode salt"
    "config_get keychain cfg ''DASHBOARD_AUTH_HASH'' d = urlsafe_encode (kdf (utf8 password) salt DEFAULT_ITERATIONS)"
    "config_get keychain cfg ''DASHBOARD_AUTH_ITERATIONS'' d = show_int DEFAULT_ITERATIONS"
proof -
  let ?ups = "auth_updates (py_strip username) (urlsafe_encode salt) (urlsafe_encode (kdf (utf8 password) salt DEFAULT_ITERATIONS)) DEFAULT_ITERATIONS"
  have tx: "text = update_env content ?ups" and u: "\<not> username_error (py_strip username)"
    using assms(1) by (auto simp: configure_auth_def hash_password_def Let_def split: if_splits)
  have keys: "map fst ?ups = auth_keys" by (simp add: auth_updates_def auth_keys_def)
  have it: "show_int DEFAULT_ITERATIONS = show_nat (nat DEFAULT_ITERATIONS)" by (simp add: show_int_def DEFAULT_ITERATIONS_def)
  have "\<not> line_end c \<and> c \<noteq> CHR '':''" if "py_digit c" for c using that by (auto simp: py_digit_def line_end_def code_def)
  then have digits: "\<not> line_end c \<and> c \<noteq> CHR '':''" if "c \<in> set (show_int DEFAULT_ITERATIONS)" for c
    using that shown_digits[of "nat DEFAULT_ITERATIONS"] by (auto simp: it list_all_iff)
  have vals: "list_all (\<lambda>c. \<not> line_end c) v" if "(k, v) \<in> set ?ups" for k v
    using that assms(3) urlsafe_plain digits by (auto simp: auth_updates_def list_all_iff line_end_def code_def)
  have once: "clean_key k \<and> length (filter (\<lambda>l. line_key l = Some k) (file_lines content)) \<le> 1" if "(k, v) \<in> set ?ups" for k v
  proof -
    have "k \<in> set auth_keys" using that keys by (metis fst_conv image_eqI image_set)
    with auth_keys_plain(1) assms(2) show ?thesis by (auto simp: set_once_def list_all_iff)
  qed
  have ok: "updatable content ?ups" using once vals auth_keys_plain(3) unfolding updatable_def keys list_all_iff by blast
  have m: "map_of cfg k = Some v" if "map_of ?ups k = Some v" "k \<in> set auth_keys" for k v
    using update_env_reads[OF ok, of k] load_other[of k "Some text" env] that auth_keys_plain(2) by (simp add: cfg_def tx list_all_iff)
  show "map_of cfg ''DASHBOARD_AUTH_ENABLED'' = Some ''yes''" by (rule m) (simp_all add: auth_updates_def auth_keys_def)
  have g: "config_get keychain cfg k d = v" if "map_of ?ups k = Some v" "k \<in> set auth_keys" "CHR '':'' \<notin> set v" for k v
    by (rule config_get_plain[OF m[OF that(1,2)] that(3)]) (use auth_keys_plain(2) that(2) in \<open>simp add: list_all_iff\<close>)
  have "CHR '':'' \<notin> set (py_strip username)" using u by (auto simp: username_error_def list_ex_iff)
  moreover have "CHR '':'' \<notin> set (urlsafe_encode s)" for s using urlsafe_plain by blast
  moreover have "CHR '':'' \<notin> set (show_int DEFAULT_ITERATIONS)" using digits by blast
  ultimately show "config_get keychain cfg ''DASHBOARD_AUTH_USERNAME'' d = py_strip username"
    "config_get keychain cfg ''DASHBOARD_AUTH_SALT'' d = urlsafe_encode salt"
    "config_get keychain cfg ''DASHBOARD_AUTH_HASH'' d = urlsafe_encode (kdf (utf8 password) salt DEFAULT_ITERATIONS)"
    "config_get keychain cfg ''DASHBOARD_AUTH_ITERATIONS'' d = show_int DEFAULT_ITERATIONS"
    by (intro g; simp add: auth_updates_def auth_keys_def)+
qed

lemma username_kept: "configure_auth kdf salt content username password = Inr text \<Longrightarrow> py_strip username \<noteq> []"
  by (auto simp: configure_auth_def username_error_def Let_def split: if_splits)

text \<open>C27: rewriting the configuration file changes the values of the given keys and no others: reading the new file gives the new
  value for every key that was updated and the old one for every other, provided that no updated key is set twice and no new
  value holds a character that ends a line.\<close>

theorem rewritten_file_is_read_back:
  assumes "updatable content ups"
  shows "map_of (parse_env_file (Some (update_env content ups))) k = (case map_of ups k of None \<Rightarrow> map_of (parse_env_file content) k | Some v \<Rightarrow> Some v)"
  by (rule update_env_reads[OF assms])

lemma latin_scalar: "list_all scalar (map code s)"
proof -
  have "scalar (code c)" for c using code_lt[of c] by (simp add: scalar_def)
  then show ?thesis by (simp add: list_all_iff)
qed

lemma utf8_codes: "map code (utf8 s) = utf8_encode (map code s)"
proof -
  have "list_all scalar (map code s)" by (rule latin_scalar)
  then have "\<forall>b \<in> set (utf8_encode (map code s)). b < 256" using utf8_bytes by blast
  then have "map (code \<circ> char_of) (utf8_encode (map code s)) = utf8_encode (map code s)" by (intro map_idI) simp
  then show ?thesis by (simp add: utf8_def)
qed

lemma utf8_colon: "CHR '':'' \<notin> set s \<Longrightarrow> CHR '':'' \<notin> set (utf8 s)"
proof
  assume s: "CHR '':'' \<notin> set s" "CHR '':'' \<in> set (utf8 s)"
  have colon: "code CHR '':'' = 58" by (simp add: code_def)
  from s(2) have "58 \<in> code ` set (utf8 s)" using colon by force
  then have "58 \<in> set (utf8_encode (map code s))" by (metis utf8_codes image_set)
  then obtain c where c: "c \<in> set s" "58 \<in> set (utf8_char (code c))" by (auto simp: utf8_encode_def)
  then have "code c = 58" using code_lt[of c] by (auto simp: utf8_char_def split: if_splits)
  then have "c = CHR '':''" by (metis char_of_code colon)
  with c(1) s(1) show False by simp
qed

lemma utf8_append: "utf8 (s @ t) = utf8 s @ utf8 t"
  by (simp add: utf8_def utf8_encode_def)

lemma b64_strip: "py_strip (b64encode d) = b64encode d"
proof -
  have "list_all (\<lambda>c. \<not> py_space c) (CHR ''='' # b64_alphabet)" by code_simp
  then have a: "\<forall>c \<in> set (CHR ''='' # b64_alphabet). \<not> py_space c" unfolding list_all_iff .
  have "\<not> py_space c" if "c \<in> set (b64encode d)" for c using a b64encode_chars[OF that] by (metis list.set_intros)
  then show ?thesis by (intro strip_id) auto
qed

text \<open>The header that a client sends.\<close>

definition basic_header :: "string \<Rightarrow> string \<Rightarrow> string" where
  "basic_header username password = ''Basic '' @ b64encode (utf8 (username @ '':'' @ password))"

lemma sent_credentials:
  assumes "CHR '':'' \<notin> set u"
  shows "header_credentials (basic_header u pw) = Some (utf8 u, utf8 pw)"
proof -
  let ?raw = "utf8 (u @ '':'' @ pw)"
  have raw: "?raw = utf8 u @ CHR '':'' # utf8 pw"
  proof -
    have "utf8 '':'' = '':''" by code_simp
    then show ?thesis by (simp only: utf8_append) simp
  qed
  have "utf8_decode (map code ?raw) = map code (u @ '':'' @ pw)" unfolding utf8_codes by (rule utf8_round_trip[OF latin_scalar])
  then have "valid_utf8 ?raw" by (simp only: valid_utf8_def utf8_codes)
  moreover have "before (CHR '':'') ?raw = utf8 u" "after (CHR '':'') ?raw = utf8 pw"
    using utf8_colon[OF assms] unfolding raw by (auto simp: before_def after_def takeWhile_append dropWhile_append)
  moreover have "startswith (basic_header u pw) ''Basic ''" "drop 6 (basic_header u pw) = b64encode ?raw" by (simp_all add: basic_header_def)
  moreover have "CHR '':'' \<in> set ?raw" unfolding raw by simp
  ultimately show ?thesis by (simp add: header_credentials_def b64_strip b64_round_trip)
qed

text \<open>C26: a user name and a password are configured in a file in which none of the keys to be written is set twice, and the user
  name contains none of the characters at which a text is split into lines.  Then, whatever the environment holds, the dashboard
  accepts a \<open>Basic\<close> header exactly when it carries this user name and a password with the same derived key; the header that a
  client sends for the configured name and password is one.  Both conditions are needed: \<open>second_line_wins\<close> shows a file with
  a second line for a key, whose old value stays in force, and \<open>user_name_sets_other_key\<close> a user name that sets another key.\<close>

theorem configured_credentials_are_required:
  assumes "configure_auth kdf salt content username password = Inr text" "set_once content" "list_all (\<lambda>c. \<not> line_end c) (py_strip username)"
  shows "(verify_basic_header kdf keychain (load_config (Some text) env) hdr =
      (\<exists>pw. header_credentials hdr = Some (utf8 (py_strip username), pw) \<and> kdf pw salt DEFAULT_ITERATIONS = kdf (utf8 password) salt DEFAULT_ITERATIONS))
    \<and> verify_basic_header kdf keychain (load_config (Some text) env) (basic_header (py_strip username) password)"
proof -
  let ?cfg = "load_config (Some text) env"
  note c = configured[OF assms refl]
  have on: "config_bool ?cfg ''DASHBOARD_AUTH_ENABLED'' False"
  proof -
    have "parse_bool (\<lambda>_. '''') (JText ''yes'') False" by code_simp
    then show ?thesis by (simp add: config_bool_def config_value_def c(1))
  qed
  have it: "parse_int (\<lambda>_. '''') (JText (show_int DEFAULT_ITERATIONS)) DEFAULT_ITERATIONS (Some 100000) (Some 2000000) = DEFAULT_ITERATIONS"
    by (simp add: parse_int_def py_str_def show_int_def int_of_shown DEFAULT_ITERATIONS_def)
  have "verify_password kdf pw (urlsafe_encode salt) (urlsafe_encode h) n = (kdf pw salt n = h)" for pw h n
    by (simp add: verify_password_def urlsafe_round_trip)
  with c on it have v: "verify_basic_header kdf keychain ?cfg h = (\<exists>pw. header_credentials h = Some (utf8 (py_strip username), pw)
      \<and> kdf pw salt DEFAULT_ITERATIONS = kdf (utf8 password) salt DEFAULT_ITERATIONS)" for h
    by (auto simp: verify_basic_header_def Let_def split: option.split)
  have "CHR '':'' \<notin> set (py_strip username)" using assms(1) by (auto simp: configure_auth_def username_error_def list_ex_iff Let_def split: if_splits)
  from sent_credentials[OF this, of password] show ?thesis unfolding v by auto
qed

section \<open>Examples\<close>

theorem rewritten_file_is_read_back_witness:
  "map_of (parse_env_file (Some (update_env (Some (''A=1'' @ newline @ ''B = 2'')) [(''A'', ''3'')]))) ''A'' = Some ''3''
   \<and> map_of (parse_env_file (Some (update_env (Some (''A=1'' @ newline @ ''B = 2'')) [(''A'', ''3'')]))) ''B'' = Some ''2''"
proof -
  have u: "updatable (Some (''A=1'' @ newline @ ''B = 2'')) [(''A'', ''3'')]" by code_simp
  have "map_of (parse_env_file (Some (''A=1'' @ newline @ ''B = 2''))) ''B'' = Some ''2''" by code_simp
  with rewritten_file_is_read_back[OF u, of "''A''"] rewritten_file_is_read_back[OF u, of "''B''"] show ?thesis by simp
qed

theorem configured_credentials_are_required_witness:
  "\<exists>tx. configure_auth (\<lambda>p s n. p @ s) ''s'' None ''bob'' ''0123456789'' = Inr tx
     \<and> \<not> verify_basic_header (\<lambda>p s n. p @ s) (\<lambda>_. None) (load_config (Some tx) []) ''Bearer x''"
proof -
  have "py_strip ''bob'' = ''bob''" "\<not> username_error ''bob''" by code_simp+
  then obtain tx where t: "configure_auth (\<lambda>p s n. p @ s) ''s'' None ''bob'' ''0123456789'' = Inr tx"
    by (simp add: configure_auth_def hash_password_def)
  have "set_once None" "list_all (\<lambda>c. \<not> line_end c) (py_strip ''bob'')" by code_simp+
  moreover have "header_credentials ''Bearer x'' = None" by code_simp
  ultimately show ?thesis using configured_credentials_are_required[OF t, of "\<lambda>_. None" "[]" "''Bearer x''"] t by simp
qed

text \<open>A key that the file sets twice keeps its last value, whatever the update says.\<close>

lemma second_line_wins:
  "map_of (parse_env_file (Some (update_env (Some (''E=no'' @ newline @ ''E=no'')) [(''E'', ''yes'')]))) ''E'' = Some ''no''"
  by code_simp

text \<open>A user name may hold a character that ends a line of the file, and then sets other keys.\<close>

lemma user_name_sets_other_key:
  "let u = ''x'' @ [CHR 0x85] @ ''E=no'' in \<not> username_error (py_strip u)
   \<and> map_of (parse_env_file (Some (update_env None [(''E'', ''yes''), (''U'', u)]))) ''E'' = Some (''no'' @ [quote])"
  by code_simp

end
