(* ===== verification/Advisory_Matching.thy ===== *)
theory Advisory_Matching
  imports Version_Facts Target_Policy Sql_Table
begin

text \<open>
  Matching observed technologies with the advisory catalogue, \<open>src/app/dependency_advisory_matcher.py\<close>: names and versions of
  components, validation of the catalogue, the choice of an ecosystem, and the two matchers.

  A catalogue is the JSON value of its file; \<open>sha\<close> is SHA-256 of a text, \<open>fr\<close> the printing of floats and \<open>rp\<close> that of
  nested values.  A field that should be a list and cannot be iterated is reported when the catalogue is loaded.  The caches of
  the module, keyed by path, time and size of the file, are transparent here.
\<close>

section \<open>Components\<close>

definition name_char :: "char \<Rightarrow> bool" where
  "name_char c \<longleftrightarrow> 97 \<le> code c \<and> code c \<le> 122 \<or> py_digit c"

text \<open>\<open>re.sub(r''[^a-z0-9]+'', '' '', s)\<close>.\<close>

fun squash :: "string \<Rightarrow> string" where
  "squash [] = []"
| "squash (c # s) =
     (if name_char c then c # squash s
      else case squash s of [] \<Rightarrow> '' '' | d # r \<Rightarrow> if d = CHR '' '' then d # r else CHR '' '' # d # r)"

definition normalize_component_name :: "string \<Rightarrow> string" where
  "normalize_component_name value = py_strip (squash (py_lower value))"

definition version_re :: rx where
  "version_re = Seq digits (Rep 1 (Some 3) (Seq (ch CHR ''.'') digits))"

definition version_tuple :: "string \<Rightarrow> nat list option" where
  "version_tuple value =
     (let text = py_strip value
      in case rx_fullmatch version_re text of None \<Rightarrow> None | Some _ \<Rightarrow> Some (take 4 (map dec_val (split_on CHR ''.'' text) @ [0, 0, 0, 0])))"

record versioned =
  vt_raw :: string
  vt_name :: string
  vt_version :: string

text \<open>The pattern \<open>.+?\<close> for the name is lazy: the shortest name is taken for which the rest matches to the end.\<close>

definition after_name_re :: rx where
  "after_name_re = seqs [Alt (seqs [star (Cls py_space), oneof '':/@'', star (Cls py_space)]) (plus (Cls py_space)),
     opt (ci CHR ''v''), Grp 1 (plus (Cls (\<lambda>c. \<not> py_space c)))]"

definition split_technology :: "string \<Rightarrow> (string \<times> string) option" where
  "split_technology text =
     (case List.find (\<lambda>n. list_all (\<lambda>c. code c \<noteq> 10) (take n text) \<and> rx_fullmatch after_name_re (drop n text) \<noteq> None) [1..<length text] of
        None \<Rightarrow> None
      | Some n \<Rightarrow> map_option (\<lambda>m. (take n text, group_or m 1)) (rx_fullmatch after_name_re (drop n text)))"

definition parse_versioned_technology :: "string \<Rightarrow> versioned option" where
  "parse_versioned_technology value =
     (let text = py_strip value
      in case split_technology text of
           None \<Rightarrow> None
         | Some (n, version) \<Rightarrow>
             (let name = normalize_component_name n
              in if name = '''' \<or> \<not> observed_version_supported version then None
                 else Some \<lparr>vt_raw = text, vt_name = name, vt_version = version\<rparr>))"

section \<open>Advisories\<close>

type_synonym advisory = "(string \<times> json) list"

text \<open>\<open>str(m.get(k) or "")\<close> and \<open>m.get(k, []) or []\<close>.\<close>

definition text_field :: "(json \<Rightarrow> string) \<Rightarrow> (string \<times> json) list \<Rightarrow> string \<Rightarrow> string" where
  "text_field rp m k = (if truthy (get m k) then py_str rp (get m k) else '''')"

definition list_field :: "(string \<times> json) list \<Rightarrow> string \<Rightarrow> json list" where
  "list_field m k = (if truthy (get m k) then (case py_iter (get m k) of None \<Rightarrow> [] | Some vs \<Rightarrow> vs) else [])"

definition ALLOWED_SOURCE_TYPES :: "string list" where
  "ALLOWED_SOURCE_TYPES = [''github_reviewed_advisory'', ''maintainer_security_advisory'']"

definition advisories_sha256 :: "(string \<Rightarrow> string) \<Rightarrow> (rat \<Rightarrow> string) \<Rightarrow> advisory list \<Rightarrow> string" where
  "advisories_sha256 sha fr ads = sha (json_dumps fr (JList (map JObj ads)))"

definition advisory_aliases :: "(json \<Rightarrow> string) \<Rightarrow> advisory \<Rightarrow> string list" where
  "advisory_aliases rp a =
     filter (\<lambda>s. s \<noteq> '''') (normalize_component_name (text_field rp a ''product'') # map (\<lambda>v. normalize_component_name (py_str rp v)) (list_field a ''aliases''))"

definition valid_advisory :: "(json \<Rightarrow> string) \<Rightarrow> advisory \<Rightarrow> bool" where
  "valid_advisory rp a \<longleftrightarrow>
     py_strip (text_field rp a ''id'') \<noteq> '''' \<and> advisory_aliases rp a \<noteq> [] \<and> text_field rp a ''source_type'' \<in> set ALLOWED_SOURCE_TYPES
     \<and> startswith (text_field rp a ''source_url'') ''https://'' \<and> truthy (get a ''affected_ranges'') \<and> py_strip (text_field rp a ''withdrawn_at'') = ''''"

definition lower_ecosystem :: "(json \<Rightarrow> string) \<Rightarrow> advisory \<Rightarrow> string" where
  "lower_ecosystem rp a = py_lower (text_field rp a ''ecosystem'')"

definition advisory_identity :: "(json \<Rightarrow> string) \<Rightarrow> advisory \<Rightarrow> string \<times> string \<times> string" where
  "advisory_identity rp a = (text_field rp a ''id'', lower_ecosystem rp a, normalize_component_name (text_field rp a ''product''))"

fun repeated :: "'a list \<Rightarrow> 'a list \<Rightarrow> 'a list" where
  "repeated seen [] = []"
| "repeated seen (x # xs) = (if x \<in> set seen then x # repeated seen xs else repeated (x # seen) xs)"

definition range_capabilities :: "(json \<Rightarrow> string) \<Rightarrow> advisory \<Rightarrow> string list" where
  "range_capabilities rp a = map (\<lambda>e. range_expression_capability (py_str rp e) (lower_ecosystem rp a)) (list_field a ''affected_ranges'')"

record catalog_validation =
  cv_valid :: bool
  cv_count :: nat
  cv_invalid :: "string list"
  cv_duplicates :: "string list"
  cv_supported :: nat
  cv_partial :: nat
  cv_unsupported :: nat
  cv_sha :: string
  cv_declared :: string
  cv_integrity :: bool

definition objects :: "json \<Rightarrow> advisory list" where
  "objects v = (case v of JList vs \<Rightarrow> concat (map (\<lambda>x. case x of JObj m \<Rightarrow> [m] | _ \<Rightarrow> []) vs) | _ \<Rightarrow> [])"

definition validate_catalog_payload ::
    "(string \<Rightarrow> string) \<Rightarrow> (rat \<Rightarrow> string) \<Rightarrow> (json \<Rightarrow> string) \<Rightarrow> (string \<times> json) list \<Rightarrow> catalog_validation" where
  "validate_catalog_payload sha fr rp payload =
     (let advisories = objects (get payload ''advisories'');
          invalid = map (\<lambda>a. text_field rp a ''id'') (filter (\<lambda>a. \<not> valid_advisory rp a) advisories);
          duplicates = map (\<lambda>(i, e, p). py_join ''|'' [i, e, p]) (repeated [] (map (advisory_identity rp) advisories));
          capabilities = concat (map (range_capabilities rp) advisories);
          full = length (filter (\<lambda>c. c = ''full'') capabilities);
          partial = length (filter (\<lambda>c. c = ''partial'') capabilities);
          declared = (case get payload ''integrity'' of JObj m \<Rightarrow> text_field rp m ''advisories_sha256'' | _ \<Rightarrow> '''');
          actual = advisories_sha256 sha fr advisories;
          hash_valid = (declared = '''' \<or> declared = actual)
      in \<lparr>cv_valid = (invalid = [] \<and> duplicates = [] \<and> hash_valid), cv_count = length advisories, cv_invalid = invalid, cv_duplicates = duplicates,
          cv_supported = full, cv_partial = partial, cv_unsupported = length capabilities - full - partial, cv_sha = actual,
          cv_declared = declared, cv_integrity = hash_valid\<rparr>)"

section \<open>The catalogue\<close>

definition iterable_field :: "advisory \<Rightarrow> string \<Rightarrow> bool" where
  "iterable_field a k \<longleftrightarrow> \<not> truthy (get a k) \<or> py_iter (get a k) \<noteq> None"

definition well_shaped :: "advisory \<Rightarrow> bool" where
  "well_shaped a \<longleftrightarrow> iterable_field a ''aliases'' \<and> iterable_field a ''affected_ranges'' \<and> iterable_field a ''patched_versions''"

definition load_catalog ::
    "(string \<Rightarrow> string) \<Rightarrow> (rat \<Rightarrow> string) \<Rightarrow> (json \<Rightarrow> string) \<Rightarrow> json option \<Rightarrow> string + (string \<times> json) list" where
  "load_catalog sha fr rp raw =
     (case raw of
        None \<Rightarrow> Inl ''JSONDecodeError''
      | Some (JObj catalog) \<Rightarrow>
          if \<not> list_all well_shaped (objects (get catalog ''advisories'')) then Inl ''TypeError''
          else if cv_valid (validate_catalog_payload sha fr rp catalog) then Inr catalog
          else Inl ''Dependency advisory catalog failed validation''
      | Some _ \<Rightarrow> Inl ''Dependency advisory catalog must be a JSON object'')"

text \<open>The rows of an alias, in the order of the catalogue.\<close>

definition catalog_rows :: "(json \<Rightarrow> string) \<Rightarrow> (string \<times> json) list \<Rightarrow> string \<Rightarrow> advisory list" where
  "catalog_rows rp catalog alias = filter (\<lambda>a. valid_advisory rp a \<and> alias \<in> set (advisory_aliases rp a)) (objects (get catalog ''advisories''))"

text \<open>The registry of aliases: a key \<open>ecosystem:product\<close> with the further names of the product.\<close>

definition registry_entry :: "(json \<Rightarrow> string) \<Rightarrow> string \<times> json \<Rightarrow> (string \<times> string list) option" where
  "registry_entry rp kv =
     (let key = py_strip (fst kv); ecosystem = py_lower (py_strip (before (CHR '':'') key)); product = after (CHR '':'') key
      in if CHR '':'' \<notin> set key \<or> ecosystem = '''' \<or> py_strip product = '''' then None
         else Some (ecosystem, filter (\<lambda>s. s \<noteq> '''')
           (map normalize_component_name (product # (case snd kv of JList vs \<Rightarrow> map (py_str rp) vs | _ \<Rightarrow> [])))))"

definition explicit_alias_ecosystems :: "(json \<Rightarrow> string) \<Rightarrow> json option \<Rightarrow> string \<Rightarrow> string list" where
  "explicit_alias_ecosystems rp raw alias =
     (case raw of
        Some (JObj m) \<Rightarrow>
          (case get m ''aliases'' of
             JObj entries \<Rightarrow> sort (dedup (concat (map (\<lambda>kv. case registry_entry rp kv of
                 None \<Rightarrow> [] | Some (e, names) \<Rightarrow> if normalize_component_name alias \<in> set names then [e] else []) entries)))
           | _ \<Rightarrow> [])
      | _ \<Rightarrow> [])"

section \<open>The ecosystem\<close>

definition row_ecosystem :: "(json \<Rightarrow> string) \<Rightarrow> advisory \<Rightarrow> string" where
  "row_ecosystem rp a = py_lower (py_strip (text_field rp a ''ecosystem''))"

definition candidate_ecosystems :: "(json \<Rightarrow> string) \<Rightarrow> advisory list \<Rightarrow> string list" where
  "candidate_ecosystems rp rows = sort (dedup (filter (\<lambda>e. e \<noteq> '''') (map (row_ecosystem rp) rows)))"

record selection =
  sl_rows :: "advisory list"
  sl_ecosystems :: "string list"
  sl_ambiguous :: bool
  sl_resolved :: string

definition select_ecosystem_rows :: "(json \<Rightarrow> string) \<Rightarrow> (string \<Rightarrow> string list) \<Rightarrow> advisory list \<Rightarrow> string \<Rightarrow> string \<Rightarrow> selection" where
  "select_ecosystem_rows rp registry candidates ecosystem_hint alias =
     (let ecosystems = candidate_ecosystems rp candidates; hint = py_lower (py_strip ecosystem_hint)
      in if hint \<noteq> '''' then \<lparr>sl_rows = filter (\<lambda>r. row_ecosystem rp r = hint) candidates, sl_ecosystems = ecosystems, sl_ambiguous = False, sl_resolved = ''''\<rparr>
         else if 1 < length ecosystems
         then (case filter (\<lambda>e. e \<in> set ecosystems) (registry alias) of
                 [resolved] \<Rightarrow> \<lparr>sl_rows = filter (\<lambda>r. row_ecosystem rp r = resolved) candidates, sl_ecosystems = ecosystems, sl_ambiguous = False, sl_resolved = resolved\<rparr>
               | _ \<Rightarrow> \<lparr>sl_rows = [], sl_ecosystems = ecosystems, sl_ambiguous = True, sl_resolved = ''''\<rparr>)
         else \<lparr>sl_rows = candidates, sl_ecosystems = ecosystems, sl_ambiguous = False, sl_resolved = ''''\<rparr>)"

section \<open>Matches\<close>

record advisory_match =
  am_id :: string
  am_cve :: string
  am_product :: string
  am_ecosystem :: string
  am_version :: string
  am_range :: string
  am_patched :: "string list"
  am_severity :: string
  am_published :: string
  am_updated :: string
  am_source_type :: string
  am_review :: string
  am_url :: string

definition matched_range :: "(json \<Rightarrow> string) \<Rightarrow> string \<Rightarrow> advisory \<Rightarrow> string" where
  "matched_range rp version a =
     (case List.find (\<lambda>e. version_matches_range version e (text_field rp a ''ecosystem'')) (map (py_str rp) (list_field a ''affected_ranges'')) of
        None \<Rightarrow> '''' | Some e \<Rightarrow> e)"

definition match_record :: "(json \<Rightarrow> string) \<Rightarrow> string \<Rightarrow> advisory \<Rightarrow> string \<Rightarrow> advisory_match" where
  "match_record rp version a r =
     \<lparr>am_id = py_upper (text_field rp a ''id''), am_cve = py_upper (text_field rp a ''cve''), am_product = text_field rp a ''product'',
      am_ecosystem = text_field rp a ''ecosystem'', am_version = version, am_range = r,
      am_patched = filter (\<lambda>s. s \<noteq> '''') (map (py_str rp) (list_field a ''patched_versions'')), am_severity = text_field rp a ''severity'',
      am_published = text_field rp a ''published_at'', am_updated = text_field rp a ''updated_at'', am_source_type = text_field rp a ''source_type'',
      am_review = text_field rp a ''review_status'', am_url = text_field rp a ''source_url''\<rparr>"

definition row_matches :: "(json \<Rightarrow> string) \<Rightarrow> string \<Rightarrow> advisory list \<Rightarrow> advisory_match list" where
  "row_matches rp version rows =
     concat (map (\<lambda>a. let r = matched_range rp version a in if r = '''' then [] else [match_record rp version a r]) rows)"

record single_result =
  sr_parsed :: "versioned option"
  sr_hint :: string
  sr_ecosystems :: "string list"
  sr_ambiguous :: bool
  sr_resolved :: string
  sr_matches :: "advisory_match list"

definition match_versioned_technology ::
    "(json \<Rightarrow> string) \<Rightarrow> (string \<Rightarrow> string list) \<Rightarrow> (string \<times> json) list \<Rightarrow> string \<Rightarrow> string \<Rightarrow> single_result" where
  "match_versioned_technology rp registry catalog technology ecosystem_hint =
     (let hint = py_lower (py_strip ecosystem_hint)
      in case parse_versioned_technology technology of
           None \<Rightarrow> \<lparr>sr_parsed = None, sr_hint = hint, sr_ecosystems = [], sr_ambiguous = False, sr_resolved = '''', sr_matches = []\<rparr>
         | Some p \<Rightarrow>
             (let s = select_ecosystem_rows rp registry (catalog_rows rp catalog (vt_name p)) ecosystem_hint (vt_name p)
              in \<lparr>sr_parsed = Some p, sr_hint = hint, sr_ecosystems = sl_ecosystems s, sr_ambiguous = sl_ambiguous s, sr_resolved = sl_resolved s,
                  sr_matches = (if sl_ambiguous s then [] else row_matches rp (vt_version p) (sl_rows s))\<rparr>))"

section \<open>Many technologies\<close>

definition first_truthy :: "(json \<Rightarrow> string) \<Rightarrow> (string \<times> json) list \<Rightarrow> string list \<Rightarrow> string" where
  "first_truthy rp m ks = (case List.find (\<lambda>k. truthy (get m k)) ks of None \<Rightarrow> '''' | Some k \<Rightarrow> py_str rp (get m k))"

definition technology_of :: "(json \<Rightarrow> string) \<Rightarrow> json \<Rightarrow> string" where
  "technology_of rp raw = py_strip (case raw of JObj m \<Rightarrow> text_field rp m ''technology'' | _ \<Rightarrow> if truthy raw then py_str rp raw else '''')"

definition hint_of :: "(json \<Rightarrow> string) \<Rightarrow> json \<Rightarrow> string" where
  "hint_of rp raw = (case raw of JObj m \<Rightarrow> py_lower (py_strip (first_truthy rp m [''ecosystem'', ''package_ecosystem'', ''dependency_ecosystem''])) | _ \<Rightarrow> '''')"

record exact_component =
  ex_parsed :: versioned
  ex_hint :: string
  ex_ecosystems :: "string list"
  ex_ambiguous :: bool
  ex_resolved :: string

record batch =
  bt_exact :: "exact_component list"
  bt_matches :: "advisory_match list"
  bt_abstentions :: "(string \<times> versioned \<times> string list) list"
  bt_resolutions :: "(string \<times> versioned \<times> string \<times> string list) list"

definition match_identity :: "advisory_match \<Rightarrow> string \<times> string \<times> string \<times> string" where
  "match_identity m = (am_id m, am_ecosystem m, am_product m, am_version m)"

fun add_matches :: "advisory_match list \<Rightarrow> advisory_match list \<Rightarrow> advisory_match list" where
  "add_matches ms [] = ms"
| "add_matches ms (m # new) = (if match_identity m \<in> match_identity ` set ms then add_matches ms new else add_matches (ms @ [m]) new)"

definition add_technology ::
    "(json \<Rightarrow> string) \<Rightarrow> (string \<Rightarrow> string list) \<Rightarrow> (string \<times> json) list \<Rightarrow> batch \<Rightarrow> json \<Rightarrow> batch" where
  "add_technology rp registry catalog b raw =
     (let technology = technology_of rp raw; hint = hint_of rp raw
      in if technology = '''' then b
         else case parse_versioned_technology technology of
           None \<Rightarrow> b
         | Some p \<Rightarrow>
             (let s = select_ecosystem_rows rp registry (catalog_rows rp catalog (vt_name p)) hint (vt_name p);
                  b1 = b\<lparr>bt_resolutions := bt_resolutions b @ (if sl_resolved s = '''' then [] else [(technology, p, sl_resolved s, sl_ecosystems s)]),
                         bt_exact := bt_exact b @ [\<lparr>ex_parsed = p, ex_hint = hint, ex_ecosystems = sl_ecosystems s, ex_ambiguous = sl_ambiguous s, ex_resolved = sl_resolved s\<rparr>]\<rparr>
              in if sl_ambiguous s then b1\<lparr>bt_abstentions := bt_abstentions b @ [(technology, p, sl_ecosystems s)]\<rparr>
                 else b1\<lparr>bt_matches := add_matches (bt_matches b) (row_matches rp (vt_version p) (sl_rows s))\<rparr>))"

definition no_technologies :: batch where
  "no_technologies = \<lparr>bt_exact = [], bt_matches = [], bt_abstentions = [], bt_resolutions = []\<rparr>"

definition match_technologies :: "(json \<Rightarrow> string) \<Rightarrow> (string \<Rightarrow> string list) \<Rightarrow> (string \<times> json) list \<Rightarrow> json list \<Rightarrow> batch" where
  "match_technologies rp registry catalog technologies = foldl (add_technology rp registry catalog) no_technologies technologies"

end
