(* ===== verification/Spec2Isabelle.thy ===== *)
theory Spec2Isabelle
  imports Version_Facts Alert_Outbox_System Finding_Outbox Successful_Snapshot Work_Queue_System Content_Store_Facts
    Audit_Chain_Facts Worker_Protocol Collection_Facts Pinned_Transport_Facts
    User_Sessions_Facts Api_Access_Facts Dashboard_Auth_Facts
    Advisory_Matching_Facts
begin

text \<open>
  A verification library for recon-monitor, a reconnaissance monitor for authorised targets (Python, the
  sources are under \<open>src/app/\<close>).  One scan of a target runs collection stages that write observations to a
  SQLite database; a run that collected cleanly becomes the target's baseline; later runs are compared with
  it, confirmed changes become alerts and findings, and two outboxes deliver them.  The library models the
  bookkeeping that decides what is compared, what is kept and what is sent.

  \<^bold>\<open>Conventions.\<close>  A table is the list of its rows in \<open>rowid\<close> order (\<open>Sql_Table\<close> has a function for each
  statement shape), a transaction one function from state to state, an exception a value, and a rolled-back
  transaction returns the state it began with.  Text has code points below 256 except where a message is
  assembled.  Times are seconds on one clock and are arguments.  SHA-256, identifiers drawn at random, float
  printing, transports and stage functions are arguments; what the code relies on of them is a named
  hypothesis of the theorem that needs it.

  \<^bold>\<open>Parts.\<close>
  \<^item> \<open>Recon_Prelude\<close>, \<open>Sql_Table\<close>, \<open>Py_Regex\<close>: Python text operations, tables, and the regular expressions the
    sources compile, with a matcher proved sound and complete for their languages.
  \<^item> \<open>Version_Order\<close>, \<open>Version_Boundaries\<close>, \<open>Version_Ranges\<close>, \<open>Version_Grammar\<close>, \<open>Version_Facts\<close>:
    \<open>dependency_version_ranges.py\<close>, which decides whether an observed version lies in an advisory's range.
  \<^item> \<open>Advisory_Matching\<close>, \<open>Advisory_Matching_Facts\<close>: \<open>dependency_advisory_matcher.py\<close>, which matches observed technologies
    with a catalogue of advisories.
  \<^item> \<open>Json_Text\<close>: \<open>json_dumps\<close> and \<open>safe_json_loads\<close> of \<open>core.py\<close>, the format of every JSON column.
  \<^item> \<open>Outbox_Base\<close>, \<open>Recon_Alert_Outbox\<close>, \<open>Alert_Outbox_System\<close>: \<open>recon_alert_outbox.py\<close>; the last theory
    is the step relation of concurrent workers and its invariants.
  \<^item> \<open>Finding_Outbox\<close>: \<open>finding_notification_outbox.py\<close>, with messages split into bounded parts.
  \<^item> \<open>Scan_Coverage\<close>: \<open>scan_coverage.py\<close>, whether a stage covered its scope.
  \<^item> \<open>Recon_Store\<close>: the tables shared by the next four theories.  \<open>Target_Lifecycle\<close> is
    \<open>run_lifecycle_state.py\<close>, \<open>Baseline_Integrity\<close> is \<open>baseline_integrity.py\<close>, \<open>Stable_Confirmation\<close> is
    \<open>stable_confirmation.py\<close> and \<open>Successful_Snapshot\<close> is \<open>successful_snapshot.py\<close>, which calls the other
    three when a run target starts and when it finishes.
  \<^item> \<open>Work_Queue\<close>, \<open>Work_Queue_System\<close>: the \<open>work_items\<close> and \<open>run_budgets\<close> statements of \<open>core.Database\<close> and
    \<open>execution.py\<close>, for local workers and for remote workers that hold leases.
  \<^item> \<open>Content_Store\<close>, \<open>Content_Store_Facts\<close>: \<open>storage.py\<close>, the content-addressed object store, its
    references, garbage collection and audit.
  \<^item> \<open>Audit_Chain\<close>, \<open>Audit_Chain_Facts\<close>: \<open>Database.audit\<close> and \<open>Database.transaction\<close> of
    \<open>core.py\<close> with the tables \<open>audit_log\<close> and \<open>audit_integrity\<close> and the mirror file, and
    \<open>verify_audit_chain\<close> of \<open>platform_v6.py\<close>.
  \<^item> \<open>Target_Policy\<close>, \<open>Worker_Scope\<close>: \<open>Config\<close>, \<open>Limits\<close>, \<open>TargetPolicy\<close> and
    \<open>PolicySet\<close> of \<open>core.py\<close>, what a target allows and which hosts are in scope, and \<open>worker_scope.py\<close>, which
    sends those rules to remote workers.
  \<^item> \<open>Worker_Artifact\<close>, \<open>Worker_Results\<close>, \<open>Remote_Worker\<close>, \<open>Remote_Worker_Facts\<close>: the worker's side of remote work,
    \<open>worker_artifacts.py\<close>, \<open>worker_results.py\<close> and the execution of a task in \<open>remote_worker.py\<close>: the envelope of a
    downloaded file, redirects, and what a reported result is worth.  A task is executed over \<open>Pinned_Transport\<close> with the
    task's own scope policy.
  \<^item> \<open>Host_Cooldown\<close>, \<open>Worker_Gateway\<close>, \<open>Worker_Gateway_Facts\<close>, \<open>Worker_Protocol\<close>: the controller's side, the four
    worker requests of \<open>api_server_core.py\<close> over the tables \<open>remote_workers\<close>, \<open>work_items\<close>, \<open>run_budgets\<close>, the object
    store and the host cooldowns of \<open>katana_reliability.py\<close>; the last theory is the step relation of all callers.
  \<^item> \<open>Py_Url\<close>, \<open>Url_Scope\<close>: the functions of \<open>urllib.parse\<close> that the sources use (splitting, joining, resolving,
    quoting and query strings), and on them the URL normal forms and \<open>url_in_scope\<close> of \<open>core.py\<close> and \<open>worker_scope.py\<close>.
  \<^item> \<open>Pinned_Transport\<close>, \<open>Pinned_Transport_Facts\<close>: \<open>safe_transport.py\<close>, requests to addresses that were checked
    before, with the redirect loop of downloads.  The network is an argument that may answer anything.
  \<^item> \<open>Dashboard_Auth\<close>, \<open>Dashboard_Auth_Facts\<close>: \<open>dashboard_auth.py\<close>, the password kept in the configuration file.
  \<^item> \<open>User_Sessions\<close>, \<open>User_Sessions_Facts\<close>: \<open>session_auth.py\<close> and the login and checks of \<open>dashboard_core.py\<close>; the facts
    are about histories, the timed lists of the calls that led to a state.
  \<^item> \<open>Api_Access\<close>, \<open>Api_Access_Facts\<close>: the tokens, roles and scopes of \<open>api_server_core.py\<close>, again over histories.
  \<^item> \<open>Collection_Selection\<close>, \<open>Collection_Facts\<close>: the parts of \<open>stages.py\<close> that choose which JavaScript files
    and crawl candidates a stage requests and how many requests the external crawler may make.

  \<^bold>\<open>Interfaces.\<close>  The two outboxes and the work queue are providers of one contract, the locale
  \<open>lease_table\<close> of \<open>Outbox_Base\<close>: a row has at most one holder, a claim takes only free or lapsed rows, and
  settling is possible for the holder alone.  Each component interprets it on its own statements.  The locales
  \<open>comparison_law\<close> and \<open>keyed_comparison\<close> of \<open>Version_Order\<close> are the laws of a three-way comparison; release
  numbers and semantic versions are their two models, and the ranges rely on them only.

  \<^bold>\<open>What is shown.\<close>  For the run life cycle: what a finished run commits is exactly what the next run starts
  from, and a run whose collection was incomplete leaves the reference as it was; a change is confirmed exactly when the abstract
  streak of equal observations in successful runs that are not quarantined is long enough.  For the outboxes and the work queue, over every interleaving of their
  transactions: no two holders, no two unresolved deliveries of one alert, attempts within their limit, nothing after
  delivery, budgets never overspent, finished work not repeated.  For versions: the comparison is a total order, matching
  fails closed and agrees with a reference semantics on the supported grammar; reported advisory matches are exactly the justified ones.  For the store: referenced content is
  served and a deletion frees exactly unreferenced objects.  For the audit log: what is written verifies, and tampering
  changes the head hash.  For policies: accepted policies have their limits in range and decide every host, and a remote
  worker never admits a host the local rules refuse.  For remote work: a claim hands out the first ready
  item, every request a worker sends is allowed by the policy of its task, an honest download is accepted and the accepted file is served
  later, a lease has one accepted answer, a refused request changes nothing; every step of the protocol is a step of the
  work queue, whose guarantees carry over.  For URLs: splitting undoes joining, decoding undoes quoting, and the scope of a URL is
  the scope of the host it names.  For downloads: each request goes to a public address found for a host in scope, a redirect chain
  is bounded, never leaves HTTPS and takes no credential to another origin.  For users: an accepted session or API request goes back
  to a login or a token that nothing (a logout included) has revoked since, wrong passwords are checked at a bounded rate when the checks do not overlap, and
  a configured password is the one that is asked for, under two conditions on the file and the user name.  For collection: selection ends, is fair to hosts and files
  not yet attempted, and the crawler stays within its reservation.

  \<^bold>\<open>Loops.\<close>  Loops over collections are structural recursion.  The round-robin loop \<open>rounds\<close> and the loops
  \<open>lower_to_fit\<close> may in principle not end; they are partial functions and shown to return.  The paged loop of a claim has as
  fuel the number of rows and one more; each page passes at least one row, and \<open>claim_pages_find\<close> shows that it returns.  The JSON reader has as fuel the length
  of its text, which is enough because every nested call consumes a character: \<open>loads_dumps\<close> is shown without a
  bound on the value.

  \<^bold>\<open>Not modelled.\<close>  Input and output around these parts: the command line, stage drivers that run external tools, the HTTP
  protocol below the pinned transport, the pages of the dashboard and the other API handlers, notification transports, key stores, and the polling loop and HTTP client of
  the remote worker.  The
  analysers of bug families and calibration statistics are tables of heuristics with no independent specification.  Evidence
  planning and the operation of notification workers are not modelled.  Threads appear as
  interleavings of transactions, which the database serialises; the writer thread that queues them is not modelled.
\<close>

end
